(* ===== verification/Prelude.thy ===== *)
theory Prelude
  imports Main "HOL-Library.Word"
begin

text \<open>
  Shared vocabulary of the development: the C integer types as words of their width, the run of a
  step function over a list of events, the interfaces that several components share (a machine with
  an invariant and a bounded output, a machine whose emitted actions track a state flag, a bounded
  queue kept in a ring), and the generic lemmas the component theories use.
\<close>

unbundle bit_operations_syntax

section \<open>C integer types\<close>

type_synonym u8 = "8 word"
type_synonym u16 = "16 word"
type_synonym u32 = "32 word"
type_synonym u64 = "64 word"

named_theorems invariant_simps \<open>definitions of the component invariants\<close>
named_theorems table_defs \<open>generated constant tables\<close>

section \<open>Running a step function over a sequence of events\<close>

primrec run :: "('s \<Rightarrow> 'e \<Rightarrow> 's \<times> 'a list) \<Rightarrow> 's \<Rightarrow> 'e list \<Rightarrow> 's \<times> 'a list" where
  "run f s [] = (s, [])"
| "run f s (e # es) =
     (let (s', as) = f s e; (s'', bs) = run f s' es in (s'', as @ bs))"

lemma fst_run_Cons [simp]: "fst (run f s (e # es)) = fst (run f (fst (f s e)) es)"
  by (simp add: split_beta Let_def)

lemma snd_run_Cons [simp]: "snd (run f s (e # es)) = snd (f s e) @ snd (run f (fst (f s e)) es)"
  by (simp add: split_beta Let_def)

declare run.simps(2) [simp del]

lemma run_append:
  "fst (run f s (es @ fs)) = fst (run f (fst (run f s es)) fs)"
  "snd (run f s (es @ fs)) = snd (run f s es) @ snd (run f (fst (run f s es)) fs)"
  by (induction es arbitrary: s) simp_all

section \<open>Machines with an invariant\<close>

locale machine =
  fixes step :: "'s \<Rightarrow> 'e \<Rightarrow> 's \<times> 'a list"
    and init :: 's
    and inv :: "'s \<Rightarrow> bool"
  assumes inv_init: "inv init"
    and inv_step: "inv s \<Longrightarrow> inv (fst (step s e))"
begin

lemma inv_run_from: "inv s \<Longrightarrow> inv (fst (run step s es))"
  by (induction es arbitrary: s) (simp_all add: inv_step)

lemma inv_run: "inv (fst (run step init es))"
  by (rule inv_run_from) (rule inv_init)

lemma out_run_from: "(\<And>s e. inv s \<Longrightarrow> list_all P (snd (step s e))) \<Longrightarrow> inv s \<Longrightarrow> list_all P (snd (run step s es))"
  by (induction es arbitrary: s) (simp_all add: inv_step)

lemma out_run: "(\<And>s e. inv s \<Longrightarrow> list_all P (snd (step s e))) \<Longrightarrow> list_all P (snd (run step init es))"
  by (rule out_run_from) (auto intro: inv_init)

text \<open>
  A condition on the state that only an event of kind \<open>P\<close> can establish and that survives only events
  of kind \<open>Q\<close> was established by one event of the history and survived all later ones.
\<close>

lemma since_run:
  assumes "K (fst (run step init es))" and "\<not> K init"
    and "\<And>s e. inv s \<Longrightarrow> K (fst (step s e)) \<Longrightarrow> P e \<or> K s \<and> Q e"
  shows "\<exists>pre e suf. es = pre @ e # suf \<and> P e \<and> (\<forall>x\<in>set suf. Q x)"
  using assms(1)
proof (induction es rule: rev_induct)
  case Nil
  then show ?case using assms(2) by simp
next
  case (snoc e es)
  let ?s = "fst (run step init es)"
  from snoc.prems have "K (fst (step ?s e))" by (simp add: run_append)
  from assms(3) [OF inv_run this] show ?case
  proof
    assume "P e"
    then have "es @ [e] = es @ e # [] \<and> P e \<and> (\<forall>x\<in>set []. Q x)" by simp
    then show ?thesis by blast
  next
    assume h: "K ?s \<and> Q e"
    with snoc.IH obtain pre f suf where f: "es = pre @ f # suf \<and> P f \<and> (\<forall>x\<in>set suf. Q x)" by blast
    with h have "es @ [e] = pre @ f # (suf @ [e]) \<and> P f \<and> (\<forall>x\<in>set (suf @ [e]). Q x)" by auto
    then show ?thesis by blast
  qed
qed

end

text \<open>A machine that writes at most \<open>cap\<close> actions per event into its caller's buffer.\<close>

locale bounded_machine = machine +
  fixes cap :: nat
  assumes out_bound: "inv s \<Longrightarrow> length (snd (step s e)) \<le> cap"
begin

lemma out_bound_run_from: "inv s \<Longrightarrow> length (snd (run step s es)) \<le> cap * length es"
proof (induction es arbitrary: s)
  case Nil
  then show ?case by simp
next
  case (Cons e es)
  have "length (snd (run step (fst (step s e)) es)) \<le> cap * length es"
    using Cons by (simp add: inv_step)
  with out_bound [OF Cons.prems, of e] show ?case by simp
qed

lemma out_bound_run: "length (snd (run step init es)) \<le> cap * length es"
  by (rule out_bound_run_from) (rule inv_init)

end

text \<open>
  A machine whose actions, interpreted by its driver as updates of a view, always leave the view
  equal to what the machine believes: the belief is a function \<open>obs\<close> of its state.
\<close>

locale tracked_machine = machine +
  fixes upd :: "'v \<Rightarrow> 'a \<Rightarrow> 'v"
    and obs :: "'s \<Rightarrow> 'v"
  assumes track_step: "inv s \<Longrightarrow> foldl upd (obs s) (snd (step s e)) = obs (fst (step s e))"
begin

lemma track_run_from: "inv s \<Longrightarrow> foldl upd (obs s) (snd (run step s es)) = obs (fst (run step s es))"
  by (induction es arbitrary: s) (simp_all add: track_step inv_step)

lemma track_run: "foldl upd (obs init) (snd (run step init es)) = obs (fst (run step init es))"
  by (rule track_run_from) (rule inv_init)

end

text \<open>
  A machine that pays for some of its actions out of a potential: every event brings a credit, and what
  the actions of a step cost plus the potential left is covered by the potential before plus the credit.
\<close>

locale budget_machine = machine +
  fixes cost :: "'a \<Rightarrow> nat"
    and potential :: "'s \<Rightarrow> nat"
    and credit :: "'e \<Rightarrow> nat"
  assumes pay_step: "inv s \<Longrightarrow>
    sum_list (map cost (snd (step s e))) + potential (fst (step s e)) \<le> potential s + credit e"
begin

lemma pay_run_from: "inv s \<Longrightarrow>
  sum_list (map cost (snd (run step s es))) + potential (fst (run step s es)) \<le>
  potential s + sum_list (map credit es)"
proof (induction es arbitrary: s)
  case Nil
  then show ?case by simp
next
  case (Cons e es)
  from Cons.IH [OF inv_step [OF Cons.prems], of e] pay_step [OF Cons.prems, of e]
  show ?case by simp
qed

lemma pay_run: "sum_list (map cost (snd (run step init es))) \<le> potential init + sum_list (map credit es)"
  using pay_run_from [OF inv_init, of es] by simp

end

lemma sum_list_indicator: "sum_list (map (\<lambda>x. if P x then k else 0) xs) = k * length (filter P xs)"
  by (induction xs) simp_all

section \<open>Rings\<close>

text \<open>The \<open>n\<close> entries of a ring buffer from index \<open>h\<close> on, oldest first.\<close>

definition ring_items :: "'a list \<Rightarrow> nat \<Rightarrow> nat \<Rightarrow> 'a list" where
  "ring_items buf h n = map (\<lambda>i. buf ! ((h + i) mod length buf)) [0..<n]"

lemma length_ring_items [simp]: "length (ring_items buf h n) = n"
  by (simp add: ring_items_def)

lemma ring_items_zero [simp]: "ring_items buf h 0 = []"
  by (simp add: ring_items_def)

lemma ring_items_nth: "i < n \<Longrightarrow> ring_items buf h n ! i = buf ! ((h + i) mod length buf)"
  by (simp add: ring_items_def)

lemma ring_items_pop:
  "ring_items buf (Suc h mod length buf) (n - Suc 0) = tl (ring_items buf h n)"
  by (rule nth_equalityI) (simp_all add: ring_items_nth nth_tl mod_simps)

lemma ring_slots_distinct: "i < n \<Longrightarrow> n < (L :: nat) \<Longrightarrow> (h + i) mod L \<noteq> (h + n) mod L"
proof
  assume "i < n" "n < L" "(h + i) mod L = (h + n) mod L"
  then have "L dvd n - i" using mod_eq_dvd_iff_nat [of "h + i" "h + n" L] by simp
  with \<open>i < n\<close> \<open>n < L\<close> show False by (auto dest: dvd_imp_le)
qed

lemma ring_items_push:
  assumes "n < length buf"
  shows "ring_items (buf[(h + n) mod length buf := x]) h (Suc n) = ring_items buf h n @ [x]"
proof (rule nth_equalityI)
  fix i
  assume "i < length (ring_items (buf[(h + n) mod length buf := x]) h (Suc n))"
  then have "i \<le> n" by simp
  moreover have "(h + n) mod length buf < length buf" using assms by (intro mod_less_divisor) auto
  moreover have "i < n \<Longrightarrow> (h + n) mod length buf \<noteq> (h + i) mod length buf"
    using ring_slots_distinct [of i n "length buf" h] assms by auto
  ultimately show "ring_items (buf[(h + n) mod length buf := x]) h (Suc n) ! i = (ring_items buf h n @ [x]) ! i"
    by (cases "i < n") (auto simp: ring_items_nth nth_append)
qed simp

text \<open>
  A bounded queue as its clients see it: the contents, the removal of the oldest entry and the addition of
  an entry while there is room.
\<close>

locale bounded_queue =
  fixes ok :: "'q \<Rightarrow> bool"
    and items :: "'q \<Rightarrow> 'a list"
    and pop :: "'q \<Rightarrow> 'q"
    and push :: "'q \<Rightarrow> 'a \<Rightarrow> 'q"
    and cap :: nat
  assumes ok_pop: "ok q \<Longrightarrow> items q \<noteq> [] \<Longrightarrow> ok (pop q)"
    and items_pop: "ok q \<Longrightarrow> items q \<noteq> [] \<Longrightarrow> items (pop q) = tl (items q)"
    and ok_push: "ok q \<Longrightarrow> length (items q) < cap \<Longrightarrow> ok (push q x)"
    and items_push: "ok q \<Longrightarrow> length (items q) < cap \<Longrightarrow> items (push q x) = items q @ [x]"
    and items_bound: "ok q \<Longrightarrow> length (items q) \<le> cap"
    and cap_pos: "0 < cap"
begin

text \<open>Adding with the oldest entry dropped when the queue is full.\<close>

lemma push_evict:
  assumes "ok q"
  shows "ok (push (if length (items q) = cap then pop q else q) x) \<and>
    items (push (if length (items q) = cap then pop q else q) x) =
      (if length (items q) = cap then tl (items q) else items q) @ [x]"
proof (cases "length (items q) = cap")
  case True
  then have ne: "items q \<noteq> []" using cap_pos by auto
  then have "length (items (pop q)) < cap" using True cap_pos by (simp add: items_pop assms)
  then show ?thesis using True ne by (simp add: items_push ok_push ok_pop items_pop assms)
next
  case False
  then have "length (items q) < cap" using items_bound [OF assms] by simp
  then show ?thesis using False by (simp add: items_push ok_push assms)
qed

text \<open>A loop that removes the oldest entries while they satisfy \<open>P\<close>.\<close>

lemma expire_loop:
  assumes "\<And>q. ok q \<Longrightarrow> loop q = (if items q \<noteq> [] \<and> P (hd (items q)) then loop (pop q) else q)"
  shows "ok q \<Longrightarrow> ok (loop q) \<and> items (loop q) = dropWhile P (items q)"
proof (induction "length (items q)" arbitrary: q)
  case 0
  then show ?case using assms [of q] by simp
next
  case (Suc n)
  then have ne: "items q \<noteq> []" by auto
  then have "n = length (items (pop q))" using Suc by (simp add: items_pop)
  from Suc(1) [OF this ok_pop [OF Suc.prems ne]]
  show ?case using ne assms [OF Suc.prems] Suc.prems by (cases "items q") (auto simp: items_pop)
qed

end

section \<open>Words and their bits\<close>

lemma bit_imp_exp_le_unat: "bit (v :: 'a::len word) j \<Longrightarrow> 2 ^ j \<le> unat v"
proof -
  assume "bit v j"
  then have "bit (unat v) j" by (simp add: bit_unsigned_iff)
  then have "0 < unat v div 2 ^ j" by (auto simp: bit_iff_odd intro: Nat.gr0I)
  then show ?thesis by (simp add: div_greater_zero_iff)
qed

lemma unat_less_exp_bits: "(\<And>j. bit (v :: 'a::len word) j \<Longrightarrow> j < n) \<Longrightarrow> unat v < 2 ^ n"
proof -
  assume h: "\<And>j. bit v j \<Longrightarrow> j < n"
  have "take_bit n v = v" by (rule bit_eqI) (use h in \<open>auto simp: bit_take_bit_iff\<close>)
  then have "unat v = take_bit n (unat v)" by (metis unsigned_take_bit_eq)
  then show ?thesis by (metis take_bit_nat_less_exp)
qed

lemma unat_mask_eq: "n \<le> LENGTH('a) \<Longrightarrow> unat (mask n :: 'a::len word) = mask n"
  by (rule bit_eqI) (auto simp: bit_unsigned_iff bit_mask_iff possible_bit_def)

lemma unat_exp_minus_one: "n < LENGTH('a) \<Longrightarrow> unat (2 ^ n - 1 :: 'a::len word) = 2 ^ n - 1"
  using unat_mask_eq [of n, where 'a = 'a] by (simp add: mask_eq_exp_minus_1)

end
