(* ===== verification/Codec.thy ===== *)
theory Codec
  imports Prelude
begin

text \<open>
  The frame codec of \<^verbatim>\<open>csrc/codec.c\<close> over the generated field tables of
  \<^verbatim>\<open>csrc/codec_dict.h\<close>: MSB-first bit extraction and placement, decoding of a state frame into
  name/value pairs, and encoding of a control frame with the validation order of the C code. The
  lemmas describe both directions bit by bit, give the exact success condition of the encoder and the
  round trip through it.
\<close>

unbundle bit_operations_syntax

section \<open>Tables\<close>

definition CODEC_F_HAS_DEFAULT :: u8 where "CODEC_F_HAS_DEFAULT = 0x01"
definition CODEC_F_HAS_VALID :: u8 where "CODEC_F_HAS_VALID = 0x02"

record codec_field =
  fl_name :: string
  fl_offset :: nat
  fl_width :: nat
  fl_flags :: u8
  fl_def :: u32
  fl_valid_mask :: u32

record codec_func =
  fn_name :: string
  frame_bytes :: nat
  state_fields :: "codec_field list"
  n_state :: nat
  ctrl_fields :: "codec_field list"
  n_ctrl :: nat

definition fld :: "string \<Rightarrow> nat \<Rightarrow> nat \<Rightarrow> u8 \<Rightarrow> u32 \<Rightarrow> u32 \<Rightarrow> codec_field" where
  "fld nm off w fl d m = \<lparr>fl_name = nm, fl_offset = off, fl_width = w, fl_flags = fl,
     fl_def = d, fl_valid_mask = m\<rparr>"

definition AIRHEATER_STATE :: "codec_field list" where
  "AIRHEATER_STATE = [
     fld ''AirDistribution'' 0 2 0 0 0,
     fld ''Installed'' 3 1 0 0 0,
     fld ''FaultTriggerBit'' 4 1 0 0 0,
     fld ''PermanentOperation'' 5 1 0 0 0,
     fld ''NormalOperation'' 6 1 0 0 0,
     fld ''PermanentOperationRequestConfirmation'' 7 1 0 0 0,
     fld ''HeatingLevel'' 8 4 0 0 0,
     fld ''ErrorCode'' 12 4 0 0 0,
     fld ''OperationModeCombined'' 16 4 0 0 0,
     fld ''OperationModeAirHeater'' 20 4 0 0 0,
     fld ''RunningTime'' 24 8 0 0 0,
     fld ''TimerHour'' 32 8 0 0 0,
     fld ''TimerMin'' 40 8 0 0 0,
     fld ''RunningTimeinAction'' 48 8 0 0 0]"

definition AIRHEATER_CTRL :: "codec_field list" where
  "AIRHEATER_CTRL = [
     fld ''NormalOperationRequest'' 6 2 CODEC_F_HAS_DEFAULT 3 0,
     fld ''PermanentOperationConfirmation'' 4 2 CODEC_F_HAS_DEFAULT 3 0,
     fld ''PermanentOperationRequest'' 2 2 CODEC_F_HAS_DEFAULT 3 0,
     fld ''AirDistribution'' 0 2 CODEC_F_HAS_DEFAULT 0 0,
     fld ''HeatingLevel'' 12 4 (CODEC_F_HAS_DEFAULT OR CODEC_F_HAS_VALID) 11 0xffe,
     fld ''OperationModeAirHeater'' 8 4 CODEC_F_HAS_DEFAULT 7 0,
     fld ''OperationModeCombined'' 20 4 CODEC_F_HAS_DEFAULT 0 0,
     fld ''RunningTime'' 24 8 CODEC_F_HAS_DEFAULT 127 0,
     fld ''TimerHour'' 32 8 CODEC_F_HAS_DEFAULT 31 0,
     fld ''TimerMin'' 40 8 CODEC_F_HAS_DEFAULT 63 0]"

definition CAMPINGMODE_STATE :: "codec_field list" where
  "CAMPINGMODE_STATE = [
     fld ''Installed'' 2 1 0 0 0,
     fld ''Enable'' 3 1 0 0 0,
     fld ''InteriorLight'' 4 1 0 0 0,
     fld ''OutsideLight'' 5 1 0 0 0,
     fld ''UsbCharger'' 6 1 0 0 0,
     fld ''State'' 7 1 0 0 0]"

definition CAMPINGMODE_CTRL :: "codec_field list" where
  "CAMPINGMODE_CTRL = [
     fld ''State'' 6 2 CODEC_F_HAS_DEFAULT 3 0,
     fld ''UsbCharger'' 4 2 CODEC_F_HAS_DEFAULT 3 0,
     fld ''OutsideLight'' 2 2 CODEC_F_HAS_DEFAULT 3 0,
     fld ''InteriorLight'' 0 2 CODEC_F_HAS_DEFAULT 3 0]"

definition COOLER_STATE :: "codec_field list" where
  "COOLER_STATE = [
     fld ''Error'' 0 2 0 0 0,
     fld ''NightTimerSet'' 3 1 0 0 0,
     fld ''Installed'' 4 1 0 0 0,
     fld ''TimerElapsed'' 5 1 0 0 0,
     fld ''TimerState'' 6 1 0 0 0,
     fld ''State'' 7 1 0 0 0,
     fld ''Mode'' 8 4 0 0 0,
     fld ''Level'' 12 4 0 0 0,
     fld ''TimerHourSet'' 16 8 0 0 0,
     fld ''TimerMinSet'' 24 8 0 0 0,
     fld ''TimerCounterHour'' 32 8 0 0 0,
     fld ''TimerCounterMin'' 40 8 0 0 0,
     fld ''NightTimerHourOn'' 48 8 0 0 0,
     fld ''NightTimerHourOff'' 56 8 0 0 0]"

definition COOLER_CTRL :: "codec_field list" where
  "COOLER_CTRL = [
     fld ''State'' 6 2 (CODEC_F_HAS_DEFAULT OR CODEC_F_HAS_VALID) 3 0xb,
     fld ''TimerStart'' 4 2 CODEC_F_HAS_DEFAULT 3 0,
     fld ''TimerCancel'' 2 2 CODEC_F_HAS_DEFAULT 3 0,
     fld ''NightTimerSet'' 0 2 CODEC_F_HAS_DEFAULT 3 0,
     fld ''Level'' 12 4 CODEC_F_HAS_DEFAULT 7 0,
     fld ''Mode'' 8 4 CODEC_F_HAS_DEFAULT 7 0,
     fld ''TimerHour'' 16 8 CODEC_F_HAS_DEFAULT 30 0,
     fld ''TimerMin'' 24 8 CODEC_F_HAS_DEFAULT 62 0,
     fld ''NightTimerHourOn'' 32 8 CODEC_F_HAS_DEFAULT 31 0,
     fld ''NightTimerHourOff'' 40 8 CODEC_F_HAS_DEFAULT 31 0]"

definition ENERGY_STATE :: "codec_field list" where
  "ENERGY_STATE = [
     fld ''LandNotAvailable'' 0 1 0 0 0,
     fld ''LandDefect'' 1 1 0 0 0,
     fld ''EnergyModeNotSelectable'' 2 1 0 0 0,
     fld ''DcdcDefect'' 3 1 0 0 0,
     fld ''WarningLevelActive'' 4 1 0 0 0,
     fld ''TwoBattSwitchAtWorkshop'' 5 1 0 0 0,
     fld ''TwoBattSwitchAtCharging'' 6 1 0 0 0,
     fld ''TwoBattNotCharged'' 7 1 0 0 0,
     fld ''DcdcInstalled'' 8 1 0 0 0,
     fld ''LadInstalled'' 9 1 0 0 0,
     fld ''PvInstalled'' 10 1 0 0 0,
     fld ''EmpInstalled'' 11 1 0 0 0,
     fld ''SystemError'' 12 1 0 0 0,
     fld ''CurrentDeratingTemperature'' 13 1 0 0 0,
     fld ''SleepWarning'' 14 1 0 0 0,
     fld ''PvDefect'' 15 1 0 0 0,
     fld ''SocOneBattAfs'' 16 4 0 0 0,
     fld ''EnergyMode'' 20 2 0 0 0,
     fld ''WarningLevelTwo'' 22 2 0 0 0,
     fld ''StateDcdcAfs'' 24 4 0 0 0,
     fld ''SocTwoBattAfs'' 28 4 0 0 0,
     fld ''StatePvAfs'' 32 4 0 0 0,
     fld ''StateLandAfs'' 36 4 0 0 0,
     fld ''AgeOneBattValuesMinutes'' 40 8 0 0 0,
     fld ''IOneBattBemAfs'' 48 8 0 0 0,
     fld ''PDcdcAfs'' 56 8 0 0 0,
     fld ''PLandAfs'' 64 8 0 0 0,
     fld ''PPvAfs'' 72 8 0 0 0,
     fld ''tTwoBattRemainingh'' 80 8 0 0 0,
     fld ''tTwoBattRemainingmin'' 88 8 0 0 0,
     fld ''UOneBattBemAfs'' 96 8 0 0 0,
     fld ''UTwoBattBemAfs'' 104 8 0 0 0,
     fld ''ITwoBattBemAfs'' 112 16 0 0 0,
     fld ''IDcdcAfs'' 128 16 0 0 0,
     fld ''ILandAfs'' 144 16 0 0 0,
     fld ''IPvAfs'' 160 16 0 0 0]"

definition ENERGY_CTRL :: "codec_field list" where
  "ENERGY_CTRL = [
     fld ''EnergyModeSet'' 2 2 CODEC_F_HAS_DEFAULT 3 0,
     fld ''DisplayRefresh'' 7 1 CODEC_F_HAS_DEFAULT 0 0]"

definition GENERAL_STATE :: "codec_field list" where
  "GENERAL_STATE = [
     fld ''AmbSwVersion'' 0 32 0 0 0,
     fld ''CmSwVersion'' 32 32 0 0 0,
     fld ''CommunicationVersion'' 64 8 0 0 0]"

definition GENERALPURPOSESIGNALS_STATE :: "codec_field list" where
  "GENERALPURPOSESIGNALS_STATE = [
     fld ''BitZeroEight'' 0 1 0 0 0,
     fld ''BitZeroSeven'' 1 1 0 0 0,
     fld ''BitZeroSix'' 2 1 0 0 0,
     fld ''BitZeroFive'' 3 1 0 0 0,
     fld ''BitZeroFour'' 4 1 0 0 0,
     fld ''BitZeroThree'' 5 1 0 0 0,
     fld ''BitZeroTwo'' 6 1 0 0 0,
     fld ''BitZeroOne'' 7 1 0 0 0,
     fld ''ByteZeroOne'' 8 8 0 0 0,
     fld ''ByteZeroTwo'' 16 8 0 0 0,
     fld ''ByteZeroThree'' 24 8 0 0 0,
     fld ''ByteZeroFour'' 32 8 0 0 0,
     fld ''ByteZeroFive'' 40 8 0 0 0,
     fld ''ByteZeroSix'' 48 8 0 0 0,
     fld ''ByteZeroSeven'' 56 8 0 0 0,
     fld ''ByteZeroEight'' 64 8 0 0 0,
     fld ''WordZeroOne'' 72 16 0 0 0,
     fld ''WordZeroTwo'' 88 16 0 0 0,
     fld ''WordZeroThree'' 104 16 0 0 0,
     fld ''WordZeroFour'' 120 16 0 0 0,
     fld ''DwordZeroOne'' 136 32 0 0 0]"

definition LIGHTING_STATE :: "codec_field list" where
  "LIGHTING_STATE = [
     fld ''ProfileNumber'' 4 4 0 0 0,
     fld ''Mode'' 8 8 0 0 0,
     fld ''Timestamp'' 16 32 0 0 0,
     fld ''LightValue'' 48 16 0 0 0,
     fld ''BrightnessLTwo'' 64 4 0 0 0,
     fld ''BrightnessLOne'' 68 4 0 0 0,
     fld ''BrightnessLFour'' 72 4 0 0 0,
     fld ''BrightnessLThree'' 76 4 0 0 0,
     fld ''BrightnessLSix'' 80 4 0 0 0,
     fld ''BrightnessLFive'' 84 4 0 0 0,
     fld ''BrightnessLEight'' 88 4 0 0 0,
     fld ''BrightnessLSeven'' 92 4 0 0 0,
     fld ''BrightnessLOneZero'' 96 4 0 0 0,
     fld ''BrightnessLNine'' 100 4 0 0 0,
     fld ''BrightnessLOneTwo'' 104 4 0 0 0,
     fld ''BrightnessLOneOne'' 108 4 0 0 0,
     fld ''BrightnessLOneFour'' 112 4 0 0 0,
     fld ''BrightnessLOneThree'' 116 4 0 0 0,
     fld ''BrightnessLOneSix'' 120 4 0 0 0,
     fld ''BrightnessLOneFive'' 124 4 0 0 0]"

definition LIGHTING_CTRL :: "codec_field list" where
  "LIGHTING_CTRL = [
     fld ''ProfileNumber'' 4 4 CODEC_F_HAS_DEFAULT 14 0,
     fld ''Mode'' 8 8 (CODEC_F_HAS_DEFAULT OR CODEC_F_HAS_VALID) 0 0x11111151,
     fld ''Timestamp'' 16 32 CODEC_F_HAS_DEFAULT 0 0,
     fld ''LightValue'' 48 16 CODEC_F_HAS_DEFAULT 0 0,
     fld ''BrightnessLOne'' 68 4 CODEC_F_HAS_DEFAULT 14 0,
     fld ''BrightnessLTwo'' 64 4 CODEC_F_HAS_DEFAULT 14 0,
     fld ''BrightnessLThree'' 76 4 CODEC_F_HAS_DEFAULT 14 0,
     fld ''BrightnessLFour'' 72 4 CODEC_F_HAS_DEFAULT 14 0,
     fld ''BrightnessLFive'' 84 4 CODEC_F_HAS_DEFAULT 14 0,
     fld ''BrightnessLSix'' 80 4 CODEC_F_HAS_DEFAULT 14 0,
     fld ''BrightnessLSeven'' 92 4 CODEC_F_HAS_DEFAULT 14 0,
     fld ''BrightnessLEight'' 88 4 CODEC_F_HAS_DEFAULT 14 0,
     fld ''BrightnessLNine'' 100 4 CODEC_F_HAS_DEFAULT 14 0,
     fld ''BrightnessLOneZero'' 96 4 CODEC_F_HAS_DEFAULT 14 0,
     fld ''BrightnessLOneOne'' 108 4 CODEC_F_HAS_DEFAULT 14 0,
     fld ''BrightnessLOneTwo'' 104 4 CODEC_F_HAS_DEFAULT 14 0,
     fld ''BrightnessLOneThree'' 116 4 CODEC_F_HAS_DEFAULT 14 0,
     fld ''BrightnessLOneFour'' 112 4 CODEC_F_HAS_DEFAULT 14 0,
     fld ''BrightnessLOneFive'' 124 4 CODEC_F_HAS_DEFAULT 14 0,
     fld ''BrightnessLOneSix'' 120 4 CODEC_F_HAS_DEFAULT 14 0]"

definition LIVINGROOMHEATER_STATE :: "codec_field list" where
  "LIVINGROOMHEATER_STATE = [
     fld ''Variant'' 0 2 0 0 0,
     fld ''Installed'' 4 1 0 0 0,
     fld ''TemperatureWater'' 5 1 0 0 0,
     fld ''StateWater'' 6 1 0 0 0,
     fld ''StateAir'' 7 1 0 0 0,
     fld ''Error'' 8 4 0 0 0,
     fld ''Mode'' 12 4 0 0 0,
     fld ''TemperatureAir'' 16 8 0 0 0]"

definition LIVINGROOMHEATER_CTRL :: "codec_field list" where
  "LIVINGROOMHEATER_CTRL = [
     fld ''StateAir'' 6 2 CODEC_F_HAS_DEFAULT 3 0,
     fld ''StateWater'' 4 2 CODEC_F_HAS_DEFAULT 3 0,
     fld ''TemperatureWater'' 2 2 CODEC_F_HAS_DEFAULT 3 0,
     fld ''Mode'' 12 4 CODEC_F_HAS_DEFAULT 5 0,
     fld ''TemperatureAir'' 16 8 CODEC_F_HAS_DEFAULT 0 0]"

definition ROOF_STATE :: "codec_field list" where
  "ROOF_STATE = [
     fld ''Position'' 0 4 0 0 0,
     fld ''Installed'' 6 1 0 0 0,
     fld ''SafetyCounterValid'' 7 1 0 0 0,
     fld ''InfoPopUp'' 12 4 0 0 0]"

definition ROOF_CTRL :: "codec_field list" where
  "ROOF_CTRL = [
     fld ''Up'' 6 2 CODEC_F_HAS_DEFAULT 3 0,
     fld ''Down'' 4 2 CODEC_F_HAS_DEFAULT 3 0,
     fld ''SafetyCounter'' 8 32 CODEC_F_HAS_DEFAULT 0 0]"

definition ROOFAIRCONDITION_STATE :: "codec_field list" where
  "ROOFAIRCONDITION_STATE = [
     fld ''Error'' 0 2 0 0 0,
     fld ''Mode'' 2 2 0 0 0,
     fld ''Installed'' 6 1 0 0 0,
     fld ''State'' 7 1 0 0 0,
     fld ''Fanspeed'' 12 4 0 0 0,
     fld ''Temperature'' 16 8 0 0 0]"

definition ROOFAIRCONDITION_CTRL :: "codec_field list" where
  "ROOFAIRCONDITION_CTRL = [
     fld ''State'' 6 2 CODEC_F_HAS_DEFAULT 3 0,
     fld ''FanSpeed'' 12 4 CODEC_F_HAS_DEFAULT 7 0,
     fld ''Mode'' 8 4 CODEC_F_HAS_DEFAULT 7 0,
     fld ''Temperature'' 16 8 CODEC_F_HAS_DEFAULT 0 0]"

definition SATELLITEANTENNA_STATE :: "codec_field list" where
  "SATELLITEANTENNA_STATE = [
     fld ''Error'' 0 4 0 0 0,
     fld ''System'' 4 2 0 0 0,
     fld ''Installed'' 7 1 0 0 0,
     fld ''SatelliteSelection'' 8 4 0 0 0,
     fld ''Dish'' 12 4 0 0 0,
     fld ''SignalLevel'' 16 8 0 0 0]"

definition SATELLITEANTENNA_CTRL :: "codec_field list" where
  "SATELLITEANTENNA_CTRL = [
     fld ''DishStop'' 7 1 0 0 0,
     fld ''Wlan'' 6 1 0 0 0,
     fld ''System'' 2 2 CODEC_F_HAS_DEFAULT 3 0,
     fld ''Dish'' 0 2 CODEC_F_HAS_DEFAULT 0 0,
     fld ''SatelliteSelection'' 12 4 CODEC_F_HAS_DEFAULT 0 0]"

definition STAIRS_STATE :: "codec_field list" where
  "STAIRS_STATE = [
     fld ''InfoPopUp'' 2 2 0 0 0,
     fld ''Sensor'' 4 1 0 0 0,
     fld ''State'' 5 1 0 0 0,
     fld ''OperationMode'' 6 1 0 0 0,
     fld ''Installed'' 7 1 0 0 0]"

definition STAIRS_CTRL :: "codec_field list" where
  "STAIRS_CTRL = [
     fld ''OperationMode'' 6 2 CODEC_F_HAS_DEFAULT 3 0,
     fld ''Movement'' 4 2 CODEC_F_HAS_DEFAULT 0 0]"

definition VEHICLE_STATE :: "codec_field list" where
  "VEHICLE_STATE = [
     fld ''CarVariant'' 0 4 0 0 0,
     fld ''CarLevelPopUp'' 4 2 0 0 0,
     fld ''TerminalOneFive'' 7 1 0 0 0,
     fld ''CarTimeYear'' 8 8 0 0 0,
     fld ''CarTimeMonth'' 16 8 0 0 0,
     fld ''CarTimeDay'' 24 8 0 0 0,
     fld ''CarTimeHour'' 32 8 0 0 0,
     fld ''CarTimeMinute'' 40 8 0 0 0,
     fld ''CarTimeSecond'' 48 8 0 0 0,
     fld ''CarLevelRoll'' 56 16 0 0 0,
     fld ''CarLevelPitch'' 72 16 0 0 0]"

definition WATER_STATE :: "codec_field list" where
  "WATER_STATE = [
     fld ''FreshWaterInfoPopUp'' 0 4 0 0 0,
     fld ''Installed'' 6 1 0 0 0,
     fld ''FreshWaterUnit'' 7 1 0 0 0,
     fld ''FreshWaterLevel'' 8 8 0 0 0,
     fld ''FreshWaterVolume'' 16 8 0 0 0,
     fld ''WasteWaterInfoPopUp'' 26 2 0 0 0,
     fld ''WasteWaterUnit'' 31 1 0 0 0,
     fld ''WasteWaterLevel'' 32 8 0 0 0,
     fld ''WasteWaterVolume'' 40 8 0 0 0]"

definition CODEC_FUNCS :: "codec_func list" where
  "CODEC_FUNCS = [
     \<lparr>fn_name = ''airheater'', frame_bytes = 6, state_fields = AIRHEATER_STATE, n_state = 14, ctrl_fields = AIRHEATER_CTRL, n_ctrl = 10\<rparr>,
     \<lparr>fn_name = ''campingmode'', frame_bytes = 1, state_fields = CAMPINGMODE_STATE, n_state = 6, ctrl_fields = CAMPINGMODE_CTRL, n_ctrl = 4\<rparr>,
     \<lparr>fn_name = ''cooler'', frame_bytes = 6, state_fields = COOLER_STATE, n_state = 14, ctrl_fields = COOLER_CTRL, n_ctrl = 10\<rparr>,
     \<lparr>fn_name = ''energy'', frame_bytes = 1, state_fields = ENERGY_STATE, n_state = 36, ctrl_fields = ENERGY_CTRL, n_ctrl = 2\<rparr>,
     \<lparr>fn_name = ''general'', frame_bytes = 0, state_fields = GENERAL_STATE, n_state = 3, ctrl_fields = [], n_ctrl = 0\<rparr>,
     \<lparr>fn_name = ''generalpurposesignals'', frame_bytes = 0, state_fields = GENERALPURPOSESIGNALS_STATE, n_state = 21, ctrl_fields = [], n_ctrl = 0\<rparr>,
     \<lparr>fn_name = ''lighting'', frame_bytes = 16, state_fields = LIGHTING_STATE, n_state = 20, ctrl_fields = LIGHTING_CTRL, n_ctrl = 20\<rparr>,
     \<lparr>fn_name = ''livingroomheater'', frame_bytes = 3, state_fields = LIVINGROOMHEATER_STATE, n_state = 8, ctrl_fields = LIVINGROOMHEATER_CTRL, n_ctrl = 5\<rparr>,
     \<lparr>fn_name = ''roof'', frame_bytes = 5, state_fields = ROOF_STATE, n_state = 4, ctrl_fields = ROOF_CTRL, n_ctrl = 3\<rparr>,
     \<lparr>fn_name = ''roofaircondition'', frame_bytes = 3, state_fields = ROOFAIRCONDITION_STATE, n_state = 6, ctrl_fields = ROOFAIRCONDITION_CTRL, n_ctrl = 4\<rparr>,
     \<lparr>fn_name = ''satelliteantenna'', frame_bytes = 2, state_fields = SATELLITEANTENNA_STATE, n_state = 6, ctrl_fields = SATELLITEANTENNA_CTRL, n_ctrl = 5\<rparr>,
     \<lparr>fn_name = ''stairs'', frame_bytes = 1, state_fields = STAIRS_STATE, n_state = 5, ctrl_fields = STAIRS_CTRL, n_ctrl = 2\<rparr>,
     \<lparr>fn_name = ''vehicle'', frame_bytes = 0, state_fields = VEHICLE_STATE, n_state = 11, ctrl_fields = [], n_ctrl = 0\<rparr>,
     \<lparr>fn_name = ''water'', frame_bytes = 0, state_fields = WATER_STATE, n_state = 9, ctrl_fields = [], n_ctrl = 0\<rparr>]"


definition CODEC_NFUNCS :: nat where "CODEC_NFUNCS = 14"
definition CODEC_MAX_FIELDS :: nat where "CODEC_MAX_FIELDS = 36"
definition CODEC_KV_MAX :: nat where "CODEC_KV_MAX = 64"
definition CODEC_FRAME_MAX :: nat where "CODEC_FRAME_MAX = 32"

section \<open>Operations\<close>

record codec_kv =
  kv_name :: string
  kv_value :: u32
  kv_supplied :: u8

datatype codec_err = CODEC_ERR_NOFUNC | CODEC_ERR_WIDTH | CODEC_ERR_RANGE | CODEC_ERR_NODEFAULT
  | CODEC_ERR_FRAME

text \<open>\<open>raw[i >> 3] >> (7 - (i & 7)) & 1\<close>, then shifted into the 32-bit accumulator.\<close>

definition raw_bit :: "u8 list \<Rightarrow> nat \<Rightarrow> u32" where
  "raw_bit raw i = (ucast (drop_bit (7 - i mod 8) (raw ! (i div 8))) :: u32) AND 1"

fun get_bits_loop :: "u8 list \<Rightarrow> nat \<Rightarrow> nat \<Rightarrow> u32 \<Rightarrow> u32" where
  "get_bits_loop raw i 0 v = v"
| "get_bits_loop raw i (Suc k) v = get_bits_loop raw (Suc i) k (push_bit 1 v OR raw_bit raw i)"

definition get_bits :: "u8 list \<Rightarrow> nat \<Rightarrow> nat \<Rightarrow> u32" where
  "get_bits raw off w = get_bits_loop raw off w 0"

fun put_bits_loop :: "u8 list \<Rightarrow> nat \<Rightarrow> nat \<Rightarrow> u32 \<Rightarrow> nat \<Rightarrow> nat \<Rightarrow> u8 list" where
  "put_bits_loop buf off w v k 0 = buf"
| "put_bits_loop buf off w v k (Suc m) =
     put_bits_loop
       (if drop_bit (w - 1 - k) v AND 1 \<noteq> 0
        then let i = off + k in buf[i div 8 := buf ! (i div 8) OR push_bit (7 - i mod 8) 1]
        else buf) off w v (Suc k) m"

definition put_bits :: "u8 list \<Rightarrow> nat \<Rightarrow> nat \<Rightarrow> u32 \<Rightarrow> u8 list" where
  "put_bits buf off w v = put_bits_loop buf off w v 0 w"

definition codec_func_by_name :: "string \<Rightarrow> codec_func option" where
  "codec_func_by_name nm = find (\<lambda>f. fn_name f = nm) (take CODEC_NFUNCS CODEC_FUNCS)"

fun codec_decode_loop :: "codec_field list \<Rightarrow> u8 list \<Rightarrow> codec_kv list" where
  "codec_decode_loop [] raw = []"
| "codec_decode_loop (fl # fls) raw =
     (if fl_offset fl + fl_width fl \<le> length raw * 8
      then \<lparr>kv_name = fl_name fl, kv_value = get_bits raw (fl_offset fl) (fl_width fl), kv_supplied = 1\<rparr>
             # codec_decode_loop fls raw
      else codec_decode_loop fls raw)"

definition codec_decode :: "codec_func \<Rightarrow> u8 list \<Rightarrow> codec_kv list" where
  "codec_decode f raw = codec_decode_loop (take (n_state f) (state_fields f)) raw"

text \<open>The value of one field: the first supplied pair with its name, else the dictionary default.\<close>

definition field_value :: "codec_field \<Rightarrow> codec_kv list \<Rightarrow> codec_err + u32" where
  "field_value fl vals =
     (case find (\<lambda>kv. kv_name kv = fl_name fl) vals of
        Some kv \<Rightarrow> Inr (kv_value kv)
      | None \<Rightarrow> if fl_flags fl AND CODEC_F_HAS_DEFAULT = 0 then Inl CODEC_ERR_NODEFAULT
                else Inr (fl_def fl))"

definition width_bad :: "codec_field \<Rightarrow> u32 \<Rightarrow> bool" where
  "width_bad fl v \<longleftrightarrow> fl_width fl < 32 \<and> v > push_bit (fl_width fl) 1 - 1"

definition valid_bad :: "codec_field \<Rightarrow> u32 \<Rightarrow> bool" where
  "valid_bad fl v \<longleftrightarrow> fl_flags fl AND CODEC_F_HAS_VALID \<noteq> 0 \<and>
     (v \<ge> 32 \<or> drop_bit (unat v) (fl_valid_mask fl) AND 1 = 0)"

fun encode_loop :: "codec_field list \<Rightarrow> codec_kv list \<Rightarrow> nat \<Rightarrow> u8 list \<Rightarrow> codec_err + u8 list" where
  "encode_loop [] vals tbits out = Inr out"
| "encode_loop (fl # fls) vals tbits out =
     (if fl_offset fl + fl_width fl > tbits then Inl CODEC_ERR_FRAME
      else case field_value fl vals of
        Inl e \<Rightarrow> Inl e
      | Inr v \<Rightarrow>
          if width_bad fl v then Inl CODEC_ERR_WIDTH
          else if valid_bad fl v then Inl CODEC_ERR_RANGE
          else encode_loop fls vals tbits (put_bits out (fl_offset fl) (fl_width fl) v))"

definition codec_encode :: "codec_func \<Rightarrow> codec_kv list \<Rightarrow> nat \<Rightarrow> codec_err + u8 list" where
  "codec_encode f vals fb =
     (if n_ctrl f = 0 then Inl CODEC_ERR_NOFUNC
      else if fb = 0 \<or> fb > CODEC_FRAME_MAX then Inl CODEC_ERR_FRAME
      else encode_loop (take (n_ctrl f) (ctrl_fields f)) vals (fb * 8) (replicate fb 0))"

section \<open>Bit-level description\<close>

text \<open>Bit \<open>i\<close> of a frame, counted from the most significant bit of its first byte.\<close>

definition frame_bit :: "u8 list \<Rightarrow> nat \<Rightarrow> bool" where
  "frame_bit raw i = bit (raw ! (i div 8)) (7 - i mod 8)"

lemma bit_raw_bit: "bit (raw_bit raw i) j \<longleftrightarrow> j = 0 \<and> frame_bit raw i"
  by (cases j) (auto simp: raw_bit_def frame_bit_def bit_simps)

lemma bit_shift_in:
  "bit (v * 2 OR raw_bit raw i) j \<longleftrightarrow> j < 32 \<and> (if j = 0 then frame_bit raw i else bit v (j - 1))"
  by (auto simp: bit_or_iff bit_raw_bit mult.commute [of v] bit_double_iff possible_bit_def
      dest: bit_imp_le_length)

lemma bit_get_bits_loop:
  "bit (get_bits_loop raw i k v) j \<longleftrightarrow>
     j < 32 \<and> (if j < k then frame_bit raw (i + k - 1 - j) else bit v (j - k))"
proof (induction k arbitrary: i v j)
  case 0
  then show ?case by (auto dest: bit_imp_le_length)
next
  case (Suc k)
  consider "j < k" | "j = k" | "j > k" by linarith
  then show ?case
    by cases (auto simp: Suc.IH bit_shift_in)
qed

lemma bit_get_bits:
  "bit (get_bits raw off w) j \<longleftrightarrow> j < 32 \<and> j < w \<and> frame_bit raw (off + w - 1 - j)"
  by (auto simp: get_bits_def bit_get_bits_loop)

lemma length_put_bits_loop [simp]: "length (put_bits_loop buf off w v k m) = length buf"
  by (induction m arbitrary: buf k) (simp_all add: Let_def)

lemma length_put_bits [simp]: "length (put_bits buf off w v) = length buf"
  by (simp add: put_bits_def)

lemma bit_or_push_one: "n < 8 \<Longrightarrow> bit (a OR push_bit n 1 :: u8) m \<longleftrightarrow> bit a m \<or> m = n"
  by (auto simp: bit_or_iff bit_push_bit_iff bit_1_iff push_bit_eq_mult bit_exp_iff)

lemma frame_bit_set:
  assumes "p < 8 * length buf"
  shows "frame_bit (buf[p div 8 := buf ! (p div 8) OR push_bit (7 - p mod 8) 1]) i
           \<longleftrightarrow> frame_bit buf i \<or> i = p"
proof -
  have len: "p div 8 < length buf" using assms by linarith
  show ?thesis
  proof (cases "i div 8 = p div 8")
    case True
    have m: "i mod 8 < 8" "p mod 8 < 8" by simp_all
    have "7 - i mod 8 = 7 - p mod 8 \<longleftrightarrow> i mod 8 = p mod 8" using m by linarith
    also have "\<dots> \<longleftrightarrow> i = p" using True by (metis div_mult_mod_eq)
    finally have eq: "7 - i mod 8 = 7 - p mod 8 \<longleftrightarrow> i = p" .
    have "frame_bit (buf[p div 8 := buf ! (p div 8) OR push_bit (7 - p mod 8) 1]) i
            \<longleftrightarrow> bit (buf ! (p div 8) OR push_bit (7 - p mod 8) 1) (7 - i mod 8)"
      using len by (simp only: frame_bit_def True nth_list_update_eq)
    also have "\<dots> \<longleftrightarrow> bit (buf ! (p div 8)) (7 - i mod 8) \<or> 7 - i mod 8 = 7 - p mod 8"
      by (rule bit_or_push_one) simp
    finally show ?thesis by (simp only: frame_bit_def True eq)
  next
    case False
    then show ?thesis by (auto simp: frame_bit_def)
  qed
qed

lemma bit0_drop: "drop_bit n (v :: u32) AND 1 \<noteq> 0 \<longleftrightarrow> bit v n"
  by (simp add: and_one_eq bit_iff_odd_drop_bit odd_iff_mod_2_eq_one)

lemma frame_bit_put_bits_loop:
  assumes "k + m \<le> w" "off + w \<le> 8 * length buf"
  shows "frame_bit (put_bits_loop buf off w v k m) i \<longleftrightarrow>
     frame_bit buf i \<or> (off + k \<le> i \<and> i < off + k + m \<and> bit v (off + w - 1 - i))"
  using assms
proof (induction m arbitrary: buf k)
  case 0
  then show ?case by auto
next
  case (Suc m)
  let ?p = "off + k"
  let ?set = "buf[?p div 8 := buf ! (?p div 8) OR push_bit (7 - ?p mod 8) 1]"
  let ?b = "if drop_bit (w - 1 - k) v AND 1 \<noteq> 0 then ?set else buf"
  have "frame_bit ?set i \<longleftrightarrow> frame_bit buf i \<or> i = ?p"
    by (rule frame_bit_set) (use Suc.prems in simp)
  then have "frame_bit ?b i \<longleftrightarrow> frame_bit buf i \<or> (i = ?p \<and> bit v (off + w - 1 - i))"
    using bit0_drop [of "w - 1 - k" v] by auto
  moreover have "frame_bit (put_bits_loop ?b off w v (Suc k) m) i \<longleftrightarrow>
     frame_bit ?b i \<or> (off + Suc k \<le> i \<and> i < off + Suc k + m \<and> bit v (off + w - 1 - i))"
    by (rule Suc.IH) (use Suc.prems in auto)
  ultimately show ?case by (auto simp: Let_def)
qed

lemma frame_bit_put_bits:
  assumes "off + w \<le> 8 * length buf"
  shows "frame_bit (put_bits buf off w v) i \<longleftrightarrow>
     frame_bit buf i \<or> (off \<le> i \<and> i < off + w \<and> bit v (off + w - 1 - i))"
  unfolding put_bits_def using frame_bit_put_bits_loop [of 0 w w off buf v i] assms by simp

lemma frame_bit_zeros [simp]: "i < 8 * n \<Longrightarrow> \<not> frame_bit (replicate n 0) i"
  by (simp add: frame_bit_def)

lemma width_bad_bit: "\<not> width_bad fl v \<Longrightarrow> bit v j \<Longrightarrow> j < 32 \<and> (fl_width fl < 32 \<longrightarrow> j < fl_width fl)"
proof -
  assume nb: "\<not> width_bad fl v" and b: "bit v j"
  have j: "j < 32" using b by (auto dest: bit_imp_le_length)
  moreover have "j < fl_width fl" if w: "fl_width fl < 32"
  proof (rule ccontr)
    assume "\<not> j < fl_width fl"
    then have ge: "(2::nat) ^ fl_width fl \<le> 2 ^ j" by simp
    have "(2::nat) ^ j \<le> unat v" using b by (rule bit_imp_exp_le_unat)
    moreover have "unat v < 2 ^ fl_width fl"
    proof -
      have "v \<le> 2 ^ fl_width fl - 1" using nb w by (simp add: width_bad_def push_bit_eq_mult not_less)
      then have "unat v \<le> unat (2 ^ fl_width fl - 1 :: u32)" by (simp add: word_le_nat_alt)
      also have "\<dots> = 2 ^ fl_width fl - 1"
        using w by (simp add: unat_exp_minus_one)
      finally show ?thesis using zero_less_power [of "2::nat" "fl_width fl"] by linarith
    qed
    ultimately show False using ge by linarith
  qed
  ultimately show ?thesis by simp
qed

section \<open>The encoder\<close>

text \<open>A field's own verdict, in the order of the C checks; \<open>None\<close> when it is placed.\<close>

definition field_error :: "codec_field \<Rightarrow> codec_kv list \<Rightarrow> nat \<Rightarrow> codec_err option" where
  "field_error fl vals tbits =
     (if fl_offset fl + fl_width fl > tbits then Some CODEC_ERR_FRAME
      else case field_value fl vals of
        Inl e \<Rightarrow> Some e
      | Inr v \<Rightarrow> if width_bad fl v then Some CODEC_ERR_WIDTH
                 else if valid_bad fl v then Some CODEC_ERR_RANGE else None)"

definition put_field :: "codec_kv list \<Rightarrow> u8 list \<Rightarrow> codec_field \<Rightarrow> u8 list" where
  "put_field vals out fl = put_bits out (fl_offset fl) (fl_width fl) (projr (field_value fl vals))"

lemma encode_loop_Cons:
  "encode_loop (fl # fls) vals tbits out =
     (case field_error fl vals tbits of Some e \<Rightarrow> Inl e
      | None \<Rightarrow> encode_loop fls vals tbits (put_field vals out fl))"
  by (auto simp: field_error_def put_field_def split: sum.splits)

declare encode_loop.simps(2) [simp del]

lemma encode_loop_Inl:
  "encode_loop fls vals tbits out = Inl e \<longleftrightarrow>
     (\<exists>pre fl post. fls = pre @ fl # post \<and> (\<forall>x\<in>set pre. field_error x vals tbits = None) \<and>
        field_error fl vals tbits = Some e)"
proof (induction fls arbitrary: out)
  case Nil
  then show ?case by simp
next
  case (Cons f fls)
  show ?case
  proof (cases "field_error f vals tbits")
    case None
    have "(\<exists>pre fl post. f # fls = pre @ fl # post \<and> (\<forall>x\<in>set pre. field_error x vals tbits = None) \<and>
              field_error fl vals tbits = Some e) \<longleftrightarrow>
          (\<exists>pre fl post. fls = pre @ fl # post \<and> (\<forall>x\<in>set pre. field_error x vals tbits = None) \<and>
              field_error fl vals tbits = Some e)" (is "?l \<longleftrightarrow> ?r")
    proof
      assume ?l
      then obtain pre fl post where d: "f # fls = pre @ fl # post" "\<forall>x\<in>set pre. field_error x vals tbits = None"
        "field_error fl vals tbits = Some e" by blast
      with None have "pre \<noteq> []" by auto
      with d show ?r by (cases pre) auto
    next
      assume ?r
      then obtain pre fl post where d: "fls = pre @ fl # post" "\<forall>x\<in>set pre. field_error x vals tbits = None"
        "field_error fl vals tbits = Some e" by blast
      then have "f # fls = (f # pre) @ fl # post" "\<forall>x\<in>set (f # pre). field_error x vals tbits = None"
        using None by auto
      with d(3) show ?l by blast
    qed
    with None Cons show ?thesis by (simp add: encode_loop_Cons)
  next
    case (Some e')
    then show ?thesis by (fastforce simp: encode_loop_Cons Cons_eq_append_conv)
  qed
qed

lemma encode_loop_Inr:
  "encode_loop fls vals tbits out = Inr fr \<longleftrightarrow>
     (\<forall>fl\<in>set fls. field_error fl vals tbits = None) \<and> fr = foldl (put_field vals) out fls"
  by (induction fls arbitrary: out) (auto simp: encode_loop_Cons split: option.splits)

lemma field_error_None:
  "field_error fl vals tbits = None \<longleftrightarrow> fl_offset fl + fl_width fl \<le> tbits \<and>
     (\<exists>v. field_value fl vals = Inr v \<and> \<not> width_bad fl v \<and> \<not> valid_bad fl v)"
  by (auto simp: field_error_def split: sum.splits)

lemma length_put_fields [simp]: "length (foldl (put_field vals) out fls) = length out"
  by (induction fls arbitrary: out) (simp_all add: put_field_def)

lemma length_encode_loop: "encode_loop fls vals tbits out = Inr fr \<Longrightarrow> length fr = length out"
  by (auto simp: encode_loop_Inr)

lemma length_codec_encode: "codec_encode f vals fb = Inr fr \<Longrightarrow> length fr = fb \<and> 0 < fb \<and> fb \<le> CODEC_FRAME_MAX"
  by (auto simp: codec_encode_def dest: length_encode_loop split: if_splits)

definition covers :: "codec_field \<Rightarrow> nat \<Rightarrow> bool" where
  "covers fl i \<longleftrightarrow> fl_offset fl \<le> i \<and> i < fl_offset fl + fl_width fl"

definition field_bit :: "codec_kv list \<Rightarrow> codec_field \<Rightarrow> nat \<Rightarrow> bool" where
  "field_bit vals fl i \<longleftrightarrow> bit (projr (field_value fl vals)) (fl_offset fl + fl_width fl - 1 - i)"

lemma frame_bit_put_fields:
  "\<forall>fl\<in>set fls. fl_offset fl + fl_width fl \<le> 8 * length out \<Longrightarrow>
   frame_bit (foldl (put_field vals) out fls) i \<longleftrightarrow>
     frame_bit out i \<or> (\<exists>fl\<in>set fls. covers fl i \<and> field_bit vals fl i)"
proof (induction fls arbitrary: out)
  case Nil
  then show ?case by simp
next
  case (Cons f fls)
  have "frame_bit (put_field vals out f) i \<longleftrightarrow> frame_bit out i \<or> (covers f i \<and> field_bit vals f i)"
    using frame_bit_put_bits [of "fl_offset f" "fl_width f" out] Cons.prems
    by (simp add: put_field_def covers_def field_bit_def)
  moreover have "length (put_field vals out f) = length out" by (simp add: put_field_def)
  ultimately show ?case using Cons by auto
qed

text \<open>Table well-formedness: fields fit 32 bits and do not overlap, names are unique.\<close>

definition wf_fields :: "codec_field list \<Rightarrow> bool" where
  "wf_fields fls \<longleftrightarrow> list_all (\<lambda>fl. 1 \<le> fl_width fl \<and> fl_width fl \<le> 32) fls \<and> distinct (map fl_name fls) \<and>
     sorted_wrt (\<lambda>a b. fl_offset a + fl_width a \<le> fl_offset b \<or> fl_offset b + fl_width b \<le> fl_offset a) fls"

lemma sorted_wrt_same_cover:
  "sorted_wrt (\<lambda>a b. fl_offset a + fl_width a \<le> fl_offset b \<or> fl_offset b + fl_width b \<le> fl_offset a) fls \<Longrightarrow>
   a \<in> set fls \<Longrightarrow> b \<in> set fls \<Longrightarrow> covers a i \<Longrightarrow> covers b i \<Longrightarrow> a = b"
  by (induction fls) (auto simp: covers_def)

lemma codec_encode_Inr:
  "codec_encode f vals fb = Inr fr \<longleftrightarrow> n_ctrl f \<noteq> 0 \<and> 0 < fb \<and> fb \<le> CODEC_FRAME_MAX \<and>
     (\<forall>fl\<in>set (take (n_ctrl f) (ctrl_fields f)). field_error fl vals (fb * 8) = None) \<and>
     fr = foldl (put_field vals) (replicate fb 0) (take (n_ctrl f) (ctrl_fields f))"
  by (auto simp: codec_encode_def encode_loop_Inr)

lemma codec_encode_bits:
  assumes wf: "wf_fields (take (n_ctrl f) (ctrl_fields f))" and enc: "codec_encode f vals fb = Inr fr"
    and i: "i < 8 * fb"
  shows "frame_bit fr i \<longleftrightarrow>
     (\<exists>fl\<in>set (take (n_ctrl f) (ctrl_fields f)). covers fl i \<and> field_bit vals fl i)"
proof -
  have ok: "\<forall>fl\<in>set (take (n_ctrl f) (ctrl_fields f)). field_error fl vals (fb * 8) = None"
    and fr: "fr = foldl (put_field vals) (replicate fb 0) (take (n_ctrl f) (ctrl_fields f))"
    using enc by (simp_all add: codec_encode_Inr)
  have "\<forall>fl\<in>set (take (n_ctrl f) (ctrl_fields f)). fl_offset fl + fl_width fl \<le> 8 * length (replicate fb (0::u8))"
    using ok by (auto simp: field_error_None mult.commute)
  from frame_bit_put_fields [OF this, of vals i] i show ?thesis by (simp add: fr)
qed

lemma codec_encode_get_bits:
  assumes wf: "wf_fields (take (n_ctrl f) (ctrl_fields f))" and enc: "codec_encode f vals fb = Inr fr"
    and fl: "fl \<in> set (take (n_ctrl f) (ctrl_fields f))"
  shows "Inr (get_bits fr (fl_offset fl) (fl_width fl)) = field_value fl vals"
proof -
  from enc fl obtain v where v: "field_value fl vals = Inr v" "\<not> width_bad fl v"
    and fits: "fl_offset fl + fl_width fl \<le> fb * 8"
    by (auto simp: codec_encode_Inr field_error_None)
  have w: "1 \<le> fl_width fl" "fl_width fl \<le> 32"
    using wf fl by (auto simp: wf_fields_def list_all_iff)
  have "get_bits fr (fl_offset fl) (fl_width fl) = v"
  proof (rule bit_eqI)
    fix j
    show "bit (get_bits fr (fl_offset fl) (fl_width fl)) j = bit v j"
    proof (cases "j < fl_width fl")
      case True
      define i where "i = fl_offset fl + fl_width fl - 1 - j"
      have i: "i < 8 * fb" "covers fl i" "fl_offset fl + fl_width fl - 1 - i = j"
        using True fits w by (auto simp: i_def covers_def)
      have uniq: "\<And>x. x \<in> set (take (n_ctrl f) (ctrl_fields f)) \<Longrightarrow> covers x i \<Longrightarrow> x = fl"
        using wf fl i(2) sorted_wrt_same_cover [of "take (n_ctrl f) (ctrl_fields f)" _ fl i] by (auto simp: wf_fields_def)
      have "frame_bit fr i \<longleftrightarrow> field_bit vals fl i"
        using codec_encode_bits [OF wf enc i(1)] fl i(2) uniq by blast
      then have "frame_bit fr i \<longleftrightarrow> bit v j" by (simp only: field_bit_def v(1) i(3) sum.sel)
      then show ?thesis using True w by (simp add: bit_get_bits i_def)
    next
      case False
      then show ?thesis using width_bad_bit [OF v(2), of j] w by (auto simp: bit_get_bits)
    qed
  qed
  then show ?thesis by (simp add: v)
qed

section \<open>The generated tables\<close>

lemma ctrl_tables_wf:
  "list_all (\<lambda>f. n_ctrl f = length (ctrl_fields f) \<and> wf_fields (ctrl_fields f)) CODEC_FUNCS"
  by code_simp

lemma state_tables_wf:
  "list_all (\<lambda>f. n_state f = length (state_fields f) \<and> n_state f \<le> CODEC_MAX_FIELDS \<and>
      wf_fields (state_fields f)) CODEC_FUNCS"
  by code_simp

lemma ctrl_frames_fit:
  "list_all (\<lambda>f. list_all (\<lambda>fl. fl_offset fl + fl_width fl \<le> frame_bytes f * 8) (ctrl_fields f) \<and>
      frame_bytes f \<le> CODEC_FRAME_MAX \<and> (n_ctrl f = 0 \<longleftrightarrow> frame_bytes f = 0)) CODEC_FUNCS"
  by code_simp

lemma func_names: "length CODEC_FUNCS = CODEC_NFUNCS \<and> distinct (map fn_name CODEC_FUNCS)"
  by code_simp

lemma CODEC_FUNCS_ctrl:
  "f \<in> set CODEC_FUNCS \<Longrightarrow> take (n_ctrl f) (ctrl_fields f) = ctrl_fields f \<and> wf_fields (ctrl_fields f)"
  using ctrl_tables_wf by (auto simp: list_all_iff)

lemma CODEC_FUNCS_state:
  "f \<in> set CODEC_FUNCS \<Longrightarrow> take (n_state f) (state_fields f) = state_fields f \<and> wf_fields (state_fields f) \<and>
     length (state_fields f) \<le> CODEC_MAX_FIELDS"
  using state_tables_wf by (auto simp: list_all_iff)

lemma codec_func_by_name_Some:
  "codec_func_by_name nm = Some f \<Longrightarrow> f \<in> set CODEC_FUNCS \<and> fn_name f = nm"
  using func_names by (auto simp: codec_func_by_name_def find_Some_iff)

section \<open>The decoder\<close>

lemma codec_decode_loop_eq:
  "codec_decode_loop fls raw =
     map (\<lambda>fl. \<lparr>kv_name = fl_name fl, kv_value = get_bits raw (fl_offset fl) (fl_width fl), kv_supplied = 1\<rparr>)
       (filter (\<lambda>fl. fl_offset fl + fl_width fl \<le> length raw * 8) fls)"
  by (induction fls) simp_all

lemma get_bits_bound: "unat (get_bits raw off w) < 2 ^ w"
  by (rule unat_less_exp_bits) (simp add: bit_get_bits)

section \<open>Properties\<close>

text \<open>
  C6. Round trip of the control-frame encoder on every function of the generated
  dictionary: a frame \<open>codec_encode\<close> returns has exactly the requested number of bytes, reading any
  control field back with \<open>get_bits\<close> gives the supplied value (or the dictionary default when none was
  supplied), and every bit outside the control fields is zero.
\<close>

theorem codec_encode_roundtrip:
  assumes "f \<in> set CODEC_FUNCS" and "codec_encode f vals fb = Inr fr"
  shows "length fr = fb \<and>
     (\<forall>fl\<in>set (ctrl_fields f). Inr (get_bits fr (fl_offset fl) (fl_width fl)) = field_value fl vals) \<and>
     (\<forall>i<8 * fb. frame_bit fr i \<longrightarrow> (\<exists>fl\<in>set (ctrl_fields f). covers fl i))"
  using assms CODEC_FUNCS_ctrl [OF assms(1)] length_codec_encode [OF assms(2)]
    codec_encode_get_bits [of f vals fb fr] codec_encode_bits [of f vals fb fr] by auto

theorem codec_encode_roundtrip_witness:
  "length [0xff, 0x74, 0x1e, 0x3e, 0x1f, 0x1f :: u8] = 6 \<and>
   get_bits [0xff, 0x74, 0x1e, 0x3e, 0x1f, 0x1f] 12 4 = 4 \<and>
   get_bits [0xff, 0x74, 0x1e, 0x3e, 0x1f, 0x1f] 16 8 = 30"
proof -
  let ?v = "[\<lparr>kv_name = ''Level'', kv_value = 4, kv_supplied = 1 :: u8\<rparr>]"
  let ?f = "CODEC_FUNCS ! 2"
  have f: "?f \<in> set CODEC_FUNCS" by code_simp
  have e: "codec_encode ?f ?v 6 = Inr [0xff, 0x74, 0x1e, 0x3e, 0x1f, 0x1f]" by code_simp
  have l: "fld ''Level'' 12 4 CODEC_F_HAS_DEFAULT 7 0 \<in> set (ctrl_fields ?f)"
    and t: "fld ''TimerHour'' 16 8 CODEC_F_HAS_DEFAULT 30 0 \<in> set (ctrl_fields ?f)" by code_simp+
  have v: "field_value (fld ''Level'' 12 4 CODEC_F_HAS_DEFAULT 7 0) ?v = Inr 4"
    and d: "field_value (fld ''TimerHour'' 16 8 CODEC_F_HAS_DEFAULT 30 0) ?v = Inr 30" by code_simp+
  note rt = codec_encode_roundtrip [OF f e]
  from rt l v have "get_bits [0xff, 0x74, 0x1e, 0x3e, 0x1f, 0x1f] 12 4 = 4" by (fastforce simp: fld_def)
  moreover from rt t d have "get_bits [0xff, 0x74, 0x1e, 0x3e, 0x1f, 0x1f] 16 8 = 30" by (fastforce simp: fld_def)
  ultimately show ?thesis by simp
qed

text \<open>
  When the encoder gets past the frame-length check, its answer is decided by the
  fields in table order: it fails exactly when some field is refused, with the error of the first refused
  field (frame bound, then missing default, then width, then valid set), and it succeeds exactly when no
  field is refused.
\<close>

theorem codec_encode_first_error:
  assumes "f \<in> set CODEC_FUNCS" and "n_ctrl f \<noteq> 0" and "0 < fb" and "fb \<le> CODEC_FRAME_MAX"
  shows "(codec_encode f vals fb = Inl e \<longleftrightarrow>
      (\<exists>pre fl post. ctrl_fields f = pre @ fl # post \<and>
         (\<forall>x\<in>set pre. field_error x vals (fb * 8) = None) \<and> field_error fl vals (fb * 8) = Some e)) \<and>
    ((\<exists>fr. codec_encode f vals fb = Inr fr) \<longleftrightarrow>
      (\<forall>fl\<in>set (ctrl_fields f). field_error fl vals (fb * 8) = None))"
  using assms CODEC_FUNCS_ctrl [OF assms(1)]
  by (simp add: codec_encode_def encode_loop_Inl encode_loop_Inr)

theorem codec_encode_first_error_witness:
  "codec_encode (CODEC_FUNCS ! 0) [\<lparr>kv_name = ''HeatingLevel'', kv_value = 12, kv_supplied = 1\<rparr>] 6 = Inl CODEC_ERR_RANGE"
proof -
  let ?v = "[\<lparr>kv_name = ''HeatingLevel'', kv_value = 12, kv_supplied = 1 :: u8\<rparr>]"
  let ?f = "CODEC_FUNCS ! 0"
  have h: "?f \<in> set CODEC_FUNCS" "n_ctrl ?f \<noteq> 0" "0 < (6::nat)" "6 \<le> CODEC_FRAME_MAX" by code_simp+
  have s: "ctrl_fields ?f = take 4 (ctrl_fields ?f) @ ctrl_fields ?f ! 4 # drop 5 (ctrl_fields ?f)" by code_simp
  have p: "\<forall>x\<in>set (take 4 (ctrl_fields ?f)). field_error x ?v (6 * 8) = None" by code_simp
  have e: "field_error (ctrl_fields ?f ! 4) ?v (6 * 8) = Some CODEC_ERR_RANGE" by code_simp
  show ?thesis
    using codec_encode_first_error [OF h, of ?v CODEC_ERR_RANGE] s p e by blast
qed

text \<open>
  C36. Decoding a state frame of any dictionary function returns at most
  \<open>CODEC_MAX_FIELDS\<close> entries (within the \<open>CODEC_KV_MAX\<close> buffer of every caller), in table order, one
  for each field that lies entirely inside the frame (so no byte past the end is read), and the value is
  the field's bits, most significant first, below two to the field's width.
\<close>

theorem codec_decode_sound:
  assumes "f \<in> set CODEC_FUNCS"
  shows "length (codec_decode f raw) \<le> CODEC_MAX_FIELDS \<and> CODEC_MAX_FIELDS \<le> CODEC_KV_MAX \<and>
    map kv_name (codec_decode f raw) =
      map fl_name (filter (\<lambda>fl. fl_offset fl + fl_width fl \<le> 8 * length raw) (state_fields f)) \<and>
    (\<forall>fl\<in>set (state_fields f). fl_offset fl + fl_width fl \<le> 8 * length raw \<longrightarrow>
       (\<exists>kv\<in>set (codec_decode f raw). kv_name kv = fl_name fl \<and> unat (kv_value kv) < 2 ^ fl_width fl \<and>
          (\<forall>j<fl_width fl. bit (kv_value kv) j = frame_bit raw (fl_offset fl + fl_width fl - 1 - j))))"
proof -
  note t = CODEC_FUNCS_state [OF assms]
  have eq: "codec_decode f raw =
     map (\<lambda>fl. \<lparr>kv_name = fl_name fl, kv_value = get_bits raw (fl_offset fl) (fl_width fl), kv_supplied = 1\<rparr>)
       (filter (\<lambda>fl. fl_offset fl + fl_width fl \<le> 8 * length raw) (state_fields f))"
    using t by (simp add: codec_decode_def codec_decode_loop_eq mult.commute)
  have "length (codec_decode f raw) \<le> CODEC_MAX_FIELDS"
    using t le_trans [OF length_filter_le] by (auto simp: eq)
  moreover have "\<forall>j<fl_width fl. bit (get_bits raw (fl_offset fl) (fl_width fl)) j =
      frame_bit raw (fl_offset fl + fl_width fl - 1 - j)" if "fl \<in> set (state_fields f)" for fl
    using that t by (auto simp: bit_get_bits wf_fields_def list_all_iff)
  ultimately show ?thesis
    using get_bits_bound by (auto simp: eq CODEC_MAX_FIELDS_def CODEC_KV_MAX_def comp_def)
qed

theorem codec_decode_sound_witness:
  "length (codec_decode (CODEC_FUNCS ! 13) [0x52, 7, 70]) \<le> CODEC_MAX_FIELDS \<and>
   map kv_name (codec_decode (CODEC_FUNCS ! 13) [0x52, 7, 70]) =
     [''FreshWaterInfoPopUp'', ''Installed'', ''FreshWaterUnit'', ''FreshWaterLevel'', ''FreshWaterVolume'']"
proof -
  have f: "CODEC_FUNCS ! 13 \<in> set CODEC_FUNCS" by code_simp
  have "map fl_name (filter (\<lambda>fl. fl_offset fl + fl_width fl \<le> 8 * length [0x52, 7, 70 :: u8]) (state_fields (CODEC_FUNCS ! 13)))
     = [''FreshWaterInfoPopUp'', ''Installed'', ''FreshWaterUnit'', ''FreshWaterLevel'', ''FreshWaterVolume'']"
    by code_simp
  with codec_decode_sound [OF f, of "[0x52, 7, 70]"] show ?thesis by simp
qed

end
