(* ===== verification/Ports.thy ===== *)
theory Ports
  imports Prelude
begin

text \<open>
  The water freshness decisions of \<^verbatim>\<open>csrc/ports.c\<close>: the stale-latch guard
  \<open>freshness_implausible_drop\<close> and the measurement-ramp debounce \<open>freshness_settle\<close> with its
  caller-held candidate. The lemmas follow a candidate over a sequence of readings.
\<close>

unbundle bit_operations_syntax

definition FRESH_LATCH_MAX_L :: int where "FRESH_LATCH_MAX_L = 1"
definition FRESH_HAVE_NF :: u8 where "FRESH_HAVE_NF = 0x1"
definition FRESH_HAVE_PF :: u8 where "FRESH_HAVE_PF = 0x2"
definition FRESH_HAVE_NG :: u8 where "FRESH_HAVE_NG = 0x4"
definition FRESH_HAVE_PG :: u8 where "FRESH_HAVE_PG = 0x8"
definition FRESH_NEW_EMPTY :: u8 where "FRESH_NEW_EMPTY = 0x10"
definition FRESH_SETTLE_MS :: u32 where "FRESH_SETTLE_MS = 5000"

abbreviation has :: "u8 \<Rightarrow> u8 \<Rightarrow> bool" where
  "has h b \<equiv> h AND b \<noteq> 0"

record fresh_pending =
  fp_fresh :: int
  fp_waste :: int
  fp_have :: u8
  fp_since :: u64

definition freshness_implausible_drop :: "int \<Rightarrow> int \<Rightarrow> int \<Rightarrow> int \<Rightarrow> u8 \<Rightarrow> bool" where
  "freshness_implausible_drop nf pf ng pg h =
     (if \<not> has h FRESH_HAVE_NF \<or> \<not> has h FRESH_HAVE_PF \<or> has h FRESH_NEW_EMPTY then False
      else if nf = pf \<or> nf > FRESH_LATCH_MAX_L then False
      else if \<not> has h FRESH_HAVE_NG \<or> \<not> has h FRESH_HAVE_PG then True
      else ng = pg)"

text \<open>The tail of \<open>freshness_settle\<close>: a level other than the candidate restarts it, one seen long enough is adopted.\<close>

definition settle_candidate :: "int \<Rightarrow> int \<Rightarrow> u8 \<Rightarrow> u64 \<Rightarrow> u32 \<Rightarrow> fresh_pending \<Rightarrow> bool \<times> fresh_pending" where
  "settle_candidate nf ng hng now_ms settle_ms p =
     (let q = (if fp_have p AND 1 = 0 \<or> fp_fresh p \<noteq> nf \<or> fp_have p AND 2 \<noteq> hng \<or>
                  (hng \<noteq> 0 \<and> fp_waste p \<noteq> ng)
               then \<lparr>fp_fresh = nf, fp_waste = (if hng \<noteq> 0 then ng else 0), fp_have = 1 OR hng,
                     fp_since = now_ms\<rparr>
               else p)
      in if now_ms - fp_since q \<ge> ucast settle_ms then (True, q\<lparr>fp_have := 0\<rparr>) else (False, q))"

definition freshness_settle ::
  "int \<Rightarrow> int \<Rightarrow> int \<Rightarrow> int \<Rightarrow> u8 \<Rightarrow> u64 \<Rightarrow> u32 \<Rightarrow> fresh_pending \<Rightarrow> bool \<times> fresh_pending" where
  "freshness_settle nf pf ng pg h now_ms settle_ms p =
     (let hng = (if has h FRESH_HAVE_NG then 2 else 0 :: u8);
          drop = p\<lparr>fp_have := 0\<rparr> in
      if \<not> has h FRESH_HAVE_NF then (True, drop)
      else if \<not> has h FRESH_HAVE_PF \<and> nf \<le> FRESH_LATCH_MAX_L \<and> \<not> has h FRESH_NEW_EMPTY then (False, drop)
      else if has h FRESH_HAVE_PF \<and> freshness_implausible_drop nf pf ng pg h then (False, drop)
      else if has h FRESH_HAVE_PF \<and> nf = pf \<and> hng = (if has h FRESH_HAVE_PG then 2 else 0) \<and>
              (hng = 0 \<or> ng = pg) then (True, drop)
      else if has h FRESH_NEW_EMPTY then (True, drop)
      else settle_candidate nf ng hng now_ms settle_ms p)"

section \<open>The candidate over a sequence of readings\<close>

text \<open>One call as the session makes it: the new levels, the baseline, the presence bits, the clock.\<close>

record water_reading =
  wr_nf :: int
  wr_pf :: int
  wr_ng :: int
  wr_pg :: int
  wr_have :: u8
  wr_now :: u64

definition settle_step :: "fresh_pending \<Rightarrow> water_reading \<Rightarrow> fresh_pending \<times> bool list" where
  "settle_step p r =
     (let (adopt, q) = freshness_settle (wr_nf r) (wr_pf r) (wr_ng r) (wr_pg r) (wr_have r) (wr_now r) FRESH_SETTLE_MS p
      in (q, [adopt]))"

definition no_pending :: fresh_pending where
  "no_pending = \<lparr>fp_fresh = 0, fp_waste = 0, fp_have = 0, fp_since = 0\<rparr>"

text \<open>What is compared: the fresh level, and the grey level when the frame has one.\<close>

definition reading_key :: "water_reading \<Rightarrow> int \<times> int option" where
  "reading_key r = (wr_nf r, if has (wr_have r) FRESH_HAVE_NG then Some (wr_ng r) else None)"

definition pending_key :: "fresh_pending \<Rightarrow> int \<times> int option" where
  "pending_key p = (fp_fresh p, if fp_have p AND 2 \<noteq> 0 then Some (fp_waste p) else None)"

text \<open>A reading that shows another level than the baseline and carries no measured-empty alarm.\<close>

definition new_level :: "water_reading \<Rightarrow> bool" where
  "new_level r \<longleftrightarrow> has (wr_have r) FRESH_HAVE_NF \<and> \<not> has (wr_have r) FRESH_NEW_EMPTY \<and>
     (has (wr_have r) FRESH_HAVE_PF \<longrightarrow> reading_key r \<noteq>
        (wr_pf r, if has (wr_have r) FRESH_HAVE_PG then Some (wr_pg r) else None))"

abbreviation reading_hng :: "water_reading \<Rightarrow> u8" where
  "reading_hng r \<equiv> (if has (wr_have r) FRESH_HAVE_NG then 2 else 0)"

lemma candidate_pending:
  assumes "fp_have (snd (settle_candidate (wr_nf r) (wr_ng r) (reading_hng r) (wr_now r) w p)) AND 1 \<noteq> 0"
  shows "pending_key (snd (settle_candidate (wr_nf r) (wr_ng r) (reading_hng r) (wr_now r) w p)) = reading_key r \<and>
    (fp_since (snd (settle_candidate (wr_nf r) (wr_ng r) (reading_hng r) (wr_now r) w p)) = wr_now r \<or>
     fp_have p AND 1 \<noteq> 0 \<and> pending_key p = reading_key r \<and>
     fp_since (snd (settle_candidate (wr_nf r) (wr_ng r) (reading_hng r) (wr_now r) w p)) = fp_since p)"
  using assms
  by (cases "has (wr_have r) FRESH_HAVE_NG")
     (auto simp: settle_candidate_def Let_def pending_key_def reading_key_def split: if_split_asm)

lemma candidate_adopt:
  assumes "fst (settle_candidate (wr_nf r) (wr_ng r) (reading_hng r) (wr_now r) FRESH_SETTLE_MS p)"
  shows "fp_have p AND 1 \<noteq> 0 \<and> pending_key p = reading_key r \<and> 5000 \<le> wr_now r - fp_since p"
  using assms
  by (cases "has (wr_have r) FRESH_HAVE_NG")
     (auto simp: settle_candidate_def Let_def pending_key_def reading_key_def FRESH_SETTLE_MS_def split: if_split_asm)

lemma freshness_settle_cases:
  "snd (freshness_settle nf pf ng pg h now w p) = p\<lparr>fp_have := 0\<rparr> \<or>
   freshness_settle nf pf ng pg h now w p = settle_candidate nf ng (if has h FRESH_HAVE_NG then 2 else 0) now w p"
  by (simp add: freshness_settle_def Let_def)

lemma settle_step_pending:
  assumes "fp_have (fst (settle_step p r)) AND 1 \<noteq> 0"
  shows "pending_key (fst (settle_step p r)) = reading_key r \<and>
     (fp_since (fst (settle_step p r)) = wr_now r \<or>
      fp_have p AND 1 \<noteq> 0 \<and> pending_key p = reading_key r \<and> fp_since (fst (settle_step p r)) = fp_since p)"
proof -
  have "fst (settle_step p r) = snd (settle_candidate (wr_nf r) (wr_ng r) (reading_hng r) (wr_now r) FRESH_SETTLE_MS p)"
    using assms freshness_settle_cases [of "wr_nf r" "wr_pf r" "wr_ng r" "wr_pg r" "wr_have r" "wr_now r" FRESH_SETTLE_MS p]
    by (auto simp: settle_step_def split_beta split del: if_split)
  then show ?thesis using assms candidate_pending [of r FRESH_SETTLE_MS p] by simp
qed

lemma settle_step_adopt:
  assumes "snd (settle_step p r) = [True]" and "new_level r"
  shows "fp_have p AND 1 \<noteq> 0 \<and> pending_key p = reading_key r \<and> 5000 \<le> wr_now r - fp_since p"
proof (rule candidate_adopt)
  show "fst (settle_candidate (wr_nf r) (wr_ng r) (reading_hng r) (wr_now r) FRESH_SETTLE_MS p)"
    using assms unfolding settle_step_def freshness_settle_def new_level_def
    by (auto simp: Let_def split_beta reading_key_def split del: if_split split: if_split_asm)
qed

interpretation settle: machine settle_step no_pending "\<lambda>_. True"
  by unfold_locales simp_all

lemma settle_run_pending:
  assumes "fp_have (fst (run settle_step no_pending rs)) AND 1 \<noteq> 0"
    and "pending_key (fst (run settle_step no_pending rs)) = k" and "fp_since (fst (run settle_step no_pending rs)) = t"
  shows "\<exists>pre f suf. rs = pre @ f # suf \<and> (wr_now f = t \<and> reading_key f = k) \<and> (\<forall>x\<in>set suf. reading_key x = k)"
proof (rule settle.since_run)
  let ?K = "\<lambda>p. fp_have p AND 1 \<noteq> 0 \<and> pending_key p = k \<and> fp_since p = t"
  show "?K (fst (run settle_step no_pending rs))" using assms by blast
  show "\<not> ?K no_pending" by (simp add: no_pending_def)
  fix s e
  assume "?K (fst (settle_step s e))"
  then show "(wr_now e = t \<and> reading_key e = k) \<or> ?K s \<and> reading_key e = k"
    using settle_step_pending [of s e] by metis
qed

section \<open>Properties\<close>

text \<open>
  Over any sequence of water readings, a level that differs from the
  baseline and carries no measured-empty alarm is adopted only when an uninterrupted run of readings with
  this same fresh and grey level goes back at least five seconds: the ramp of a starting measurement is
  never adopted.
\<close>

theorem water_adopted_only_after_ramp:
  assumes "new_level r"
    and "snd (settle_step (fst (run settle_step no_pending rs)) r) = [True]"
  shows "\<exists>pre r0 suf. rs = pre @ r0 # suf \<and> 5000 \<le> wr_now r - wr_now r0 \<and>
     (\<forall>x\<in>set (r0 # suf). reading_key x = reading_key r)"
proof -
  let ?p = "fst (run settle_step no_pending rs)"
  have a: "fp_have ?p AND 1 \<noteq> 0" "pending_key ?p = reading_key r" "5000 \<le> wr_now r - fp_since ?p"
    using settle_step_adopt [OF assms(2,1)] by auto
  from settle_run_pending [OF a(1,2) refl] obtain pre f suf where
    f: "rs = pre @ f # suf" "wr_now f = fp_since ?p" "reading_key f = reading_key r"
      "\<forall>x\<in>set suf. reading_key x = reading_key r" by blast
  then have "rs = pre @ f # suf \<and> 5000 \<le> wr_now r - wr_now f \<and> (\<forall>x\<in>set (f # suf). reading_key x = reading_key r)"
    using a(3) by auto
  then show ?thesis by blast
qed

theorem water_adopted_only_after_ramp_witness:
  "\<exists>pre r0 suf. [\<lparr>wr_nf = 12, wr_pf = 40, wr_ng = 3, wr_pg = 3, wr_have = 0xf, wr_now = 1000\<rparr>] = pre @ r0 # suf \<and>
     5000 \<le> 6000 - wr_now r0 \<and> (\<forall>x\<in>set (r0 # suf). reading_key x = (12, Some 3))"
proof -
  let ?first = "\<lparr>wr_nf = 12, wr_pf = 40, wr_ng = 3, wr_pg = 3, wr_have = 0xf, wr_now = 1000\<rparr>"
  let ?r = "\<lparr>wr_nf = 12, wr_pf = 40, wr_ng = 3, wr_pg = 3, wr_have = 0xf, wr_now = 6000\<rparr>"
  have n: "new_level ?r" by code_simp
  have s: "snd (settle_step (fst (run settle_step no_pending [?first])) ?r) = [True]" by code_simp
  have k: "reading_key ?r = (12, Some 3)" by code_simp
  have t: "wr_now ?r = 6000" by simp
  show ?thesis using water_adopted_only_after_ramp [OF n s] unfolding k t .
qed

text \<open>
  The not-measuring latch is never adopted: with a known baseline, a fresh
  level of at most one liter that differs from the baseline while the grey level is the baseline's (or
  either grey level is unknown), without the measured-empty alarm, is held and clears the candidate; on a
  cold start such a level is held too.
\<close>

theorem water_latch_never_adopted:
  assumes "has (wr_have r) FRESH_HAVE_NF" and "\<not> has (wr_have r) FRESH_NEW_EMPTY" and "wr_nf r \<le> 1"
    and "has (wr_have r) FRESH_HAVE_PF \<Longrightarrow> wr_nf r \<noteq> wr_pf r \<and>
      (has (wr_have r) FRESH_HAVE_NG \<longrightarrow> has (wr_have r) FRESH_HAVE_PG \<longrightarrow> wr_ng r = wr_pg r)"
  shows "settle_step p r = (p\<lparr>fp_have := 0\<rparr>, [False])"
  using assms
  by (auto simp: settle_step_def freshness_settle_def freshness_implausible_drop_def Let_def FRESH_LATCH_MAX_L_def)

theorem water_latch_never_adopted_witness:
  "settle_step no_pending \<lparr>wr_nf = 1, wr_pf = 60, wr_ng = 5, wr_pg = 5, wr_have = 0xf, wr_now = 9\<rparr> = (no_pending, [False])"
proof -
  let ?r = "\<lparr>wr_nf = 1, wr_pf = 60, wr_ng = 5, wr_pg = 5, wr_have = 0xf :: u8, wr_now = 9\<rparr>"
  have "settle_step no_pending ?r = (no_pending\<lparr>fp_have := 0\<rparr>, [False])"
    by (rule water_latch_never_adopted) (simp_all add: FRESH_HAVE_NF_def FRESH_NEW_EMPTY_def)
  then show ?thesis by (simp add: no_pending_def)
qed

end
