(* ===== verification/Pairing_SM.thy ===== *)
theory Pairing_SM
  imports Prelude
begin

text \<open>
  The pairing state machine of \<^verbatim>\<open>cali_core/pairing_sm.c\<close> with the constants of
  \<^verbatim>\<open>csrc/pairing_consts.h\<close>. One call of \<open>cali_pair_step\<close> takes an event and its argument and returns
  the new state and the actions for the driver. The lemmas show the invariant of its state, that the
  actions respect the life cycle of the transport, and the retry budget.
\<close>

datatype pair_st = PAIR_IDLE | PAIR_SCANNING | PAIR_CONNECTING | PAIR_WAITING_PASSKEY | PAIR_PAIRING
  | PAIR_VERIFYING | PAIR_BONDED | PAIR_ERROR | PAIR_RESETTING

text \<open>\<open>PAIR_EV_OTHER\<close> stands for the event numbers outside the enumeration.\<close>

datatype pair_ev = PAIR_EV_START | PAIR_EV_DEVICE_FOUND | PAIR_EV_CONNECTED | PAIR_EV_PASSKEY_REQUESTED
  | PAIR_EV_PASSKEY_ENTERED | PAIR_EV_PAIR_OK | PAIR_EV_PAIR_FAIL | PAIR_EV_VERIFY_OK | PAIR_EV_VERIFY_FAIL
  | PAIR_EV_TIMEOUT | PAIR_EV_CANCEL | PAIR_EV_RESET | PAIR_EV_RESET_DONE | PAIR_EV_CONNECT_FAIL | PAIR_EV_OTHER

datatype pair_act = PAIR_ACT_START_SCAN | PAIR_ACT_STOP_SCAN | PAIR_ACT_CONNECT | PAIR_ACT_PAIR
  | PAIR_ACT_SEND_PASSKEY | PAIR_ACT_VERIFY | PAIR_ACT_PERSIST_BOND | PAIR_ACT_DISCONNECT | PAIR_ACT_REMOVE_BOND

datatype pair_err = PAIR_ERR_NONE | PAIR_ERR_TIMEOUT | PAIR_ERR_PAIR | PAIR_ERR_VERIFY | PAIR_ERR_CONNECT

definition PAIR_MAX_ATTEMPTS :: u8 where "PAIR_MAX_ATTEMPTS = 3"

fun PAIR_TIMEOUT_S :: "pair_st \<Rightarrow> u16" where
  "PAIR_TIMEOUT_S PAIR_SCANNING = 30"
| "PAIR_TIMEOUT_S PAIR_CONNECTING = 20"
| "PAIR_TIMEOUT_S PAIR_WAITING_PASSKEY = 60"
| "PAIR_TIMEOUT_S PAIR_PAIRING = 15"
| "PAIR_TIMEOUT_S PAIR_VERIFYING = 10"
| "PAIR_TIMEOUT_S PAIR_RESETTING = 10"
| "PAIR_TIMEOUT_S _ = 0"

record cali_pair_state =
  ps_st :: pair_st
  ps_attempts :: u8
  ps_error :: pair_err

record cali_pair_action =
  pa_act :: pair_act
  pa_arg :: u32

definition CALI_PAIR_MAX_ACTIONS :: nat where "CALI_PAIR_MAX_ACTIONS = 2"

text \<open>\<open>emit o n act arg\<close> appends at index \<open>n\<close>; the list of the actions so far stands for \<open>o\<close> and \<open>n\<close>.\<close>

definition pair_emit :: "cali_pair_action list \<Rightarrow> pair_act \<Rightarrow> u32 \<Rightarrow> cali_pair_action list" where
  "pair_emit os act arg = os @ [\<lparr>pa_act = act, pa_arg = arg\<rparr>]"

definition pair_cleanup :: "pair_st \<Rightarrow> cali_pair_action list" where
  "pair_cleanup st =
     (if st = PAIR_SCANNING then pair_emit [] PAIR_ACT_STOP_SCAN 0
      else if st = PAIR_CONNECTING \<or> st = PAIR_WAITING_PASSKEY \<or> st = PAIR_PAIRING \<or> st = PAIR_VERIFYING
      then pair_emit [] PAIR_ACT_DISCONNECT 0
      else [])"

definition pair_set :: "cali_pair_state \<Rightarrow> pair_st \<Rightarrow> u8 \<Rightarrow> pair_err \<Rightarrow> cali_pair_state" where
  "pair_set ps st att err = ps\<lparr>ps_st := st, ps_attempts := att, ps_error := err\<rparr>"

definition cali_pair_step ::
  "cali_pair_state \<Rightarrow> pair_ev \<times> u32 \<Rightarrow> cali_pair_state \<times> cali_pair_action list" where
  "cali_pair_step ps e =
     (let (ev, arg) = e; st = ps_st ps in
      if ev = PAIR_EV_CANCEL then (pair_set ps PAIR_IDLE 0 PAIR_ERR_NONE, pair_cleanup st)
      else if ev = PAIR_EV_TIMEOUT \<and> PAIR_TIMEOUT_S st \<noteq> 0
      then (pair_set ps PAIR_ERROR (ps_attempts ps) PAIR_ERR_TIMEOUT, pair_cleanup st)
      else if ev = PAIR_EV_RESET \<and> (st = PAIR_BONDED \<or> st = PAIR_ERROR \<or> st = PAIR_IDLE)
      then (pair_set ps PAIR_RESETTING 0 PAIR_ERR_NONE, pair_emit [] PAIR_ACT_REMOVE_BOND 0)
      else if (st = PAIR_IDLE \<or> st = PAIR_ERROR) \<and> ev = PAIR_EV_START
      then (pair_set ps PAIR_SCANNING 0 PAIR_ERR_NONE, pair_emit [] PAIR_ACT_START_SCAN 0)
      else if st = PAIR_SCANNING \<and> ev = PAIR_EV_DEVICE_FOUND
      then (pair_set ps PAIR_CONNECTING (ps_attempts ps) PAIR_ERR_NONE,
            pair_emit (pair_emit [] PAIR_ACT_STOP_SCAN 0) PAIR_ACT_CONNECT 0)
      else if st = PAIR_CONNECTING \<and> ev = PAIR_EV_CONNECTED
      then (pair_set ps PAIR_PAIRING (ps_attempts ps) PAIR_ERR_NONE, pair_emit [] PAIR_ACT_PAIR 0)
      else if st = PAIR_PAIRING \<and> ev = PAIR_EV_PASSKEY_REQUESTED
      then (pair_set ps PAIR_WAITING_PASSKEY (ps_attempts ps) PAIR_ERR_NONE, [])
      else if st = PAIR_WAITING_PASSKEY \<and> ev = PAIR_EV_PASSKEY_ENTERED
      then (pair_set ps PAIR_PAIRING (ps_attempts ps) PAIR_ERR_NONE, pair_emit [] PAIR_ACT_SEND_PASSKEY arg)
      else if st = PAIR_PAIRING \<and> ev = PAIR_EV_PAIR_OK
      then (pair_set ps PAIR_VERIFYING (ps_attempts ps) PAIR_ERR_NONE, pair_emit [] PAIR_ACT_VERIFY 0)
      else if st = PAIR_PAIRING \<and> ev = PAIR_EV_PAIR_FAIL \<or> st = PAIR_CONNECTING \<and> ev = PAIR_EV_CONNECT_FAIL
      then
        let att = ps_attempts ps + 1;
            err = (if ev = PAIR_EV_PAIR_FAIL then PAIR_ERR_PAIR else PAIR_ERR_CONNECT)
        in if att < PAIR_MAX_ATTEMPTS
           then (pair_set ps PAIR_SCANNING att PAIR_ERR_NONE,
                 pair_emit (pair_emit [] PAIR_ACT_DISCONNECT 0) PAIR_ACT_START_SCAN 0)
           else (pair_set ps PAIR_ERROR att err, pair_emit [] PAIR_ACT_DISCONNECT 0)
      else if st = PAIR_VERIFYING \<and> ev = PAIR_EV_VERIFY_OK
      then (pair_set ps PAIR_BONDED (ps_attempts ps) PAIR_ERR_NONE, pair_emit [] PAIR_ACT_PERSIST_BOND 0)
      else if st = PAIR_VERIFYING \<and> ev = PAIR_EV_VERIFY_FAIL
      then (pair_set ps PAIR_ERROR (ps_attempts ps) PAIR_ERR_VERIFY, pair_emit [] PAIR_ACT_DISCONNECT 0)
      else if st = PAIR_RESETTING \<and> ev = PAIR_EV_RESET_DONE
      then (pair_set ps PAIR_IDLE 0 PAIR_ERR_NONE, [])
      else (ps, []))"

lemmas pair_defs = cali_pair_step_def pair_set_def pair_cleanup_def pair_emit_def PAIR_MAX_ATTEMPTS_def

section \<open>Invariant\<close>

definition pair_init :: cali_pair_state where
  "pair_init = \<lparr>ps_st = PAIR_IDLE, ps_attempts = 0, ps_error = PAIR_ERR_NONE\<rparr>"

definition pair_inv :: "cali_pair_state \<Rightarrow> bool" where
  "pair_inv s \<longleftrightarrow> ps_attempts s \<le> PAIR_MAX_ATTEMPTS \<and>
     (ps_attempts s = PAIR_MAX_ATTEMPTS \<longrightarrow> ps_st s = PAIR_ERROR) \<and>
     (ps_st s = PAIR_ERROR \<longleftrightarrow> ps_error s \<noteq> PAIR_ERR_NONE)"

lemma attempts_next: "a \<le> 3 \<Longrightarrow> a \<noteq> 3 \<Longrightarrow> a + 1 \<le> (3 :: u8) \<and> unat (a + 1) = unat a + 1 \<and> unat a \<le> 2"
  by (simp add: word_le_nat_alt unat_word_ariths word_unat_eq_iff)

lemma pair_inv_step: "pair_inv s \<Longrightarrow> pair_inv (fst (cali_pair_step s e))"
  by (cases s; cases e; cases "ps_st s"; cases "fst e")
     (simp_all add: pair_defs pair_inv_def Let_def attempts_next, auto)

lemma pair_out_bound: "length (snd (cali_pair_step s e)) \<le> CALI_PAIR_MAX_ACTIONS"
  by (cases e) (simp add: pair_defs Let_def CALI_PAIR_MAX_ACTIONS_def)

interpretation pairing: bounded_machine cali_pair_step pair_init pair_inv CALI_PAIR_MAX_ACTIONS
  by unfold_locales
     (simp_all add: pair_inv_step pair_out_bound, simp add: pair_inv_def pair_init_def PAIR_MAX_ATTEMPTS_def)

section \<open>The life cycle of the transport\<close>

text \<open>
  What the transport is doing, as its driver sees it: the actions are its transitions, and \<open>None\<close>
  marks an action that its phase does not allow.
\<close>

datatype pair_phase = Ph_Idle | Ph_Scan | Ph_Conn | Ph_Pair | Ph_Verify

fun phase_act :: "pair_phase \<Rightarrow> pair_act \<Rightarrow> pair_phase option" where
  "phase_act Ph_Idle PAIR_ACT_START_SCAN = Some Ph_Scan"
| "phase_act Ph_Idle PAIR_ACT_CONNECT = Some Ph_Conn"
| "phase_act Ph_Idle PAIR_ACT_REMOVE_BOND = Some Ph_Idle"
| "phase_act Ph_Scan PAIR_ACT_STOP_SCAN = Some Ph_Idle"
| "phase_act Ph_Conn PAIR_ACT_PAIR = Some Ph_Pair"
| "phase_act Ph_Conn PAIR_ACT_DISCONNECT = Some Ph_Idle"
| "phase_act Ph_Pair PAIR_ACT_SEND_PASSKEY = Some Ph_Pair"
| "phase_act Ph_Pair PAIR_ACT_VERIFY = Some Ph_Verify"
| "phase_act Ph_Pair PAIR_ACT_DISCONNECT = Some Ph_Idle"
| "phase_act Ph_Verify PAIR_ACT_PERSIST_BOND = Some Ph_Idle"
| "phase_act Ph_Verify PAIR_ACT_DISCONNECT = Some Ph_Idle"
| "phase_act _ _ = None"

definition phase_upd :: "pair_phase option \<Rightarrow> cali_pair_action \<Rightarrow> pair_phase option" where
  "phase_upd ph a = Option.bind ph (\<lambda>p. phase_act p (pa_act a))"

fun st_phase :: "pair_st \<Rightarrow> pair_phase" where
  "st_phase PAIR_SCANNING = Ph_Scan"
| "st_phase PAIR_CONNECTING = Ph_Conn"
| "st_phase PAIR_PAIRING = Ph_Pair"
| "st_phase PAIR_WAITING_PASSKEY = Ph_Pair"
| "st_phase PAIR_VERIFYING = Ph_Verify"
| "st_phase _ = Ph_Idle"

lemma pair_track_step:
  "foldl phase_upd (Some (st_phase (ps_st s))) (snd (cali_pair_step s e)) = Some (st_phase (ps_st (fst (cali_pair_step s e))))"
  by (cases e; cases "ps_st s") (auto simp: pair_defs phase_upd_def Let_def)

interpretation pairing_life: tracked_machine cali_pair_step pair_init pair_inv phase_upd
    "\<lambda>s. Some (st_phase (ps_st s))"
  by unfold_locales (rule pair_track_step)

section \<open>The retry budget\<close>

definition connects_left :: "cali_pair_state \<Rightarrow> nat" where
  "connects_left s =
     (case ps_st s of
        PAIR_SCANNING \<Rightarrow> 3 - unat (ps_attempts s)
      | PAIR_CONNECTING \<Rightarrow> 2 - unat (ps_attempts s)
      | PAIR_PAIRING \<Rightarrow> 2 - unat (ps_attempts s)
      | PAIR_WAITING_PASSKEY \<Rightarrow> 2 - unat (ps_attempts s)
      | _ \<Rightarrow> 0)"

lemma pair_pay_step:
  "pair_inv s \<Longrightarrow>
     sum_list (map (\<lambda>a. if pa_act a = PAIR_ACT_CONNECT then 1 else 0) (snd (cali_pair_step s e))) +
       connects_left (fst (cali_pair_step s e)) \<le>
     connects_left s + (if fst e = PAIR_EV_START then 3 else 0)"
  by (cases s; cases e; cases "ps_st s"; cases "fst e")
     (simp_all add: pair_defs pair_inv_def connects_left_def Let_def attempts_next Suc_diff_le [symmetric])

interpretation pairing_budget: budget_machine cali_pair_step pair_init pair_inv
    "\<lambda>a. if pa_act a = PAIR_ACT_CONNECT then 1 else 0" connects_left
    "\<lambda>e. if fst e = PAIR_EV_START then 3 else 0"
  by unfold_locales (rule pair_pay_step)

section \<open>Properties\<close>

text \<open>
  C15. For every sequence of events the actions of the pairing machine form a legal
  life cycle of the transport: it scans only when idle, connects only after the scan was stopped, pairs
  only on a connection, sends a passkey and verifies only while pairing, persists a bond only after a
  verification, and disconnects or stops what it started; the phase it leaves the transport in is the one
  its state names.
\<close>

theorem pair_actions_legal:
  "foldl phase_upd (Some Ph_Idle) (snd (run cali_pair_step pair_init es)) =
     Some (st_phase (ps_st (fst (run cali_pair_step pair_init es))))"
  using pairing_life.track_run [of es] by (simp add: pair_init_def)

text \<open>
  Pairing never retries without end: over every sequence of events at most three
  connections are asked for per START event, whatever the peer answers.
\<close>

theorem pair_connect_budget:
  "length (filter (\<lambda>a. pa_act a = PAIR_ACT_CONNECT) (snd (run cali_pair_step pair_init es))) \<le>
     3 * length (filter (\<lambda>e. fst e = PAIR_EV_START) es)"
  using pairing_budget.pay_run [of es]
  by (simp add: sum_list_indicator connects_left_def pair_init_def)

text \<open>
  After every sequence of events the machine has made at most three attempts, all
  three only in the error state, carries an error code exactly in the error state, and has filled at most
  two slots of its caller's buffer per event.
\<close>

theorem pair_run_invariant:
  "pair_inv (fst (run cali_pair_step pair_init es)) \<and>
     length (snd (run cali_pair_step pair_init es)) \<le> CALI_PAIR_MAX_ACTIONS * length es"
  by (simp add: pairing.inv_run pairing.out_bound_run)

end
