(* ===== verification/Wifi_SM.thy ===== *)
theory Wifi_SM
  imports Prelude
begin

text \<open>
  The WiFi provisioning state machine of \<^verbatim>\<open>cali_core/wifi_sm.c\<close> with the constants of
  \<^verbatim>\<open>csrc/net_consts.h\<close>. The lemmas show that its belief about the hotspot is the hotspot's real state,
  that a failed join never wipes credentials that joined before, and the retry backoff.
\<close>

datatype wifi_st = WIFI_UNPROVISIONED | WIFI_SETUP_AP | WIFI_CONNECTING | WIFI_ONLINE | WIFI_RETRYING
  | WIFI_SETUP_AP_RETRYING

text \<open>\<open>WEV_OTHER\<close> stands for the event numbers outside the enumeration.\<close>

datatype wifi_ev = WEV_BOOT_WITH_CREDS | WEV_BOOT_NO_CREDS | WEV_CREDS_SET | WEV_CREDS_FORGET | WEV_GOT_IP
  | WEV_LOST | WEV_FAILED | WEV_AP_STARTED | WEV_TICK | WEV_CREDS_REPLACE | WEV_OTHER

datatype wifi_act = WACT_AP_START | WACT_AP_STOP | WACT_STA_START | WACT_STA_STOP | WACT_MDNS
  | WACT_CLEAR_CREDS | WACT_LOG_REASON | WACT_RESTORE_PREV

definition WIFI_MAX_ACTIONS :: nat where "WIFI_MAX_ACTIONS = 3"
definition WIFI_REPLACING :: u8 where "WIFI_REPLACING = 2"
definition NET_AP_CLOSE_MS :: u64 where "NET_AP_CLOSE_MS = 30000"
definition NET_RETRY_MAX_MS :: u32 where "NET_RETRY_MAX_MS = 60000"
definition NET_RETRY_MIN_MS :: u32 where "NET_RETRY_MIN_MS = 1000"
definition NET_SETUP_AFTER_MS :: u64 where "NET_SETUP_AFTER_MS = 300000"

record cali_wifi_action =
  wa_act :: wifi_act
  wa_arg :: u32

record cali_wifi_state =
  ws_st :: wifi_st
  ws_ap_up :: u8
  ws_joined_once :: u8
  ws_retry_ms :: u32
  ws_since_ms :: u64
  ws_next_try_ms :: u64

definition wifi_emit :: "cali_wifi_action list \<Rightarrow> wifi_act \<Rightarrow> u32 \<Rightarrow> cali_wifi_action list" where
  "wifi_emit os act arg = os @ [\<lparr>wa_act = act, wa_arg = arg\<rparr>]"

definition wifi_set :: "cali_wifi_state \<Rightarrow> wifi_st \<Rightarrow> u8 \<Rightarrow> u8 \<Rightarrow> u32 \<Rightarrow> u64 \<Rightarrow> u64 \<Rightarrow> cali_wifi_state" where
  "wifi_set s st ap_up joined retry since next =
     s\<lparr>ws_st := st, ws_ap_up := ap_up, ws_joined_once := joined, ws_retry_ms := retry, ws_since_ms := since,
       ws_next_try_ms := next\<rparr>"

definition tick_retrying :: "cali_wifi_state \<Rightarrow> u64 \<Rightarrow> cali_wifi_state \<times> cali_wifi_action list" where
  "tick_retrying s now =
     (if ws_since_ms s = 0
      then (s\<lparr>ws_since_ms := now, ws_next_try_ms := now + ucast (ws_retry_ms s)\<rparr>, [])
      else
        let (s1, n1) =
              (if now \<ge> ws_next_try_ms s
               then let retry = (if ws_retry_ms s * 2 < NET_RETRY_MAX_MS then ws_retry_ms s * 2 else NET_RETRY_MAX_MS)
                    in (s\<lparr>ws_retry_ms := retry, ws_next_try_ms := now + ucast retry\<rparr>, wifi_emit [] WACT_STA_START 0)
               else (s, []))
        in if ws_st s1 = WIFI_RETRYING \<and> now - ws_since_ms s1 \<ge> NET_SETUP_AFTER_MS
           then (s1\<lparr>ws_st := WIFI_SETUP_AP_RETRYING, ws_ap_up := 1\<rparr>, wifi_emit n1 WACT_AP_START 0)
           else (s1, n1))"

definition cali_wifi_step ::
  "cali_wifi_state \<Rightarrow> wifi_ev \<times> u64 \<Rightarrow> cali_wifi_state \<times> cali_wifi_action list" where
  "cali_wifi_step s e =
     (let (ev, arg) = e; st = ws_st s in
      if ev = WEV_CREDS_FORGET
      then (wifi_set s WIFI_SETUP_AP 1 0 0 0 0,
            wifi_emit (wifi_emit (wifi_emit [] WACT_STA_STOP 0) WACT_CLEAR_CREDS 0) WACT_AP_START 0)
      else if ev = WEV_CREDS_REPLACE then
        if (st = WIFI_CONNECTING \<or> st = WIFI_ONLINE \<or> st = WIFI_RETRYING) \<and> ws_joined_once s \<noteq> 0
        then (wifi_set s WIFI_CONNECTING 1 WIFI_REPLACING 0 0 0,
              wifi_emit (wifi_emit (wifi_emit [] WACT_STA_STOP 0) WACT_AP_START 0) WACT_STA_START 0)
        else (s, [])
      else case st of
        WIFI_UNPROVISIONED \<Rightarrow>
          if ev = WEV_BOOT_NO_CREDS then (wifi_set s WIFI_SETUP_AP 1 0 0 0 0, wifi_emit [] WACT_AP_START 0)
          else if ev = WEV_BOOT_WITH_CREDS
          then (wifi_set s WIFI_CONNECTING (ws_ap_up s) 1 0 0 0, wifi_emit [] WACT_STA_START 0)
          else (s, [])
      | WIFI_SETUP_AP \<Rightarrow>
          if ev = WEV_CREDS_SET then (s\<lparr>ws_st := WIFI_CONNECTING\<rparr>, wifi_emit [] WACT_STA_START 0) else (s, [])
      | WIFI_CONNECTING \<Rightarrow>
          if ev = WEV_GOT_IP then (wifi_set s WIFI_ONLINE (ws_ap_up s) 1 0 0 0, wifi_emit [] WACT_MDNS 0)
          else if ev = WEV_FAILED then
            let reason = ucast arg :: u32 in
            if ws_joined_once s = 0
            then (wifi_set s WIFI_SETUP_AP 1 0 0 0 0,
                  wifi_emit (wifi_emit [] WACT_LOG_REASON reason) WACT_CLEAR_CREDS 0)
            else
              let n = wifi_emit [] WACT_LOG_REASON reason;
                  n = (if ws_joined_once s = WIFI_REPLACING then wifi_emit n WACT_RESTORE_PREV 0 else n)
              in (wifi_set s WIFI_RETRYING (ws_ap_up s) 1 NET_RETRY_MIN_MS 0 0, n)
          else (s, [])
      | WIFI_ONLINE \<Rightarrow>
          if ev = WEV_LOST
          then (wifi_set s WIFI_RETRYING (ws_ap_up s) (ws_joined_once s) NET_RETRY_MIN_MS 0 0, wifi_emit [] WACT_STA_STOP 0)
          else if ev = WEV_TICK then
            if ws_since_ms s = 0 then (s\<lparr>ws_since_ms := arg\<rparr>, [])
            else if ws_ap_up s \<noteq> 0 \<and> ws_since_ms s + NET_AP_CLOSE_MS \<le> arg
            then (s\<lparr>ws_ap_up := 0\<rparr>, wifi_emit [] WACT_AP_STOP 0)
            else (s, [])
          else (s, [])
      | _ \<Rightarrow>
          if ev = WEV_GOT_IP then (wifi_set s WIFI_ONLINE (ws_ap_up s) 1 0 0 0, wifi_emit [] WACT_MDNS 0)
          else if ev = WEV_CREDS_SET \<and> st = WIFI_SETUP_AP_RETRYING
          then (wifi_set s WIFI_CONNECTING (ws_ap_up s) 0 0 0 0, wifi_emit [] WACT_STA_START 0)
          else if ev = WEV_TICK then tick_retrying s arg
          else (s, []))"

lemmas wifi_consts = WIFI_MAX_ACTIONS_def WIFI_REPLACING_def NET_AP_CLOSE_MS_def NET_RETRY_MAX_MS_def
  NET_RETRY_MIN_MS_def NET_SETUP_AFTER_MS_def
lemmas wifi_defs = cali_wifi_step_def wifi_set_def wifi_emit_def tick_retrying_def Let_def

section \<open>Invariant\<close>

definition wifi_init :: cali_wifi_state where
  "wifi_init = \<lparr>ws_st = WIFI_UNPROVISIONED, ws_ap_up = 0, ws_joined_once = 0, ws_retry_ms = 0, ws_since_ms = 0,
     ws_next_try_ms = 0\<rparr>"

abbreviation wifi_retrying :: "cali_wifi_state \<Rightarrow> bool" where
  "wifi_retrying s \<equiv> ws_st s = WIFI_RETRYING \<or> ws_st s = WIFI_SETUP_AP_RETRYING"

definition wifi_inv :: "cali_wifi_state \<Rightarrow> bool" where
  "wifi_inv s \<longleftrightarrow>
     ws_ap_up s \<le> 1 \<and> ws_joined_once s \<le> 2 \<and>
     (ws_st s = WIFI_SETUP_AP \<longrightarrow> ws_ap_up s = 1 \<and> ws_joined_once s = 0) \<and>
     (ws_st s = WIFI_SETUP_AP_RETRYING \<longrightarrow> ws_ap_up s = 1) \<and>
     (ws_st s = WIFI_CONNECTING \<and> ws_joined_once s = 0 \<longrightarrow> ws_ap_up s = 1) \<and>
     (ws_st s = WIFI_ONLINE \<or> wifi_retrying s \<longrightarrow> ws_joined_once s = 1) \<and>
     (wifi_retrying s \<longrightarrow> NET_RETRY_MIN_MS \<le> ws_retry_ms s \<and> ws_retry_ms s \<le> NET_RETRY_MAX_MS)"

lemma retry_double: "1000 \<le> r \<Longrightarrow> r \<le> 60000 \<Longrightarrow> 1000 \<le> r * (2 :: u32) \<and> unat (r * 2) = unat r * 2"
  by (simp add: word_le_nat_alt unat_word_ariths)

lemma wifi_inv_step: "wifi_inv s \<Longrightarrow> wifi_inv (fst (cali_wifi_step s e))"
  by (cases s; cases e; cases "ws_st s"; cases "fst e")
     (simp_all add: wifi_defs wifi_inv_def wifi_consts retry_double less_imp_le)

lemma wifi_out_bound: "length (snd (cali_wifi_step s e)) \<le> WIFI_MAX_ACTIONS"
  by (cases e; cases "ws_st s") (simp_all add: wifi_defs WIFI_MAX_ACTIONS_def)

interpretation wifi: bounded_machine cali_wifi_step wifi_init wifi_inv WIFI_MAX_ACTIONS
  by unfold_locales (simp_all add: wifi_inv_step wifi_out_bound, simp add: wifi_inv_def wifi_init_def)

section \<open>The hotspot\<close>

definition ap_upd :: "bool \<Rightarrow> cali_wifi_action \<Rightarrow> bool" where
  "ap_upd up a = (if wa_act a = WACT_AP_START then True else if wa_act a = WACT_AP_STOP then False else up)"

lemma wifi_track_step:
  "wifi_inv s \<Longrightarrow> foldl ap_upd (ws_ap_up s = 1) (snd (cali_wifi_step s e)) = (ws_ap_up (fst (cali_wifi_step s e)) = 1)"
  by (cases s; cases e; cases "ws_st s"; cases "fst e")
     (simp_all add: wifi_defs wifi_inv_def ap_upd_def)

interpretation wifi_ap: tracked_machine cali_wifi_step wifi_init wifi_inv ap_upd "\<lambda>s. ws_ap_up s = 1"
  by unfold_locales (rule wifi_track_step)

section \<open>Credentials\<close>

abbreviation unproven :: "cali_wifi_state \<Rightarrow> bool" where
  "unproven s \<equiv> ws_st s = WIFI_CONNECTING \<and> ws_joined_once s = 0"

lemma unproven_step:
  "wifi_inv s \<Longrightarrow> unproven (fst (cali_wifi_step s e)) \<Longrightarrow>
     fst e = WEV_CREDS_SET \<or> unproven s \<and> fst e \<noteq> WEV_GOT_IP"
  by (cases s; cases e; cases "ws_st s"; cases "fst e")
     (simp_all add: wifi_defs wifi_inv_def wifi_consts split: if_splits)

lemma clear_creds_step:
  "wifi_inv s \<Longrightarrow> WACT_CLEAR_CREDS \<in> wa_act ` set (snd (cali_wifi_step s e)) \<Longrightarrow> fst e \<noteq> WEV_CREDS_FORGET \<Longrightarrow>
     unproven s \<and> fst e = WEV_FAILED"
  by (cases s; cases e; cases "ws_st s"; cases "fst e")
     (simp_all add: wifi_defs wifi_inv_def split: if_splits)

section \<open>Retries\<close>

definition due_tick :: "cali_wifi_state \<Rightarrow> cali_wifi_state" where
  "due_tick s = fst (cali_wifi_step s (WEV_TICK, ws_next_try_ms s))"

lemma due_tick_step:
  assumes "wifi_retrying s" and "ws_since_ms s \<noteq> 0"
  shows "wifi_retrying (due_tick s)" "ws_since_ms (due_tick s) = ws_since_ms s"
    "ws_retry_ms (due_tick s) = (if ws_retry_ms s * 2 < 60000 then ws_retry_ms s * 2 else 60000)"
  using assms by (auto simp: due_tick_def wifi_defs wifi_consts)

lemma due_ticks_state:
  assumes "wifi_retrying s" and "ws_since_ms s \<noteq> 0" and "ws_retry_ms s = NET_RETRY_MIN_MS"
  shows "wifi_retrying ((due_tick ^^ n) s) \<and> ws_since_ms ((due_tick ^^ n) s) \<noteq> 0 \<and>
    unat (ws_retry_ms ((due_tick ^^ n) s)) = min 60000 (1000 * 2 ^ n)"
proof (induction n)
  case 0
  then show ?case using assms by (simp add: NET_RETRY_MIN_MS_def)
next
  case (Suc n)
  let ?s = "(due_tick ^^ n) s"
  have b: "unat (ws_retry_ms ?s) = min 60000 (1000 * 2 ^ n)" using Suc by simp
  have d: "unat (ws_retry_ms ?s * 2) = unat (ws_retry_ms ?s) * 2" using b by (simp add: unat_word_ariths)
  have "unat (ws_retry_ms (due_tick ?s)) = min 60000 (unat (ws_retry_ms ?s) * 2)"
    using Suc by (simp add: due_tick_step word_less_nat_alt d)
  then show ?case using Suc b by (simp add: due_tick_step)
qed

section \<open>Properties\<close>

text \<open>
  For every sequence of events, the machine's flag \<open>ap_up\<close> is the state of the
  hotspot that its AP_START and AP_STOP actions produced; in particular the setup states always have a
  hotspot up, so a user can always reach the device.
\<close>

theorem wifi_hotspot_tracked:
  "(let s = fst (run cali_wifi_step wifi_init es); up = foldl ap_upd False (snd (run cali_wifi_step wifi_init es))
    in (up \<longleftrightarrow> ws_ap_up s = 1) \<and> (\<not> up \<longrightarrow> ws_st s \<in> {WIFI_UNPROVISIONED, WIFI_CONNECTING, WIFI_ONLINE, WIFI_RETRYING}) \<and>
       (\<not> up \<and> ws_st s = WIFI_CONNECTING \<longrightarrow> ws_joined_once s \<noteq> 0))"
proof -
  let ?s = "fst (run cali_wifi_step wifi_init es)"
  have "foldl ap_upd False (snd (run cali_wifi_step wifi_init es)) = (ws_ap_up ?s = 1)"
    using wifi_ap.track_run [of es] by (simp add: wifi_init_def)
  then show ?thesis using wifi.inv_run [of es] by (cases "ws_st ?s") (auto simp: wifi_inv_def Let_def)
qed

theorem wifi_hotspot_tracked_witness:
  "ws_ap_up (fst (run cali_wifi_step wifi_init [(WEV_BOOT_WITH_CREDS, 0)])) = 0 \<and>
   ws_joined_once (fst (run cali_wifi_step wifi_init [(WEV_BOOT_WITH_CREDS, 0)])) \<noteq> 0"
proof -
  have "\<not> foldl ap_upd False (snd (run cali_wifi_step wifi_init [(WEV_BOOT_WITH_CREDS, 0)]))"
    and "ws_st (fst (run cali_wifi_step wifi_init [(WEV_BOOT_WITH_CREDS, 0)])) = WIFI_CONNECTING"
    and "ws_ap_up (fst (run cali_wifi_step wifi_init [(WEV_BOOT_WITH_CREDS, 0)])) = 0"
    by code_simp+
  with wifi_hotspot_tracked [of "[(WEV_BOOT_WITH_CREDS, 0)]"] show ?thesis by (simp add: Let_def)
qed

text \<open>
  A failed join never erases credentials that worked: when an event other than a
  forget makes the machine clear the stored credentials, they were typed by a CREDS_SET event earlier and
  no address was obtained since.
\<close>

theorem wifi_creds_kept:
  assumes "WACT_CLEAR_CREDS \<in> wa_act ` set (snd (cali_wifi_step (fst (run cali_wifi_step wifi_init es)) e))"
    and "fst e \<noteq> WEV_CREDS_FORGET"
  shows "fst e = WEV_FAILED \<and> (\<exists>pre f suf. es = pre @ f # suf \<and> fst f = WEV_CREDS_SET \<and> (\<forall>x\<in>set suf. fst x \<noteq> WEV_GOT_IP))"
proof -
  have u: "unproven (fst (run cali_wifi_step wifi_init es)) \<and> fst e = WEV_FAILED"
    by (rule clear_creds_step [OF wifi.inv_run assms])
  have "\<exists>pre f suf. es = pre @ f # suf \<and> fst f = WEV_CREDS_SET \<and> (\<forall>x\<in>set suf. fst x \<noteq> WEV_GOT_IP)"
    by (rule wifi.since_run [where K = unproven]) (use u unproven_step in \<open>auto simp: wifi_init_def\<close>)
  with u show ?thesis by blast
qed

theorem wifi_creds_kept_witness:
  "\<exists>pre f suf. [(WEV_BOOT_NO_CREDS, 0 :: u64), (WEV_CREDS_SET, 0)] = pre @ f # suf \<and> fst f = WEV_CREDS_SET \<and>
     (\<forall>x\<in>set suf. fst x \<noteq> WEV_GOT_IP)"
proof -
  have "WACT_CLEAR_CREDS \<in> wa_act ` set (snd (cali_wifi_step
      (fst (run cali_wifi_step wifi_init [(WEV_BOOT_NO_CREDS, 0), (WEV_CREDS_SET, 0)])) (WEV_FAILED, 15)))"
    by code_simp
  from wifi_creds_kept [OF this] show ?thesis by simp
qed

text \<open>
  While the station retries, the waits between its attempts double from one second
  and stay at one minute: after \<open>n\<close> attempts at their due time the wait is \<open>min 60000 (1000 * 2 ^ n)\<close>
  milliseconds, and every due tick starts the station again.
\<close>

theorem wifi_backoff_series:
  assumes "wifi_retrying s" and "ws_since_ms s \<noteq> 0" and "ws_retry_ms s = NET_RETRY_MIN_MS"
  shows "unat (ws_retry_ms ((due_tick ^^ n) s)) = min 60000 (1000 * 2 ^ n) \<and>
    WACT_STA_START \<in> wa_act ` set (snd (cali_wifi_step ((due_tick ^^ n) s) (WEV_TICK, ws_next_try_ms ((due_tick ^^ n) s))))"
  using due_ticks_state [OF assms, of n] by (auto simp: wifi_defs)

theorem wifi_backoff_series_witness:
  "unat (ws_retry_ms ((due_tick ^^ 9) \<lparr>ws_st = WIFI_RETRYING, ws_ap_up = 0, ws_joined_once = 1, ws_retry_ms = 1000,
     ws_since_ms = 5, ws_next_try_ms = 1005\<rparr>)) = 60000"
proof -
  let ?s = "\<lparr>ws_st = WIFI_RETRYING, ws_ap_up = 0, ws_joined_once = 1, ws_retry_ms = 1000, ws_since_ms = 5,
     ws_next_try_ms = 1005\<rparr>"
  have "unat (ws_retry_ms ((due_tick ^^ 9) ?s)) = min 60000 (1000 * 2 ^ 9)"
    using wifi_backoff_series [of ?s 9] by (simp add: NET_RETRY_MIN_MS_def)
  then show ?thesis by simp
qed

text \<open>
  A device that lost its network becomes reachable again: in any retrying state
  reached by the machine whose retry clock is stamped, a tick five minutes or more after the stamp leaves
  the hotspot up.
\<close>

theorem wifi_hotspot_reopens:
  assumes "wifi_retrying (fst (run cali_wifi_step wifi_init es))"
    and "ws_since_ms (fst (run cali_wifi_step wifi_init es)) \<noteq> 0"
    and "NET_SETUP_AFTER_MS \<le> now - ws_since_ms (fst (run cali_wifi_step wifi_init es))"
  shows "foldl ap_upd False (snd (run cali_wifi_step wifi_init (es @ [(WEV_TICK, now)])))"
proof -
  let ?s = "fst (run cali_wifi_step wifi_init es)"
  have "ws_ap_up (fst (cali_wifi_step ?s (WEV_TICK, now))) = 1"
    using assms wifi.inv_run [of es] by (auto simp: wifi_defs wifi_inv_def)
  then show ?thesis using wifi_ap.track_run [of "es @ [(WEV_TICK, now)]"] by (simp add: run_append wifi_init_def)
qed

theorem wifi_hotspot_reopens_witness:
  "foldl ap_upd False (snd (run cali_wifi_step wifi_init ([(WEV_BOOT_WITH_CREDS, 0), (WEV_FAILED, 201), (WEV_TICK, 1000)] @
     [(WEV_TICK, 301000)])))"
  by (rule wifi_hotspot_reopens) (code_simp+)

end
