(* ===== verification/Battery.thy ===== *)
theory Battery
  imports Prelude "HOL-Library.Sublist"
begin

text \<open>
  The battery reading and runtime estimate of \<^verbatim>\<open>cali_core/battery.c\<close>: the file's static variables are the
  record \<open>battery\<close>, with the sample window in a ring of 64 slots. The lemmas refine the ring to the list of
  the samples of the last ten minutes and bound the estimate.
\<close>

record cali_batt =
  bt_pct :: int
  bt_mv :: int
  bt_usb :: int
  bt_charging :: int
  bt_runtime_min :: int

definition CALI_BATT_UNKNOWN :: cali_batt where
  "CALI_BATT_UNKNOWN = \<lparr>bt_pct = -1, bt_mv = -1, bt_usb = -1, bt_charging = -1, bt_runtime_min = -1\<rparr>"

definition CALI_BATT_WINDOW_MS :: u64 where "CALI_BATT_WINDOW_MS = 600000"
definition CALI_BATT_MIN_SPAN_MS :: u64 where "CALI_BATT_MIN_SPAN_MS = 300000"
definition CALI_BATT_MIN_DROP :: int where "CALI_BATT_MIN_DROP = 2"
definition CALI_BATT_SAMPLES :: nat where "CALI_BATT_SAMPLES = 64"

lemmas batt_consts = CALI_BATT_WINDOW_MS_def CALI_BATT_MIN_SPAN_MS_def CALI_BATT_MIN_DROP_def CALI_BATT_SAMPLES_def

record batt_sample =
  sm_t :: u64
  sm_pct :: int

record battery =
  s_last :: cali_batt
  s_win :: "batt_sample list"
  s_head :: nat
  s_n :: nat

definition cali_battery_reset :: "battery \<Rightarrow> battery" where
  "cali_battery_reset b = b\<lparr>s_last := CALI_BATT_UNKNOWN, s_head := 0, s_n := 0\<rparr>"

definition batt_init :: battery where
  "batt_init = \<lparr>s_last = CALI_BATT_UNKNOWN, s_win = replicate CALI_BATT_SAMPLES \<lparr>sm_t = 0, sm_pct = 0\<rparr>, s_head = 0, s_n = 0\<rparr>"

text \<open>
  The estimate is computed in 64-bit arithmetic and converted to \<open>int\<close>, 32 bits wide.
\<close>

definition batt_estimate :: "battery \<Rightarrow> int" where
  "batt_estimate b =
     (if s_n b < 2 then -1
      else
        let oldest = s_head b;
            newest = (s_head b + s_n b - 1) mod CALI_BATT_SAMPLES;
            span = sm_t (s_win b ! newest) - sm_t (s_win b ! oldest);
            drop = sm_pct (s_win b ! oldest) - sm_pct (s_win b ! newest)
        in if span < CALI_BATT_MIN_SPAN_MS \<or> drop < CALI_BATT_MIN_DROP then -1
           else sint (ucast (word_of_int (sm_pct (s_win b ! newest)) * span div word_of_int drop div 60000) :: u32))"

definition batt_pop :: "battery \<Rightarrow> battery" where
  "batt_pop b = b\<lparr>s_head := (s_head b + 1) mod CALI_BATT_SAMPLES, s_n := s_n b - 1\<rparr>"

definition batt_push :: "battery \<Rightarrow> batt_sample \<Rightarrow> battery" where
  "batt_push b x = b\<lparr>s_win := (s_win b)[(s_head b + s_n b) mod CALI_BATT_SAMPLES := x], s_n := s_n b + 1\<rparr>"

function batt_expire :: "u64 \<Rightarrow> battery \<Rightarrow> battery" where
  "batt_expire now_ms b =
     (if s_n b \<noteq> 0 \<and> now_ms - sm_t (s_win b ! s_head b) > CALI_BATT_WINDOW_MS then batt_expire now_ms (batt_pop b) else b)"
  by auto
termination by (relation "measure (\<lambda>(_, b). s_n b)") (auto simp: batt_pop_def)

declare batt_expire.simps [simp del]

definition cali_battery_update :: "cali_batt \<Rightarrow> u64 \<Rightarrow> battery \<Rightarrow> battery" where
  "cali_battery_update r now_ms b =
     (let b1 = b\<lparr>s_last := r\<rparr>;
          b2 = (if bt_pct r < 0 \<or> bt_usb r \<noteq> 0 \<or> bt_charging r \<noteq> 0 then b1\<lparr>s_head := 0, s_n := 0\<rparr>
                else
                  let e = batt_expire now_ms b1;
                      d = (if s_n e = CALI_BATT_SAMPLES then batt_pop e else e)
                  in batt_push d \<lparr>sm_t = now_ms, sm_pct = bt_pct r\<rparr>)
      in b2\<lparr>s_last := (s_last b2)\<lparr>bt_runtime_min := batt_estimate b2\<rparr>\<rparr>)"

definition cali_battery_get :: "battery \<Rightarrow> cali_batt" where
  "cali_battery_get b = s_last b"

section \<open>The ring as a queue\<close>

definition batt_ok :: "battery \<Rightarrow> bool" where
  "batt_ok b \<longleftrightarrow> length (s_win b) = CALI_BATT_SAMPLES \<and> s_head b < CALI_BATT_SAMPLES \<and> s_n b \<le> CALI_BATT_SAMPLES"

definition batt_items :: "battery \<Rightarrow> batt_sample list" where
  "batt_items b = ring_items (s_win b) (s_head b) (s_n b)"

lemma length_batt_items [simp]: "length (batt_items b) = s_n b"
  by (simp add: batt_items_def)

interpretation batt: bounded_queue batt_ok batt_items batt_pop batt_push CALI_BATT_SAMPLES
proof unfold_locales
  fix q :: battery and x :: batt_sample
  assume ok: "batt_ok q"
  have pop: "s_head (batt_pop q) = Suc (s_head q) mod length (s_win q)"
    using ok by (simp add: batt_pop_def batt_ok_def)
  show "batt_items q \<noteq> [] \<Longrightarrow> batt_ok (batt_pop q)"
    using ok by (auto simp: batt_ok_def batt_pop_def CALI_BATT_SAMPLES_def)
  show "batt_items q \<noteq> [] \<Longrightarrow> batt_items (batt_pop q) = tl (batt_items q)"
    using pop by (simp add: batt_items_def batt_pop_def ring_items_pop)
  assume room: "length (batt_items q) < CALI_BATT_SAMPLES"
  then show "batt_ok (batt_push q x)" using ok by (simp add: batt_ok_def batt_push_def)
  show "batt_items (batt_push q x) = batt_items q @ [x]"
    using ok room ring_items_push [of "s_n q" "s_win q" "s_head q" x]
    by (simp add: batt_items_def batt_push_def batt_ok_def)
qed (simp_all add: batt_ok_def CALI_BATT_SAMPLES_def)

lemma hd_batt_items: "batt_ok b \<Longrightarrow> s_n b \<noteq> 0 \<Longrightarrow> hd (batt_items b) = s_win b ! s_head b"
  by (simp add: hd_conv_nth batt_items_def ring_items_nth batt_ok_def flip: length_0_conv)

lemma last_batt_items: "batt_ok b \<Longrightarrow> s_n b \<noteq> 0 \<Longrightarrow> last (batt_items b) = s_win b ! ((s_head b + s_n b - 1) mod CALI_BATT_SAMPLES)"
  by (simp add: last_conv_nth batt_items_def ring_items_nth batt_ok_def flip: length_0_conv)

abbreviation batt_old :: "u64 \<Rightarrow> batt_sample \<Rightarrow> bool" where
  "batt_old now x \<equiv> now - sm_t x > CALI_BATT_WINDOW_MS"

lemma batt_expire_items:
  "batt_ok b \<Longrightarrow> batt_ok (batt_expire now b) \<and> batt_items (batt_expire now b) = dropWhile (batt_old now) (batt_items b)"
proof (rule batt.expire_loop)
  fix q
  assume "batt_ok q"
  then show "batt_expire now q = (if batt_items q \<noteq> [] \<and> batt_old now (hd (batt_items q)) then batt_expire now (batt_pop q) else q)"
    using batt_expire.simps [of now q] by (auto simp: hd_batt_items simp flip: length_0_conv)
qed

section \<open>The abstract window\<close>

definition window_update :: "cali_batt \<Rightarrow> u64 \<Rightarrow> batt_sample list \<Rightarrow> batt_sample list" where
  "window_update r now w =
     (if bt_pct r < 0 \<or> bt_usb r \<noteq> 0 \<or> bt_charging r \<noteq> 0 then []
      else let w' = dropWhile (batt_old now) w
           in (if length w' = CALI_BATT_SAMPLES then tl w' else w') @ [\<lparr>sm_t = now, sm_pct = bt_pct r\<rparr>])"

text \<open>The estimate as the comment in the code has it: percent over slope, in whole minutes.\<close>

definition window_runtime :: "batt_sample list \<Rightarrow> int" where
  "window_runtime w =
     (if length w < 2 then -1
      else let span = uint (sm_t (last w) - sm_t (hd w)); drop = sm_pct (hd w) - sm_pct (last w)
           in if span < 300000 \<or> drop < 2 then -1 else sm_pct (last w) * span div drop div 60000)"

lemma batt_ok_frame [simp]:
  "batt_ok (b\<lparr>s_last := r\<rparr>) = batt_ok b" "batt_items (b\<lparr>s_last := r\<rparr>) = batt_items b"
  by (simp_all add: batt_ok_def batt_items_def)

lemma update_window:
  assumes "batt_ok b"
  shows "batt_ok (cali_battery_update r now b) \<and> batt_items (cali_battery_update r now b) = window_update r now (batt_items b)"
proof (cases "bt_pct r < 0 \<or> bt_usb r \<noteq> 0 \<or> bt_charging r \<noteq> 0")
  case True
  then show ?thesis using assms
    by (simp add: cali_battery_update_def Let_def batt_ok_def batt_items_def window_update_def CALI_BATT_SAMPLES_def)
next
  case False
  have e: "batt_ok (batt_expire now (b\<lparr>s_last := r\<rparr>))"
    "batt_items (batt_expire now (b\<lparr>s_last := r\<rparr>)) = dropWhile (batt_old now) (batt_items b)"
    using batt_expire_items [of "b\<lparr>s_last := r\<rparr>" now] assms by simp_all
  have n: "s_n (batt_expire now (b\<lparr>s_last := r\<rparr>)) = length (dropWhile (batt_old now) (batt_items b))"
    using arg_cong [OF e(2), of length] by simp
  show ?thesis using False batt.push_evict [OF e(1), of "\<lparr>sm_t = now, sm_pct = bt_pct r\<rparr>"]
    by (simp add: cali_battery_update_def Let_def window_update_def e(2) n)
qed

lemma last_runtime:
  "bt_runtime_min (cali_battery_get (cali_battery_update r now b)) = batt_estimate (cali_battery_update r now b)"
proof -
  have "batt_estimate (x\<lparr>s_last := y\<rparr>) = batt_estimate x" for x y by (simp add: batt_estimate_def Let_def)
  then show ?thesis by (simp add: cali_battery_update_def Let_def cali_battery_get_def)
qed

section \<open>Bounds of the estimate\<close>

definition percents_ok :: "batt_sample list \<Rightarrow> bool" where
  "percents_ok w \<longleftrightarrow> (\<forall>x\<in>set w. 0 \<le> sm_pct x \<and> sm_pct x \<le> 100)"

definition span_ok :: "batt_sample list \<Rightarrow> bool" where
  "span_ok w \<longleftrightarrow> (w \<noteq> [] \<longrightarrow> sm_t (last w) - sm_t (hd w) \<le> CALI_BATT_WINDOW_MS)"

lemma runtime_bounds:
  assumes "percents_ok w" and "span_ok w"
  shows "-1 \<le> window_runtime w \<and> window_runtime w \<le> 500"
proof (cases "length w < 2 \<or> uint (sm_t (last w) - sm_t (hd w)) < 300000 \<or> sm_pct (hd w) - sm_pct (last w) < 2")
  case True
  then show ?thesis by (auto simp: window_runtime_def Let_def)
next
  case False
  then have w: "w \<noteq> []" by auto
  let ?span = "uint (sm_t (last w) - sm_t (hd w))" and ?drop = "sm_pct (hd w) - sm_pct (last w)" and ?p = "sm_pct (last w)"
  have p: "0 \<le> ?p" "?p \<le> 100" using assms(1) w by (simp_all add: percents_ok_def)
  have s: "0 \<le> ?span" "?span \<le> 600000"
    using assms(2) w by (simp_all add: span_ok_def word_le_def CALI_BATT_WINDOW_MS_def)
  have "?p * ?span div ?drop \<le> ?p * ?span div 2"
    using False p s by (intro zdiv_mono2) simp_all
  also have "\<dots> \<le> 100 * 600000 div 2"
    using p s by (intro zdiv_mono1 mult_mono) simp_all
  finally have "?p * ?span div ?drop div 60000 \<le> 30000000 div 60000" by (intro zdiv_mono1) simp_all
  moreover have "0 \<le> ?p * ?span div ?drop div 60000" using False p s
    by (simp add: pos_imp_zdiv_nonneg_iff)
  ultimately show ?thesis using False by (simp add: window_runtime_def Let_def)
qed

text \<open>In range, the 64-bit computation and its conversion to \<open>int\<close> are exact.\<close>

lemma estimate_word_exact:
  assumes p: "0 \<le> p" "p \<le> 100" and d: "2 \<le> d" "d \<le> 100" and s: "s \<le> (600000 :: u64)"
  shows "sint (ucast (word_of_int p * s div word_of_int d div 60000) :: u32) = p * uint s div d div 60000"
proof -
  have us: "0 \<le> uint s" "uint s \<le> 600000" using s by (simp_all add: word_le_def)
  have le: "p * uint s \<le> 100 * 600000" using p us by (intro mult_mono) simp_all
  have wp: "uint (word_of_int p :: u64) = p" using p by (simp add: uint_word_of_int)
  have wd: "uint (word_of_int d :: u64) = d" using d by (simp add: uint_word_of_int)
  have m: "uint (word_of_int p * s) = p * uint s"
    using p us le by (simp add: uint_word_ariths wp)
  let ?v = "p * uint s div d div 60000"
  have v: "uint (word_of_int p * s div word_of_int d div 60000) = ?v" by (simp add: uint_div m wd)
  have "p * uint s div d \<le> p * uint s div 1" using p us d by (intro zdiv_mono2) simp_all
  then have "?v \<le> 60000000 div 60000" using le by (intro zdiv_mono1) simp_all
  moreover have "0 \<le> ?v" using p us d by (simp add: pos_imp_zdiv_nonneg_iff)
  ultimately show ?thesis by (simp add: sint_uint v unsigned_ucast_eq signed_take_bit_int_eq_self take_bit_int_eq_self)
qed

lemma estimate_window:
  assumes "batt_ok b" and "percents_ok (batt_items b)" and "span_ok (batt_items b)"
  shows "batt_estimate b = window_runtime (batt_items b)"
proof (cases "s_n b < 2")
  case True
  then show ?thesis by (simp add: batt_estimate_def window_runtime_def)
next
  case False
  let ?w = "batt_items b"
  let ?span = "sm_t (last ?w) - sm_t (hd ?w)" and ?drop = "sm_pct (hd ?w) - sm_pct (last ?w)"
  have ne: "?w \<noteq> []" using False by (auto simp flip: length_0_conv)
  have est: "batt_estimate b = (if ?span < 300000 \<or> ?drop < 2 then -1
      else sint (ucast (word_of_int (sm_pct (last ?w)) * ?span div word_of_int ?drop div 60000) :: u32))"
    using False assms(1) by (simp add: batt_estimate_def Let_def hd_batt_items last_batt_items batt_consts)
  have p: "0 \<le> sm_pct (last ?w)" "sm_pct (last ?w) \<le> 100" "sm_pct (hd ?w) \<le> 100"
    using assms(2) ne unfolding percents_ok_def by simp_all
  have s: "?span \<le> 600000" using assms(3) ne by (simp add: span_ok_def CALI_BATT_WINDOW_MS_def)
  have "2 \<le> ?drop \<Longrightarrow> batt_estimate b = (if ?span < 300000 then -1 else sm_pct (last ?w) * uint ?span div ?drop div 60000)"
    unfolding est using p estimate_word_exact [OF p(1,2) _ _ s, of ?drop] by simp
  then show ?thesis using False est
    by (cases "2 \<le> ?drop") (simp_all add: window_runtime_def Let_def word_less_def)
qed

section \<open>Sequences of readings\<close>

definition batt_step :: "battery \<Rightarrow> cali_batt \<times> u64 \<Rightarrow> battery \<times> unit list" where
  "batt_step b e = (cali_battery_update (fst e) (snd e) b, [])"

lemma fst_batt_step: "fst (batt_step b e) = cali_battery_update (fst e) (snd e) b"
  by (simp add: batt_step_def)

definition window_of :: "(cali_batt \<times> u64) list \<Rightarrow> batt_sample list" where
  "window_of es = foldl (\<lambda>w e. window_update (fst e) (snd e) w) [] es"

definition window_wf :: "u64 \<Rightarrow> batt_sample list \<Rightarrow> bool" where
  "window_wf now w \<longleftrightarrow> percents_ok w \<and> sorted (map sm_t w) \<and> (\<forall>x\<in>set w. sm_t x \<le> now)"

lemma window_wf_mono: "window_wf t w \<Longrightarrow> t \<le> now \<Longrightarrow> window_wf now w"
  by (auto simp: window_wf_def)

lemma window_wf_suffix: "window_wf now (xs @ ys) \<Longrightarrow> window_wf now ys"
  by (auto simp: window_wf_def percents_ok_def sorted_append)

lemma window_wf_tl: "window_wf now w \<Longrightarrow> window_wf now (tl w)"
  using window_wf_suffix [of now "[hd w]" "tl w"] by (cases w) simp_all

lemma window_wf_snoc:
  "window_wf now w \<Longrightarrow> 0 \<le> p \<Longrightarrow> p \<le> 100 \<Longrightarrow> window_wf now (w @ [\<lparr>sm_t = now, sm_pct = p\<rparr>])"
  by (auto simp: window_wf_def percents_ok_def sorted_append)

lemma age_antimono: "(t :: u64) \<le> u \<Longrightarrow> u \<le> now \<Longrightarrow> now - u \<le> now - t"
  by (simp add: word_le_nat_alt unat_sub)

text \<open>No sample that is kept is older than the window, also when the oldest one is dropped for want of room.\<close>

lemma kept_samples_young:
  assumes "window_wf now w" and "x \<in> set (dropWhile (batt_old now) w)"
  shows "now - sm_t x \<le> CALI_BATT_WINDOW_MS"
proof -
  let ?d = "dropWhile (batt_old now) w"
  have ne: "?d \<noteq> []" using assms(2) by (metis empty_iff empty_set)
  have wf: "window_wf now ?d"
    using window_wf_suffix [of now "takeWhile (batt_old now) w" ?d] assms(1) by simp
  have "\<not> batt_old now (hd ?d)" using ne by (rule hd_dropWhile)
  then have h: "now - sm_t (hd ?d) \<le> CALI_BATT_WINDOW_MS" by simp
  have "sm_t (hd ?d) \<le> sm_t x" using wf assms(2) ne
    by (cases ?d) (auto simp: window_wf_def)
  moreover have "sm_t x \<le> now" using wf assms(2) by (simp add: window_wf_def)
  ultimately show ?thesis using age_antimono h by (meson order_trans)
qed

lemma window_update_ok:
  assumes "window_wf t w" and "t \<le> now" and "bt_pct r \<le> 100"
  shows "window_wf now (window_update r now w) \<and> span_ok (window_update r now w)"
proof (cases "bt_pct r < 0 \<or> bt_usb r \<noteq> 0 \<or> bt_charging r \<noteq> 0")
  case True
  then show ?thesis by (simp add: window_update_def window_wf_def percents_ok_def span_ok_def)
next
  case False
  let ?d = "dropWhile (batt_old now) w"
  let ?e = "if length ?d = CALI_BATT_SAMPLES then tl ?d else ?d"
  have w: "window_wf now w" by (rule window_wf_mono [OF assms(1,2)])
  have upd: "window_update r now w = ?e @ [\<lparr>sm_t = now, sm_pct = bt_pct r\<rparr>]"
    using False by (simp add: window_update_def Let_def)
  have sub: "set ?e \<subseteq> set ?d" using set_mono_suffix [of "tl ?d" ?d] by (simp add: suffix_tl)
  have "window_wf now ?d" using window_wf_suffix [of now "takeWhile (batt_old now) w" ?d] w by simp
  then have e: "window_wf now ?e" by (simp add: window_wf_tl)
  have "span_ok (?e @ [\<lparr>sm_t = now, sm_pct = bt_pct r\<rparr>])"
  proof (cases "?e = []")
    case True
    then show ?thesis by (simp add: span_ok_def)
  next
    case ne: False
    then have "hd ?e \<in> set ?d" using sub hd_in_set by blast
    from kept_samples_young [OF w this] show ?thesis using ne by (simp add: span_ok_def hd_append)
  qed
  then show ?thesis unfolding upd using window_wf_snoc [OF e] False assms(3) by simp
qed

lemma window_of_ok:
  assumes "sorted (map snd es)" and "\<forall>e\<in>set es. bt_pct (fst e) \<le> 100"
  shows "window_wf (if es = [] then 0 else snd (last es)) (window_of es) \<and> span_ok (window_of es)"
  using assms
proof (induction es rule: rev_induct)
  case Nil
  then show ?case by (simp add: window_of_def window_wf_def percents_ok_def span_ok_def)
next
  case (snoc e es)
  then have "window_wf (if es = [] then 0 else snd (last es)) (window_of es)" by (simp add: sorted_append)
  moreover have "(if es = [] then 0 else snd (last es)) \<le> snd e"
    using snoc.prems by (simp add: sorted_append)
  ultimately show ?case using window_update_ok snoc.prems by (simp add: window_of_def)
qed

interpretation batt_machine: machine batt_step batt_init batt_ok
  by unfold_locales (simp add: batt_ok_def batt_init_def CALI_BATT_SAMPLES_def, simp add: fst_batt_step update_window)

lemma batt_run_window: "batt_items (fst (run batt_step batt_init es)) = window_of es"
proof (induction es rule: rev_induct)
  case Nil
  then show ?case by (simp add: batt_items_def batt_init_def window_of_def)
next
  case (snoc e es)
  then show ?case using update_window [OF batt_machine.inv_run [of es], of "fst e" "snd e"]
    by (simp add: run_append fst_batt_step window_of_def)
qed

section \<open>Properties\<close>

text \<open>
  For every sequence of readings with a clock that never runs backwards and fuel-gauge values of at
  most 100 percent, the ring of 64 slots holds exactly the abstract window (the discharging samples since
  the last USB or charging reading, at most ten minutes old, at most 64), and the reported runtime is
  percent times span over drop in whole minutes, without overflow, between -1 and 500.
\<close>

theorem battery_window_refines:
  assumes "sorted (map snd es)" and "\<forall>e\<in>set es. bt_pct (fst e) \<le> 100" and "es \<noteq> []"
  shows "(let b = fst (run batt_step batt_init es)
    in batt_items b = window_of es \<and> bt_runtime_min (cali_battery_get b) = window_runtime (window_of es) \<and>
       -1 \<le> bt_runtime_min (cali_battery_get b) \<and> bt_runtime_min (cali_battery_get b) \<le> 500)"
proof -
  let ?b = "fst (run batt_step batt_init es)"
  obtain es' r t where es: "es = es' @ [(r, t)]" using assms(3) by (metis rev_exhaust surj_pair)
  have b: "?b = cali_battery_update r t (fst (run batt_step batt_init es'))"
    by (simp add: es run_append fst_batt_step)
  have w: "percents_ok (window_of es)" "span_ok (window_of es)"
    using window_of_ok [OF assms(1,2)] by (simp_all add: window_wf_def)
  have "bt_runtime_min (cali_battery_get ?b) = batt_estimate ?b" unfolding b by (rule last_runtime)
  also have "\<dots> = window_runtime (window_of es)"
    using estimate_window [OF batt_machine.inv_run [of es]] w by (simp add: batt_run_window)
  finally show ?thesis using runtime_bounds [OF w] by (simp add: batt_run_window Let_def)
qed

theorem battery_window_refines_witness:
  "bt_runtime_min (cali_battery_get (fst (run batt_step batt_init
     [(\<lparr>bt_pct = 80, bt_mv = 3900, bt_usb = 0, bt_charging = 0, bt_runtime_min = -1\<rparr>, 1000),
      (\<lparr>bt_pct = 76, bt_mv = 3880, bt_usb = 0, bt_charging = 0, bt_runtime_min = -1\<rparr>, 301000)]))) = 95"
proof -
  let ?es = "[(\<lparr>bt_pct = 80, bt_mv = 3900, bt_usb = 0, bt_charging = 0, bt_runtime_min = -1\<rparr>, 1000),
      (\<lparr>bt_pct = 76, bt_mv = 3880, bt_usb = 0, bt_charging = 0, bt_runtime_min = -1\<rparr>, 301000)]"
  have "window_runtime (window_of ?es) = 95" by code_simp
  then show ?thesis using battery_window_refines [of ?es] by (simp add: Let_def)
qed

end
