(* ===== verification/Auto_Camper.thy ===== *)
theory Auto_Camper
  imports Prelude
begin

text \<open>
  The restore-after-park decision of \<^verbatim>\<open>cali_core/auto_camper.c\<close>. Inputs and state are the C structs with
  their tri-state integers (-1 unknown, 0, positive). The one-line notices are a datatype; everything else
  is translated as it is. The lemmas bound the tries per drive and show that a manual off is respected.
\<close>

definition CALI_AC_WINDOW_MS :: int where "CALI_AC_WINDOW_MS = 120000"
definition CALI_AC_MAX_FAILS :: int where "CALI_AC_MAX_FAILS = 3"
definition CALI_AC_MIN_SOC :: int where "CALI_AC_MIN_SOC = 20"
definition CALI_AC_STEP_MS :: u32 where "CALI_AC_STEP_MS = 30000"

record cali_ac_state =
  ac_owe :: int
  ac_pre :: int
  ac_pre_usb :: int
  ac_pre_lights :: int
  ac_until :: int
  ac_fails :: int
  ac_prev_ign :: int
  ac_prev_master :: int
  ac_prev_usb :: int
  ac_prev_lights :: int

record cali_ac_in =
  in_ign :: int
  in_master :: int
  in_usb :: int
  in_lights :: int
  in_soc :: int
  in_warning :: int
  in_now :: int

record cali_ac_cfg =
  cfg_min_soc :: int
  cfg_max_fails :: int
  cfg_window :: int

datatype ac_notice = AC_GAVE_UP_WINDOW | AC_RESTORED | AC_STOOD_DOWN "int option" | AC_GAVE_UP_FAILS

record cali_ac_out =
  out_actuate :: int
  out_restored :: int
  out_notice :: "ac_notice option"

abbreviation b2i :: "bool \<Rightarrow> int" where
  "b2i b \<equiv> (if b then 1 else 0)"

definition ac_arm :: "cali_ac_in \<Rightarrow> cali_ac_state \<Rightarrow> cali_ac_state" where
  "ac_arm i st =
     (if in_ign i > 0 \<and> \<not> ac_prev_ign st > 0 \<and> ac_prev_master st > 0 \<and> ac_owe st = 0
      then st\<lparr>ac_owe := 1, ac_pre := 1, ac_pre_usb := b2i (ac_prev_usb st > 0),
              ac_pre_lights := b2i (ac_prev_lights st > 0), ac_until := -1, ac_fails := 0\<rparr>
      else st)"

definition ac_cancel :: "cali_ac_in \<Rightarrow> cali_ac_state \<Rightarrow> cali_ac_state" where
  "ac_cancel i st =
     (if \<not> in_ign i > 0 \<and> \<not> ac_prev_ign st > 0 \<and> ac_prev_master st > 0 \<and> \<not> in_master i > 0
      then st\<lparr>ac_owe := 0, ac_until := -1, ac_fails := 0\<rparr> else st)"

definition ac_park :: "cali_ac_in \<Rightarrow> cali_ac_cfg \<Rightarrow> cali_ac_state \<Rightarrow> cali_ac_state" where
  "ac_park i cfg st =
     (if \<not> in_ign i > 0 \<and> ac_prev_ign st > 0 \<and> ac_owe st \<noteq> 0
      then st\<lparr>ac_until := in_now i + cfg_window cfg, ac_fails := 0\<rparr> else st)"

definition ac_restoring :: "cali_ac_in \<Rightarrow> cali_ac_cfg \<Rightarrow> cali_ac_state \<Rightarrow> cali_ac_state \<times> cali_ac_out" where
  "ac_restoring i cfg st =
     (let out = \<lparr>out_actuate = 0, out_restored = 0, out_notice = None\<rparr> in
      if ac_owe st \<noteq> 0 \<and> ac_until st \<ge> 0 \<and> \<not> in_ign i > 0 then
        if in_now i > ac_until st then
          (st\<lparr>ac_owe := 0, ac_until := -1\<rparr>, out\<lparr>out_notice := Some AC_GAVE_UP_WINDOW\<rparr>)
        else if in_master i > 0 then
          (st\<lparr>ac_owe := 0, ac_until := -1, ac_fails := 0\<rparr>, out\<lparr>out_restored := 1, out_notice := Some AC_RESTORED\<rparr>)
        else if in_soc i \<ge> 0 \<and> in_soc i < cfg_min_soc cfg \<or> in_warning i \<noteq> 0 then
          (st\<lparr>ac_owe := 0, ac_until := -1\<rparr>,
           out\<lparr>out_notice := Some (AC_STOOD_DOWN (if in_soc i \<ge> 0 then Some (in_soc i) else None))\<rparr>)
        else if ac_fails st \<ge> cfg_max_fails cfg then
          (st\<lparr>ac_owe := 0, ac_until := -1\<rparr>, out\<lparr>out_notice := Some AC_GAVE_UP_FAILS\<rparr>)
        else (st\<lparr>ac_fails := ac_fails st + 1\<rparr>, out\<lparr>out_actuate := 1\<rparr>)
      else (st, out))"

text \<open>
  The conditions of the code read the previous flags before they are updated at the end, so every stage
  sees the state the stages before it left; none of them changes \<open>prev_*\<close>.
\<close>

definition cali_ac_decide :: "cali_ac_in \<Rightarrow> cali_ac_cfg \<Rightarrow> cali_ac_state \<Rightarrow> cali_ac_state \<times> cali_ac_out" where
  "cali_ac_decide i cfg st =
     (if in_ign i < 0 \<or> in_master i < 0 then (st, \<lparr>out_actuate = 0, out_restored = 0, out_notice = None\<rparr>)
      else
        let (st', out) = ac_restoring i cfg (ac_park i cfg (ac_cancel i (ac_arm i st)))
        in (st'\<lparr>ac_prev_ign := b2i (in_ign i > 0), ac_prev_master := b2i (in_master i > 0),
                ac_prev_usb := b2i (in_usb i > 0), ac_prev_lights := b2i (in_lights i > 0)\<rparr>, out))"

lemmas ac_defs = cali_ac_decide_def ac_restoring_def ac_park_def ac_cancel_def ac_arm_def Let_def

section \<open>The controller's runs\<close>

definition ac_cfg :: cali_ac_cfg where
  "ac_cfg = \<lparr>cfg_min_soc = CALI_AC_MIN_SOC, cfg_max_fails = CALI_AC_MAX_FAILS, cfg_window = CALI_AC_WINDOW_MS\<rparr>"

lemmas ac_cfg_simps = ac_cfg_def CALI_AC_MIN_SOC_def CALI_AC_MAX_FAILS_def CALI_AC_WINDOW_MS_def

definition ac_init_state :: cali_ac_state where
  "ac_init_state = \<lparr>ac_owe = 0, ac_pre = 0, ac_pre_usb = 0, ac_pre_lights = 0, ac_until = -1, ac_fails = 0,
     ac_prev_ign = -1, ac_prev_master = -1, ac_prev_usb = -1, ac_prev_lights = -1\<rparr>"

definition ac_step :: "cali_ac_state \<Rightarrow> cali_ac_in \<Rightarrow> cali_ac_state \<times> cali_ac_out list" where
  "ac_step st i = (let (st', out) = cali_ac_decide i ac_cfg st in (st', [out]))"

lemma ac_step_simps:
  "fst (ac_step st i) = fst (cali_ac_decide i ac_cfg st)" "snd (ac_step st i) = [snd (cali_ac_decide i ac_cfg st)]"
  by (simp_all add: ac_step_def split_beta)

definition flag :: "int \<Rightarrow> bool" where "flag x \<longleftrightarrow> x = 0 \<or> x = 1"
definition tri :: "int \<Rightarrow> bool" where "tri x \<longleftrightarrow> x = -1 \<or> x = 0 \<or> x = 1"

lemma flag_simps [simp]: "flag 0" "flag 1" "tri 0" "tri 1" "tri (-1)"
  by (simp_all add: flag_def tri_def)

definition ac_inv :: "cali_ac_state \<Rightarrow> bool" where
  "ac_inv st \<longleftrightarrow> flag (ac_owe st) \<and> flag (ac_pre st) \<and> flag (ac_pre_usb st) \<and> flag (ac_pre_lights st) \<and>
     0 \<le> ac_fails st \<and> ac_fails st \<le> CALI_AC_MAX_FAILS \<and>
     tri (ac_prev_ign st) \<and> tri (ac_prev_master st) \<and> tri (ac_prev_usb st) \<and> tri (ac_prev_lights st)"

lemma ac_inv_arm: "ac_inv st \<Longrightarrow> ac_inv (ac_arm i st)"
  by (simp add: ac_inv_def ac_arm_def CALI_AC_MAX_FAILS_def)

lemma ac_inv_cancel: "ac_inv st \<Longrightarrow> ac_inv (ac_cancel i st)"
  by (simp add: ac_inv_def ac_cancel_def CALI_AC_MAX_FAILS_def)

lemma ac_inv_park: "ac_inv st \<Longrightarrow> ac_inv (ac_park i cfg st)"
  by (simp add: ac_inv_def ac_park_def CALI_AC_MAX_FAILS_def)

lemma ac_inv_restoring: "ac_inv st \<Longrightarrow> ac_inv (fst (ac_restoring i ac_cfg st))"
  by (simp add: ac_inv_def ac_restoring_def Let_def ac_cfg_simps)

lemma ac_inv_decide: "ac_inv st \<Longrightarrow> ac_inv (fst (cali_ac_decide i ac_cfg st))"
proof (cases "in_ign i < 0 \<or> in_master i < 0")
  case False
  assume "ac_inv st"
  let ?r = "fst (ac_restoring i ac_cfg (ac_park i ac_cfg (ac_cancel i (ac_arm i st))))"
  have "ac_inv ?r" using \<open>ac_inv st\<close> by (simp add: ac_inv_restoring ac_inv_park ac_inv_cancel ac_inv_arm)
  then show ?thesis using False by (simp add: cali_ac_decide_def split_beta Let_def ac_inv_def)
qed (simp add: cali_ac_decide_def)

lemma restoring_actuate:
  assumes "out_actuate (snd (ac_restoring i cfg st)) \<noteq> 0"
  shows "ac_owe st \<noteq> 0" "\<not> in_ign i > 0" "in_now i \<le> ac_until st" "\<not> in_master i > 0"
    "in_warning i = 0 \<and> (in_soc i < 0 \<or> in_soc i \<ge> cfg_min_soc cfg)" "ac_fails st < cfg_max_fails cfg"
    "fst (ac_restoring i cfg st) = st\<lparr>ac_fails := ac_fails st + 1\<rparr>"
  using assms by (simp_all add: ac_restoring_def Let_def split: if_split_asm) auto

lemma parked_owe: "\<not> in_ign i > 0 \<Longrightarrow> ac_owe (ac_park i cfg (ac_cancel i (ac_arm i st))) \<noteq> 0 \<Longrightarrow> ac_owe st \<noteq> 0"
  by (simp add: ac_arm_def ac_cancel_def ac_park_def split: if_split_asm)

lemma parked_manual_off:
  assumes "ac_prev_ign st \<le> 0" and "ac_prev_master st > 0" and "in_ign i = 0" and "in_master i = 0"
  shows "ac_park i cfg (ac_cancel i (ac_arm i st)) = st\<lparr>ac_owe := 0, ac_until := -1, ac_fails := 0\<rparr>"
  using assms by (simp add: ac_arm_def ac_cancel_def ac_park_def)

text \<open>The tries that are left before the next drive.\<close>

definition tries_left :: "cali_ac_state \<Rightarrow> nat" where
  "tries_left st = (if ac_prev_ign st > 0 then 3 else if ac_owe st \<noteq> 0 \<and> ac_until st \<ge> 0 then nat (3 - ac_fails st) else 0)"

lemma ac_pay_decide:
  assumes "ac_inv st"
  shows "(if out_actuate (snd (cali_ac_decide i ac_cfg st)) \<noteq> 0 then 1 else 0) + tries_left (fst (cali_ac_decide i ac_cfg st)) \<le>
    tries_left st + (if in_ign i > 0 then 3 else 0)"
proof -
  have f: "0 \<le> ac_fails st" "ac_fails st \<le> 3" using assms by (simp_all add: ac_inv_def CALI_AC_MAX_FAILS_def)
  show ?thesis
  proof (cases "in_ign i > 0")
    case True
    then show ?thesis by (simp add: ac_defs tries_left_def split_beta)
  next
    case False
    then show ?thesis using f
      by (cases "ac_prev_ign st > 0") (auto simp: ac_defs tries_left_def split_beta ac_cfg_simps)
  qed
qed

interpretation ac: budget_machine ac_step ac_init_state ac_inv
    "\<lambda>d. if out_actuate d \<noteq> 0 then 1 else 0" tries_left "\<lambda>i. if in_ign i > 0 then 3 else 0"
proof unfold_locales
  show "ac_inv ac_init_state" by (simp add: ac_inv_def ac_init_state_def CALI_AC_MAX_FAILS_def)
qed (use ac_inv_decide ac_pay_decide in \<open>simp_all add: ac_step_simps\<close>)

section \<open>Properties\<close>

text \<open>
  Whatever is read, the controller writes camping on at most three times per
  reading with the ignition on: after a drive it gives up after three tries.
\<close>

theorem auto_camper_tries_bounded:
  "length (filter (\<lambda>d. out_actuate d \<noteq> 0) (snd (run ac_step ac_init_state es))) \<le>
     3 * length (filter (\<lambda>i. in_ign i > 0) es)"
  using ac.pay_run [of es] by (simp add: sum_list_indicator tries_left_def ac_init_state_def)

text \<open>
  C12. A step writes camping on only while a restore is owed, parked, with camping
  read as off, inside the retry window, with the battery not known to be low, without a battery warning and
  with tries left.
\<close>

theorem auto_camper_actuates_safely:
  assumes "out_actuate (snd (cali_ac_decide i cfg st)) \<noteq> 0"
  shows "ac_owe st \<noteq> 0 \<and> in_ign i = 0 \<and> in_master i = 0 \<and> in_warning i = 0 \<and> (in_soc i < 0 \<or> in_soc i \<ge> cfg_min_soc cfg) \<and>
    ac_fails (fst (cali_ac_decide i cfg st)) \<le> cfg_max_fails cfg \<and>
    in_now i \<le> ac_until (fst (cali_ac_decide i cfg st))"
proof -
  let ?p = "ac_park i cfg (ac_cancel i (ac_arm i st))"
  have known: "\<not> (in_ign i < 0 \<or> in_master i < 0)"
    using assms by (auto simp: cali_ac_decide_def split: if_split_asm)
  then have "out_actuate (snd (ac_restoring i cfg ?p)) \<noteq> 0"
    using assms by (simp add: cali_ac_decide_def split_beta Let_def)
  note r = restoring_actuate [OF this]
  have "ac_owe st \<noteq> 0" using parked_owe r(1,2) by blast
  then show ?thesis using r(2-6) known by (simp add: cali_ac_decide_def split_beta Let_def r(7))
qed

theorem auto_camper_actuates_safely_witness:
  "ac_fails (fst (cali_ac_decide \<lparr>in_ign = 0, in_master = 0, in_usb = 0, in_lights = 0, in_soc = 80, in_warning = 0, in_now = 5000\<rparr>
     ac_cfg (ac_init_state\<lparr>ac_owe := 1, ac_pre := 1, ac_prev_ign := 1\<rparr>))) \<le> 3"
proof -
  let ?i = "\<lparr>in_ign = 0, in_master = 0, in_usb = 0, in_lights = 0, in_soc = 80, in_warning = 0, in_now = 5000\<rparr>"
  let ?st = "ac_init_state\<lparr>ac_owe := 1, ac_pre := 1, ac_prev_ign := 1\<rparr>"
  have "out_actuate (snd (cali_ac_decide ?i ac_cfg ?st)) \<noteq> 0" by code_simp
  from auto_camper_actuates_safely [OF this] show ?thesis by (simp add: ac_cfg_simps)
qed

text \<open>
  When camping goes from on to off while the vehicle is parked, the
  controller never writes it on again until a reading shows the ignition on.
\<close>

theorem auto_camper_manual_off_respected:
  assumes "ac_inv st" and "ac_prev_ign st \<le> 0" and "ac_prev_master st > 0"
    and "in_ign i = 0" and "in_master i = 0" and "\<forall>x\<in>set es. in_ign x \<le> 0"
  shows "list_all (\<lambda>d. out_actuate d = 0) (snd (run ac_step st (i # es)))"
proof -
  let ?s = "fst (ac_step st i)"
  have off: "tries_left ?s = 0" "out_actuate (snd (cali_ac_decide i ac_cfg st)) = 0"
    using assms(4,5) parked_manual_off [OF assms(2-5), of ac_cfg]
    by (simp_all add: ac_step_simps cali_ac_decide_def ac_restoring_def Let_def tries_left_def)
  have c: "filter (\<lambda>i. in_ign i > 0) es = []" using assms(6) by (auto simp: filter_empty_conv)
  have "length (filter (\<lambda>d. out_actuate d \<noteq> 0) (snd (run ac_step ?s es))) + tries_left (fst (run ac_step ?s es)) \<le>
      tries_left ?s + 3 * length (filter (\<lambda>i. in_ign i > 0) es)"
    using ac.pay_run_from [OF ac.inv_step [OF assms(1), of i], of es] unfolding sum_list_indicator by linarith
  then have "filter (\<lambda>d. out_actuate d \<noteq> 0) (snd (run ac_step ?s es)) = []" unfolding c off(1) by simp
  then have "\<forall>d\<in>set (snd (run ac_step ?s es)). out_actuate d = 0" by (simp add: filter_empty_conv)
  then show ?thesis using off(2) by (simp add: ac_step_simps list_all_iff)
qed

theorem auto_camper_manual_off_respected_witness:
  "list_all (\<lambda>d. out_actuate d = 0) (snd (run ac_step (ac_init_state\<lparr>ac_owe := 1, ac_pre := 1, ac_until := 9000, ac_prev_ign := 0, ac_prev_master := 1\<rparr>)
     [\<lparr>in_ign = 0, in_master = 0, in_usb = 0, in_lights = 0, in_soc = 80, in_warning = 0, in_now = 5000\<rparr>,
      \<lparr>in_ign = 0, in_master = 0, in_usb = 0, in_lights = 0, in_soc = 80, in_warning = 0, in_now = 6000\<rparr>]))"
  by (rule auto_camper_manual_off_respected)
     (simp_all add: ac_inv_def ac_init_state_def CALI_AC_MAX_FAILS_def)

end
