(* ===== verification/Control_Text.thy ===== *)
theory Control_Text
  imports Prelude
begin

text \<open>
  The value texts of \<^verbatim>\<open>cali_core/control.c\<close>: tokens, case folding, on/off words, Python's integer syntax with
  saturation, and clock times. A C string is a \<open>string\<close> without its terminator; \<open>cap\<close> is the size of the
  C buffer a text is copied to. The lemmas show that saturation never changes what a range check accepts.
\<close>

definition CALI_CTL_VALUE_MAX :: nat where "CALI_CTL_VALUE_MAX = 64"

text \<open>\<open>long\<close> is 32 bits wide on the ESP32.\<close>

definition LONG_MAX :: int where "LONG_MAX = 2147483647"
definition LONG_MIN :: int where "LONG_MIN = - LONG_MAX - 1"

definition WS :: string where
  "WS = [CHR '' '', CHR 0x09, CHR 0x0a, CHR 0x0d, CHR 0x0b, CHR 0x0c]"

definition is_ws :: "char \<Rightarrow> bool" where
  "is_ws c \<longleftrightarrow> c \<in> set WS"

text \<open>The token and the text after it, or no token.\<close>

definition next_tok :: "string \<Rightarrow> string option \<times> string" where
  "next_tok p =
     (let t = dropWhile is_ws p in
      if t = [] then (None, t)
      else let e = dropWhile (\<lambda>c. \<not> is_ws c) t
           in (Some (takeWhile (\<lambda>c. \<not> is_ws c) t), if e \<noteq> [] then tl e else e))"

definition lower :: "char \<Rightarrow> char" where
  "lower c = (let n = of_char c :: nat in if 65 \<le> n \<and> n \<le> 90 then char_of (n - 65 + 97) else c)"

definition norm_text :: "string \<Rightarrow> nat \<Rightarrow> string" where
  "norm_text v cap = take (cap - 1) (map lower (rev (dropWhile is_ws (rev (dropWhile is_ws v)))))"

definition one_of :: "string \<Rightarrow> string list \<Rightarrow> bool" where
  "one_of s ss \<longleftrightarrow> list_ex (\<lambda>x. s = x) ss"

text \<open>\<open>Some True\<close> is 1, \<open>Some False\<close> is 0 and \<open>None\<close> is -1.\<close>

definition onoff :: "string \<Rightarrow> bool option" where
  "onoff v =
     (let s = norm_text v CALI_CTL_VALUE_MAX in
      if one_of s [''on'', ''true'', ''1''] then Some True
      else if one_of s [''off'', ''false'', ''0''] then Some False
      else None)"

definition is_digit :: "char \<Rightarrow> bool" where
  "is_digit c \<longleftrightarrow> 48 \<le> (of_char c :: nat) \<and> (of_char c :: nat) \<le> 57"

definition digit_val :: "char \<Rightarrow> int" where
  "digit_val c = int (of_char c) - 48"

text \<open>The digit loop: the value, the number of digits, the saturation flag and the text where it stopped.\<close>

fun py_digits :: "int \<Rightarrow> nat \<Rightarrow> bool \<Rightarrow> string \<Rightarrow> int \<times> nat \<times> bool \<times> string" where
  "py_digits v digits sat [] = (v, digits, sat, [])"
| "py_digits v digits sat (c # s) =
     (if is_digit c then
        if v > (LONG_MAX - digit_val c) div 10 then py_digits v (Suc digits) True s
        else py_digits (v * 10 + digit_val c) (Suc digits) sat s
      else if \<not> (c = CHR ''_'' \<and> digits \<noteq> 0 \<and> s \<noteq> [] \<and> is_digit (hd s)) then (v, digits, sat, c # s)
      else py_digits v digits sat s)"

definition py_sign :: "string \<Rightarrow> bool \<times> string" where
  "py_sign s =
     (case s of [] \<Rightarrow> (False, [])
      | c # t \<Rightarrow> if c = CHR ''+'' \<or> c = CHR ''-'' then (c = CHR ''-'', t) else (False, s))"

definition py_int :: "string \<Rightarrow> int option" where
  "py_int s =
     (let (neg, s1) = py_sign (dropWhile is_ws s);
          (v, digits, sat, s2) = py_digits 0 0 False s1;
          s3 = dropWhile is_ws s2
      in if digits = 0 \<or> s3 \<noteq> [] then None
         else Some (if sat then (if neg then LONG_MIN else LONG_MAX) else if neg then - v else v))"

definition int_range :: "string \<Rightarrow> int \<Rightarrow> int \<Rightarrow> int option" where
  "int_range v lo hi = (case py_int v of None \<Rightarrow> None | Some n \<Rightarrow> if n \<ge> lo \<and> n \<le> hi then Some n else None)"

definition hhmm :: "string \<Rightarrow> (int \<times> int) option" where
  "hhmm v =
     (let s = take (CALI_CTL_VALUE_MAX - 1) v;
          c = dropWhile (\<lambda>x. x \<noteq> CHR '':'') s in
      if c = [] \<or> CHR '':'' \<in> set (tl c) then None
      else case (py_int (takeWhile (\<lambda>x. x \<noteq> CHR '':'') s), py_int (tl c)) of
        (Some h, Some m) \<Rightarrow> if h \<ge> 0 \<and> h \<le> 23 \<and> m \<ge> 0 \<and> m \<le> 59 then Some (h, m) else None
      | _ \<Rightarrow> None)"

section \<open>Saturation\<close>

text \<open>Python's \<open>int(str)\<close> on the same syntax, without a bound.\<close>

fun big_digits :: "int \<Rightarrow> nat \<Rightarrow> string \<Rightarrow> int \<times> nat \<times> string" where
  "big_digits v digits [] = (v, digits, [])"
| "big_digits v digits (c # s) =
     (if is_digit c then big_digits (v * 10 + digit_val c) (Suc digits) s
      else if \<not> (c = CHR ''_'' \<and> digits \<noteq> 0 \<and> s \<noteq> [] \<and> is_digit (hd s)) then (v, digits, c # s)
      else big_digits v digits s)"

definition big_int :: "string \<Rightarrow> int option" where
  "big_int s =
     (let (neg, s1) = py_sign (dropWhile is_ws s);
          (v, digits, s2) = big_digits 0 0 s1
      in if digits = 0 \<or> dropWhile is_ws s2 \<noteq> [] then None else Some (if neg then - v else v))"

lemma digit_val_bounds: "is_digit c \<Longrightarrow> 0 \<le> digit_val c \<and> digit_val c \<le> 9"
  by (auto simp: is_digit_def digit_val_def)

lemma big_digits_mono: "0 \<le> v \<Longrightarrow> v \<le> fst (big_digits v n s)"
proof (induction v n s rule: big_digits.induct)
  case (2 v n c s)
  show ?case
  proof (cases "is_digit c")
    case True
    then have "v \<le> v * 10 + digit_val c" using 2(3) digit_val_bounds [OF True] by simp
    then show ?thesis using 2(1) [OF True] 2(3) True by simp
  next
    case False
    then show ?thesis using 2(2,3) by simp
  qed
qed simp

text \<open>
  The relation between the saturating loop and the exact one: the same number of digits and the same rest,
  and either the same value, or saturated and the exact value above \<open>LONG_MAX\<close>.
\<close>

definition sat_rel :: "bool \<Rightarrow> int \<Rightarrow> int \<Rightarrow> bool" where
  "sat_rel sat v w \<longleftrightarrow> 0 \<le> v \<and> v \<le> LONG_MAX \<and> (if sat then w > LONG_MAX else w = v)"

lemma py_digits_big:
  assumes "sat_rel sat v w"
  shows "\<exists>v' sat' w'. py_digits v n sat s = (v', fst (snd (big_digits w n s)), sat', snd (snd (big_digits w n s))) \<and>
    fst (big_digits w n s) = w' \<and> sat_rel sat' v' w'"
  using assms
proof (induction v n sat s arbitrary: w rule: py_digits.induct)
  case (1 v n sat)
  then show ?case by simp
next
  case (2 v n sat c s)
  show ?case
  proof (cases "is_digit c")
    case True
    note d = digit_val_bounds [OF True]
    show ?thesis
    proof (cases "v > (LONG_MAX - digit_val c) div 10")
      case big: True
      have "sat_rel True v (w * 10 + digit_val c)"
        using 2(4) big d by (auto simp: sat_rel_def LONG_MAX_def split: if_splits)
      from 2(1) [OF True big this] show ?thesis using True big by simp
    next
      case small: False
      then have "v * 10 + digit_val c \<le> LONG_MAX" by (auto simp: LONG_MAX_def)
      then have "sat_rel sat (v * 10 + digit_val c) (w * 10 + digit_val c)"
        using 2(4) d by (auto simp: sat_rel_def LONG_MAX_def split: if_splits)
      from 2(2) [OF True small this] show ?thesis using True small by simp
    qed
  next
    case False
    show ?thesis
    proof (cases "c = CHR ''_'' \<and> n \<noteq> 0 \<and> s \<noteq> [] \<and> is_digit (hd s)")
      case True
      from 2(3) [OF False _ 2(4)] show ?thesis using True False by simp
    next
      case stop: False
      then show ?thesis using False 2(4) by auto
    qed
  qed
qed

lemma py_int_big:
  "(case big_int s of None \<Rightarrow> py_int s = None
    | Some w \<Rightarrow> \<exists>n. py_int s = Some n \<and> (n = w \<or> n = LONG_MAX \<and> w > LONG_MAX \<or> n = LONG_MIN \<and> w < - LONG_MAX))"
proof -
  obtain neg s1 where s1: "py_sign (dropWhile is_ws s) = (neg, s1)" by (cases "py_sign (dropWhile is_ws s)")
  have "sat_rel False 0 0" by (simp add: sat_rel_def LONG_MAX_def)
  from py_digits_big [OF this, of 0 s1] show ?thesis
    by (auto simp: py_int_def big_int_def s1 split_beta sat_rel_def split: if_splits)
qed

section \<open>Properties\<close>

text \<open>
  Saturation never changes the answer of a range check: for bounds inside the range of
  \<open>long\<close>, \<open>int_range\<close> accepts a text exactly when it is an integer in Python's syntax whose true value, of
  any size, lies in the range, and it returns that value.
\<close>

theorem int_range_exact:
  assumes "- LONG_MAX \<le> lo" and "hi < LONG_MAX"
  shows "int_range v lo hi = Some n \<longleftrightarrow> big_int v = Some n \<and> lo \<le> n \<and> n \<le> hi"
  using py_int_big [of v] assms
  by (cases "big_int v") (auto simp: int_range_def LONG_MIN_def LONG_MAX_def split: option.splits if_splits)

theorem int_range_exact_witness:
  "int_range ''99999999999999999999999'' 0 23 \<noteq> Some 23 \<and> int_range '' +2_3 '' 0 23 = Some 23"
proof -
  have lo: "- LONG_MAX \<le> 0" and hi: "(23 :: int) < LONG_MAX" by (simp_all add: LONG_MAX_def)
  have a: "big_int ''99999999999999999999999'' = Some 99999999999999999999999" by code_simp
  have b: "big_int '' +2_3 '' = Some 23" by code_simp
  show ?thesis
    using int_range_exact [OF lo hi, of "''99999999999999999999999''" 23] int_range_exact [OF lo hi, of "'' +2_3 ''" 23] a b
    by simp
qed

end
