(* ===== verification/Control.thy ===== *)
theory Control
  imports Codec Control_Text
begin

text \<open>
  The control planner of \<^verbatim>\<open>cali_core/control.c\<close> with the generated constants of
  \<^verbatim>\<open>csrc/control_consts.h\<close>: the builders, the gates, the wake-up light and the write allow-list. The reader
  of the decoded state is the function \<open>get\<close> (the code's callback with its context applied), the plan's
  frames are a list, and a builder returns its result code and the plan. The lemmas show that a plan can
  only hold frames of the allow-list and what the frames of the safety-relevant commands carry.
\<close>

section \<open>Constants\<close>

definition em_dash :: string where "em_dash = [CHR 0xe2, CHR 0x80, CHR 0x94]"

definition CALI_CTL_NCHARS :: nat where "CALI_CTL_NCHARS = 5"
definition CALI_SENTINEL :: u32 where "CALI_SENTINEL = 3"
definition CALI_LIGHT_ON :: u32 where "CALI_LIGHT_ON = 0"
definition CALI_LIGHT_OFF :: u32 where "CALI_LIGHT_OFF = 1"
definition CALI_LIGHT_MODE_SET_BRIGHTNESS :: u32 where "CALI_LIGHT_MODE_SET_BRIGHTNESS = 4"
definition CALI_LIGHT_MODE_SET_COLOR :: u32 where "CALI_LIGHT_MODE_SET_COLOR = 6"
definition CALI_LIGHT_MODE_SET_PROFILE :: u32 where "CALI_LIGHT_MODE_SET_PROFILE = 16"
definition CALI_LIGHT_MODE_REQUEST_CONFIG :: u32 where "CALI_LIGHT_MODE_REQUEST_CONFIG = 12"
definition CALI_LIGHT_MODE_WAKEUP_TIME :: u32 where "CALI_LIGHT_MODE_WAKEUP_TIME = 20"
definition CALI_LIGHT_PROFILE_DOOR_CONTACT :: u32 where "CALI_LIGHT_PROFILE_DOOR_CONTACT = 8"
definition CALI_LIGHT_PROFILE_ALL_ON :: u32 where "CALI_LIGHT_PROFILE_ALL_ON = 12"
definition CALI_LIGHT_PROFILE_ALL_OFF :: u32 where "CALI_LIGHT_PROFILE_ALL_OFF = 0"
definition CALI_LIGHT_UNCHANGED :: u32 where "CALI_LIGHT_UNCHANGED = 14"
definition CALI_LIGHT_MAX_SET :: u32 where "CALI_LIGHT_MAX_SET = 11"
definition CALI_LIGHT_BRIGHTNESS_PROFILE :: u32 where "CALI_LIGHT_BRIGHTNESS_PROFILE = 9"
definition CALI_AIRHEATER_MAX_RUNTIME_MIN :: int where "CALI_AIRHEATER_MAX_RUNTIME_MIN = 120"
definition CALI_AIRHEATER_MIN_RUNTIME_MIN :: int where "CALI_AIRHEATER_MIN_RUNTIME_MIN = 10"
definition CALI_AIRHEATER_MODE_UNCHANGED :: u32 where "CALI_AIRHEATER_MODE_UNCHANGED = 7"
definition CALI_AIRHEATER_MODE_TIMER_ARMED :: u32 where "CALI_AIRHEATER_MODE_TIMER_ARMED = 3"
definition CALI_AIRHEATER_MODE_IDLE :: u32 where "CALI_AIRHEATER_MODE_IDLE = 0"
definition CALI_AIRHEATER_COMBINED_AIR_HEATER :: u32 where "CALI_AIRHEATER_COMBINED_AIR_HEATER = 1"
definition CALI_AIRHEATER_LEVEL_UNCHANGED :: u32 where "CALI_AIRHEATER_LEVEL_UNCHANGED = 11"
definition CALI_AIRHEATER_RUNTIME_UNCHANGED :: u32 where "CALI_AIRHEATER_RUNTIME_UNCHANGED = 127"
definition CALI_AIRHEATER_TIMER_HOUR_UNCHANGED :: u32 where "CALI_AIRHEATER_TIMER_HOUR_UNCHANGED = 31"
definition CALI_AIRHEATER_TIMER_MIN_UNCHANGED :: u32 where "CALI_AIRHEATER_TIMER_MIN_UNCHANGED = 63"
definition CALI_WAKEUP_DEFAULT_COLOUR :: u32 where "CALI_WAKEUP_DEFAULT_COLOUR = 1"
definition CALI_WAKEUP_DEFAULT_AREAS :: u32 where "CALI_WAKEUP_DEFAULT_AREAS = 0x1"
definition CALI_WAKEUP_DEFAULT_BRIGHTNESS :: u32 where "CALI_WAKEUP_DEFAULT_BRIGHTNESS = 0"
definition CALI_WAKEUP_DEFAULT_RAMP :: u32 where "CALI_WAKEUP_DEFAULT_RAMP = 0"
definition CALI_WAKEUP_UNKNOWN :: string where
  "CALI_WAKEUP_UNKNOWN = ''wake-up config not known yet (the unit has not reported it): give on|off with the edit''"
definition CALI_REASON_AIRHEATER_NOT_POSSIBLE :: string where
  "CALI_REASON_AIRHEATER_NOT_POSSIBLE = ''the auxiliary air heater cannot be activated when the engine is running or when the auxiliary water heater is activated''"
definition CALI_REASON_AIRHEATER_RUNTIME_PERMANENT :: string where
  "CALI_REASON_AIRHEATER_RUNTIME_PERMANENT = ''the run time cannot be changed while continuous heating is on''"
definition CALI_REASON_AIRHEATER_TIMER_ARMED :: string where
  "CALI_REASON_AIRHEATER_TIMER_ARMED = ''the start time cannot be changed while the timer is on (stop the timer first)''"
definition CALI_REASON_CAMPING_NEEDS_MASTER :: string where
  "CALI_REASON_CAMPING_NEEDS_MASTER = ''camping lights and USB need camping mode on (turn the camping master on first)''"
definition CALI_REASON_COOLER_STATE_UNKNOWN :: string where
  "CALI_REASON_COOLER_STATE_UNKNOWN = ''the cooler'' @ [CHR 0x27] @ ''s current schedule is not known yet (no cooler state read) '' @ em_dash @ '' refusing to overwrite it''"
definition CALI_REASON_COOLER_TIMER_NEEDS_FRIDGE_OFF :: string where
  "CALI_REASON_COOLER_TIMER_NEEDS_FRIDGE_OFF = ''the cooling timer can only be set while the fridge is off (turn the cooler off first)''"
definition CALI_REASON_ENERGY_ECO_NEEDS_SOLAR :: string where
  "CALI_REASON_ENERGY_ECO_NEEDS_SOLAR = ''ECO needs a solar panel fitted '' @ em_dash @ '' the unit reports none (or has not reported it yet), so the app would not offer ECO''"
definition CALI_REASON_ENERGY_LOCKED :: string where
  "CALI_REASON_ENERGY_LOCKED = ''the unit currently does not allow changing the energy mode''"
definition CALI_REASON_FAVOURITE_EMPTY :: string where
  "CALI_REASON_FAVOURITE_EMPTY = ''this favourite is empty on the unit '' @ em_dash @ '' save it first''"
definition CALI_REASON_NOT_ONOFF :: string where
  "CALI_REASON_NOT_ONOFF = ''the value must be on or off (or true/false, 1/0) '' @ em_dash @ '' anything else is refused, never read as off''"
definition CALI_REASON_QUIET_NEEDS_FRIDGE_ON :: string where
  "CALI_REASON_QUIET_NEEDS_FRIDGE_ON = ''quiet mode can only be set while the fridge is on (switch the cooler on first)''"
definition CALI_REASON_ROOF_NEEDS_IGNITION :: string where
  "CALI_REASON_ROOF_NEEDS_IGNITION = ''the pop-up roof moves only with the ignition on (switch on the ignition first)''"
definition CALI_REASON_ROOF_READING :: string where
  "CALI_REASON_ROOF_READING = ''the pop-top roof reading light needs the roof raised (roof is closed)''"
definition CALI_REASON_WAKEUP_NO_AREA :: string where
  "CALI_REASON_WAKEUP_NO_AREA = ''the wake-up light needs at least one vehicle area''"
definition CALI_REASON_ELSEWHERE :: string where
  "CALI_REASON_ELSEWHERE = ''Only via buspi or the app''"
definition CALI_REASON_WAKEUP_CLOCK :: string where
  "CALI_REASON_WAKEUP_CLOCK = ''the wake-up light needs the time from the web page '' @ em_dash @ '' set it there''"

record cali_ctl_char =
  cc_function :: string
  cc_control_short :: u16
  cc_frame_bytes :: nat

definition CALI_CTL_CHARS :: "cali_ctl_char list" where
  "CALI_CTL_CHARS =
    [\<lparr>cc_function = ''airheater'', cc_control_short = 0x1701, cc_frame_bytes = 6\<rparr>,
     \<lparr>cc_function = ''campingmode'', cc_control_short = 0x1201, cc_frame_bytes = 1\<rparr>,
     \<lparr>cc_function = ''cooler'', cc_control_short = 0x1101, cc_frame_bytes = 6\<rparr>,
     \<lparr>cc_function = ''energy'', cc_control_short = 0x1601, cc_frame_bytes = 1\<rparr>,
     \<lparr>cc_function = ''lighting'', cc_control_short = 0x1501, cc_frame_bytes = 16\<rparr>]"

definition CALI_LIGHT_COMMIT :: "u8 list" where
  "CALI_LIGHT_COMMIT = [0x0e, 0x00, 0x00, 0x00, 0x00, 0x00, 0x00, 0x00, 0xee, 0xee, 0xee, 0xee, 0xee, 0xee, 0xee, 0xee]"

definition CALI_LIGHT_ZONES :: "(string \<times> string) list" where
  "CALI_LIGHT_ZONES =
    [(''reading-1'', ''BrightnessLTwo''), (''reading-2'', ''BrightnessLOne''), (''reading-3'', ''BrightnessLFour''),
     (''kitchen'', ''BrightnessLSeven''), (''roof-ambient'', ''BrightnessLEight''), (''outside-rear'', ''BrightnessLThree''),
     (''kitchen-ambient'', ''BrightnessLFive''), (''kitchen-cabinet'', ''BrightnessLSix''),
     (''roof-reading'', ''BrightnessLNine''), (''entrance'', ''BrightnessLOneTwo'')]"

definition CALI_LIGHT_ZONE_FIELDS :: "string list" where
  "CALI_LIGHT_ZONE_FIELDS =
    [''BrightnessLOne'', ''BrightnessLTwo'', ''BrightnessLThree'', ''BrightnessLFour'', ''BrightnessLFive'',
     ''BrightnessLSix'', ''BrightnessLSeven'', ''BrightnessLEight'', ''BrightnessLNine'', ''BrightnessLOneZero'',
     ''BrightnessLOneOne'', ''BrightnessLOneTwo'', ''BrightnessLOneThree'', ''BrightnessLOneFour'',
     ''BrightnessLOneFive'', ''BrightnessLOneSix'']"

definition CALI_LIGHT_REAL_ZONE_FIELDS :: "string list" where
  "CALI_LIGHT_REAL_ZONE_FIELDS =
    [''BrightnessLOne'', ''BrightnessLTwo'', ''BrightnessLThree'', ''BrightnessLFour'', ''BrightnessLFive'',
     ''BrightnessLSix'', ''BrightnessLSeven'', ''BrightnessLEight'', ''BrightnessLNine'', ''BrightnessLOneTwo'']"

definition CALI_LIGHT_COLORS :: "(string \<times> u32) list" where
  "CALI_LIGHT_COLORS =
    [(''warm-white'', 1), (''blood-orange'', 2), (''amber'', 3), (''pistachio'', 4), (''peppermint'', 5),
     (''mint'', 6), (''azure'', 7), (''dark-blue'', 8), (''red'', 9), (''salmon'', 10)]"

definition CALI_COOLER_MODES :: "(string \<times> u32) list" where
  "CALI_COOLER_MODES = [(''normal'', 0), (''quiet'', 2), (''timer_quiet'', 4)]"

definition CALI_ENERGY_MODES :: "(string \<times> u32) list" where
  "CALI_ENERGY_MODES = [(''normal'', 0), (''max_charge'', 1), (''eco'', 2)]"

definition CALI_ROOF_CLOSED_POSITIONS :: "u32 list" where "CALI_ROOF_CLOSED_POSITIONS = [0, 14]"

definition CALI_WAKEUP_RAMPS_MIN :: "int list" where "CALI_WAKEUP_RAMPS_MIN = [0, 10, 20, 30]"

definition CALI_LIGHT_REQUEST_CONFIG :: "u8 list" where
  "CALI_LIGHT_REQUEST_CONFIG =
    [0x0d, 0x0c, 0x00, 0x00, 0x00, 0x00, 0x00, 0x00, 0xee, 0xee, 0xee, 0xee, 0xee, 0xee, 0xee, 0xee]"

definition CALI_CTL_MAX_FRAMES :: nat where "CALI_CTL_MAX_FRAMES = 4"
definition CODEC_FOLLOW_DELAY_MS :: u16 where "CODEC_FOLLOW_DELAY_MS = 300"

datatype cali_ctl_rc = CALI_CTL_OK | CALI_CTL_REFUSED | CALI_CTL_ELSEWHERE | CALI_CTL_BAD_VALUE | CALI_CTL_NONE
  | CALI_CTL_PENDING | CALI_CTL_BUSY | CALI_CTL_NOT_READY | CALI_CTL_FAILED | CALI_CTL_TIMEOUT | CALI_CTL_UNCONFIRMED

record cali_ctl_frame =
  fr_chr :: u16
  fr_delay_ms :: u16
  fr_len :: u8
  fr_data :: "u8 list"

record cali_ctl_plan =
  pl_rc :: cali_ctl_rc
  pl_reason :: "string option"
  pl_pull :: bool
  pl_f :: "cali_ctl_frame list"

type_synonym ctl_get = "string \<Rightarrow> string \<Rightarrow> u32 option"

section \<open>Frame assembly\<close>

definition lookup_name :: "(string \<times> u32) list \<Rightarrow> string \<Rightarrow> u32 option" where
  "lookup_name t k = map_of t k"

record vals =
  vs_kv :: "codec_kv list"
  vs_overflow :: bool

definition reset_vals :: vals where
  "reset_vals = \<lparr>vs_kv = [], vs_overflow = False\<rparr>"

fun put_kv :: "codec_kv list \<Rightarrow> string \<Rightarrow> u32 \<Rightarrow> codec_kv list option" where
  "put_kv [] name value = None"
| "put_kv (k # ks) name value =
     (if kv_name k = name then Some (k\<lparr>kv_value := value\<rparr> # ks) else map_option ((#) k) (put_kv ks name value))"

definition put :: "string \<Rightarrow> u32 \<Rightarrow> vals \<Rightarrow> vals" where
  "put name value v =
     (case put_kv (vs_kv v) name value of
        Some ks \<Rightarrow> v\<lparr>vs_kv := ks\<rparr>
      | None \<Rightarrow> if length (vs_kv v) = CODEC_KV_MAX then v\<lparr>vs_overflow := True\<rparr>
               else v\<lparr>vs_kv := vs_kv v @ [\<lparr>kv_name = name, kv_value = value, kv_supplied = 1\<rparr>]\<rparr>)"

definition st :: "ctl_get \<Rightarrow> string \<Rightarrow> string \<Rightarrow> u32 \<Rightarrow> u32" where
  "st get fn field dflt = (case get fn field of Some v \<Rightarrow> v | None \<Rightarrow> dflt)"

definition ctl_char :: "string \<Rightarrow> cali_ctl_char option" where
  "ctl_char fn = find (\<lambda>c. cc_function c = fn) (take CALI_CTL_NCHARS CALI_CTL_CHARS)"

text \<open>
  \<open>add\<close> and \<open>add_commit\<close> return the extended plan, or \<open>None\<close> for the code's -1. Every caller passes one of
  the five functions, so neither table lookup fails.
\<close>

definition add :: "string \<Rightarrow> vals \<Rightarrow> u16 \<Rightarrow> cali_ctl_plan \<Rightarrow> cali_ctl_plan option" where
  "add fn v delay p =
     (case (ctl_char fn, codec_func_by_name fn) of
        (Some c, Some f) \<Rightarrow>
          if length (pl_f p) = CALI_CTL_MAX_FRAMES \<or> vs_overflow v then None
          else (case codec_encode f (vs_kv v) (cc_frame_bytes c) of
              Inl _ \<Rightarrow> None
            | Inr data \<Rightarrow> Some (p\<lparr>pl_f := pl_f p @ [\<lparr>fr_chr = cc_control_short c, fr_delay_ms = delay,
                fr_len = word_of_nat (length data), fr_data = data\<rparr>]\<rparr>))
      | _ \<Rightarrow> None)"

definition add_commit :: "cali_ctl_plan \<Rightarrow> cali_ctl_plan option" where
  "add_commit p =
     (case ctl_char ''lighting'' of
        Some c \<Rightarrow>
          if length (pl_f p) = CALI_CTL_MAX_FRAMES then None
          else Some (p\<lparr>pl_f := pl_f p @ [\<lparr>fr_chr = cc_control_short c, fr_delay_ms = CODEC_FOLLOW_DELAY_MS,
                 fr_len = word_of_nat (length CALI_LIGHT_COMMIT), fr_data = CALI_LIGHT_COMMIT\<rparr>]\<rparr>)
      | None \<Rightarrow> None)"

text \<open>\<open>return add(p, fn, v, 0) ? CALI_CTL_BAD_VALUE : CALI_CTL_OK;\<close>\<close>

definition finish :: "string \<Rightarrow> vals \<Rightarrow> cali_ctl_plan \<Rightarrow> cali_ctl_rc \<times> cali_ctl_plan" where
  "finish fn v p = (case add fn v 0 p of None \<Rightarrow> (CALI_CTL_BAD_VALUE, p) | Some q \<Rightarrow> (CALI_CTL_OK, q))"

text \<open>\<open>if (add(p, "lighting", v, 0) || add_commit(p)) return CALI_CTL_BAD_VALUE;\<close>, with what is left of the plan.\<close>

definition add_lighting :: "vals \<Rightarrow> cali_ctl_plan \<Rightarrow> bool \<times> cali_ctl_plan" where
  "add_lighting v p =
     (case add ''lighting'' v 0 p of
        None \<Rightarrow> (False, p)
      | Some q \<Rightarrow> (case add_commit q of None \<Rightarrow> (False, q) | Some r \<Rightarrow> (True, r)))"

section \<open>Builders\<close>

abbreviation nat_of_bool :: "bool \<Rightarrow> u32" where
  "nat_of_bool b \<equiv> (if b then 1 else 0)"

definition b_cooler :: "string \<Rightarrow> string \<Rightarrow> ctl_get \<Rightarrow> cali_ctl_plan \<Rightarrow> cali_ctl_rc \<times> cali_ctl_plan" where
  "b_cooler what value get p =
     (if what = ''power'' then
        (case onoff value of None \<Rightarrow> (CALI_CTL_BAD_VALUE, p)
         | Some on \<Rightarrow> finish ''cooler'' (put ''State'' (nat_of_bool on) reset_vals) p)
      else if what = ''level'' then
        (case int_range value 1 5 of None \<Rightarrow> (CALI_CTL_BAD_VALUE, p)
         | Some a \<Rightarrow> finish ''cooler'' (put ''Level'' (word_of_int a) reset_vals) p)
      else if what = ''mode'' then
        (case lookup_name CALI_COOLER_MODES (norm_text value CALI_CTL_VALUE_MAX) of None \<Rightarrow> (CALI_CTL_NONE, p)
         | Some a \<Rightarrow> finish ''cooler'' (put ''Mode'' a reset_vals) p)
      else if what = ''timer_set'' then
        (case hhmm value of None \<Rightarrow> (CALI_CTL_BAD_VALUE, p)
         | Some (a, b) \<Rightarrow> finish ''cooler'' (put ''TimerMin'' (word_of_int b) (put ''TimerHour'' (word_of_int a) reset_vals)) p)
      else if what = ''timer_start'' then finish ''cooler'' (put ''TimerStart'' 1 reset_vals) p
      else if what = ''timer_cancel'' then finish ''cooler'' (put ''TimerCancel'' 1 reset_vals) p
      else if what = ''night_on'' \<or> what = ''night_off'' then
        (case int_range value 0 23 of None \<Rightarrow> (CALI_CTL_BAD_VALUE, p)
         | Some a \<Rightarrow>
             (case get ''cooler'' ''State'' of None \<Rightarrow> (CALI_CTL_BAD_VALUE, p)
              | Some _ \<Rightarrow>
                  let v = put ''State'' (st get ''cooler'' ''State'' 1) reset_vals;
                      v = put ''Mode'' (st get ''cooler'' ''Mode'' 4) v;
                      v = put ''Level'' (st get ''cooler'' ''Level'' 3) v;
                      v = put ''TimerStart'' CALI_SENTINEL v;
                      v = put ''TimerCancel'' CALI_SENTINEL v;
                      v = put ''NightTimerSet'' (st get ''cooler'' ''NightTimerSet'' 0) v;
                      v = put ''NightTimerHourOn'' (st get ''cooler'' ''NightTimerHourOn'' 0) v;
                      v = put ''NightTimerHourOff'' (st get ''cooler'' ''NightTimerHourOff'' 0) v;
                      v = put ''TimerHour'' (st get ''cooler'' ''TimerHourSet'' 0) v;
                      v = put ''TimerMin'' (st get ''cooler'' ''TimerMinSet'' 0) v;
                      v = put (if what = ''night_on'' then ''NightTimerHourOn'' else ''NightTimerHourOff'') (word_of_int a) v
                  in finish ''cooler'' v p))
      else (CALI_CTL_NONE, p))"

definition b_camping :: "string \<Rightarrow> string \<Rightarrow> cali_ctl_plan \<Rightarrow> cali_ctl_rc \<times> cali_ctl_plan" where
  "b_camping what value p =
     (case onoff value of None \<Rightarrow> (CALI_CTL_BAD_VALUE, p)
      | Some on \<Rightarrow>
          let v = put ''State'' CALI_SENTINEL reset_vals;
              v = put ''UsbCharger'' CALI_SENTINEL v;
              v = put ''InteriorLight'' CALI_SENTINEL v;
              v = put ''OutsideLight'' CALI_SENTINEL v
          in if what = ''lights'' then
               finish ''campingmode'' (put ''OutsideLight'' (if on then CALI_LIGHT_ON else CALI_LIGHT_OFF)
                 (put ''InteriorLight'' (if on then CALI_LIGHT_ON else CALI_LIGHT_OFF) v)) p
             else if what = ''usb'' then finish ''campingmode'' (put ''UsbCharger'' (nat_of_bool on) v) p
             else if what = ''master'' then finish ''campingmode'' (put ''State'' (nat_of_bool on) v) p
             else (CALI_CTL_NONE, p))"

definition b_energy :: "string \<Rightarrow> string \<Rightarrow> cali_ctl_plan \<Rightarrow> cali_ctl_rc \<times> cali_ctl_plan" where
  "b_energy what value p =
     (if what \<noteq> ''mode'' then (CALI_CTL_NONE, p)
      else case lookup_name CALI_ENERGY_MODES (norm_text value CALI_CTL_VALUE_MAX) of None \<Rightarrow> (CALI_CTL_NONE, p)
      | Some m \<Rightarrow> finish ''energy'' (put ''DisplayRefresh'' 0 (put ''EnergyModeSet'' m reset_vals)) p)"

definition airheater_base :: vals where
  "airheater_base =
     (let v = put ''NormalOperationRequest'' CALI_SENTINEL reset_vals;
          v = put ''PermanentOperationRequest'' CALI_SENTINEL v;
          v = put ''PermanentOperationConfirmation'' CALI_SENTINEL v;
          v = put ''AirDistribution'' 0 v;
          v = put ''OperationModeAirHeater'' CALI_AIRHEATER_MODE_UNCHANGED v;
          v = put ''HeatingLevel'' CALI_AIRHEATER_LEVEL_UNCHANGED v;
          v = put ''OperationModeCombined'' 0 v;
          v = put ''RunningTime'' CALI_AIRHEATER_RUNTIME_UNCHANGED v;
          v = put ''TimerHour'' CALI_AIRHEATER_TIMER_HOUR_UNCHANGED v
      in put ''TimerMin'' CALI_AIRHEATER_TIMER_MIN_UNCHANGED v)"

text \<open>The values of an air heater command, or the code a bad one answers.\<close>

definition airheater_vals :: "string \<Rightarrow> string \<Rightarrow> cali_ctl_rc + vals" where
  "airheater_vals what value =
     (let v = airheater_base in
      if what = ''power'' then
        (case onoff value of None \<Rightarrow> Inl CALI_CTL_BAD_VALUE
         | Some on \<Rightarrow> Inr (put ''NormalOperationRequest'' (nat_of_bool on) v))
      else if what = ''level'' then
        (case int_range value 1 10 of None \<Rightarrow> Inl CALI_CTL_BAD_VALUE
         | Some a \<Rightarrow> Inr (put ''HeatingLevel'' (word_of_int a) v))
      else if what = ''runtime'' then
        (case int_range value CALI_AIRHEATER_MIN_RUNTIME_MIN CALI_AIRHEATER_MAX_RUNTIME_MIN of None \<Rightarrow> Inl CALI_CTL_BAD_VALUE
         | Some a \<Rightarrow> Inr (put ''RunningTime'' (word_of_int a) v))
      else if what = ''timer'' then
        (case hhmm value of None \<Rightarrow> Inl CALI_CTL_BAD_VALUE
         | Some (a, b) \<Rightarrow> Inr (put ''TimerMin'' (word_of_int b) (put ''TimerHour'' (word_of_int a) v)))
      else if what = ''timer_start'' then
        Inr (put ''OperationModeCombined'' CALI_AIRHEATER_COMBINED_AIR_HEATER
          (put ''OperationModeAirHeater'' CALI_AIRHEATER_MODE_TIMER_ARMED v))
      else if what = ''timer_cancel'' then Inr (put ''OperationModeAirHeater'' CALI_AIRHEATER_MODE_IDLE v)
      else if what = ''permanent'' then
        if \<not> one_of (norm_text value CALI_CTL_VALUE_MAX) [''off'', ''false'', ''0''] then Inl CALI_CTL_BAD_VALUE
        else Inr (put ''PermanentOperationRequest'' 0 v)
      else Inl CALI_CTL_NONE)"

definition b_airheater :: "string \<Rightarrow> string \<Rightarrow> cali_ctl_plan \<Rightarrow> cali_ctl_rc \<times> cali_ctl_plan" where
  "b_airheater what value p =
     (case airheater_vals what value of Inl rc \<Rightarrow> (rc, p) | Inr v \<Rightarrow> finish ''airheater'' v p)"

section \<open>Lighting\<close>

definition is_real_zone :: "string \<Rightarrow> bool" where
  "is_real_zone z = one_of z CALI_LIGHT_REAL_ZONE_FIELDS"

definition zones_all :: "u32 \<Rightarrow> vals \<Rightarrow> vals" where
  "zones_all b v = fold (\<lambda>z. put z b) CALI_LIGHT_ZONE_FIELDS v"

definition zones_real :: "u32 \<Rightarrow> vals \<Rightarrow> vals" where
  "zones_real b v = fold (\<lambda>z. put z (if is_real_zone z then b else CALI_LIGHT_UNCHANGED)) CALI_LIGHT_ZONE_FIELDS v"

definition zones_saved :: "ctl_get \<Rightarrow> vals \<Rightarrow> vals" where
  "zones_saved get v =
     fold (\<lambda>z. put z (case get ''lighting'' z of
        Some x \<Rightarrow> if is_real_zone z \<and> x \<le> CALI_LIGHT_MAX_SET then x else CALI_LIGHT_UNCHANGED
      | None \<Rightarrow> CALI_LIGHT_UNCHANGED)) CALI_LIGHT_ZONE_FIELDS v"

text \<open>The favourite and its colour; the code's colour -1 is \<open>None\<close>.\<close>

definition save_args :: "string \<Rightarrow> (int \<times> u32 option) option" where
  "save_args value =
     (let s = take (CALI_CTL_VALUE_MAX - 1) value;
          (t0, r0) = next_tok s;
          (t1, r1) = (if t0 \<noteq> None then next_tok r0 else (None, r0));
          (t2, r2) = (if t1 \<noteq> None then next_tok r1 else (None, r1))
      in case t0 of None \<Rightarrow> None
         | Some n0 \<Rightarrow>
             if t2 \<noteq> None then None
             else (case int_range n0 1 7 of None \<Rightarrow> None
                   | Some n \<Rightarrow>
                       (case t1 of None \<Rightarrow> Some (n, None)
                        | Some c \<Rightarrow>
                            map_option (\<lambda>x. (n, Some x))
                              (lookup_name CALI_LIGHT_COLORS (map (\<lambda>x. if x = CHR ''_'' then CHR ''-'' else lower x) c)))))"

definition zone_field :: "string \<Rightarrow> string" where
  "zone_field what = (case find (\<lambda>z. fst z = what) CALI_LIGHT_ZONES of Some z \<Rightarrow> snd z | None \<Rightarrow> what)"

definition CALI_LCFG_KEYS :: "string list" where
  "CALI_LCFG_KEYS = [''WakeupTimestamp'', ''WakeupLightValue'', ''DoorContact'', ''FavouritesStored'']"

definition CALI_LCFG_WAKE_TS :: nat where "CALI_LCFG_WAKE_TS = 0"
definition CALI_LCFG_WAKE_LV :: nat where "CALI_LCFG_WAKE_LV = 1"
definition CALI_LCFG_DOOR :: nat where "CALI_LCFG_DOOR = 2"
definition CALI_LCFG_FAVS :: nat where "CALI_LCFG_FAVS = 3"
definition CALI_LCFG_N :: nat where "CALI_LCFG_N = 4"

record cali_light_cfg =
  lc_have :: u32
  lc_v :: "u32 list"

definition LCFG_SET :: "nat \<Rightarrow> u32 \<Rightarrow> cali_light_cfg \<Rightarrow> cali_light_cfg" where
  "LCFG_SET k x c = c\<lparr>lc_v := (lc_v c)[k := x], lc_have := lc_have c OR push_bit k 1\<rparr>"

definition lcfg_has :: "cali_light_cfg \<Rightarrow> nat \<Rightarrow> bool" where
  "lcfg_has c k \<longleftrightarrow> drop_bit k (lc_have c) AND 1 \<noteq> 0"

definition cali_light_cfg_ctx :: "ctl_get \<Rightarrow> cali_light_cfg" where
  "cali_light_cfg_ctx get =
     (let c0 = \<lparr>lc_have = 0, lc_v = replicate CALI_LCFG_N 0\<rparr>;
          c1 = fold (\<lambda>k c. case get ''lighting'' (CALI_LCFG_KEYS ! k) of Some x \<Rightarrow> LCFG_SET k x c | None \<Rightarrow> c)
                 [0..<CALI_LCFG_N] c0
      in case get ''lighting'' ''Mode'' of None \<Rightarrow> c1
         | Some mode \<Rightarrow>
             let p = get ''lighting'' ''ProfileNumber'';
                 l = get ''lighting'' ''LightValue'';
                 ts = get ''lighting'' ''Timestamp''
             in if mode = CALI_LIGHT_MODE_WAKEUP_TIME \<and> l \<noteq> None \<and> ts \<noteq> None
                then LCFG_SET CALI_LCFG_WAKE_LV (the l) (LCFG_SET CALI_LCFG_WAKE_TS (the ts) c1)
                else if mode = CALI_LIGHT_MODE_SET_PROFILE \<and> p = Some CALI_LIGHT_PROFILE_DOOR_CONTACT \<and> l \<noteq> None
                then LCFG_SET CALI_LCFG_DOOR (the l) c1
                else if mode = CALI_LIGHT_MODE_REQUEST_CONFIG \<and> l \<noteq> None \<and> p \<noteq> Some 13
                then LCFG_SET CALI_LCFG_FAVS (the l AND 0x7F) c1
                else if mode = CALI_LIGHT_MODE_SET_BRIGHTNESS \<and> p \<noteq> None \<and> the p \<ge> 1 \<and> the p \<le> 7 \<and> lcfg_has c1 CALI_LCFG_FAVS
                then c1\<lparr>lc_v := (lc_v c1)[CALI_LCFG_FAVS := lc_v c1 ! CALI_LCFG_FAVS OR push_bit (unat (the p - 1)) 1]\<rparr>
                else c1)"

definition cali_light_reports_state_ctx :: "ctl_get \<Rightarrow> bool" where
  "cali_light_reports_state_ctx get =
     (case get ''lighting'' ''Mode'' of None \<Rightarrow> False
      | Some mode \<Rightarrow>
          let p = get ''lighting'' ''ProfileNumber''
          in if mode = CALI_LIGHT_MODE_SET_BRIGHTNESS then \<not> (p \<noteq> None \<and> the p \<ge> 1 \<and> the p \<le> 7)
             else mode = CALI_LIGHT_MODE_SET_PROFILE \<and> p \<noteq> Some CALI_LIGHT_PROFILE_DOOR_CONTACT)"

definition lighting_base :: vals where
  "lighting_base =
     put ''LightValue'' 0 (put ''Timestamp'' 0 (put ''Mode'' CALI_LIGHT_MODE_SET_BRIGHTNESS
       (put ''ProfileNumber'' CALI_LIGHT_BRIGHTNESS_PROFILE reset_vals)))"

text \<open>The last frame and its commit.\<close>

definition lighting_done :: "vals \<Rightarrow> cali_ctl_plan \<Rightarrow> cali_ctl_rc \<times> cali_ctl_plan" where
  "lighting_done v p = (let (ok, q) = add_lighting v p in (if ok then CALI_CTL_OK else CALI_CTL_BAD_VALUE, q))"

definition b_save_profile :: "string \<Rightarrow> ctl_get \<Rightarrow> cali_ctl_plan \<Rightarrow> cali_ctl_rc \<times> cali_ctl_plan" where
  "b_save_profile value get p =
     (case save_args value of None \<Rightarrow> (CALI_CTL_BAD_VALUE, p)
      | Some (n, colour) \<Rightarrow>
          let v = zones_saved get (put ''ProfileNumber'' (word_of_int n) lighting_base)
          in case colour of None \<Rightarrow> lighting_done v p
             | Some col \<Rightarrow>
                 let c = put ''ProfileNumber'' (word_of_int n) reset_vals;
                     c = put ''Mode'' CALI_LIGHT_MODE_SET_COLOR c;
                     c = put ''Timestamp'' 0 c;
                     c = put ''LightValue'' col c;
                     (ok, q) = add_lighting (zones_saved get c) p
                 in if \<not> ok then (CALI_CTL_BAD_VALUE, q) else lighting_done v q)"

definition b_lighting :: "string \<Rightarrow> string \<Rightarrow> ctl_get \<Rightarrow> cali_ctl_plan \<Rightarrow> cali_ctl_rc \<times> cali_ctl_plan" where
  "b_lighting what value get p =
     (let v = lighting_base in
      if what = ''profile'' then
        (case int_range value 0 13 of None \<Rightarrow> (CALI_CTL_BAD_VALUE, p)
         | Some n \<Rightarrow>
             if n = uint CALI_LIGHT_PROFILE_DOOR_CONTACT then (CALI_CTL_BAD_VALUE, p)
             else lighting_done (zones_all CALI_LIGHT_UNCHANGED
               (put ''ProfileNumber'' (word_of_int n) (put ''Mode'' CALI_LIGHT_MODE_SET_PROFILE v))) p)
      else if what = ''save_profile'' then b_save_profile value get p
      else if what = ''door_contact'' then
        (case onoff value of None \<Rightarrow> (CALI_CTL_BAD_VALUE, p)
         | Some on \<Rightarrow> lighting_done (zones_all CALI_LIGHT_UNCHANGED (put ''LightValue'' (nat_of_bool on)
             (put ''ProfileNumber'' CALI_LIGHT_PROFILE_DOOR_CONTACT (put ''Mode'' CALI_LIGHT_MODE_SET_PROFILE v)))) p)
      else if what = ''power'' then
        (case onoff value of None \<Rightarrow> (CALI_CTL_BAD_VALUE, p)
         | Some on \<Rightarrow> lighting_done (zones_all CALI_LIGHT_UNCHANGED
             (put ''ProfileNumber'' (if on then CALI_LIGHT_PROFILE_ALL_ON else CALI_LIGHT_PROFILE_ALL_OFF)
               (put ''Mode'' CALI_LIGHT_MODE_SET_PROFILE v))) p)
      else if what = ''all'' then
        (case int_range value 0 (uint CALI_LIGHT_MAX_SET) of None \<Rightarrow> (CALI_CTL_BAD_VALUE, p)
         | Some n \<Rightarrow> lighting_done (zones_real (word_of_int n) v) p)
      else
        let field = zone_field what in
        if what = ''color'' \<or> \<not> one_of field CALI_LIGHT_ZONE_FIELDS then (CALI_CTL_BAD_VALUE, p)
        else (case int_range value 0 (uint CALI_LIGHT_MAX_SET) of None \<Rightarrow> (CALI_CTL_BAD_VALUE, p)
              | Some n \<Rightarrow> lighting_done (put field (word_of_int n) (zones_all CALI_LIGHT_UNCHANGED v)) p))"

section \<open>The wake-up light\<close>

record wake =
  wk_hour :: int
  wk_minute :: int
  wk_colour :: u32
  wk_areas :: u32
  wk_brightness :: u32
  wk_ramp :: u32
  wk_enabled :: u32

definition wake_known :: "cali_light_cfg \<Rightarrow> bool" where
  "wake_known c \<longleftrightarrow> lcfg_has c CALI_LCFG_WAKE_TS \<and> lcfg_has c CALI_LCFG_WAKE_LV"

function wake_areas :: "string \<Rightarrow> u32 \<Rightarrow> u32 option" where
  "wake_areas s areas =
     (let item = takeWhile (\<lambda>c. c \<noteq> CHR '','') s;
          comma = dropWhile (\<lambda>c. c \<noteq> CHR '','') s
      in case int_range item 1 4 of None \<Rightarrow> None
         | Some a \<Rightarrow>
             let areas = areas OR push_bit (nat (a - 1)) 1
             in if comma = [] then Some areas else wake_areas (tl comma) areas)"
  by auto
termination
proof (relation "measure (\<lambda>(s, _). length s)")
  fix s x xa :: string and areas x2 xb
  assume xa: "xa = dropWhile (\<lambda>c. c \<noteq> CHR '','') s" "xa \<noteq> []"
  have "length xa \<le> length s" unfolding xa(1) by (rule length_dropWhile_le)
  moreover have "length (tl xa) < length xa" using xa(2) by simp
  ultimately show "((tl xa, xb), s, areas) \<in> measure (\<lambda>(s, _). length s)" by simp
qed auto

declare wake_areas.simps [simp del]

text \<open>The stored wake-up, unpacked.\<close>

definition wake_stored :: "cali_light_cfg \<Rightarrow> wake" where
  "wake_stored cfg =
     (let ts = lc_v cfg ! CALI_LCFG_WAKE_TS; lv = lc_v cfg ! CALI_LCFG_WAKE_LV in
      if wake_known cfg
      then \<lparr>wk_hour = uint (ts div 3600 mod 24), wk_minute = uint (ts div 60 mod 60), wk_colour = drop_bit 12 lv AND 0xF,
            wk_areas = drop_bit 8 lv AND 0xF, wk_brightness = drop_bit 4 lv AND 0xF, wk_ramp = drop_bit 1 (lv AND 0xF) * 10,
            wk_enabled = lv AND 1\<rparr>
      else \<lparr>wk_hour = 0, wk_minute = 0, wk_colour = CALI_WAKEUP_DEFAULT_COLOUR, wk_areas = CALI_WAKEUP_DEFAULT_AREAS,
            wk_brightness = CALI_WAKEUP_DEFAULT_BRIGHTNESS, wk_ramp = CALI_WAKEUP_DEFAULT_RAMP, wk_enabled = 0\<rparr>)"

text \<open>The token loop's variables: the wake-up, \<open>switched\<close>, \<open>timed\<close>, \<open>ntok\<close> and the positional tokens.\<close>

record wake_loop =
  wl_w :: wake
  wl_switched :: bool
  wl_timed :: bool
  wl_ntok :: nat
  wl_pos :: "string list"

definition wake_token :: "string \<Rightarrow> wake_loop \<Rightarrow> wake_loop option" where
  "wake_token tok l =
     (let k = norm_text tok 8; l = l\<lparr>wl_ntok := wl_ntok l + 1\<rparr> in
      if k = ''on'' \<or> k = ''off''
      then Some (l\<lparr>wl_w := (wl_w l)\<lparr>wk_enabled := (if k ! 1 = CHR ''n'' then 1 else 0)\<rparr>, wl_switched := True\<rparr>)
      else if CHR '':'' \<in> set tok then
        (case hhmm tok of None \<Rightarrow> None
         | Some (h, m) \<Rightarrow> Some (l\<lparr>wl_w := (wl_w l)\<lparr>wk_hour := h, wk_minute := m\<rparr>, wl_timed := True\<rparr>))
      else Some (l\<lparr>wl_pos := wl_pos l @ [tok]\<rparr>))"

lemma next_tok_shorter: "next_tok p = (Some tok, rest) \<Longrightarrow> length rest < length p"
proof -
  assume h: "next_tok p = (Some tok, rest)"
  let ?t = "dropWhile is_ws p" and ?e = "dropWhile (\<lambda>c. \<not> is_ws c) (dropWhile is_ws p)"
  have ne: "?t \<noteq> []" and r: "rest = (if ?e \<noteq> [] then tl ?e else ?e)"
    using h by (auto simp: next_tok_def Let_def split: if_splits)
  have "length ?e \<le> length ?t" "length ?t \<le> length p" by (rule length_dropWhile_le)+
  then show ?thesis using ne r by (cases ?e) (auto simp flip: length_greater_0_conv)
qed

function wake_tokens :: "string \<Rightarrow> wake_loop \<Rightarrow> wake_loop option" where
  "wake_tokens rest l =
     (case next_tok rest of
        (None, _) \<Rightarrow> Some l
      | (Some tok, rest') \<Rightarrow> (case wake_token tok l of None \<Rightarrow> None | Some l' \<Rightarrow> wake_tokens rest' l'))"
  by auto
termination by (relation "measure (\<lambda>(s, _). length s)") (auto dest: next_tok_shorter [OF sym])

declare wake_tokens.simps [simp del]

definition wake_positional :: "string list \<Rightarrow> wake \<Rightarrow> wake option" where
  "wake_positional pos w =
     (if length pos > 3 then None
      else
        case (if length pos > 0 then map_option (\<lambda>a. w\<lparr>wk_areas := a\<rparr>) (wake_areas (pos ! 0) 0) else Some w) of
          None \<Rightarrow> None
        | Some w1 \<Rightarrow>
            (case (if length pos > 1 then map_option (\<lambda>b. w1\<lparr>wk_brightness := word_of_int b\<rparr>) (int_range (pos ! 1) 0 10)
                   else Some w1) of
               None \<Rightarrow> None
             | Some w2 \<Rightarrow>
                 if length pos > 2 then
                   (case py_int (pos ! 2) of None \<Rightarrow> None
                    | Some b \<Rightarrow> if b \<in> set CALI_WAKEUP_RAMPS_MIN then Some (w2\<lparr>wk_ramp := word_of_int b\<rparr>) else None)
                 else Some w2))"

definition wake_request :: "string \<Rightarrow> cali_light_cfg \<Rightarrow> (wake \<times> bool) option" where
  "wake_request value cfg =
     (case wake_tokens (take (CALI_CTL_VALUE_MAX - 1) value)
         \<lparr>wl_w = wake_stored cfg, wl_switched = False, wl_timed = False, wl_ntok = 0, wl_pos = []\<rparr> of
        None \<Rightarrow> None
      | Some l \<Rightarrow>
          if wl_ntok l = 0 \<or> \<not> wake_known cfg \<and> \<not> wl_timed l then None
          else map_option (\<lambda>w. (w, wl_switched l)) (wake_positional (wl_pos l) (wl_w l)))"

text \<open>The caller passes \<open>now\<close> at least 0, where C's remainder is \<open>mod\<close>.\<close>

definition next_wakeup :: "int \<Rightarrow> int \<Rightarrow> int \<Rightarrow> int" where
  "next_wakeup h m now =
     (let t = now - now mod 86400 + h * 3600 + m * 60 in if t \<le> now then t + 86400 else t)"

definition wake_vals :: "wake \<Rightarrow> int \<Rightarrow> vals" where
  "wake_vals w ts =
     zones_all CALI_LIGHT_UNCHANGED
       (put ''LightValue'' (push_bit 12 (wk_colour w) OR push_bit 8 (wk_areas w) OR push_bit 4 (wk_brightness w) OR
            push_bit 1 (wk_ramp w div 10) OR wk_enabled w)
         (put ''Timestamp'' (word_of_int ts) (put ''Mode'' CALI_LIGHT_MODE_WAKEUP_TIME
           (put ''ProfileNumber'' CALI_LIGHT_UNCHANGED reset_vals))))"

definition UINT32_MAX :: int where "UINT32_MAX = 4294967295"

definition p_wakeup :: "string \<Rightarrow> int \<Rightarrow> ctl_get \<Rightarrow> cali_ctl_plan \<Rightarrow> cali_ctl_rc \<times> cali_ctl_plan" where
  "p_wakeup value now get p =
     (if length value \<ge> CALI_CTL_VALUE_MAX then (CALI_CTL_BAD_VALUE, p)
      else
        let cfg = cali_light_cfg_ctx get in
        case wake_request value cfg of None \<Rightarrow> (CALI_CTL_BAD_VALUE, p)
        | Some (w, switched) \<Rightarrow>
            if wk_enabled w \<noteq> 0 \<and> wk_areas w = 0 then (CALI_CTL_REFUSED, p\<lparr>pl_reason := Some CALI_REASON_WAKEUP_NO_AREA\<rparr>)
            else if \<not> switched \<and> \<not> wake_known cfg
            then (CALI_CTL_REFUSED, p\<lparr>pl_reason := Some CALI_WAKEUP_UNKNOWN, pl_pull := True\<rparr>)
            else if now > UINT32_MAX then (CALI_CTL_BAD_VALUE, p)
            else
              let ts = next_wakeup (wk_hour w) (wk_minute w) now
              in if ts > UINT32_MAX then (CALI_CTL_BAD_VALUE, p) else lighting_done (wake_vals w ts) p)"

definition empty_plan :: cali_ctl_plan where
  "empty_plan = \<lparr>pl_rc = CALI_CTL_OK, pl_reason = None, pl_pull = False, pl_f = []\<rparr>"

definition cali_ctl_pull_plan :: cali_ctl_plan where
  "cali_ctl_pull_plan =
     (case ctl_char ''lighting'' of
        Some c \<Rightarrow>
          let p = empty_plan\<lparr>pl_f := [\<lparr>fr_chr = cc_control_short c, fr_delay_ms = 0,
                fr_len = word_of_nat (length CALI_LIGHT_REQUEST_CONFIG), fr_data = CALI_LIGHT_REQUEST_CONFIG\<rparr>]\<rparr>
          in (case add_commit p of Some q \<Rightarrow> q | None \<Rightarrow> p)\<lparr>pl_rc := CALI_CTL_OK\<rparr>
      | None \<Rightarrow> empty_plan)"

section \<open>Gates and the plan\<close>

definition is_onoff_command :: "string \<Rightarrow> string \<Rightarrow> bool" where
  "is_onoff_command fn what =
     (if fn = ''cooler'' \<or> fn = ''airheater'' then what = ''power''
      else if fn = ''campingmode'' then one_of what [''master'', ''lights'', ''usb'']
      else if fn = ''lighting'' then one_of what [''power'', ''door_contact'']
      else False)"

definition gate_airheater :: "string \<Rightarrow> string \<Rightarrow> ctl_get \<Rightarrow> string option" where
  "gate_airheater what value get =
     (if what = ''power'' \<and> onoff value = Some True \<and> get ''airheater'' ''ErrorCode'' = Some 5
      then Some CALI_REASON_AIRHEATER_NOT_POSSIBLE
      else if what = ''runtime'' \<and> get ''airheater'' ''PermanentOperation'' = Some 1
      then Some CALI_REASON_AIRHEATER_RUNTIME_PERMANENT
      else if what = ''timer'' \<and> get ''airheater'' ''OperationModeAirHeater'' = Some 3
      then Some CALI_REASON_AIRHEATER_TIMER_ARMED
      else None)"

definition gate_energy :: "string \<Rightarrow> ctl_get \<Rightarrow> string option" where
  "gate_energy value get =
     (if get ''energy'' ''EnergyModeNotSelectable'' = Some 1 then Some CALI_REASON_ENERGY_LOCKED
      else if norm_text value CALI_CTL_VALUE_MAX = ''eco'' \<and> get ''energy'' ''PvInstalled'' \<noteq> Some 1
      then Some CALI_REASON_ENERGY_ECO_NEEDS_SOLAR
      else None)"

definition gate_favourite :: "string \<Rightarrow> ctl_get \<Rightarrow> string option" where
  "gate_favourite value get =
     (case py_int value of None \<Rightarrow> None
      | Some n \<Rightarrow>
          if n \<ge> 1 \<and> n \<le> 7 then
            let cfg = cali_light_cfg_ctx get
            in if lcfg_has cfg CALI_LCFG_FAVS \<and> drop_bit (nat (n - 1)) (lc_v cfg ! CALI_LCFG_FAVS) AND 1 = 0
               then Some CALI_REASON_FAVOURITE_EMPTY else None
          else None)"

text \<open>
  The gates in the code's order. Only the last three blocks belong to one function each and nothing after
  them returns for that function, so their results are returned as they are.
\<close>

definition gate :: "string \<Rightarrow> string \<Rightarrow> string \<Rightarrow> ctl_get \<Rightarrow> string option" where
  "gate fn what value get =
     (let cooler = (fn = ''cooler''); lighting = (fn = ''lighting'');
          night = (what = ''night_on'' \<or> what = ''night_off'') in
      if is_onoff_command fn what \<and> onoff value = None then Some CALI_REASON_NOT_ONOFF
      else if lighting \<and> what = ''roof-reading'' \<and> (case py_int value of Some n \<Rightarrow> n > 0 | None \<Rightarrow> False) \<and>
              (case get ''roof'' ''Position'' of Some x \<Rightarrow> x \<in> set CALI_ROOF_CLOSED_POSITIONS | None \<Rightarrow> False)
      then Some CALI_REASON_ROOF_READING
      else if cooler \<and> (what = ''timer_set'' \<or> what = ''timer_start'') \<and> get ''cooler'' ''State'' = Some 1
      then Some CALI_REASON_COOLER_TIMER_NEEDS_FRIDGE_OFF
      else if cooler \<and> (what = ''mode'' \<or> night) \<and> get ''cooler'' ''State'' = Some 0
      then Some CALI_REASON_QUIET_NEEDS_FRIDGE_ON
      else if cooler \<and> night \<and> get ''cooler'' ''State'' = None then Some CALI_REASON_COOLER_STATE_UNKNOWN
      else if fn = ''campingmode'' \<and> (what = ''lights'' \<or> what = ''usb'') \<and> get ''campingmode'' ''State'' = Some 0
      then Some CALI_REASON_CAMPING_NEEDS_MASTER
      else if fn = ''airheater'' then gate_airheater what value get
      else if fn = ''energy'' \<and> what = ''mode'' then gate_energy value get
      else if lighting \<and> what = ''profile'' then gate_favourite value get
      else None)"

text \<open>\<open>if (out->rc != CALI_CTL_OK) out->n = 0;\<close>\<close>

definition set_rc :: "cali_ctl_rc \<times> cali_ctl_plan \<Rightarrow> cali_ctl_plan" where
  "set_rc r = (let (rc, p) = r; q = p\<lparr>pl_rc := rc\<rparr> in if rc \<noteq> CALI_CTL_OK then q\<lparr>pl_f := []\<rparr> else q)"

definition cali_ctl_plan_ctx :: "string \<Rightarrow> string \<Rightarrow> string \<Rightarrow> int \<Rightarrow> ctl_get \<Rightarrow> cali_ctl_plan" where
  "cali_ctl_plan_ctx fn what value local_now get =
     (if ctl_char fn = None then empty_plan\<lparr>pl_rc := CALI_CTL_ELSEWHERE, pl_reason := Some CALI_REASON_ELSEWHERE\<rparr>
      else if fn = ''lighting'' \<and> what = ''wakeup'' then
        if local_now < 0 then set_rc (CALI_CTL_ELSEWHERE, empty_plan\<lparr>pl_reason := Some CALI_REASON_WAKEUP_CLOCK\<rparr>)
        else set_rc (p_wakeup value local_now get empty_plan)
      else
        case gate fn what value get of
          Some r \<Rightarrow> empty_plan\<lparr>pl_reason := Some r, pl_rc := CALI_CTL_REFUSED\<rparr>
        | None \<Rightarrow>
            if length value \<ge> CALI_CTL_VALUE_MAX then empty_plan\<lparr>pl_rc := CALI_CTL_BAD_VALUE\<rparr>
            else set_rc
              (if fn = ''cooler'' then b_cooler what value get empty_plan
               else if fn = ''campingmode'' then b_camping what value empty_plan
               else if fn = ''energy'' then b_energy what value empty_plan
               else if fn = ''airheater'' then b_airheater what value empty_plan
               else b_lighting what value get empty_plan))"

definition cali_ctl_write_ok :: "u16 \<Rightarrow> nat \<Rightarrow> bool" where
  "cali_ctl_write_ok chr len =
     (case find (\<lambda>c. cc_control_short c = chr) (take CALI_CTL_NCHARS CALI_CTL_CHARS) of
        Some c \<Rightarrow> len = cc_frame_bytes c
      | None \<Rightarrow> False)"

section \<open>Plans hold only frames of the allow-list\<close>

lemma ctl_chars_facts:
  "list_all (\<lambda>c. cali_ctl_write_ok (cc_control_short c) (cc_frame_bytes c) \<and> cc_control_short c \<noteq> 0x1401 \<and>
     cc_frame_bytes c \<le> CODEC_FRAME_MAX) CALI_CTL_CHARS"
  by code_simp

lemma ctl_char_Some: "ctl_char fn = Some c \<Longrightarrow> c \<in> set CALI_CTL_CHARS"
  unfolding ctl_char_def by (metis find_Some_iff in_set_takeD nth_mem)

definition frame_ok :: "cali_ctl_frame \<Rightarrow> bool" where
  "frame_ok f \<longleftrightarrow> cali_ctl_write_ok (fr_chr f) (length (fr_data f)) \<and> fr_chr f \<noteq> 0x1401 \<and> unat (fr_len f) = length (fr_data f)"

definition plan_ok :: "cali_ctl_plan \<Rightarrow> bool" where
  "plan_ok p \<longleftrightarrow> length (pl_f p) \<le> CALI_CTL_MAX_FRAMES \<and> (\<forall>f\<in>set (pl_f p). frame_ok f)"

lemma frame_ok_char:
  assumes "c \<in> set CALI_CTL_CHARS" and "length data = cc_frame_bytes c"
  shows "frame_ok \<lparr>fr_chr = cc_control_short c, fr_delay_ms = d, fr_len = word_of_nat (length data), fr_data = data\<rparr>"
proof -
  have c: "cali_ctl_write_ok (cc_control_short c) (cc_frame_bytes c)" "cc_control_short c \<noteq> 0x1401"
    "cc_frame_bytes c \<le> CODEC_FRAME_MAX"
    using ctl_chars_facts assms(1) by (auto simp: list_all_iff)
  have "unat (word_of_nat (cc_frame_bytes c) :: u8) = cc_frame_bytes c"
    using c(3) by (simp add: CODEC_FRAME_MAX_def unat_of_nat)
  then show ?thesis using c assms(2) by (simp add: frame_ok_def)
qed

lemma plan_ok_snoc:
  "plan_ok p \<Longrightarrow> length (pl_f p) \<noteq> CALI_CTL_MAX_FRAMES \<Longrightarrow> frame_ok f \<Longrightarrow> plan_ok (p\<lparr>pl_f := pl_f p @ [f]\<rparr>)"
  by (auto simp: plan_ok_def)

lemma plan_ok_add: "add fn v d p = Some q \<Longrightarrow> plan_ok p \<Longrightarrow> plan_ok q \<and> pl_f q \<noteq> []"
  by (auto simp: add_def split: option.splits if_splits sum.splits
      intro!: plan_ok_snoc frame_ok_char dest: ctl_char_Some length_codec_encode)

lemma plan_ok_commit: "add_commit p = Some q \<Longrightarrow> plan_ok p \<Longrightarrow> plan_ok q \<and> pl_f q \<noteq> []"
proof -
  assume h: "add_commit p = Some q" "plan_ok p"
  have l: "ctl_char ''lighting'' = Some c \<Longrightarrow> length CALI_LIGHT_COMMIT = cc_frame_bytes c" for c
    by (auto simp: ctl_char_def CALI_CTL_CHARS_def CALI_CTL_NCHARS_def CALI_LIGHT_COMMIT_def)
  show ?thesis using h
    by (auto simp: add_commit_def split: option.splits if_splits intro!: plan_ok_snoc frame_ok_char l dest: ctl_char_Some)
qed

text \<open>What every builder promises of its result.\<close>

definition result_ok :: "cali_ctl_rc \<times> cali_ctl_plan \<Rightarrow> bool" where
  "result_ok r \<longleftrightarrow> plan_ok (snd r) \<and> (fst r = CALI_CTL_OK \<longrightarrow> pl_f (snd r) \<noteq> [])"

lemma result_ok_rc: "plan_ok p \<Longrightarrow> rc \<noteq> CALI_CTL_OK \<Longrightarrow> result_ok (rc, p)"
  by (simp add: result_ok_def)

lemma result_ok_finish: "plan_ok p \<Longrightarrow> result_ok (finish fn v p)"
  by (auto simp: finish_def result_ok_def split: option.splits dest: plan_ok_add)

lemma add_lighting_ok: "plan_ok p \<Longrightarrow> plan_ok (snd (add_lighting v p)) \<and> (fst (add_lighting v p) \<longrightarrow> pl_f (snd (add_lighting v p)) \<noteq> [])"
  by (auto simp: add_lighting_def split: option.splits dest: plan_ok_add plan_ok_commit)

lemma result_ok_lighting: "plan_ok p \<Longrightarrow> result_ok (lighting_done v p)"
  using add_lighting_ok [of p v] by (auto simp: lighting_done_def result_ok_def split_beta)

lemmas result_ok_intros = result_ok_rc result_ok_finish result_ok_lighting

lemma result_ok_cooler: "plan_ok p \<Longrightarrow> result_ok (b_cooler what value get p)"
  by (simp add: b_cooler_def result_ok_intros Let_def split: option.split prod.split del: if_split)

lemma result_ok_camping: "plan_ok p \<Longrightarrow> result_ok (b_camping what value p)"
  by (simp add: b_camping_def result_ok_intros Let_def split: option.split)

lemma result_ok_energy: "plan_ok p \<Longrightarrow> result_ok (b_energy what value p)"
  by (simp add: b_energy_def result_ok_intros split: option.split)

lemma airheater_vals_Inl: "airheater_vals what value = Inl rc \<Longrightarrow> rc \<noteq> CALI_CTL_OK"
  by (auto simp: airheater_vals_def Let_def split: if_splits option.splits)

lemma result_ok_airheater: "plan_ok p \<Longrightarrow> result_ok (b_airheater what value p)"
  by (auto simp: b_airheater_def result_ok_finish split: sum.split intro: result_ok_rc dest: airheater_vals_Inl)

lemma result_ok_save_profile: "plan_ok p \<Longrightarrow> result_ok (b_save_profile value get p)"
  using add_lighting_ok
  by (auto simp: b_save_profile_def Let_def split_beta result_ok_intros split: option.split)

lemma result_ok_b_lighting: "plan_ok p \<Longrightarrow> result_ok (b_lighting what value get p)"
  by (simp add: b_lighting_def Let_def result_ok_intros result_ok_save_profile split: option.split)

lemma result_ok_wakeup: "plan_ok p \<Longrightarrow> result_ok (p_wakeup value now get p)"
proof -
  assume p: "plan_ok p"
  then have r: "plan_ok (p\<lparr>pl_reason := x\<rparr>)" "plan_ok (p\<lparr>pl_reason := x, pl_pull := y\<rparr>)" for x y
    by (simp_all add: plan_ok_def)
  show ?thesis
    by (simp add: p_wakeup_def Let_def p r result_ok_intros split: option.split prod.split)
qed

lemma set_rc_ok:
  "result_ok r \<Longrightarrow> plan_ok (set_rc r) \<and> (pl_rc (set_rc r) = CALI_CTL_OK \<longleftrightarrow> pl_f (set_rc r) \<noteq> [])"
  by (cases r) (auto simp: set_rc_def Let_def result_ok_def plan_ok_def)

lemma empty_plan_ok: "plan_ok empty_plan" "plan_ok (empty_plan\<lparr>pl_reason := x\<rparr>)"
  by (simp_all add: plan_ok_def empty_plan_def)

lemma plan_ctx_ok:
  "plan_ok (cali_ctl_plan_ctx fn what value now get) \<and>
   (pl_rc (cali_ctl_plan_ctx fn what value now get) = CALI_CTL_OK \<longleftrightarrow> pl_f (cali_ctl_plan_ctx fn what value now get) \<noteq> [])"
proof -
  note builders = result_ok_cooler result_ok_camping result_ok_energy result_ok_airheater result_ok_b_lighting result_ok_wakeup
  have e: "plan_ok (empty_plan\<lparr>pl_reason := x, pl_rc := rc\<rparr>)" "plan_ok (empty_plan\<lparr>pl_rc := rc\<rparr>)"
    "plan_ok (empty_plan\<lparr>pl_rc := rc, pl_reason := x\<rparr>)" "pl_f empty_plan = []" for x rc
    by (simp_all add: plan_ok_def empty_plan_def)
  show ?thesis
    by (simp add: cali_ctl_plan_ctx_def e empty_plan_ok set_rc_ok builders result_ok_rc split: option.split)
qed

section \<open>Properties\<close>

text \<open>
  C7. Whatever the command, its value, the clock and the state of the unit, a plan
  holds at most four frames, every one of them addressed to one of the five control characteristics at
  exactly its frame length, and never to the roof (0x1401); it holds frames exactly when its code is OK.
\<close>

theorem control_plan_allowlist:
  "(let p = cali_ctl_plan_ctx fn what value now get
    in length (pl_f p) \<le> 4 \<and> list_all (\<lambda>f. cali_ctl_write_ok (fr_chr f) (unat (fr_len f)) \<and> fr_chr f \<noteq> 0x1401 \<and>
         length (fr_data f) = unat (fr_len f)) (pl_f p) \<and> (pl_rc p = CALI_CTL_OK \<longleftrightarrow> pl_f p \<noteq> []))"
  using plan_ctx_ok [of fn what "value" now get]
  by (auto simp: Let_def plan_ok_def frame_ok_def CALI_CTL_MAX_FRAMES_def list_all_iff)

end
