(* ===== verification/Control_Frames.thy ===== *)
theory Control_Frames
  imports Control
begin

text \<open>
  What the frames of a control plan carry: the fields of the encoded frames are read back with the codec's
  bit reader. The air heater is switched on only by its power command, and a wake-up frame decodes to the
  wake-up that was asked for.
\<close>

section \<open>Values of a frame under construction\<close>

definition vals_get :: "vals \<Rightarrow> string \<Rightarrow> u32 option" where
  "vals_get v n = map_option kv_value (find (\<lambda>k. kv_name k = n) (vs_kv v))"

lemma put_kv_find:
  "put_kv ks n x = Some ks' \<Longrightarrow> map_option kv_value (find (\<lambda>k. kv_name k = m) ks') =
     (if m = n then Some x else map_option kv_value (find (\<lambda>k. kv_name k = m) ks))"
  by (induction ks arbitrary: ks') (auto split: if_splits)

lemma put_kv_length: "put_kv ks n x = Some ks' \<Longrightarrow> length ks' = length ks"
  by (induction ks arbitrary: ks') (auto split: if_splits)

lemma put_kv_None: "put_kv ks n x = None \<Longrightarrow> find (\<lambda>k. kv_name k = n) ks = None"
  by (induction ks) (auto split: if_splits)

lemma find_append: "find P (xs @ ys) = (case find P xs of None \<Rightarrow> find P ys | Some x \<Rightarrow> Some x)"
  by (induction xs) simp_all

lemma find_SomeD: "find P xs = Some x \<Longrightarrow> x \<in> set xs \<and> P x"
  by (induction xs) (auto split: if_splits)

lemma length_put: "length (vs_kv (put n x v)) \<le> length (vs_kv v) + 1"
  by (auto simp: put_def split: option.split dest: put_kv_length)

lemma vals_get_put [simp]:
  assumes "length (vs_kv v) < CODEC_KV_MAX"
  shows "vals_get (put n x v) m = (if m = n then Some x else vals_get v m)"
proof (cases "put_kv (vs_kv v) n x")
  case None
  then show ?thesis using assms put_kv_None [OF None]
    by (auto simp: put_def vals_get_def find_append split: option.split)
next
  case (Some ks)
  then show ?thesis using put_kv_find [OF Some, of m] by (simp add: put_def vals_get_def)
qed

lemma field_value_vals:
  "vals_get v (fl_name fl) = Some x \<Longrightarrow> field_value fl (vs_kv v) = Inr x"
  by (auto simp: vals_get_def field_value_def)

lemma length_zones_all: "length (vs_kv (zones_all b v)) \<le> length (vs_kv v) + 16"
proof -
  have "length (vs_kv (fold (\<lambda>z. put z b) zs v)) \<le> length (vs_kv v) + length zs" for zs
  proof (induction zs arbitrary: v)
    case (Cons z zs)
    show ?case using Cons [of "put z b v"] length_put [of z b v] by simp
  qed simp
  from this [of CALI_LIGHT_ZONE_FIELDS] show ?thesis by (simp add: zones_all_def CALI_LIGHT_ZONE_FIELDS_def)
qed

lemma vals_get_fold_put:
  assumes "n \<notin> set zs" and "length (vs_kv v) + length zs < CODEC_KV_MAX"
  shows "vals_get (fold (\<lambda>z. put z b) zs v) n = vals_get v n"
  using assms
proof (induction zs arbitrary: v)
  case (Cons z zs)
  have "length (vs_kv (put z b v)) + length zs < CODEC_KV_MAX" using Cons.prems length_put [of z b v] by simp
  then show ?case using Cons by simp
qed simp

section \<open>Reading an encoded frame back\<close>

text \<open>The field \<open>nm\<close> of function \<open>fn\<close>'s control frame, as the codec's bit reader sees it.\<close>

definition frame_field :: "string \<Rightarrow> string \<Rightarrow> u8 list \<Rightarrow> u32 option" where
  "frame_field fn nm data =
     (case codec_func_by_name fn of None \<Rightarrow> None
      | Some f \<Rightarrow> map_option (\<lambda>fl. get_bits data (fl_offset fl) (fl_width fl))
          (find (\<lambda>fl. fl_name fl = nm) (take (n_ctrl f) (ctrl_fields f))))"

lemma add_Some:
  assumes "add fn v d p = Some q"
  shows "\<exists>c f data. ctl_char fn = Some c \<and> codec_func_by_name fn = Some f \<and> codec_encode f (vs_kv v) (cc_frame_bytes c) = Inr data \<and>
    pl_f q = pl_f p @ [\<lparr>fr_chr = cc_control_short c, fr_delay_ms = d, fr_len = word_of_nat (length data), fr_data = data\<rparr>]"
  using assms by (fastforce simp: add_def split: option.splits if_splits sum.splits)

lemma add_frame_field:
  assumes "add fn v d p = Some q" and "vals_get v nm = Some x"
    and "frame_field fn nm [] \<noteq> None"
  shows "\<exists>f. pl_f q = pl_f p @ [f] \<and> frame_field fn nm (fr_data f) = Some x"
proof -
  obtain c f data where
    "ctl_char fn = Some c" and f: "codec_func_by_name fn = Some f" and enc: "codec_encode f (vs_kv v) (cc_frame_bytes c) = Inr data"
    and q: "pl_f q = pl_f p @ [\<lparr>fr_chr = cc_control_short c, fr_delay_ms = d, fr_len = word_of_nat (length data), fr_data = data\<rparr>]"
    using add_Some [OF assms(1)] by blast
  obtain fl where fl: "find (\<lambda>fl. fl_name fl = nm) (take (n_ctrl f) (ctrl_fields f)) = Some fl"
    using assms(3) f by (auto simp: frame_field_def split: option.splits)
  then have mem: "fl \<in> set (take (n_ctrl f) (ctrl_fields f))" and nm: "fl_name fl = nm"
    using find_SomeD [OF fl] by auto
  have "f \<in> set CODEC_FUNCS" using codec_func_by_name_Some [OF f] by simp
  then have "wf_fields (take (n_ctrl f) (ctrl_fields f))"
    using ctrl_tables_wf by (auto simp: list_all_iff)
  from codec_encode_get_bits [OF this enc mem] field_value_vals [of v fl x] assms(2) nm
  have "get_bits data (fl_offset fl) (fl_width fl) = x" by simp
  then show ?thesis using q f fl by (auto simp: frame_field_def)
qed

section \<open>The air heater\<close>

lemma airheater_base_facts:
  "length (vs_kv airheater_base) = 10 \<and> vals_get airheater_base ''NormalOperationRequest'' = Some 3"
  by code_simp

lemma airheater_request:
  assumes "airheater_vals what value = Inr v"
  shows "vals_get v ''NormalOperationRequest'' =
    Some (if what = ''power'' then (if onoff value = Some True then 1 else 0) else 3)"
proof -
  have l: "length (vs_kv airheater_base) < CODEC_KV_MAX"
    using airheater_base_facts by (simp add: CODEC_KV_MAX_def)
  have l2: "length (vs_kv (put n x airheater_base)) < CODEC_KV_MAX" for n x
    using airheater_base_facts length_put [of n x airheater_base] by (simp add: CODEC_KV_MAX_def)
  show ?thesis using assms l l2 airheater_base_facts
    by (auto simp: airheater_vals_def Let_def split: if_splits option.splits prod.splits)
qed

lemma airheater_plan_frames:
  assumes "pl_rc (cali_ctl_plan_ctx ''airheater'' what value now get) = CALI_CTL_OK"
  shows "\<exists>v q. gate ''airheater'' what value get = None \<and> airheater_vals what value = Inr v \<and>
    add ''airheater'' v 0 empty_plan = Some q \<and> pl_f (cali_ctl_plan_ctx ''airheater'' what value now get) = pl_f q"
  using assms
  by (auto simp: cali_ctl_plan_ctx_def set_rc_def b_airheater_def finish_def Let_def
      split: option.splits if_splits sum.splits dest: airheater_vals_Inl)

section \<open>The wake-up light\<close>

lemma small_bit: "unat (w :: 'a::len word) < 2 ^ k \<Longrightarrow> bit w j \<Longrightarrow> j < k"
proof (rule ccontr)
  assume "unat w < 2 ^ k" "bit w j" "\<not> j < k"
  then have "2 ^ j \<le> unat w" "(2 :: nat) ^ k \<le> 2 ^ j" by (simp_all add: bit_imp_exp_le_unat)
  with \<open>unat w < 2 ^ k\<close> show False by linarith
qed

definition wake_wf :: "wake \<Rightarrow> bool" where
  "wake_wf w \<longleftrightarrow> 0 \<le> wk_hour w \<and> wk_hour w \<le> 23 \<and> 0 \<le> wk_minute w \<and> wk_minute w \<le> 59 \<and>
     unat (wk_colour w) < 2 ^ 4 \<and> unat (wk_areas w) < 2 ^ 4 \<and> unat (wk_brightness w) < 2 ^ 4 \<and>
     unat (wk_ramp w div 10) < 2 ^ 3 \<and> wk_ramp w div 10 * 10 = wk_ramp w \<and> unat (wk_enabled w) < 2 ^ 1"

lemma nibble_mask: "(0xF :: u32) = mask 4"
  by (simp add: mask_eq_exp_minus_1)

lemma bit_nibble: "bit (w AND 0xF :: u32) j \<longleftrightarrow> j < 4 \<and> bit w j"
  unfolding nibble_mask bit_and_iff bit_mask_iff by (auto simp: possible_bit_def)

lemma unat_and_mask: "unat (w AND 0xF :: u32) < 2 ^ 4" "unat (w AND 1 :: u32) < 2 ^ 1"
proof -
  have "bit (w AND 0xF) j \<Longrightarrow> j < 4" for j
    unfolding bit_nibble by simp
  then show "unat (w AND 0xF) < 2 ^ 4" by (rule unat_less_exp_bits)
  show "unat (w AND 1) < 2 ^ 1" by (simp add: and_one_eq unat_mod)
qed

lemma ramp_of_bits: "unat (x :: u32) < 2 ^ 3 \<Longrightarrow> x * 10 div 10 = x"
  by (simp add: word_unat_eq_iff unat_div unat_word_ariths)

lemma wake_stored_wf: "wake_wf (wake_stored cfg)"
proof -
  have h: "uint (x mod 24) \<le> 23" "uint (x mod 60) \<le> 59" for x :: u32
    by (simp_all add: uint_mod)
  have "bit (drop_bit 1 (w AND 0xF)) j \<Longrightarrow> j < 3" for w :: u32 and j
    using small_bit [OF unat_and_mask(1), of w "1 + j"] unfolding bit_drop_bit_eq by simp
  then have r: "unat (drop_bit 1 (w AND 0xF)) < 2 ^ 3" for w :: u32
    by (rule unat_less_exp_bits)
  show ?thesis
    using r unat_and_mask h
    by (simp add: wake_wf_def wake_stored_def Let_def ramp_of_bits CALI_WAKEUP_DEFAULT_COLOUR_def
        CALI_WAKEUP_DEFAULT_AREAS_def CALI_WAKEUP_DEFAULT_BRIGHTNESS_def CALI_WAKEUP_DEFAULT_RAMP_def)
qed

lemma hhmm_range: "hhmm v = Some (h, m) \<Longrightarrow> 0 \<le> h \<and> h \<le> 23 \<and> 0 \<le> m \<and> m \<le> 59"
  by (auto simp: hhmm_def Let_def split: if_splits option.splits)

lemma wake_token_wf: "wake_token tok l = Some l' \<Longrightarrow> wake_wf (wl_w l) \<Longrightarrow> wake_wf (wl_w l')"
  by (auto simp: wake_token_def Let_def wake_wf_def split: if_splits option.splits dest: hhmm_range)

lemma wake_tokens_wf: "wake_tokens rest l = Some l' \<Longrightarrow> wake_wf (wl_w l) \<Longrightarrow> wake_wf (wl_w l')"
proof (induction rest l rule: wake_tokens.induct)
  case (1 rest l)
  show ?case using 1(1) 1(2) [unfolded wake_tokens.simps [of rest l]] 1(3)
    by (auto split: prod.splits option.splits dest: wake_token_wf)
qed

lemma int_range_bounds: "int_range v lo hi = Some n \<Longrightarrow> lo \<le> n \<and> n \<le> hi"
  by (auto simp: int_range_def split: option.splits if_splits)

lemma wake_areas_small: "wake_areas s a = Some b \<Longrightarrow> unat a < 2 ^ 4 \<Longrightarrow> unat b < 2 ^ 4"
proof (induction s a rule: wake_areas.induct)
  case (1 s a)
  let ?item = "takeWhile (\<lambda>c. c \<noteq> CHR '','') s" and ?comma = "dropWhile (\<lambda>c. c \<noteq> CHR '','') s"
  obtain n where n: "int_range ?item 1 4 = Some n"
    using 1(2) by (subst (asm) wake_areas.simps) (auto simp: Let_def split: option.splits)
  let ?a = "a OR push_bit (nat (n - 1)) 1"
  have "bit ?a j \<Longrightarrow> j < 4" for j
    using small_bit [OF 1(3)] int_range_bounds [OF n] by (auto simp: bit_or_iff bit_exp_iff)
  then have a: "unat ?a < 2 ^ 4" by (rule unat_less_exp_bits)
  show ?case
  proof (cases "?comma = []")
    case True
    then show ?thesis using 1(2) n a by (subst (asm) wake_areas.simps) (simp add: Let_def)
  next
    case False
    then have "wake_areas (tl ?comma) ?a = Some b" using 1(2) n by (subst (asm) wake_areas.simps) (auto simp: Let_def split: if_splits)
    from 1(1) [OF refl refl n refl False this a] show ?thesis .
  qed
qed

lemma ramps_wf: "b \<in> set CALI_WAKEUP_RAMPS_MIN \<Longrightarrow>
    unat ((word_of_int b :: u32) div 10) < 2 ^ 3 \<and> (word_of_int b :: u32) div 10 * 10 = word_of_int b"
  by (auto simp: CALI_WAKEUP_RAMPS_MIN_def)

lemma brightness_wf: "0 \<le> b \<Longrightarrow> b \<le> 10 \<Longrightarrow> unat (word_of_int b :: u32) < 2 ^ 4"
  by (simp add: nat_less_iff unsigned_of_int take_bit_int_eq_self)

lemma wake_positional_wf:
  assumes "wake_positional pos w = Some w'" and "wake_wf w"
  shows "wake_wf w'"
proof -
  obtain w1 where w1: "(if length pos > 0 then map_option (\<lambda>a. w\<lparr>wk_areas := a\<rparr>) (wake_areas (pos ! 0) 0) else Some w) = Some w1"
    and n: "\<not> length pos > 3"
    using assms(1) by (auto simp: wake_positional_def split: if_splits option.splits)
  then have wf1: "wake_wf w1" using assms(2)
    by (auto simp: wake_wf_def split: if_splits dest: wake_areas_small)
  obtain w2 where w2: "(if length pos > 1 then map_option (\<lambda>b. w1\<lparr>wk_brightness := word_of_int b\<rparr>) (int_range (pos ! 1) 0 10)
      else Some w1) = Some w2"
    using assms(1) n w1 by (auto simp: wake_positional_def split: if_splits option.splits)
  then have wf2: "wake_wf w2" using wf1 brightness_wf
    by (auto simp: wake_wf_def split: if_splits dest: int_range_bounds)
  have "w' = w2 \<or> (\<exists>b\<in>set CALI_WAKEUP_RAMPS_MIN. w' = w2\<lparr>wk_ramp := word_of_int b\<rparr>)"
    using assms(1) n w1 w2 by (auto simp: wake_positional_def split: if_splits option.splits)
  then show ?thesis using wf2 ramps_wf by (auto simp: wake_wf_def)
qed

lemma wake_request_wf: "wake_request v cfg = Some (w, sw) \<Longrightarrow> wake_wf w"
  by (auto simp: wake_request_def wake_stored_wf split: option.splits if_splits
      dest!: wake_tokens_wf intro: wake_positional_wf)

text \<open>Packing and unpacking of the 16 bits of the light value.\<close>

definition light_value :: "wake \<Rightarrow> u32" where
  "light_value w = push_bit 12 (wk_colour w) OR push_bit 8 (wk_areas w) OR push_bit 4 (wk_brightness w) OR
     push_bit 1 (wk_ramp w div 10) OR wk_enabled w"

lemma bit_light_value:
  "bit (light_value w) j \<longleftrightarrow> j < 32 \<and>
     (12 \<le> j \<and> bit (wk_colour w) (j - 12) \<or> 8 \<le> j \<and> bit (wk_areas w) (j - 8) \<or> 4 \<le> j \<and> bit (wk_brightness w) (j - 4) \<or>
      1 \<le> j \<and> bit (wk_ramp w div 10) (j - 1) \<or> bit (wk_enabled w) j)"
  unfolding light_value_def bit_or_iff bit_push_bit_iff by (auto simp: possible_bit_def dest: bit_imp_le_length)

lemma nibble_eqI:
  assumes "\<And>j. j < 4 \<Longrightarrow> bit (x :: u32) (k + j) \<longleftrightarrow> bit y j" and "unat y < 2 ^ 4"
  shows "drop_bit k x AND 0xF = y"
proof (rule bit_eqI)
  fix j
  show "bit (drop_bit k x AND 0xF) j = bit y j"
    unfolding bit_nibble bit_drop_bit_eq using assms(1) [of j] small_bit [OF assms(2), of j] by auto
qed

lemma light_value_fields:
  assumes "wake_wf w"
  shows "drop_bit 12 (light_value w) AND 0xF = wk_colour w" "drop_bit 8 (light_value w) AND 0xF = wk_areas w"
    "drop_bit 4 (light_value w) AND 0xF = wk_brightness w"
    "drop_bit 1 (light_value w AND 0xF) = wk_ramp w div 10" "light_value w AND 1 = wk_enabled w"
proof -
  have b: "bit (wk_colour w) j \<Longrightarrow> j < 4" "bit (wk_areas w) j \<Longrightarrow> j < 4" "bit (wk_brightness w) j \<Longrightarrow> j < 4"
    "bit (wk_ramp w div 10) j \<Longrightarrow> j < 3" "bit (wk_enabled w) j \<Longrightarrow> j < 1" for j
    using assms unfolding wake_wf_def by (meson small_bit)+
  have s: "unat (wk_colour w) < 2 ^ 4" "unat (wk_areas w) < 2 ^ 4" "unat (wk_brightness w) < 2 ^ 4"
    using assms unfolding wake_wf_def by auto
  show "drop_bit 12 (light_value w) AND 0xF = wk_colour w"
    by (rule nibble_eqI [OF _ s(1)]) (auto simp: bit_light_value dest: b)
  show "drop_bit 8 (light_value w) AND 0xF = wk_areas w"
    by (rule nibble_eqI [OF _ s(2)]) (auto simp: bit_light_value dest: b)
  show "drop_bit 4 (light_value w) AND 0xF = wk_brightness w"
    by (rule nibble_eqI [OF _ s(3)]) (auto simp: bit_light_value dest: b)
  show "drop_bit 1 (light_value w AND 0xF) = wk_ramp w div 10"
  proof (rule bit_eqI)
    fix n
    have "bit (drop_bit 1 (light_value w AND 0xF)) n \<longleftrightarrow> 1 + n < 4 \<and> bit (light_value w) (1 + n)"
      unfolding bit_drop_bit_eq o_apply bit_nibble by simp
    also have "\<dots> \<longleftrightarrow> bit (wk_ramp w div 10) n" by (auto simp: bit_light_value dest: b)
    finally show "bit (drop_bit 1 (light_value w AND 0xF)) n \<longleftrightarrow> bit (wk_ramp w div 10) n" .
  qed
  show "light_value w AND 1 = wk_enabled w"
  proof (rule bit_eqI)
    fix n
    have "bit (light_value w AND 1) n \<longleftrightarrow> n = 0 \<and> bit (light_value w) n"
      unfolding bit_and_iff bit_1_iff by auto
    also have "\<dots> \<longleftrightarrow> n = 0 \<and> bit (wk_enabled w) n" unfolding bit_light_value by auto
    also have "\<dots> \<longleftrightarrow> bit (wk_enabled w) n" using b(5) [of n] by auto
    finally show "bit (light_value w AND 1) n \<longleftrightarrow> bit (wk_enabled w) n" .
  qed
qed

lemma next_wakeup_spec:
  assumes "0 \<le> h" "h \<le> 23" "0 \<le> m" "m \<le> 59"
  shows "now < next_wakeup h m now \<and> next_wakeup h m now \<le> now + 86400 \<and>
    (next_wakeup h m now - (h * 3600 + m * 60)) mod 86400 = 0"
proof -
  have d: "now mod 86400 < 86400" "0 \<le> now mod 86400" by simp_all
  have z: "(now - now mod 86400 + (h * 3600 + m * 60) - (h * 3600 + m * 60)) mod 86400 = 0"
    "(now - now mod 86400 + (h * 3600 + m * 60) + 86400 - (h * 3600 + m * 60)) mod 86400 = 0"
    by (simp_all add: minus_mod_eq_mult_div add.commute [of _ 86400])
  show ?thesis using assms d z by (auto simp: next_wakeup_def Let_def algebra_simps)
qed

lemma clock_fields:
  fixes t h m :: int
  assumes "(t - (h * 3600 + m * 60)) mod 86400 = 0" "0 \<le> h" "h \<le> 23" "0 \<le> m" "m \<le> 59"
  shows "t div 3600 mod 24 = h" "t div 60 mod 60 = m"
proof -
  obtain k where t: "t = m * 60 + (k * 24 + h) * 3600" 
  proof -
    from assms(1) obtain k where "t - (h * 3600 + m * 60) = 86400 * k" by (meson dvdE mod_0_imp_dvd)
    then show thesis using that [of k] by simp
  qed
  have "t div 3600 = k * 24 + h" using assms(4,5) unfolding t by (simp add: div_pos_pos_trivial)
  then show "t div 3600 mod 24 = h" using assms by simp
  have "t = (m + (k * 24 + h) * 60) * 60" by (simp add: t)
  then have "t div 60 = m + (k * 24 + h) * 60" by simp
  then have "t div 60 mod 60 = (m + (k * 24 + h) * 60) mod 60" by (rule arg_cong)
  also have "\<dots> = m mod 60" by (rule mod_mult_self1)
  finally show "t div 60 mod 60 = m" using assms by simp
qed

text \<open>Unpacking a stored wake-up gives back the wake-up that was packed.\<close>

lemma wake_roundtrip:
  assumes "wake_wf w" and "0 \<le> now" and "next_wakeup (wk_hour w) (wk_minute w) now \<le> UINT32_MAX"
    and "wake_known cfg" and "lc_v cfg ! CALI_LCFG_WAKE_TS = word_of_int (next_wakeup (wk_hour w) (wk_minute w) now)"
    and "lc_v cfg ! CALI_LCFG_WAKE_LV = light_value w"
  shows "wake_stored cfg = w"
proof -
  let ?t = "next_wakeup (wk_hour w) (wk_minute w) now"
  have hm: "0 \<le> wk_hour w" "wk_hour w \<le> 23" "0 \<le> wk_minute w" "wk_minute w \<le> 59"
    using assms(1) by (simp_all add: wake_wf_def)
  note sp = next_wakeup_spec [OF hm, of now]
  have u: "uint (word_of_int ?t :: u32) = ?t"
    using sp assms(2,3) by (simp add: uint_word_of_int UINT32_MAX_def)
  have ramp: "wk_ramp w div 10 * 10 = wk_ramp w" using assms(1) by (simp add: wake_wf_def)
  have c: "uint ((word_of_int ?t :: u32) div 3600 mod 24) = wk_hour w" "uint ((word_of_int ?t :: u32) div 60 mod 60) = wk_minute w"
    using clock_fields [of ?t "wk_hour w" "wk_minute w"] sp hm by (simp_all add: uint_mod uint_div u)
  show ?thesis unfolding wake_stored_def Let_def assms(5,6)
    using assms(4) light_value_fields [OF assms(1)] c ramp by simp
qed

lemma wake_vals_get:
  "vals_get (wake_vals w ts) ''Timestamp'' = Some (word_of_int ts) \<and> vals_get (wake_vals w ts) ''LightValue'' = Some (light_value w)"
proof -
  let ?v3 = "put ''Timestamp'' (word_of_int ts) (put ''Mode'' CALI_LIGHT_MODE_WAKEUP_TIME (put ''ProfileNumber'' CALI_LIGHT_UNCHANGED reset_vals))"
  let ?v = "put ''LightValue'' (light_value w) ?v3"
  have l: "length (vs_kv ?v3) \<le> 3" "length (vs_kv ?v) \<le> 4"
    by (simp_all add: put_def reset_vals_def)
  have n: "''Timestamp'' \<notin> set CALI_LIGHT_ZONE_FIELDS" "''LightValue'' \<notin> set CALI_LIGHT_ZONE_FIELDS" by code_simp+
  have k: "length (vs_kv ?v) + length CALI_LIGHT_ZONE_FIELDS < CODEC_KV_MAX"
    using l(2) by (simp add: CODEC_KV_MAX_def CALI_LIGHT_ZONE_FIELDS_def)
  have "vals_get ?v ''Timestamp'' = Some (word_of_int ts)" "vals_get ?v ''LightValue'' = Some (light_value w)"
    using l by (simp_all add: CODEC_KV_MAX_def put_def reset_vals_def vals_get_def)
  then show ?thesis using vals_get_fold_put [OF n(1) k] vals_get_fold_put [OF n(2) k]
    by (simp add: wake_vals_def zones_all_def light_value_def)
qed

lemma wakeup_plan_frames:
  assumes "pl_rc (cali_ctl_plan_ctx ''lighting'' ''wakeup'' value now get) = CALI_CTL_OK"
  shows "\<exists>w sw q r. wake_request value (cali_light_cfg_ctx get) = Some (w, sw) \<and> 0 \<le> now \<and>
    \<not> (wk_enabled w \<noteq> 0 \<and> wk_areas w = 0) \<and> next_wakeup (wk_hour w) (wk_minute w) now \<le> UINT32_MAX \<and>
    add ''lighting'' (wake_vals w (next_wakeup (wk_hour w) (wk_minute w) now)) 0 empty_plan = Some q \<and>
    add_commit q = Some r \<and> pl_f (cali_ctl_plan_ctx ''lighting'' ''wakeup'' value now get) = pl_f r"
  using assms
  by (auto simp: cali_ctl_plan_ctx_def set_rc_def p_wakeup_def lighting_done_def add_lighting_def Let_def
      split: option.splits if_splits prod.splits)

section \<open>Properties\<close>

text \<open>
  C8. A planned frame asks the air heater to run only for the power command with a
  value that reads as on while the unit does not report error 5 (engine running or water heater on): the
  normal-operation request of every frame of an air heater plan is 1 only then, 0 only for power off, and
  otherwise the leave-unchanged value 3.
\<close>

theorem heater_on_only_by_power:
  assumes "f \<in> set (pl_f (cali_ctl_plan_ctx ''airheater'' what value now get))"
  shows "frame_field ''airheater'' ''NormalOperationRequest'' (fr_data f) =
      Some (if what = ''power'' then (if onoff value = Some True then 1 else 0) else 3) \<and>
    (what = ''power'' \<longrightarrow> onoff value \<noteq> None) \<and>
    (frame_field ''airheater'' ''NormalOperationRequest'' (fr_data f) = Some 1 \<longrightarrow> get ''airheater'' ''ErrorCode'' \<noteq> Some 5)"
proof -
  have "pl_rc (cali_ctl_plan_ctx ''airheater'' what value now get) = CALI_CTL_OK"
    using assms plan_ctx_ok [of "''airheater''" what "value" now get] by auto
  from airheater_plan_frames [OF this] obtain v q where
    g: "gate ''airheater'' what value get = None" and v: "airheater_vals what value = Inr v"
    and q: "add ''airheater'' v 0 empty_plan = Some q" "pl_f (cali_ctl_plan_ctx ''airheater'' what value now get) = pl_f q"
    by blast
  have "frame_field ''airheater'' ''NormalOperationRequest'' [] \<noteq> None" by code_simp
  from add_frame_field [OF q(1) airheater_request [OF v] this] assms q(2)
  have fr: "frame_field ''airheater'' ''NormalOperationRequest'' (fr_data f) =
      Some (if what = ''power'' then (if onoff value = Some True then 1 else 0) else 3)"
    by (auto simp: empty_plan_def)
  have "what = ''power'' \<longrightarrow> onoff value \<noteq> None"
    using v by (auto simp: airheater_vals_def split: option.splits)
  then show ?thesis using fr g by (auto simp: gate_def gate_airheater_def Let_def split: if_splits)
qed

theorem heater_on_only_by_power_witness:
  "\<exists>f\<in>set (pl_f (cali_ctl_plan_ctx ''airheater'' ''power'' '' On '' 0 (\<lambda>_ _. None))).
     frame_field ''airheater'' ''NormalOperationRequest'' (fr_data f) = Some 1"
proof -
  let ?p = "cali_ctl_plan_ctx ''airheater'' ''power'' '' On '' 0 (\<lambda>_ _. None)"
  have "pl_f ?p \<noteq> []" by code_simp
  then have f: "hd (pl_f ?p) \<in> set (pl_f ?p)" by (rule hd_in_set)
  have "onoff '' On '' = Some True" by code_simp
  with heater_on_only_by_power [OF f] f show ?thesis by (intro bexI [OF _ f]) simp
qed

text \<open>
  The frame of an accepted wake-up command carries exactly the wake-up that the
  text asked for over the stored one: read back from the frame the way the unit's own report is read, its
  timestamp and light value give the same hour, minute, colour, areas, brightness, ramp and switch; the
  timestamp is after the page's clock and at most a day later; and a switched-on wake-up has an area.
\<close>

theorem wakeup_frame_roundtrip:
  assumes "pl_rc (cali_ctl_plan_ctx ''lighting'' ''wakeup'' value now get) = CALI_CTL_OK"
  shows "\<exists>f c w sw ts lv. pl_f (cali_ctl_plan_ctx ''lighting'' ''wakeup'' value now get) = [f, c] \<and> fr_data c = CALI_LIGHT_COMMIT \<and>
    wake_request value (cali_light_cfg_ctx get) = Some (w, sw) \<and>
    frame_field ''lighting'' ''Timestamp'' (fr_data f) = Some ts \<and> frame_field ''lighting'' ''LightValue'' (fr_data f) = Some lv \<and>
    wake_stored \<lparr>lc_have = 3, lc_v = [ts, lv, 0, 0]\<rparr> = w \<and> now < uint ts \<and> uint ts \<le> now + 86400 \<and>
    (wk_enabled w \<noteq> 0 \<longrightarrow> wk_areas w \<noteq> 0)"
proof -
  from wakeup_plan_frames [OF assms] obtain w sw q r where
    w: "wake_request value (cali_light_cfg_ctx get) = Some (w, sw)" "0 \<le> now" "\<not> (wk_enabled w \<noteq> 0 \<and> wk_areas w = 0)"
      "next_wakeup (wk_hour w) (wk_minute w) now \<le> UINT32_MAX"
    and q: "add ''lighting'' (wake_vals w (next_wakeup (wk_hour w) (wk_minute w) now)) 0 empty_plan = Some q"
    and r: "add_commit q = Some r" "pl_f (cali_ctl_plan_ctx ''lighting'' ''wakeup'' value now get) = pl_f r"
    by blast
  let ?t = "next_wakeup (wk_hour w) (wk_minute w) now"
  have wf: "wake_wf w" by (rule wake_request_wf [OF w(1)])
  have nf: "frame_field ''lighting'' ''Timestamp'' [] \<noteq> None" "frame_field ''lighting'' ''LightValue'' [] \<noteq> None"
    by code_simp+
  note g = wake_vals_get [of w ?t]
  from add_frame_field [OF q conjunct1 [OF g] nf(1)] add_frame_field [OF q conjunct2 [OF g] nf(2)]
  obtain f where f: "pl_f q = [f]" "frame_field ''lighting'' ''Timestamp'' (fr_data f) = Some (word_of_int ?t)"
    "frame_field ''lighting'' ''LightValue'' (fr_data f) = Some (light_value w)"
    by (auto simp: empty_plan_def)
  obtain c where c: "pl_f r = [f, c]" "fr_data c = CALI_LIGHT_COMMIT"
    using r(1) f(1) by (auto simp: add_commit_def split: option.splits if_splits)
  have hm: "0 \<le> wk_hour w" "wk_hour w \<le> 23" "0 \<le> wk_minute w" "wk_minute w \<le> 59"
    using wf by (simp_all add: wake_wf_def)
  note sp = next_wakeup_spec [OF hm, of now]
  have u: "uint (word_of_int ?t :: u32) = ?t"
    using sp w(2,4) by (simp add: uint_word_of_int UINT32_MAX_def)
  have k: "wake_known \<lparr>lc_have = 3, lc_v = [word_of_int ?t, light_value w, 0, 0]\<rparr>"
    by (simp add: wake_known_def lcfg_has_def CALI_LCFG_WAKE_TS_def CALI_LCFG_WAKE_LV_def)
  have "wake_stored \<lparr>lc_have = 3, lc_v = [word_of_int ?t, light_value w, 0, 0]\<rparr> = w"
    by (rule wake_roundtrip [OF wf w(2,4) k]) (simp_all add: CALI_LCFG_WAKE_TS_def CALI_LCFG_WAKE_LV_def)
  then have "pl_f (cali_ctl_plan_ctx ''lighting'' ''wakeup'' value now get) = [f, c] \<and> fr_data c = CALI_LIGHT_COMMIT \<and>
    wake_request value (cali_light_cfg_ctx get) = Some (w, sw) \<and>
    frame_field ''lighting'' ''Timestamp'' (fr_data f) = Some (word_of_int ?t) \<and>
    frame_field ''lighting'' ''LightValue'' (fr_data f) = Some (light_value w) \<and>
    wake_stored \<lparr>lc_have = 3, lc_v = [word_of_int ?t, light_value w, 0, 0]\<rparr> = w \<and>
    now < uint (word_of_int ?t :: u32) \<and> uint (word_of_int ?t :: u32) \<le> now + 86400 \<and> (wk_enabled w \<noteq> 0 \<longrightarrow> wk_areas w \<noteq> 0)"
    using r(2) c f w sp u by auto
  then show ?thesis by blast
qed

theorem wakeup_frame_roundtrip_witness:
  "\<exists>f c w sw ts lv. pl_f (cali_ctl_plan_ctx ''lighting'' ''wakeup'' ''07:30 1,3 5 20 on'' 1700000000 (\<lambda>_ _. None)) = [f, c] \<and>
    fr_data c = CALI_LIGHT_COMMIT \<and>
    wake_request ''07:30 1,3 5 20 on'' (cali_light_cfg_ctx (\<lambda>_ _. None)) = Some (w, sw) \<and>
    frame_field ''lighting'' ''Timestamp'' (fr_data f) = Some ts \<and> frame_field ''lighting'' ''LightValue'' (fr_data f) = Some lv \<and>
    wake_stored \<lparr>lc_have = 3, lc_v = [ts, lv, 0, 0]\<rparr> = w \<and> 1700000000 < uint ts \<and> uint ts \<le> 1700000000 + 86400 \<and>
    (wk_enabled w \<noteq> 0 \<longrightarrow> wk_areas w \<noteq> 0)"
  by (rule wakeup_frame_roundtrip) code_simp

end
