(* ===== verification/Control_Run.thy ===== *)
theory Control_Run
  imports Control
begin

text \<open>
  The command sequencer of \<open>control_run.c\<close>: one command at a time onto the session's link. What the
  session answers (link, armed, the stored frames, the lighting latch) is the input record
  \<open>ctl_session\<close>; the BLE transport's answer to one write is \<open>ctl_wr\<close>, which may complete the write inside
  the call. The file's static \<open>O\<close> and \<open>s_now\<close> are the state; log lines are not modelled, apart from the
  points where a plan is adopted, which appear as effects.
\<close>

section \<open>Data\<close>

definition CALI_CTL_DEADLINE_MS :: u64 where "CALI_CTL_DEADLINE_MS = 4000"
definition CALI_CTL_TICK_MS :: u64 where "CALI_CTL_TICK_MS = 100"
definition CODEC_CONFIG_PULL_MS :: u64 where "CODEC_CONFIG_PULL_MS = 2000"
definition CODEC_NCHARS :: nat where "CODEC_NCHARS = 14"

definition CODEC_CHARS :: "(string \<times> u16) list" where
  "CODEC_CHARS =
     [(''airheater'', 0x1702), (''campingmode'', 0x1202), (''cooler'', 0x1102), (''energy'', 0x1602), (''general'', 0x1001),
      (''generalpurposesignals'', 0xf001), (''lighting'', 0x1502), (''livingroomheater'', 0x2102), (''roof'', 0x1402),
      (''roofaircondition'', 0x2002), (''satelliteantenna'', 0x1902), (''stairs'', 0x1802), (''vehicle'', 0x1004),
      (''water'', 0x1302)]"

record ctl_session =
  se_link_up :: bool
  se_ready :: bool
  se_frame_live :: "nat \<Rightarrow> u8 list option"
  se_light_cfg :: "codec_kv list"

datatype ctl_wr = Wr_started | Wr_completed int | Wr_refused

record ctl_run =
  r_now :: u64
  r_active :: bool
  r_inflight :: bool
  r_i :: nat
  r_next_at :: u64
  r_deadline :: u64
  r_done :: "nat option"
  r_plan :: cali_ctl_plan
  r_pull :: nat
  r_pull_until :: u64
  r_fn :: string
  r_what :: string
  r_value :: string
  r_local_now :: int
  r_submitted_at :: u64
  r_src :: "string option"

text \<open>
  The effects: a plan is adopted for a new command or again after the pull, a frame is handed to the
  transport, a completed write is taken, a write is dropped with its link, the callback runs, a diagnostics
  event is recorded, the submit answers at once, the session is asked to connect.
\<close>

datatype ctl_eff =
    E_accepted "nat option" bool "cali_ctl_frame list"
  | E_replanned "cali_ctl_frame list"
  | E_write u16 "u8 list"
  | E_written int
  | E_dropped
  | E_done "nat option" cali_ctl_rc "string option"
  | E_cmd string string string string u64
  | E_answer cali_ctl_rc "string option"
  | E_connect_now

section \<open>Operations\<close>

fun cmd_result :: "cali_ctl_rc \<Rightarrow> string" where
  "cmd_result CALI_CTL_OK = ''ack''"
| "cmd_result CALI_CTL_REFUSED = ''refused''"
| "cmd_result CALI_CTL_ELSEWHERE = ''elsewhere''"
| "cmd_result CALI_CTL_BAD_VALUE = ''bad_value''"
| "cmd_result CALI_CTL_NONE = ''none''"
| "cmd_result CALI_CTL_PENDING = ''pending''"
| "cmd_result CALI_CTL_BUSY = ''busy''"
| "cmd_result CALI_CTL_NOT_READY = ''not_ready''"
| "cmd_result CALI_CTL_FAILED = ''failed''"
| "cmd_result CALI_CTL_TIMEOUT = ''timeout''"
| "cmd_result CALI_CTL_UNCONFIRMED = ''unconfirmed''"

definition cmd_evt :: "string \<Rightarrow> string \<Rightarrow> string option \<Rightarrow> cali_ctl_rc \<Rightarrow> u64 \<Rightarrow> ctl_eff" where
  "cmd_evt fn what src result ms = E_cmd fn what (cmd_result result) (case src of Some s \<Rightarrow> s | None \<Rightarrow> ''?'') ms"

fun index_from :: "nat \<Rightarrow> (string \<times> u16) list \<Rightarrow> string \<Rightarrow> nat option" where
  "index_from i [] fn = None"
| "index_from i (c # cs) fn = (if fst c = fn then Some i else index_from (Suc i) cs fn)"

definition index_of :: "string \<Rightarrow> nat option" where
  "index_of fn = index_from 0 (take CODEC_NCHARS CODEC_CHARS) fn"

definition kv_lookup :: "codec_kv list \<Rightarrow> string \<Rightarrow> u32 option" where
  "kv_lookup kvs field = map_option kv_value (find (\<lambda>k. kv_name k = field) kvs)"

definition get_field :: "ctl_session \<Rightarrow> ctl_get" where
  "get_field se fn field =
     (case (if fn = ''lighting'' then kv_lookup (se_light_cfg se) field else None) of
        Some v \<Rightarrow> Some v
      | None \<Rightarrow>
          (case (index_of fn, codec_func_by_name fn) of
             (Some i, Some f) \<Rightarrow>
               (case se_frame_live se i of None \<Rightarrow> None | Some frame \<Rightarrow> kv_lookup (codec_decode f frame) field)
           | _ \<Rightarrow> None))"

definition have_frame :: "ctl_session \<Rightarrow> string \<Rightarrow> bool" where
  "have_frame se fn = (case index_of fn of None \<Rightarrow> False | Some i \<Rightarrow> se_frame_live se i \<noteq> None)"

definition cali_ctl_run_init :: "u64 \<Rightarrow> ctl_run" where
  "cali_ctl_run_init now =
     \<lparr>r_now = now, r_active = False, r_inflight = False, r_i = 0, r_next_at = 0, r_deadline = 0, r_done = None,
      r_plan = empty_plan, r_pull = 0, r_pull_until = 0, r_fn = [], r_what = [], r_value = [], r_local_now = 0,
      r_submitted_at = 0, r_src = None\<rparr>"

definition ctl_finish :: "cali_ctl_rc \<Rightarrow> string option \<Rightarrow> ctl_run \<Rightarrow> ctl_run \<times> ctl_eff list" where
  "ctl_finish result reason s =
     (s\<lparr>r_active := False, r_pull := 0, r_done := None\<rparr>,
      [cmd_evt (r_fn s) (r_what s) (r_src s) result (r_now s - r_submitted_at s), E_done (r_done s) result reason])"

definition cali_ctl_busy :: "ctl_run \<Rightarrow> bool" where
  "cali_ctl_busy s \<longleftrightarrow> r_active s \<or> r_inflight s"

record ctl_cmd =
  c_fn :: string
  c_what :: string
  c_value :: string
  c_local_now :: int
  c_done :: "nat option"
  c_src :: "string option"

definition ctl_accept :: "ctl_cmd \<Rightarrow> bool \<Rightarrow> cali_ctl_plan \<Rightarrow> ctl_run \<Rightarrow> ctl_run" where
  "ctl_accept c pulling plan s =
     s\<lparr>r_plan := plan, r_pull := (if pulling then 1 else 0), r_active := True, r_i := 0, r_next_at := r_now s,
       r_deadline := r_now s + CALI_CTL_DEADLINE_MS + (if pulling then CODEC_CONFIG_PULL_MS else 0), r_done := c_done c,
       r_local_now := c_local_now c, r_submitted_at := r_now s, r_src := c_src c,
       r_fn := take 23 (c_fn c), r_what := take 31 (c_what c), r_value := take 63 (c_value c)\<rparr>"

definition submit :: "ctl_session \<Rightarrow> ctl_cmd \<Rightarrow> ctl_run \<Rightarrow> cali_ctl_rc \<times> ctl_run \<times> ctl_eff list" where
  "submit se c s =
     (if cali_ctl_busy s then (CALI_CTL_BUSY, s, [E_answer CALI_CTL_BUSY None])
      else
        let plan = cali_ctl_plan_ctx (c_fn c) (c_what c) (c_value c) (c_local_now c) (get_field se);
            rc = pl_rc plan
        in if (rc = CALI_CTL_OK \<or> rc = CALI_CTL_REFUSED) \<and> (\<not> se_ready se \<or> \<not> have_frame se (c_fn c)) then
             (CALI_CTL_NOT_READY, s, [E_connect_now, E_answer CALI_CTL_NOT_READY None])
           else
             let pulling = (rc = CALI_CTL_REFUSED \<and> pl_pull plan); plan' = (if pulling then cali_ctl_pull_plan else plan)
             in if rc = CALI_CTL_OK \<or> pulling then
                  (CALI_CTL_PENDING, ctl_accept c pulling plan' s, [E_accepted (c_done c) pulling (pl_f plan')])
                else if rc = CALI_CTL_REFUSED \<or> rc = CALI_CTL_ELSEWHERE then (rc, s, [E_answer rc (pl_reason plan)])
                else if rc = CALI_CTL_BAD_VALUE then (rc, s, [E_answer rc None])
                else (CALI_CTL_NONE, s, [E_answer CALI_CTL_NONE None]))"

definition cali_ctl_submit :: "ctl_session \<Rightarrow> ctl_cmd \<Rightarrow> ctl_run \<Rightarrow> ctl_run \<times> ctl_eff list" where
  "cali_ctl_submit se c s =
     (let (rc, s', effs) = submit se c s
      in (s', if rc \<noteq> CALI_CTL_PENDING then effs @ [cmd_evt (c_fn c) (c_what c) (c_src c) rc 0] else effs))"

definition cali_ctl_on_written :: "int \<Rightarrow> ctl_run \<Rightarrow> ctl_run \<times> ctl_eff list" where
  "cali_ctl_on_written status s =
     (if \<not> r_inflight s then (s, [])
      else
        let s1 = s\<lparr>r_inflight := False\<rparr> in
        if \<not> r_active s1 then (s1, [E_written status])
        else if status \<noteq> 0 then let (s2, e) = ctl_finish CALI_CTL_FAILED None s1 in (s2, E_written status # e)
        else
          let s2 = s1\<lparr>r_i := r_i s1 + 1\<rparr> in
          if r_i s2 = length (pl_f (r_plan s2)) then
            if r_pull s2 = 1 then (s2\<lparr>r_pull := 2, r_pull_until := r_now s2 + CODEC_CONFIG_PULL_MS\<rparr>, [E_written status])
            else let (s3, e) = ctl_finish CALI_CTL_OK None s2 in (s3, E_written status # e)
          else
            let d = fr_delay_ms (pl_f (r_plan s2) ! r_i s2) in
            (s2\<lparr>r_next_at := (if d \<noteq> 0 then r_now s2 + ucast d + CALI_CTL_TICK_MS else r_now s2)\<rparr>, [E_written status]))"

text \<open>The end of the tick: the next frame when it is due.\<close>

definition ctl_send :: "ctl_wr \<Rightarrow> ctl_run \<Rightarrow> ctl_run \<times> ctl_eff list" where
  "ctl_send wr s =
     (if r_inflight s \<or> r_now s < r_next_at s then (s, [])
      else
        let f = pl_f (r_plan s) ! r_i s in
        if \<not> cali_ctl_write_ok (fr_chr f) (unat (fr_len f)) then ctl_finish CALI_CTL_FAILED None s
        else
          let s1 = s\<lparr>r_inflight := True\<rparr> in
          case wr of
            Wr_started \<Rightarrow> (s1, [E_write (fr_chr f) (fr_data f)])
          | Wr_completed status \<Rightarrow>
              let (s2, e) = cali_ctl_on_written status s1 in (s2, E_write (fr_chr f) (fr_data f) # e)
          | Wr_refused \<Rightarrow>
              let s2 = s1\<lparr>r_inflight := False\<rparr> in if r_active s2 then ctl_finish CALI_CTL_FAILED None s2 else (s2, []))"

definition cali_ctl_tick :: "ctl_session \<Rightarrow> ctl_wr \<Rightarrow> u64 \<Rightarrow> ctl_run \<Rightarrow> ctl_run \<times> ctl_eff list" where
  "cali_ctl_tick se wr now s0 =
     (let s = s0\<lparr>r_now := now\<rparr> in
      if \<not> se_link_up se then
        let sent = (r_pull s = 0 \<and> (r_inflight s \<or> r_i s > 0)); s1 = s\<lparr>r_inflight := False\<rparr>
        in if r_active s1 then
             let (s2, e) = ctl_finish (if sent then CALI_CTL_UNCONFIRMED else CALI_CTL_FAILED) None s1 in (s2, E_dropped # e)
           else (s1, [E_dropped])
      else if \<not> r_active s then (s, [])
      else if now \<ge> r_deadline s then ctl_finish CALI_CTL_TIMEOUT None s
      else if r_pull s = 2 then
        let plan = cali_ctl_plan_ctx (r_fn s) (r_what s) (r_value s) (r_local_now s + uint ((now - r_submitted_at s) div 1000))
                     (get_field se)
        in if pl_pull plan \<and> now < r_pull_until s then (s, [])
           else
             let s1 = s\<lparr>r_pull := 0\<rparr> in
             if pl_rc plan \<noteq> CALI_CTL_OK then ctl_finish (pl_rc plan) (pl_reason plan) s1
             else
               let (s2, e) = ctl_send wr (s1\<lparr>r_plan := plan, r_i := 0, r_next_at := now\<rparr>) in (s2, E_replanned (pl_f plan) # e)
      else ctl_send wr s)"

text \<open>The calls the sequencer's owner makes, in the order they come.\<close>

datatype ctl_call = Call_submit ctl_session ctl_cmd | Call_tick ctl_session ctl_wr u64 | Call_written int

fun ctl_step :: "ctl_run \<Rightarrow> ctl_call \<Rightarrow> ctl_run \<times> ctl_eff list" where
  "ctl_step s (Call_submit se c) = cali_ctl_submit se c s"
| "ctl_step s (Call_tick se wr now) = cali_ctl_tick se wr now s"
| "ctl_step s (Call_written status) = cali_ctl_on_written status s"

section \<open>The codes of a plan\<close>

definition plan_rc :: "cali_ctl_rc \<Rightarrow> bool" where
  "plan_rc rc \<longleftrightarrow> rc \<in> {CALI_CTL_OK, CALI_CTL_REFUSED, CALI_CTL_ELSEWHERE, CALI_CTL_BAD_VALUE, CALI_CTL_NONE}"

lemma plan_rc_simps [simp]:
  "plan_rc CALI_CTL_OK" "plan_rc CALI_CTL_REFUSED" "plan_rc CALI_CTL_ELSEWHERE" "plan_rc CALI_CTL_BAD_VALUE" "plan_rc CALI_CTL_NONE"
  by (simp_all add: plan_rc_def)

lemma plan_rc_finish [simp]: "plan_rc (fst (finish fn v p))" "plan_rc (fst (lighting_done v p))"
  by (simp_all add: finish_def lighting_done_def split_beta split: option.split)

lemma plan_rc_small:
  "plan_rc (fst (b_camping what value p))" "plan_rc (fst (b_energy what value p))" "plan_rc (fst (b_save_profile value get p))"
  by (simp_all add: b_camping_def b_energy_def b_save_profile_def Let_def split_beta split: option.split)

lemma plan_rc_cooler: "plan_rc (fst (b_cooler what value get p))"
  by (simp add: b_cooler_def Let_def split: option.split prod.split)

lemma airheater_vals_rc: "airheater_vals what value = Inl rc \<Longrightarrow> plan_rc rc"
  by (auto simp: airheater_vals_def Let_def split: if_splits option.splits)

lemma plan_rc_airheater: "plan_rc (fst (b_airheater what value p))"
  by (simp add: b_airheater_def airheater_vals_rc split: sum.split)

lemma plan_rc_lighting: "plan_rc (fst (b_lighting what value get p))"
  by (simp add: b_lighting_def Let_def plan_rc_small split: option.split)

lemma plan_rc_wakeup: "plan_rc (fst (p_wakeup value now get p))"
  by (simp add: p_wakeup_def Let_def split: option.split prod.split)

lemma set_rc_rc: "pl_rc (set_rc r) = fst r"
  by (cases r) (simp add: set_rc_def Let_def)

lemma plan_ctx_rc: "plan_rc (pl_rc (cali_ctl_plan_ctx fn what value now get))"
  by (simp add: cali_ctl_plan_ctx_def set_rc_rc plan_rc_small plan_rc_cooler plan_rc_airheater plan_rc_lighting plan_rc_wakeup
      split: option.split)

lemma plan_ctx_not_unconfirmed: "pl_rc (cali_ctl_plan_ctx fn what value now get) \<noteq> CALI_CTL_UNCONFIRMED"
proof
  assume u: "pl_rc (cali_ctl_plan_ctx fn what value now get) = CALI_CTL_UNCONFIRMED"
  show False using plan_ctx_rc [of fn what "value" now get] unfolding u by (simp add: plan_rc_def)
qed

section \<open>The invariant\<close>

definition ctl_inv :: "ctl_run \<Rightarrow> bool" where
  "ctl_inv s \<longleftrightarrow> (r_active s \<longrightarrow>
     plan_ok (r_plan s) \<and> r_pull s \<le> 2 \<and>
     (if r_pull s = 2 then r_i s = length (pl_f (r_plan s)) \<and> \<not> r_inflight s else r_i s < length (pl_f (r_plan s))) \<and>
     (r_deadline s = r_submitted_at s + 4000 \<or> r_deadline s = r_submitted_at s + 6000))"

lemma pull_plan_ok: "plan_ok cali_ctl_pull_plan" "pl_f cali_ctl_pull_plan \<noteq> []"
  by (simp_all add: plan_ok_def frame_ok_def) code_simp+

lemma fr_len_ok: "frame_ok f \<Longrightarrow> cali_ctl_write_ok (fr_chr f) (unat (fr_len f))" "frame_ok f \<Longrightarrow> unat (fr_len f) = length (fr_data f)"
  by (simp_all add: frame_ok_def)

lemma plan_nth_ok: "plan_ok p \<Longrightarrow> i < length (pl_f p) \<Longrightarrow> frame_ok (pl_f p ! i)"
  by (simp add: plan_ok_def)

lemmas plan_ctx_facts = plan_ctx_ok [THEN conjunct1] plan_ctx_ok [THEN conjunct2]

lemma inv_finish: "ctl_inv (fst (ctl_finish rc reason s))"
  by (simp add: ctl_finish_def ctl_inv_def)

lemma inv_submit: "ctl_inv s \<Longrightarrow> ctl_inv (fst (cali_ctl_submit se c s))"
  using plan_ctx_ok [of "c_fn c" "c_what c" "c_value c" "c_local_now c" "get_field se"] pull_plan_ok
  by (auto simp: cali_ctl_submit_def submit_def Let_def ctl_accept_def ctl_inv_def CALI_CTL_DEADLINE_MS_def CODEC_CONFIG_PULL_MS_def)

lemma inv_written: "ctl_inv s \<Longrightarrow> ctl_inv (fst (cali_ctl_on_written status s))"
  by (auto simp: cali_ctl_on_written_def Let_def split_beta inv_finish) (auto simp: ctl_inv_def)

lemma inv_send:
  assumes "ctl_inv s" and "r_active s" and "r_pull s \<noteq> 2"
  shows "ctl_inv (fst (ctl_send wr s))"
proof -
  have s1: "ctl_inv (s\<lparr>r_inflight := b\<rparr>)" for b using assms by (simp add: ctl_inv_def)
  show ?thesis using assms inv_written [OF s1 [of True]] s1
    by (simp add: ctl_send_def Let_def split_beta inv_finish split: ctl_wr.split)
qed

lemma inv_tick: "ctl_inv s \<Longrightarrow> ctl_inv (fst (cali_ctl_tick se wr now s))"
proof -
  assume s: "ctl_inv s"
  let ?plan = "cali_ctl_plan_ctx (r_fn s) (r_what s) (r_value s) (r_local_now s + uint ((now - r_submitted_at s) div 1000)) (get_field se)"
  have n: "ctl_inv (s\<lparr>r_now := now\<rparr>)" "ctl_inv (s\<lparr>r_now := now, r_inflight := False\<rparr>)"
    using s by (auto simp: ctl_inv_def)
  have p: "r_active s \<Longrightarrow> pl_rc ?plan = CALI_CTL_OK \<Longrightarrow>
      ctl_inv (s\<lparr>r_now := now, r_pull := 0, r_plan := ?plan, r_i := 0, r_next_at := now\<rparr>)"
    using s plan_ctx_ok [of "r_fn s" "r_what s" "r_value s" _ "get_field se"] by (simp add: ctl_inv_def)
  show ?thesis
    using n inv_send [OF n(1), of wr] inv_send [OF p, of wr]
    by (simp add: cali_ctl_tick_def Let_def split_beta inv_finish)
qed

lemma ctl_inv_step: "ctl_inv s \<Longrightarrow> ctl_inv (fst (ctl_step s e))"
  by (cases e) (simp_all add: inv_submit inv_tick inv_written)

interpretation sequencer: machine ctl_step "cali_ctl_run_init now" ctl_inv
  by unfold_locales (simp_all add: ctl_inv_step, simp add: ctl_inv_def cali_ctl_run_init_def)

section \<open>The contract of the sequencer\<close>

text \<open>
  The observer of the effects, which knows nothing of the sequencer's state: whether a command runs and
  for which callback, whether its frames are a configuration pull, which frames are still to come, whether a
  write is out, whether a frame of this plan was handed out, whether the link was lost under it, whether the unit
  refused the last write. \<open>None\<close> marks an effect the contract does not allow.
\<close>

record watch =
  w_cb :: "nat option option"
  w_pull :: bool
  w_left :: "cali_ctl_frame list"
  w_out :: bool
  w_sent :: bool
  w_lost :: bool
  w_nack :: bool

definition watch_idle :: "bool \<Rightarrow> watch" where
  "watch_idle out = \<lparr>w_cb = None, w_pull = False, w_left = [], w_out = out, w_sent = False, w_lost = False, w_nack = False\<rparr>"

text \<open>Which outcome may be reported: success only when every frame of the command itself was written and
  acknowledged; a lost link as unconfirmed exactly when a command frame had gone out.\<close>

definition outcome_ok :: "watch \<Rightarrow> cali_ctl_rc \<Rightarrow> bool" where
  "outcome_ok w rc \<longleftrightarrow>
     (rc = CALI_CTL_OK \<longrightarrow> \<not> w_pull w \<and> w_left w = [] \<and> \<not> w_out w) \<and>
     (w_nack w \<longrightarrow> rc = CALI_CTL_FAILED) \<and>
     (if w_lost w then rc = (if \<not> w_pull w \<and> w_sent w then CALI_CTL_UNCONFIRMED else CALI_CTL_FAILED)
      else rc \<noteq> CALI_CTL_UNCONFIRMED)"

fun watch_eff :: "watch \<Rightarrow> ctl_eff \<Rightarrow> watch option" where
  "watch_eff w (E_accepted cb pulling fs) =
     (if w_cb w = None \<and> \<not> w_out w \<and> fs \<noteq> []
      then Some \<lparr>w_cb = Some cb, w_pull = pulling, w_left = fs, w_out = False, w_sent = False, w_lost = False, w_nack = False\<rparr> else None)"
| "watch_eff w (E_replanned fs) =
     (if w_cb w \<noteq> None \<and> w_pull w \<and> w_left w = [] \<and> \<not> w_out w
      then Some (w\<lparr>w_pull := False, w_left := fs, w_sent := False\<rparr>) else None)"
| "watch_eff w (E_write chr data) =
     (case w_left w of
        f # fs \<Rightarrow>
          if w_cb w \<noteq> None \<and> \<not> w_out w \<and> fr_chr f = chr \<and> fr_data f = data \<and> cali_ctl_write_ok chr (length data)
          then Some (w\<lparr>w_left := fs, w_out := True, w_sent := True\<rparr>) else None
      | [] \<Rightarrow> None)"
| "watch_eff w (E_written status) = (if w_out w then Some (w\<lparr>w_out := False, w_nack := (w_cb w \<noteq> None \<and> status \<noteq> 0)\<rparr>) else None)"
| "watch_eff w E_dropped = Some (w\<lparr>w_out := False, w_lost := (w_cb w \<noteq> None)\<rparr>)"
| "watch_eff w (E_done cb rc reason) =
     (if w_cb w = Some cb \<and> outcome_ok w rc then Some (watch_idle (w_out w)) else None)"
| "watch_eff w _ = Some w"

definition watch_upd :: "watch option \<Rightarrow> ctl_eff \<Rightarrow> watch option" where
  "watch_upd w e = Option.bind w (\<lambda>x. watch_eff x e)"

definition watch_of :: "ctl_run \<Rightarrow> watch" where
  "watch_of s =
     (if r_active s then
        \<lparr>w_cb = Some (r_done s), w_pull = (r_pull s \<noteq> 0),
         w_left = drop (r_i s + (if r_inflight s then 1 else 0)) (pl_f (r_plan s)),
         w_out = r_inflight s, w_sent = (r_inflight s \<or> r_i s > 0), w_lost = False, w_nack = False\<rparr>
      else watch_idle (r_inflight s))"

lemma watch_upd_Some [simp]: "watch_upd (Some w) e = watch_eff w e"
  by (simp add: watch_upd_def)

lemma watch_cmd_evt [simp]: "watch_eff w (cmd_evt fn what src rc ms) = Some w"
  by (simp add: cmd_evt_def)

lemma watch_finish:
  assumes "w_cb w = Some (r_done s)" and "outcome_ok w rc" and "w_out w = r_inflight s"
  shows "foldl watch_upd (Some w) (snd (ctl_finish rc reason s)) = Some (watch_of (fst (ctl_finish rc reason s)))"
  using assms by (simp add: ctl_finish_def watch_of_def)

lemma watch_submit:
  assumes "ctl_inv s"
  shows "foldl watch_upd (Some (watch_of s)) (snd (cali_ctl_submit se c s)) = Some (watch_of (fst (cali_ctl_submit se c s)))"
  using plan_ctx_ok [of "c_fn c" "c_what c" "c_value c" "c_local_now c" "get_field se"] pull_plan_ok
  by (simp add: cali_ctl_submit_def submit_def Let_def ctl_accept_def cali_ctl_busy_def watch_of_def watch_idle_def)

lemma watch_written:
  assumes "ctl_inv s"
  shows "foldl watch_upd (Some (watch_of s)) (snd (cali_ctl_on_written status s)) =
    Some (watch_of (fst (cali_ctl_on_written status s)))"
proof (cases "r_inflight s \<and> r_active s")
  case False
  then show ?thesis by (auto simp: cali_ctl_on_written_def watch_of_def watch_idle_def Let_def)
next
  case True
  let ?s1 = "s\<lparr>r_inflight := False\<rparr>" let ?s2 = "s\<lparr>r_inflight := False, r_i := Suc (r_i s)\<rparr>"
  have lt: "r_i s < length (pl_f (r_plan s))" "r_pull s \<noteq> 2" "r_pull s \<le> 2" using assms True by (auto simp: ctl_inv_def split: if_split_asm)
  let ?w = "(watch_of s)\<lparr>w_out := False, w_nack := (status \<noteq> 0)\<rparr>"
  have fin: "foldl watch_upd (Some ?w) (snd (ctl_finish CALI_CTL_FAILED None ?s1)) =
      Some (watch_of (fst (ctl_finish CALI_CTL_FAILED None ?s1)))"
    using True by (intro watch_finish) (simp_all add: watch_of_def outcome_ok_def)
  have ok: "foldl watch_upd (Some ?w) (snd (ctl_finish CALI_CTL_OK None ?s2)) =
      Some (watch_of (fst (ctl_finish CALI_CTL_OK None ?s2)))" if "Suc (r_i s) = length (pl_f (r_plan s))" "r_pull s = 0" "status = 0"
    using True that by (intro watch_finish) (simp_all add: watch_of_def outcome_ok_def)
  have w: "watch_eff (watch_of s) (E_written status) = Some ?w" using True by (simp add: watch_of_def)
  have pull: "r_pull s = 0 \<or> r_pull s = 1" using lt by arith
  consider "status \<noteq> 0" | "status = 0" "Suc (r_i s) = length (pl_f (r_plan s))" "r_pull s = 0"
    | "status = 0" "Suc (r_i s) = length (pl_f (r_plan s))" "r_pull s = 1" | "status = 0" "Suc (r_i s) \<noteq> length (pl_f (r_plan s))"
    using pull by auto
  then show ?thesis
  proof cases
    case 1
    then show ?thesis using True fin w by (simp add: cali_ctl_on_written_def Let_def split_beta)
  next
    case 2
    then show ?thesis using True ok w by (simp add: cali_ctl_on_written_def Let_def split_beta)
  next
    case 3
    then show ?thesis using True w lt(1) by (simp add: cali_ctl_on_written_def Let_def) (auto simp: watch_of_def)
  next
    case 4
    then show ?thesis using True w by (simp add: cali_ctl_on_written_def Let_def) (simp add: watch_of_def)
  qed
qed

lemma watch_send:
  assumes "ctl_inv s" and "r_active s" and "r_pull s \<noteq> 2"
  shows "foldl watch_upd (Some (watch_of s)) (snd (ctl_send wr s)) = Some (watch_of (fst (ctl_send wr s)))"
proof (cases "r_inflight s \<or> r_now s < r_next_at s")
  case True
  then show ?thesis by (auto simp: ctl_send_def)
next
  case False
  let ?f = "pl_f (r_plan s) ! r_i s" let ?s1 = "s\<lparr>r_inflight := True\<rparr>"
  have lt: "r_i s < length (pl_f (r_plan s))" "plan_ok (r_plan s)" using assms by (auto simp: ctl_inv_def)
  have f: "cali_ctl_write_ok (fr_chr ?f) (unat (fr_len ?f))" "unat (fr_len ?f) = length (fr_data ?f)"
    by (rule fr_len_ok, rule plan_nth_ok [OF lt(2,1)])+
  have w: "watch_eff (watch_of s) (E_write (fr_chr ?f) (fr_data ?f)) = Some (watch_of ?s1)"
    using False assms(2) f lt(1) by (simp add: watch_of_def Cons_nth_drop_Suc [symmetric])
  have i1: "ctl_inv ?s1" using assms by (simp add: ctl_inv_def)
  have fin: "foldl watch_upd (Some (watch_of s)) (snd (ctl_finish CALI_CTL_FAILED None (s\<lparr>r_inflight := False\<rparr>))) =
      Some (watch_of (fst (ctl_finish CALI_CTL_FAILED None (s\<lparr>r_inflight := False\<rparr>))))"
    using False assms(2) by (intro watch_finish) (simp_all add: watch_of_def outcome_ok_def)
  show ?thesis using False assms(2) f(1) w watch_written [OF i1] fin
    by (cases wr) (simp_all add: ctl_send_def Let_def split_beta)
qed

lemma watch_tick:
  assumes "ctl_inv s"
  shows "foldl watch_upd (Some (watch_of s)) (snd (cali_ctl_tick se wr now s)) = Some (watch_of (fst (cali_ctl_tick se wr now s)))"
proof -
  let ?n = "s\<lparr>r_now := now\<rparr>"
  let ?plan = "cali_ctl_plan_ctx (r_fn s) (r_what s) (r_value s) (r_local_now s + uint ((now - r_submitted_at s) div 1000)) (get_field se)"
  let ?p = "s\<lparr>r_now := now, r_pull := 0, r_plan := ?plan, r_i := 0, r_next_at := now\<rparr>"
  have n: "ctl_inv ?n" "watch_of ?n = watch_of s" using assms by (simp_all add: ctl_inv_def watch_of_def)
  consider "\<not> se_link_up se" | "se_link_up se" "\<not> r_active s" | "se_link_up se" "r_active s" "r_deadline s \<le> now"
    | "se_link_up se" "r_active s" "\<not> r_deadline s \<le> now" "r_pull s \<noteq> 2" | "se_link_up se" "r_active s" "\<not> r_deadline s \<le> now" "r_pull s = 2"
    by blast
  then show ?thesis
  proof cases
    case 1
    show ?thesis
    proof (cases "r_active s")
      case True
      let ?rc = "if r_pull s = 0 \<and> (r_inflight s \<or> 0 < r_i s) then CALI_CTL_UNCONFIRMED else CALI_CTL_FAILED"
      let ?d = "s\<lparr>r_now := now, r_inflight := False\<rparr>" let ?w = "(watch_of s)\<lparr>w_out := False, w_lost := True\<rparr>"
      have d: "watch_eff (watch_of s) E_dropped = Some ?w" using True by (simp add: watch_of_def)
      have "foldl watch_upd (Some ?w) (snd (ctl_finish ?rc None ?d)) = Some (watch_of (fst (ctl_finish ?rc None ?d)))"
        using True by (intro watch_finish) (simp_all add: watch_of_def outcome_ok_def)
      then show ?thesis using 1 True d by (simp add: cali_ctl_tick_def Let_def split_beta del: watch_eff.simps split del: if_split)
    next
      case False
      then show ?thesis using 1 by (simp add: cali_ctl_tick_def Let_def watch_of_def watch_idle_def)
    qed
  next
    case 2
    then show ?thesis using n by (simp add: cali_ctl_tick_def Let_def)
  next
    case 3
    then show ?thesis using watch_finish [of "watch_of s" ?n CALI_CTL_TIMEOUT None]
      by (simp add: cali_ctl_tick_def Let_def watch_of_def outcome_ok_def)
  next
    case 4
    then show ?thesis using watch_send [OF n(1), of wr] n(2) by (simp add: cali_ctl_tick_def Let_def)
  next
    case 5
    then have i: "r_i s = length (pl_f (r_plan s))" "\<not> r_inflight s" using assms by (auto simp: ctl_inv_def)
    have p: "pl_rc ?plan = CALI_CTL_OK \<Longrightarrow> ctl_inv ?p"
      using 5 assms plan_ctx_ok [of "r_fn s" "r_what s" "r_value s" _ "get_field se"] by (simp add: ctl_inv_def)
    have rp: "watch_eff (watch_of s) (E_replanned (pl_f ?plan)) = Some (watch_of ?p)"
      using 5 i by (simp add: watch_of_def)
    have rc: "pl_rc ?plan \<noteq> CALI_CTL_UNCONFIRMED" by (rule plan_ctx_not_unconfirmed)
    show ?thesis
      using 5 n watch_send [OF p, of wr] rp rc
        watch_finish [of "watch_of s" "s\<lparr>r_now := now, r_pull := 0\<rparr>" "pl_rc ?plan" "pl_reason ?plan"]
      by (simp add: cali_ctl_tick_def Let_def split_beta) (simp add: watch_of_def outcome_ok_def)
  qed
qed

interpretation sequencer_watch: tracked_machine ctl_step "cali_ctl_run_init now" ctl_inv watch_upd "\<lambda>s. Some (watch_of s)"
proof unfold_locales
  fix s e assume "ctl_inv s"
  then show "foldl watch_upd (Some (watch_of s)) (snd (ctl_step s e)) = Some (watch_of (fst (ctl_step s e)))"
    by (cases e) (simp_all add: watch_submit watch_tick watch_written)
qed

section \<open>Properties\<close>

text \<open>
  C1. For every sequence of submits, ticks and write completions, whatever the session and the
  transport answer: a command is accepted only while none runs and no write is out; the frames handed to the transport
  are the frames of the accepted plan, in order, one at a time, each allowed by the write allow-list, the next only after
  the previous one completed; every accepted command ends with exactly one outcome for its own callback; success is
  reported only when every frame of the command itself (not of the configuration pull) was written and acknowledged; a write
  the unit refused ends the command as failed; a lost link is reported as unconfirmed exactly when a command frame had gone out, and as failed otherwise.
\<close>

theorem control_sequencer_contract:
  "foldl watch_upd (Some (watch_idle False)) (snd (run ctl_step (cali_ctl_run_init now) cs)) =
     Some (watch_of (fst (run ctl_step (cali_ctl_run_init now) cs)))"
  using sequencer_watch.track_run [of now cs] by (simp add: watch_of_def cali_ctl_run_init_def)

text \<open>
  C11. No command runs for ever: in every state the sequencer can reach, a tick at least 6 s
  after the submit leaves no command running, whatever the link and the transport do.
\<close>

theorem control_command_deadline:
  assumes "unat (r_submitted_at (fst (run ctl_step (cali_ctl_run_init t0) cs))) + 6000 \<le> unat now"
  shows "\<not> r_active (fst (cali_ctl_tick se wr now (fst (run ctl_step (cali_ctl_run_init t0) cs))))"
proof -
  let ?s = "fst (run ctl_step (cali_ctl_run_init t0) cs)"
  have inv: "ctl_inv ?s" by (rule sequencer.inv_run)
  have "unat now < 2 ^ 64" using unsigned_less [of now] by simp
  then have le: "r_submitted_at ?s + 4000 \<le> now" "r_submitted_at ?s + 6000 \<le> now"
    using assms by (simp_all add: word_le_nat_alt unat_word_ariths)
  show ?thesis
  proof (cases "r_active ?s")
    case True
    then have "r_deadline ?s \<le> now" using inv le by (auto simp: ctl_inv_def)
    then show ?thesis by (simp add: cali_ctl_tick_def ctl_finish_def Let_def)
  qed (simp add: cali_ctl_tick_def ctl_finish_def Let_def)
qed

text \<open>A session with an armed link and one camping frame, and a command on it.\<close>

definition demo_session :: ctl_session where
  "demo_session = \<lparr>se_link_up = True, se_ready = True, se_frame_live = (\<lambda>i. if i = 1 then Some [0x55] else None), se_light_cfg = []\<rparr>"

definition demo_cmd :: ctl_cmd where
  "demo_cmd = \<lparr>c_fn = ''campingmode'', c_what = ''master'', c_value = ''on'', c_local_now = -1, c_done = Some 7, c_src = Some ''web''\<rparr>"

lemma demo_submit:
  "(let s = fst (run ctl_step (cali_ctl_run_init 50) [Call_submit demo_session demo_cmd]) in r_active s \<and> r_submitted_at s = 50)"
  by code_simp

theorem control_command_deadline_witness:
  "(let s = fst (run ctl_step (cali_ctl_run_init 50) [Call_submit demo_session demo_cmd])
    in r_active s \<and> \<not> r_active (fst (cali_ctl_tick demo_session Wr_started 7000 s)))"
  using control_command_deadline [of 50 "[Call_submit demo_session demo_cmd]" 7000 demo_session Wr_started] demo_submit
  by (simp add: Let_def)

text \<open>
  The frame after an acknowledged one goes out no earlier than its delay allows: when a completed
  write leaves the command running with a next frame that has a delay, a tick before that delay plus one tick period has
  passed since the completion hands nothing to the transport.
\<close>

theorem control_commit_gap:
  assumes "r_inflight s" and "r_active s" and "Suc (r_i s) < length (pl_f (r_plan s))"
    and "fr_delay_ms (pl_f (r_plan s) ! Suc (r_i s)) \<noteq> 0" and "r_pull s \<noteq> 2"
    and "now < r_now s + ucast (fr_delay_ms (pl_f (r_plan s) ! Suc (r_i s))) + CALI_CTL_TICK_MS"
  shows "list_all (\<lambda>e. \<forall>chr data. e \<noteq> E_write chr data) (snd (cali_ctl_tick se wr now (fst (cali_ctl_on_written 0 s))))"
  using assms
  by (simp add: cali_ctl_on_written_def cali_ctl_tick_def ctl_send_def ctl_finish_def cmd_evt_def Let_def)

definition demo_gap :: ctl_run where
  "demo_gap = (cali_ctl_run_init 1000)\<lparr>r_active := True, r_inflight := True, r_plan := cali_ctl_pull_plan, r_deadline := 5000\<rparr>"

theorem control_commit_gap_witness:
  "list_all (\<lambda>e. \<forall>chr data. e \<noteq> E_write chr data) (snd (cali_ctl_tick demo_session Wr_started 1399 (fst (cali_ctl_on_written 0 demo_gap)))) \<and>
   snd (cali_ctl_tick demo_session Wr_started 1400 (fst (cali_ctl_on_written 0 demo_gap))) = [E_write 0x1501 CALI_LIGHT_COMMIT]"
proof
  have h: "r_inflight demo_gap" "r_active demo_gap" "Suc (r_i demo_gap) < length (pl_f (r_plan demo_gap))"
    "fr_delay_ms (pl_f (r_plan demo_gap) ! Suc (r_i demo_gap)) \<noteq> 0" "r_pull demo_gap \<noteq> 2"
    "1399 < r_now demo_gap + ucast (fr_delay_ms (pl_f (r_plan demo_gap) ! Suc (r_i demo_gap))) + CALI_CTL_TICK_MS"
    by code_simp+
  show "list_all (\<lambda>e. \<forall>chr data. e \<noteq> E_write chr data)
      (snd (cali_ctl_tick demo_session Wr_started 1399 (fst (cali_ctl_on_written 0 demo_gap))))"
    by (rule control_commit_gap [OF h])
  show "snd (cali_ctl_tick demo_session Wr_started 1400 (fst (cali_ctl_on_written 0 demo_gap))) = [E_write 0x1501 CALI_LIGHT_COMMIT]"
    by code_simp
qed

end
