(* ===== verification/Thermostat.thy ===== *)
theory Thermostat
  imports Prelude
begin

text \<open>
  The cabin thermostat decision of \<^verbatim>\<open>cali_core/thermostat.c\<close>. The structs of
  \<^verbatim>\<open>include/cali_thermostat.h\<close> are records with the code's integers; \<open>NONE\<close> and \<open>NONE_MS\<close> are the sentinels
  of the code. The static reason, command and result texts are datatypes named after them. The step is the
  sequence of the code's numbered rules; a rule either returns (\<open>Inl\<close>, the code's \<open>RET\<close>) or goes on
  (\<open>Inr\<close>). Times and products are unbounded integers (\<open>int64_t\<close> in the code); the narrowing conversions to
  \<open>int32_t\<close> are written out.
\<close>

definition NONE :: int where "NONE = -2147483648"
definition NONE_MS :: int where "NONE_MS = -9223372036854775808"

definition to_i32 :: "int \<Rightarrow> int" where "to_i32 x = signed_take_bit 31 x"

record cali_thermo_cfg =
  period_ms :: int
  kp :: int
  ki :: int
  ka :: int
  u_out_max :: int
  hyst :: int
  min_dwell_ms :: int
  band_hi :: int
  hot_hold_ms :: int
  overheat :: int
  min_level :: int
  stale_after_ms :: int
  heater_stale_ms :: int
  batt_min_dv :: int
  batt_hold_ms :: int
  verify_ms :: int
  cfg_runtime_min :: int
  night_wait_ms :: int
  night_confirm_ms :: int

definition CALI_THERMO_DEFAULTS :: cali_thermo_cfg where
  "CALI_THERMO_DEFAULTS =
     \<lparr>period_ms = 60000, kp = 1500, ki = 50, ka = 100, u_out_max = 3000, hyst = 500, min_dwell_ms = 300000, band_hi = 200,
      hot_hold_ms = 900000, overheat = 400, min_level = 1, stale_after_ms = 600000, heater_stale_ms = 180000, batt_min_dv = 119,
      batt_hold_ms = 300000, verify_ms = 10000, cfg_runtime_min = 120, night_wait_ms = 300000, night_confirm_ms = 30000\<rparr>"

datatype thermo_heater = H_OFF | H_RUNNING | H_CONTINUOUS | H_TIMER_ARMED | H_FAULT | H_LOCKED | H_BLOCKED | H_UNKNOWN

datatype thermo_mode = TH_OFF | TH_AUTO | TH_DEGRADED | TH_STOPPING | TH_WAITING

datatype thermo_req = REQ_NONE | REQ_AUTO | REQ_OFF

datatype thermo_what = RUNTIME | LEVEL | POWER | PERMANENT

datatype cmd_res = RES_OK | RES_REFUSED | RES_BUSY | RES_NOT_READY | RES_OTHER

datatype thermo_reason = R_OVERHEAT | R_TARGET_EXCEEDED_AT_MIN_LEVEL | R_LEVEL_UP | R_LEVEL_DOWN | R_HOLD
  | R_FAULT int | R_LOCKED | R_HEATER_UNKNOWN | R_START_NOT_CONFIRMED | R_NOT_APPLIED | R_CONTINUOUS_ENDED | R_RUN_ENDED
  | R_FOREIGN_CHANGE | R_STOP_DROPPED | R_STOPPING | R_AUTO_ON | R_USER_OFF | R_DISABLED | R_BATTERY_LOW
  | R_NIGHT_WAIT_ENDED | R_WAITING_FOR_CONTINUOUS | R_ADOPT_CONTINUOUS | R_ADOPT_RUN | R_START | R_BACKUP_SELECTED
  | R_REFERENCE_SELECTED | R_REFERENCE_LOST | R_HOLD_AT_MIN_LEVEL | R_OUTSIDE_INACTIVE
  | R_REFUSED_DISABLED | R_REFUSED_NO_LINK | R_REFUSED_STALE_HEATER | R_REFUSED_NOT_INSTALLED | R_REFUSED_FAULT
  | R_REFUSED_TIMER_ARMED | R_REFUSED_NO_CAMPING | R_REFUSED_IGNITION | R_REFUSED_NO_REFERENCE | R_REFUSED_WARM

datatype thermo_block = B_NOT_INSTALLED | B_FAULT | B_TIMER_ARMED | B_NO_CAMPING | B_IGNITION | B_NO_REFERENCE

record cali_thermo_heater =
  ht_installed :: int
  ht_level :: int
  ht_error_code :: int
  ht_fault_trigger :: int
  ht_permanent :: int
  ht_normal :: int
  ht_op_mode :: int

record cali_thermo_sensor =
  sn_present :: bool
  sn_alias :: string
  sn_value :: int
  sn_age_ms :: int

record cali_thermo_in =
  now_ms :: int
  enabled :: bool
  request :: thermo_req
  target :: int
  runtime_min :: int
  ref :: cali_thermo_sensor
  backup :: cali_thermo_sensor
  outside :: cali_thermo_sensor
  outside_on :: bool
  heater :: "cali_thermo_heater option"
  heater_age_ms :: int
  link_ready :: bool
  camping_on :: bool
  shore_on :: bool
  ignition_on :: int
  batt2_dv :: int
  cmd_what :: "thermo_what option"
  cmd_result :: "cmd_res option"
  night :: bool
  known_camping_on :: int
  known_shore_on :: int
  known_ignition_on :: int

record cali_thermo_ctl =
  ct_i :: int
  ct_last_change_ms :: int
  ct_hot_since_ms :: int
  ct_u :: int
  ct_u_out :: int

record cali_thermo_snap =
  sp_normal :: bool
  sp_permanent :: bool
  sp_level :: int

record cali_thermo_pending =
  pd_what :: thermo_what
  pd_value :: int
  pd_since_ms :: int
  pd_tries :: int
  pd_first_ms :: int
  pd_before :: int
  pd_why :: "thermo_reason option"

record cali_thermo_state =
  th_mode :: thermo_mode
  th_active :: bool
  th_ctl :: cali_thermo_ctl
  th_has_pending :: bool
  th_pending :: cali_thermo_pending
  th_has_expect :: bool
  th_expect :: cali_thermo_snap
  th_batt_low_since_ms :: int
  th_has_stop_snapshot :: bool
  th_stop_snapshot :: cali_thermo_snap
  th_stop_why :: "thermo_reason option"
  th_last_ctl_ms :: int
  th_night :: bool
  th_wait_until_ms :: int
  th_cont_since_ms :: int

record cali_thermo_cmd =
  cm_what :: thermo_what
  cm_value :: int

record cali_thermo_status =
  ss_heater :: thermo_heater
  ss_t_ref :: int
  ss_t_out :: int
  ss_target :: int
  ss_level :: int
  ss_active_alias :: string
  ss_outside_active :: bool
  ss_end_run :: bool
  ss_blocked :: "thermo_block option"
  ss_wait_left_s :: int
  ss_night :: bool

record cali_thermo_out =
  ot_cmds :: "cali_thermo_cmd list"
  ot_reason :: "thermo_reason option"
  ot_mode :: thermo_mode
  ot_status :: cali_thermo_status

section \<open>Helpers\<close>

definition rdiv :: "int \<Rightarrow> int \<Rightarrow> int" where
  "rdiv a b =
     (let aa = (if a < 0 then - a else a); bb = (if b < 0 then - b else b);
          q = aa div bb; r = aa mod bb;
          q = (if 2 * r \<ge> bb then q + 1 else q)
      in if (a < 0) = (b < 0) then q else - q)"

definition truthy :: "int \<Rightarrow> bool" where
  "truthy v \<longleftrightarrow> v \<noteq> 0 \<and> v \<noteq> NONE"

text \<open>The heater state, its level and its error code.\<close>

definition cali_thermo_heater_state ::
  "cali_thermo_heater option \<Rightarrow> int \<Rightarrow> cali_thermo_cfg \<Rightarrow> thermo_heater \<times> int \<times> int" where
  "cali_thermo_heater_state ho age_ms cfg =
     (case ho of None \<Rightarrow> (H_UNKNOWN, NONE, 0)
      | Some h \<Rightarrow>
          if age_ms = NONE_MS \<or> age_ms > heater_stale_ms cfg then (H_UNKNOWN, NONE, 0)
          else if ht_installed h = 0 then (H_FAULT, NONE, -1)
          else
            let level = (if ht_level h \<noteq> NONE \<and> ht_level h \<ge> 1 \<and> ht_level h \<le> 10 then ht_level h else NONE);
                err = (if ht_error_code h = NONE then 0 else ht_error_code h)
            in if err = 4 then (H_LOCKED, level, err)
               else if err = 5 then (H_BLOCKED, level, err)
               else if err \<noteq> 0 \<or> truthy (ht_fault_trigger h) then (H_FAULT, level, err)
               else if truthy (ht_permanent h) then (H_CONTINUOUS, level, err)
               else if truthy (ht_normal h) then (H_RUNNING, level, err)
               else if ht_op_mode h = 3 then (H_TIMER_ARMED, level, err)
               else (H_OFF, level, err))"

text \<open>The controller: first the new integrator, the demand in milli-levels and the hot timer.\<close>

definition th_demand ::
  "int \<Rightarrow> int \<Rightarrow> int \<Rightarrow> int \<Rightarrow> cali_thermo_ctl \<Rightarrow> cali_thermo_cfg \<Rightarrow> int \<Rightarrow> int \<Rightarrow> cali_thermo_ctl \<times> int" where
  "th_demand t_ref t_out tgt dt_ms ctl cfg cur_level now =
     (let e = tgt - t_ref;
          p = rdiv (kp cfg * e) 100;
          u_out = (if t_out = NONE then NONE
                   else min (max (rdiv (ka cfg * max 0 (tgt - t_out)) 100) 0) (u_out_max cfg));
          prev = ct_u_out ctl;
          ff = (if u_out = NONE then 0 else u_out);
          i = ct_i ctl;
          i = (if cur_level \<noteq> NONE \<and> (prev = NONE) \<noteq> (u_out = NONE) then i + ((if prev = NONE then 0 else prev) - ff) else i);
          u_old = p + i + ff;
          frozen = (dt_ms > 3 * period_ms cfg \<or> u_old < min_level cfg * 1000 \<and> e < 0 \<or> u_old > 10000 \<and> e > 0);
          i = (if \<not> frozen then i + rdiv (ki cfg * e * dt_ms) (100 * 60000) else i);
          u = p + i + ff;
          hot = (cur_level = min_level cfg \<and> t_ref > tgt + band_hi cfg)
      in (ctl\<lparr>ct_i := to_i32 i, ct_u := to_i32 u, ct_u_out := to_i32 u_out,
              ct_hot_since_ms := (if hot then (if ct_hot_since_ms ctl \<noteq> NONE_MS then ct_hot_since_ms ctl else now) else NONE_MS)\<rparr>,
          u))"

text \<open>Then the level (or \<open>NONE\<close>) and the reason.\<close>

definition th_choose ::
  "int \<Rightarrow> int \<Rightarrow> cali_thermo_cfg \<Rightarrow> int \<Rightarrow> int \<Rightarrow> cali_thermo_ctl \<Rightarrow> int \<Rightarrow> cali_thermo_ctl \<times> int \<times> thermo_reason" where
  "th_choose t_ref tgt cfg cur_level now ctl u =
     (let level = min (max (rdiv u 1000) (min_level cfg)) 10;
          dist = \<bar>u - cur_level * 1000\<bar>
      in if t_ref > tgt + overheat cfg then (ctl, NONE, R_OVERHEAT)
         else if ct_hot_since_ms ctl \<noteq> NONE_MS \<and> now - ct_hot_since_ms ctl \<ge> hot_hold_ms cfg
         then (ctl, NONE, R_TARGET_EXCEEDED_AT_MIN_LEVEL)
         else if cur_level = NONE then (ctl, to_i32 level, R_LEVEL_UP)
         else if level = cur_level \<or> dist < 500 + hyst cfg \<or> now - ct_last_change_ms ctl < min_dwell_ms cfg then (ctl, NONE, R_HOLD)
         else (ctl\<lparr>ct_last_change_ms := now\<rparr>, to_i32 level, if level > cur_level then R_LEVEL_UP else R_LEVEL_DOWN))"

definition th_control ::
  "int \<Rightarrow> int \<Rightarrow> int \<Rightarrow> int \<Rightarrow> cali_thermo_ctl \<Rightarrow> cali_thermo_cfg \<Rightarrow> int \<Rightarrow> int \<Rightarrow> cali_thermo_ctl \<times> int \<times> thermo_reason" where
  "th_control t_ref t_out tgt dt_ms ctl cfg cur_level now =
     (let (ctl1, u) = th_demand t_ref t_out tgt dt_ms ctl cfg cur_level now
      in th_choose t_ref tgt cfg cur_level now ctl1 u)"

definition track :: "int \<Rightarrow> int \<Rightarrow> int \<Rightarrow> cali_thermo_cfg \<Rightarrow> cali_thermo_ctl \<Rightarrow> cali_thermo_ctl" where
  "track cur_level t_ref tgt cfg ctl =
     ctl\<lparr>ct_i := to_i32 (cur_level * 1000 - rdiv (kp cfg * (tgt - t_ref)) 100 - (if ct_u_out ctl = NONE then 0 else ct_u_out ctl))\<rparr>"

definition sensor_valid :: "cali_thermo_sensor \<Rightarrow> cali_thermo_cfg \<Rightarrow> bool" where
  "sensor_valid r cfg \<longleftrightarrow> sn_present r \<and> sn_value r \<noteq> NONE \<and> sn_age_ms r \<noteq> NONE_MS \<and> sn_age_ms r \<le> stale_after_ms cfg"

definition same_snap :: "cali_thermo_snap \<Rightarrow> cali_thermo_snap \<Rightarrow> bool" where
  "same_snap a b \<longleftrightarrow> sp_normal a = sp_normal b \<and> sp_permanent a = sp_permanent b \<and>
     (sp_level a = NONE \<or> sp_level b = NONE \<or> sp_level a = sp_level b)"

definition is_off :: "cali_thermo_pending \<Rightarrow> bool" where
  "is_off p \<longleftrightarrow> pd_what p \<noteq> LEVEL \<and> pd_value p = 0"

definition applied :: "cali_thermo_pending \<Rightarrow> cali_thermo_snap \<Rightarrow> bool" where
  "applied p s =
     (if pd_what p = LEVEL then sp_level s = pd_value p
      else if pd_what p = PERMANENT then \<not> sp_permanent s
      else sp_normal s = (pd_value p = 1))"

text \<open>A step under way: the state, the commands so far and the reason kept for the end.\<close>

record th_run =
  rn_st :: cali_thermo_state
  rn_cmds :: "cali_thermo_cmd list"
  rn_reason :: "thermo_reason option"

type_synonym th_flow = "(thermo_reason option \<times> th_run) + th_run"

abbreviation cmd :: "thermo_what \<Rightarrow> int \<Rightarrow> cali_thermo_cmd" where
  "cmd w v \<equiv> \<lparr>cm_what = w, cm_value = v\<rparr>"

definition resend :: "cali_thermo_pending \<Rightarrow> cali_thermo_state \<Rightarrow> cali_thermo_in \<Rightarrow> bool \<Rightarrow> cali_thermo_cmd list" where
  "resend p st i full =
     (if full \<and> pd_what p = POWER \<and> pd_value p = 1
      then [cmd RUNTIME (runtime_min i), cmd LEVEL (sp_level (th_expect st)), cmd POWER 1]
      else [cmd (pd_what p) (pd_value p)])"

definition pend :: "thermo_what \<Rightarrow> int \<Rightarrow> int \<Rightarrow> int \<Rightarrow> thermo_reason option \<Rightarrow> cali_thermo_state \<Rightarrow> cali_thermo_state" where
  "pend what v now before why st =
     st\<lparr>th_has_pending := True, th_pending := \<lparr>pd_what = what, pd_value = v, pd_since_ms = now, pd_tries = 1, pd_first_ms = now,
        pd_before = before, pd_why = why\<rparr>\<rparr>"

definition start_retry_ok :: "cali_thermo_pending \<Rightarrow> cali_thermo_in \<Rightarrow> cali_thermo_cfg \<Rightarrow> bool" where
  "start_retry_ok p i cfg \<longleftrightarrow> now_ms i - pd_first_ms p \<le> heater_stale_ms cfg \<and> enabled i \<and> (camping_on i \<or> shore_on i) \<and>
     ignition_on i = 0 \<and> sensor_valid (ref i) cfg"

definition th_stop :: "bool \<Rightarrow> int \<Rightarrow> thermo_reason option \<Rightarrow> th_run \<Rightarrow> th_run" where
  "th_stop can_send now why r =
     (let st = rn_st r;
          e = (if th_has_expect st then th_expect st else \<lparr>sp_normal = False, sp_permanent = False, sp_level = NONE\<rparr>);
          what = (if sp_permanent e then Some PERMANENT else if sp_normal e then Some POWER else None);
          st1 = st\<lparr>th_has_pending := False, th_mode := TH_OFF\<rparr>
      in case what of None \<Rightarrow> r\<lparr>rn_st := st1, rn_cmds := []\<rparr>
         | Some w \<Rightarrow>
             if can_send then r\<lparr>rn_st := pend w 0 now NONE why st1, rn_cmds := [cmd w 0]\<rparr>
             else r\<lparr>rn_st := st1\<lparr>th_mode := TH_STOPPING, th_has_stop_snapshot := True, th_stop_snapshot := e, th_stop_why := why\<rparr>,
                    rn_cmds := []\<rparr>)"

definition th_end :: "th_run \<Rightarrow> th_run" where
  "th_end r = r\<lparr>rn_st := (rn_st r)\<lparr>th_mode := TH_OFF, th_has_pending := False\<rparr>, rn_cmds := []\<rparr>"

definition fault_reason :: "int \<Rightarrow> thermo_reason" where
  "fault_reason code = (if code = 4 then R_LOCKED else if code \<ge> 1 \<and> code \<le> 15 then R_FAULT code else R_HEATER_UNKNOWN)"

definition takeover ::
  "cali_thermo_snap \<Rightarrow> int \<Rightarrow> int \<Rightarrow> int \<Rightarrow> cali_thermo_in \<Rightarrow> cali_thermo_cfg \<Rightarrow> th_run \<Rightarrow> th_run" where
  "takeover snap level t_ref t_out i cfg r =
     (let now = now_ms i;
          ctl0 = \<lparr>ct_i = 0, ct_last_change_ms = ct_last_change_ms (th_ctl (rn_st r)), ct_hot_since_ms = NONE_MS, ct_u = 0, ct_u_out = 0\<rparr>;
          st1 = (rn_st r)\<lparr>th_has_pending := False, th_has_expect := True, th_expect := snap, th_last_ctl_ms := now, th_ctl := ctl0\<rparr>;
          r1 = r\<lparr>rn_st := st1, rn_cmds := []\<rparr>
      in if t_ref = NONE then r1
         else
           let (ctl1, lvl0, w) = th_control t_ref t_out (target i) 0 ctl0 cfg NONE now;
               st2 = st1\<lparr>th_ctl := ctl1\<rparr>;
               lvl = (if lvl0 = NONE \<or> lvl0 = 0 then min_level cfg else lvl0)
           in if lvl = level \<or> \<not> link_ready i then r1\<lparr>rn_st := st2\<rparr>
              else
                let st3 = pend LEVEL lvl now level None st2
                in r1\<lparr>rn_st := st3\<lparr>th_expect := (th_expect st3)\<lparr>sp_level := lvl\<rparr>, th_ctl := (th_ctl st3)\<lparr>ct_last_change_ms := now\<rparr>\<rparr>,
                      rn_cmds := [cmd LEVEL lvl]\<rparr>)"

definition CALI_THERMO_ETA_MIN_SPAN_MS :: int where "CALI_THERMO_ETA_MIN_SPAN_MS = 360000"
definition CALI_THERMO_ETA_MIN_RATE :: int where "CALI_THERMO_ETA_MIN_RATE = 5"
definition CALI_THERMO_ETA_NEAR :: int where "CALI_THERMO_ETA_NEAR = 50"

definition cali_thermo_eta :: "int \<Rightarrow> int \<Rightarrow> int \<Rightarrow> int \<Rightarrow> int \<times> bool" where
  "cali_thermo_eta span_ms rise gap rem_s =
     (if span_ms < CALI_THERMO_ETA_MIN_SPAN_MS \<or> gap \<le> CALI_THERMO_ETA_NEAR \<or> rise * 60000 < CALI_THERMO_ETA_MIN_RATE * span_ms
      then (NONE, False)
      else let s = to_i32 (rdiv (gap * span_ms) (rise * 1000)) in (s, rem_s \<noteq> NONE \<and> s > rem_s))"

definition cali_thermo_blocked :: "cali_thermo_in \<Rightarrow> cali_thermo_cfg \<Rightarrow> thermo_block option" where
  "cali_thermo_blocked i cfg =
     (let (hs, lvl, code) = cali_thermo_heater_state (heater i) 0 cfg in
      if heater i \<noteq> None \<and> code = -1 then Some B_NOT_INSTALLED
      else if heater i \<noteq> None \<and> (hs = H_FAULT \<or> hs = H_LOCKED \<or> hs = H_BLOCKED) then Some B_FAULT
      else if heater i \<noteq> None \<and> hs = H_TIMER_ARMED then Some B_TIMER_ARMED
      else if \<not> (known_camping_on i > 0 \<or> known_shore_on i > 0) then Some B_NO_CAMPING
      else if known_ignition_on i \<noteq> 0 then Some B_IGNITION
      else if \<not> sensor_valid (ref i) cfg then Some B_NO_REFERENCE
      else None)"

definition refusal :: "cali_thermo_in \<Rightarrow> cali_thermo_cfg \<Rightarrow> thermo_heater \<Rightarrow> int \<Rightarrow> thermo_reason option" where
  "refusal i cfg hs code =
     (if \<not> enabled i then Some R_REFUSED_DISABLED
      else if \<not> link_ready i then Some R_REFUSED_NO_LINK
      else if hs = H_UNKNOWN then Some R_REFUSED_STALE_HEATER
      else if code = -1 then Some R_REFUSED_NOT_INSTALLED
      else if hs = H_FAULT \<or> hs = H_LOCKED \<or> hs = H_BLOCKED then Some R_REFUSED_FAULT
      else if hs = H_TIMER_ARMED then Some R_REFUSED_TIMER_ARMED
      else if \<not> (camping_on i \<or> shore_on i) then Some R_REFUSED_NO_CAMPING
      else if ignition_on i \<noteq> 0 then Some R_REFUSED_IGNITION
      else if \<not> sensor_valid (ref i) cfg then Some R_REFUSED_NO_REFERENCE
      else if \<not> night i \<and> hs = H_OFF \<and> sn_value (ref i) > target i + band_hi cfg then Some R_REFUSED_WARM
      else None)"

text \<open>The aliases' buffers hold at most 16 characters.\<close>

definition finish_step ::
  "cali_thermo_in \<Rightarrow> cali_thermo_cfg \<Rightarrow> thermo_heater \<Rightarrow> int \<Rightarrow> int \<Rightarrow> thermo_reason option \<Rightarrow> th_run \<Rightarrow> cali_thermo_state \<times> cali_thermo_out" where
  "finish_step i cfg hs level t_out why rn =
     (let st0 = rn_st rn;
          r = (if th_active st0 then backup i else ref i);
          st1 = (if th_mode st0 = TH_OFF then st0\<lparr>th_night := False\<rparr> else st0);
          st2 = (if th_mode st1 \<noteq> TH_WAITING then st1\<lparr>th_wait_until_ms := NONE_MS, th_cont_since_ms := NONE_MS\<rparr> else st1);
          status =
            \<lparr>ss_heater = hs, ss_t_ref = (if sensor_valid r cfg then sn_value r else NONE), ss_t_out = t_out, ss_target = target i,
             ss_level = level, ss_active_alias = (if sn_present r then take 16 (sn_alias r) else []),
             ss_outside_active = (t_out \<noteq> NONE), ss_end_run = (hs = H_RUNNING), ss_blocked = cali_thermo_blocked i cfg,
             ss_wait_left_s = (if th_wait_until_ms st2 = NONE_MS then NONE
               else let left = th_wait_until_ms st2 - now_ms i in if left \<le> 0 then 0 else to_i32 ((left + 999) div 1000)),
             ss_night = (if th_mode st2 \<noteq> TH_OFF then th_night st2 else night i)\<rparr>
      in (st2, \<lparr>ot_cmds = rn_cmds rn, ot_reason = why, ot_mode = th_mode st2, ot_status = status\<rparr>))"

text \<open>The zeroed \<open>what\<close> of the pending command is never read while nothing is pending.\<close>

definition cali_thermo_init :: cali_thermo_state where
  "cali_thermo_init =
     \<lparr>th_mode = TH_OFF, th_active = False,
      th_ctl = \<lparr>ct_i = 0, ct_last_change_ms = 0, ct_hot_since_ms = NONE_MS, ct_u = 0, ct_u_out = NONE\<rparr>,
      th_has_pending = False,
      th_pending = \<lparr>pd_what = RUNTIME, pd_value = 0, pd_since_ms = 0, pd_tries = 0, pd_first_ms = 0, pd_before = 0, pd_why = None\<rparr>,
      th_has_expect = False, th_expect = \<lparr>sp_normal = False, sp_permanent = False, sp_level = 0\<rparr>,
      th_batt_low_since_ms = NONE_MS, th_has_stop_snapshot = False,
      th_stop_snapshot = \<lparr>sp_normal = False, sp_permanent = False, sp_level = 0\<rparr>, th_stop_why = None,
      th_last_ctl_ms = NONE_MS, th_night = False, th_wait_until_ms = NONE_MS, th_cont_since_ms = NONE_MS\<rparr>"

section \<open>The rules of a step\<close>

text \<open>What a step derives from its inputs before the first rule.\<close>

record th_ctx =
  cx_hs :: thermo_heater
  cx_level :: int
  cx_code :: int
  cx_has_snap :: bool
  cx_snap :: cali_thermo_snap
  cx_t_out :: int
  cx_faulty :: bool
  cx_heating :: bool
  cx_owner_off :: bool

definition th_context :: "cali_thermo_in \<Rightarrow> cali_thermo_cfg \<Rightarrow> cali_thermo_state \<Rightarrow> th_ctx" where
  "th_context i cfg st =
     (let (hs, level, code) = cali_thermo_heater_state (heater i) (heater_age_ms i) cfg;
          has_snap = (hs \<noteq> H_UNKNOWN);
          snap = (case heater i of
              Some h \<Rightarrow> if has_snap then \<lparr>sp_normal = truthy (ht_normal h), sp_permanent = truthy (ht_permanent h), sp_level = level\<rparr>
                        else \<lparr>sp_normal = False, sp_permanent = False, sp_level = NONE\<rparr>
            | None \<Rightarrow> \<lparr>sp_normal = False, sp_permanent = False, sp_level = NONE\<rparr>)
      in \<lparr>cx_hs = hs, cx_level = level, cx_code = code, cx_has_snap = has_snap, cx_snap = snap,
          cx_t_out = (if outside_on i \<and> sensor_valid (outside i) cfg then sn_value (outside i) else NONE),
          cx_faulty = (hs = H_FAULT \<or> hs = H_LOCKED \<or> hs = H_BLOCKED),
          cx_heating = (hs = H_RUNNING \<or> hs = H_CONTINUOUS),
          cx_owner_off = ((th_mode st = TH_AUTO \<or> th_mode st = TH_DEGRADED) \<and> (request i = REQ_OFF \<or> \<not> enabled i))\<rparr>)"

abbreviation upd_st :: "(cali_thermo_state \<Rightarrow> cali_thermo_state) \<Rightarrow> th_run \<Rightarrow> th_run" where
  "upd_st f r \<equiv> r\<lparr>rn_st := f (rn_st r)\<rparr>"

text \<open>(1) A pending command outside the night wait.\<close>

definition pending_rule :: "cali_thermo_in \<Rightarrow> cali_thermo_cfg \<Rightarrow> th_ctx \<Rightarrow> th_run \<Rightarrow> th_flow" where
  "pending_rule i cfg cx r =
     (let st = rn_st r; p = th_pending st; e = th_expect st; snap = cx_snap cx; now = now_ms i; res = cmd_result i;
          start = (pd_what p = POWER \<and> pd_value p = 1);
          post = (cx_has_snap cx \<and> now - heater_age_ms i \<ge> pd_since_ms p);
          fail = Some (if start then R_START_NOT_CONFIRMED else R_NOT_APPLIED);
          moved = (pd_what p = LEVEL \<and> cx_has_snap cx \<and> post \<and> \<not> cx_faulty cx \<and>
            (cx_level cx \<noteq> NONE \<and> cx_level cx \<noteq> pd_value p \<and> cx_level cx \<noteq> pd_before p \<or>
             sp_normal snap \<noteq> sp_normal e \<or> sp_permanent snap \<noteq> sp_permanent e))
      in if moved then
           Inl (Some (if \<not> sp_normal snap \<and> \<not> sp_permanent snap
                      then (if sp_permanent e then R_CONTINUOUS_ENDED else R_RUN_ENDED) else R_FOREIGN_CHANGE), th_end r)
         else if cx_has_snap cx \<and> post \<and> applied p snap then
           Inr (upd_st (\<lambda>s. s\<lparr>th_has_pending := False, th_has_expect := True, th_expect := snap\<rparr>) r)
         else if cx_faulty cx then Inr r
         else if pd_what p = LEVEL \<and> res = Some RES_REFUSED \<and> cx_owner_off cx then Inr r
         else if res = Some RES_REFUSED then
           let r1 = upd_st (\<lambda>s. s\<lparr>th_has_pending := False\<rparr>) r in Inl (fail, if \<not> is_off p then th_end r1 else r1)
         else if (res = Some RES_BUSY \<or> res = Some RES_NOT_READY) \<and> link_ready i then
           if start \<and> \<not> start_retry_ok p i cfg then Inl (fail, th_end r)
           else Inr (upd_st (\<lambda>s. s\<lparr>th_pending := p\<lparr>pd_since_ms := now\<rparr>\<rparr>) r\<lparr>rn_cmds := resend p st i (cmd_what i \<noteq> Some POWER)\<rparr>)
         else if cx_has_snap cx \<and> post \<and> link_ready i \<and> now - pd_since_ms p \<ge> verify_ms cfg then
           if is_off p \<and> \<not> same_snap snap e then Inl (Some R_STOP_DROPPED, upd_st (\<lambda>s. s\<lparr>th_has_pending := False\<rparr>) r)
           else if pd_tries p \<ge> 2 \<or> start \<and> \<not> start_retry_ok p i cfg then
             if \<not> (pd_what p = LEVEL \<and> cx_owner_off cx)
             then Inl (fail, upd_st (\<lambda>s. s\<lparr>th_has_pending := False\<rparr>) (if \<not> is_off p then th_end r else r))
             else Inr r
           else Inr (upd_st (\<lambda>s. s\<lparr>th_pending := p\<lparr>pd_since_ms := now, pd_tries := 2\<rparr>\<rparr>) r\<lparr>rn_cmds := resend p st i False\<rparr>)
         else Inr r)"

definition rule1 :: "cali_thermo_in \<Rightarrow> cali_thermo_cfg \<Rightarrow> th_ctx \<Rightarrow> th_run \<Rightarrow> th_flow" where
  "rule1 i cfg cx r =
     (let st = rn_st r; p = th_pending st; now = now_ms i in
      if th_has_pending st \<and> th_mode st = TH_WAITING then
        let post = (cx_has_snap cx \<and> now - heater_age_ms i \<ge> pd_since_ms p) in
        if post \<and> applied p (cx_snap cx) \<or> (cmd_result i \<noteq> None \<and> cmd_result i \<noteq> Some RES_OK) \<or> now - pd_since_ms p \<ge> verify_ms cfg
        then Inr (upd_st (\<lambda>s. s\<lparr>th_has_pending := False\<rparr>) r) else Inr r
      else if th_has_pending st then
        (case pending_rule i cfg cx r of Inl x \<Rightarrow> Inl x
         | Inr r' \<Rightarrow> Inr (if rn_cmds r' \<noteq> [] then r'\<lparr>rn_reason := Some (if is_off p then R_STOPPING else R_AUTO_ON)\<rparr> else r'))
      else Inr r)"

text \<open>(W) The night wait.\<close>

definition ruleW :: "cali_thermo_in \<Rightarrow> cali_thermo_cfg \<Rightarrow> th_ctx \<Rightarrow> th_run \<Rightarrow> th_flow" where
  "ruleW i cfg cx r0 =
     (if th_mode (rn_st r0) \<noteq> TH_WAITING then Inr r0
      else
        let now = now_ms i;
            r = (if cx_has_snap cx then upd_st (\<lambda>s. s\<lparr>th_has_expect := True, th_expect := cx_snap cx\<rparr>) r0 else r0);
            st = rn_st r
        in if request i = REQ_OFF \<or> \<not> enabled i then
             let why = (if enabled i then R_USER_OFF else R_DISABLED); r1 = th_stop (link_ready i \<and> cx_has_snap cx) now (Some why) r
             in Inl (Some (if th_mode (rn_st r1) = TH_STOPPING then R_STOPPING else why), r1)
           else if cx_faulty cx then Inl (Some (if cx_code cx = 1 then R_BATTERY_LOW else fault_reason (cx_code cx)), th_end r)
           else if cx_hs cx \<noteq> H_CONTINUOUS then
             let r1 = upd_st (\<lambda>s. s\<lparr>th_cont_since_ms := NONE_MS\<rparr>) r in
             if now \<ge> th_wait_until_ms st then Inl (Some R_NIGHT_WAIT_ENDED, th_end r1) else Inl (Some R_WAITING_FOR_CONTINUOUS, r1)
           else if th_cont_since_ms st = NONE_MS \<and> now \<ge> th_wait_until_ms st then Inl (Some R_NIGHT_WAIT_ENDED, th_end r)
           else
             let r1 = (if th_cont_since_ms st = NONE_MS then upd_st (\<lambda>s. s\<lparr>th_cont_since_ms := now\<rparr>) r else r) in
             if now - heater_age_ms i - th_cont_since_ms (rn_st r1) < night_confirm_ms cfg then Inl (Some R_WAITING_FOR_CONTINUOUS, r1)
             else Inl (Some R_ADOPT_CONTINUOUS,
               takeover (cx_snap cx) (cx_level cx) (if sensor_valid (ref i) cfg then sn_value (ref i) else NONE) (cx_t_out cx) i cfg
                 (upd_st (\<lambda>s. s\<lparr>th_mode := TH_AUTO\<rparr>) r1)))"

text \<open>(2) An accepted AUTO request from outside AUTO.\<close>

definition auto_entry :: "cali_thermo_in \<Rightarrow> cali_thermo_cfg \<Rightarrow> th_ctx \<Rightarrow> th_run \<Rightarrow> thermo_reason option \<times> th_run" where
  "auto_entry i cfg cx r0 =
     (let now = now_ms i; t_ref = sn_value (ref i);
          r = (if th_has_pending (rn_st r0) then r0\<lparr>rn_cmds := []\<rparr> else r0);
          st1 = (rn_st r)\<lparr>th_mode := TH_AUTO, th_active := False, th_has_pending := False, th_batt_low_since_ms := NONE_MS,
                 th_has_stop_snapshot := False, th_last_ctl_ms := now, th_night := night i\<rparr>
      in if night i \<and> cx_hs cx \<noteq> H_CONTINUOUS then
           let r1 = r\<lparr>rn_st := st1\<lparr>th_mode := TH_WAITING, th_wait_until_ms := now + night_wait_ms cfg, th_cont_since_ms := NONE_MS,
                 th_has_expect := True, th_expect := cx_snap cx\<rparr>\<rparr>
           in (Some R_WAITING_FOR_CONTINUOUS,
               if cx_hs cx = H_OFF then takeover (cx_snap cx) (cx_level cx) t_ref (cx_t_out cx) i cfg r1 else r1)
         else if cx_hs cx = H_OFF then
           let ctl0 = \<lparr>ct_i = 0, ct_last_change_ms = now, ct_hot_since_ms = NONE_MS, ct_u = 0, ct_u_out = 0\<rparr>;
               (ctl1, lvl0, w) = th_control t_ref (cx_t_out cx) (target i) 0 ctl0 cfg NONE now;
               lvl = (if lvl0 = NONE \<or> lvl0 = 0 then min_level cfg else lvl0);
               st2 = pend POWER 1 now NONE None (st1\<lparr>th_ctl := ctl1\<rparr>)
           in (Some R_START,
               r\<lparr>rn_st := st2\<lparr>th_has_expect := True, th_expect := \<lparr>sp_normal = True, sp_permanent = False, sp_level = lvl\<rparr>\<rparr>,
                 rn_cmds := [cmd RUNTIME (runtime_min i), cmd LEVEL lvl, cmd POWER 1]\<rparr>)
         else (Some (if cx_hs cx = H_CONTINUOUS then R_ADOPT_CONTINUOUS else R_ADOPT_RUN),
               takeover (cx_snap cx) (cx_level cx) t_ref (cx_t_out cx) i cfg (r\<lparr>rn_st := st1\<rparr>)))"

text \<open>(2) The owner's request, and STOPPING; \<open>on\<close> is the mode before it.\<close>

definition rule2 :: "cali_thermo_in \<Rightarrow> cali_thermo_cfg \<Rightarrow> th_ctx \<Rightarrow> th_run \<Rightarrow> th_flow" where
  "rule2 i cfg cx r =
     (let st = rn_st r; now = now_ms i;
          on = (th_mode st = TH_AUTO \<or> th_mode st = TH_DEGRADED);
          req = (if on \<and> \<not> enabled i then REQ_OFF else request i)
      in if req = REQ_OFF \<and> on then
           let r1 = th_stop (link_ready i \<and> cx_has_snap cx) now (Some (if enabled i then R_USER_OFF else R_DISABLED)) r
           in Inl (Some (if th_mode (rn_st r1) = TH_STOPPING then R_STOPPING else R_USER_OFF), r1)
         else
           let held = (if th_has_pending st then pd_why (th_pending st) else if th_mode st = TH_STOPPING then th_stop_why st else None);
               ignore = (req = REQ_AUTO \<and> \<not> on \<and> held \<noteq> None \<and> held \<noteq> Some R_USER_OFF);
               req1 = (if ignore then REQ_NONE else req);
               r1 = (if ignore then r\<lparr>rn_reason := Some R_STOPPING\<rparr> else r)
           in if req1 = REQ_AUTO \<and> \<not> on then
                (case refusal i cfg (cx_hs cx) (cx_code cx) of Some why \<Rightarrow> Inl (Some why, r1) | None \<Rightarrow> Inl (auto_entry i cfg cx r1))
              else
                Inr (if req1 = REQ_AUTO \<and> on \<and> th_active st \<and> sensor_valid (ref i) cfg then
                       upd_st (\<lambda>s. s\<lparr>th_active := False,
                         th_ctl := (if cx_level cx \<noteq> NONE then track (cx_level cx) (sn_value (ref i)) (target i) cfg (th_ctl s) else th_ctl s)\<rparr>) r1
                     else r1))"

definition rule_stopping :: "cali_thermo_in \<Rightarrow> th_ctx \<Rightarrow> th_run \<Rightarrow> th_flow" where
  "rule_stopping i cx r =
     (let st = rn_st r; snap0 = th_stop_snapshot st in
      if th_mode st = TH_STOPPING then
        if \<not> link_ready i \<or> \<not> cx_has_snap cx then Inl (Some R_STOPPING, r)
        else
          let r1 = upd_st (\<lambda>s. s\<lparr>th_mode := TH_OFF, th_has_stop_snapshot := False\<rparr>) r in
          if \<not> cx_heating cx then Inl (Some (if sp_permanent snap0 then R_CONTINUOUS_ENDED else R_RUN_ENDED), r1)
          else if \<not> same_snap (cx_snap cx) snap0 then Inl (Some R_STOP_DROPPED, r1)
          else Inl (Some R_STOPPING, th_stop True (now_ms i) (th_stop_why st)
                 (upd_st (\<lambda>s. s\<lparr>th_has_expect := True, th_expect := snap0\<rparr>) r1))
      else if \<not> (th_mode st = TH_AUTO \<or> th_mode st = TH_DEGRADED) then Inl (rn_reason r, r)
      else Inr r)"

text \<open>(3) Faults, (4) a foreign change, (5) the second battery, (6) the end of the run.\<close>

definition rule3to6 :: "cali_thermo_in \<Rightarrow> cali_thermo_cfg \<Rightarrow> th_ctx \<Rightarrow> th_run \<Rightarrow> th_flow" where
  "rule3to6 i cfg cx r =
     (let now = now_ms i; st = rn_st r in
      if cx_faulty cx \<and> cx_code cx = 1 then Inl (Some R_BATTERY_LOW, th_stop (link_ready i) now (Some R_BATTERY_LOW) r)
      else if cx_faulty cx then Inl (Some (fault_reason (cx_code cx)), th_end r)
      else if \<not> cx_has_snap cx then Inl (Some R_HEATER_UNKNOWN, r\<lparr>rn_cmds := []\<rparr>)
      else if \<not> th_has_pending st \<and> cx_heating cx \<and> \<not> same_snap (cx_snap cx) (th_expect st) then Inl (Some R_FOREIGN_CHANGE, th_end r)
      else
        let r4 = (if \<not> th_has_pending st \<and> cx_heating cx \<and> sp_level (th_expect st) = NONE
                  then upd_st (\<lambda>s. s\<lparr>th_expect := (th_expect s)\<lparr>sp_level := cx_level cx\<rparr>\<rparr>) r else r);
            low = (batt2_dv i \<noteq> NONE \<and> batt2_dv i < batt_min_dv cfg);
            r5 = upd_st (\<lambda>s. s\<lparr>th_batt_low_since_ms :=
                   (if low then (if th_batt_low_since_ms s = NONE_MS then now else th_batt_low_since_ms s) else NONE_MS)\<rparr>) r4
        in if low \<and> now - th_batt_low_since_ms (rn_st r5) \<ge> batt_hold_ms cfg then
             Inl (Some R_BATTERY_LOW, th_stop (link_ready i) now (Some R_BATTERY_LOW) r5)
           else if \<not> th_has_pending st \<and> \<not> cx_heating cx then
             Inl (Some (if sp_permanent (th_expect st) then R_CONTINUOUS_ENDED else R_RUN_ENDED), th_end r5)
           else Inr r5)"

text \<open>The code that sends a level: the command, the pending record, the expected level and the dwell.\<close>

definition send_level :: "int \<Rightarrow> int \<Rightarrow> int \<Rightarrow> th_run \<Rightarrow> th_run" where
  "send_level lvl now before r =
     (let st = pend LEVEL lvl now before None (rn_st r)
      in r\<lparr>rn_cmds := [cmd LEVEL lvl],
           rn_st := st\<lparr>th_expect := (th_expect st)\<lparr>sp_level := lvl\<rparr>, th_ctl := (th_ctl st)\<lparr>ct_last_change_ms := now\<rparr>\<rparr>\<rparr>)"

text \<open>Switching to another thermometer: the integrator follows the level.\<close>

definition select_sensor :: "bool \<Rightarrow> cali_thermo_sensor \<Rightarrow> cali_thermo_in \<Rightarrow> cali_thermo_cfg \<Rightarrow> th_ctx \<Rightarrow> th_run \<Rightarrow> th_run" where
  "select_sensor act sn i cfg cx r =
     upd_st (\<lambda>s. s\<lparr>th_active := act, th_mode := TH_AUTO, th_last_ctl_ms := now_ms i,
       th_ctl := (if cx_level cx \<noteq> NONE then track (cx_level cx) (sn_value sn) (target i) cfg (th_ctl s) else th_ctl s)\<rparr>) r"

definition rule7 :: "cali_thermo_in \<Rightarrow> cali_thermo_cfg \<Rightarrow> th_ctx \<Rightarrow> th_run \<Rightarrow> th_flow" where
  "rule7 i cfg cx r =
     (let st = rn_st r; act = (if th_active st then backup i else ref i) in
      if \<not> sensor_valid act cfg then
        if \<not> th_active st \<and> sensor_valid (backup i) cfg then Inl (Some R_BACKUP_SELECTED, select_sensor True (backup i) i cfg cx r)
        else if th_active st \<and> sensor_valid (ref i) cfg then Inl (Some R_REFERENCE_SELECTED, select_sensor False (ref i) i cfg cx r)
        else
          let r1 = upd_st (\<lambda>s. s\<lparr>th_mode := TH_DEGRADED\<rparr>) r in
          Inl (Some R_REFERENCE_LOST,
            if cx_level cx \<noteq> min_level cfg \<and> \<not> th_has_pending st \<and> link_ready i then send_level (min_level cfg) (now_ms i) (cx_level cx) r1
            else r1)
      else if th_mode st = TH_DEGRADED then Inl (Some R_AUTO_ON, select_sensor (th_active st) act i cfg cx r)
      else Inr r)"

definition rule8 :: "cali_thermo_in \<Rightarrow> cali_thermo_cfg \<Rightarrow> th_ctx \<Rightarrow> th_run \<Rightarrow> thermo_reason option \<times> th_run" where
  "rule8 i cfg cx r =
     (let st = rn_st r; now = now_ms i; level = cx_level cx; act = (if th_active st then backup i else ref i) in
      if th_has_pending st \<or> now - th_last_ctl_ms st < period_ms cfg then
        (Some (case rn_reason r of Some w \<Rightarrow> w | None \<Rightarrow> R_AUTO_ON), r)
      else
        let old_change = ct_last_change_ms (th_ctl st);
            (ctl1, lvl, why) = th_control (sn_value act) (cx_t_out cx) (target i) (now - th_last_ctl_ms st) (th_ctl st) cfg level now;
            r1 = upd_st (\<lambda>s. s\<lparr>th_ctl := ctl1, th_last_ctl_ms := now\<rparr>) r;
            over = (why = R_OVERHEAT \<or> why = R_TARGET_EXCEEDED_AT_MIN_LEVEL)
        in if over \<and> cx_hs cx = H_CONTINUOUS then
             (Some R_HOLD_AT_MIN_LEVEL,
              if level \<noteq> min_level cfg \<and> link_ready i then send_level (min_level cfg) now level r1 else r1)
           else if over then (Some why, th_stop (link_ready i) now (Some why) r1)
           else if lvl \<noteq> NONE \<and> lvl \<noteq> level \<and> link_ready i then (Some why, send_level lvl now level r1)
           else (Some (if outside_on i \<and> cx_t_out cx = NONE then R_OUTSIDE_INACTIVE else R_HOLD),
                 upd_st (\<lambda>s. s\<lparr>th_ctl := (th_ctl s)\<lparr>ct_last_change_ms := old_change\<rparr>\<rparr>) r1))"

fun flow_bind :: "th_flow \<Rightarrow> (th_run \<Rightarrow> th_flow) \<Rightarrow> th_flow" where
  "flow_bind (Inl x) f = Inl x"
| "flow_bind (Inr r) f = f r"

definition th_rules :: "cali_thermo_in \<Rightarrow> cali_thermo_cfg \<Rightarrow> th_ctx \<Rightarrow> th_run \<Rightarrow> thermo_reason option \<times> th_run" where
  "th_rules i cfg cx r =
     (case flow_bind (flow_bind (flow_bind (flow_bind (flow_bind (rule1 i cfg cx r) (ruleW i cfg cx)) (rule2 i cfg cx))
         (rule_stopping i cx)) (rule3to6 i cfg cx)) (rule7 i cfg cx) of
        Inl x \<Rightarrow> x
      | Inr r' \<Rightarrow> rule8 i cfg cx r')"

definition cali_thermo_step :: "cali_thermo_in \<Rightarrow> cali_thermo_cfg \<Rightarrow> cali_thermo_state \<Rightarrow> cali_thermo_state \<times> cali_thermo_out" where
  "cali_thermo_step i cfg st =
     (let cx = th_context i cfg st;
          (why, r) = th_rules i cfg cx \<lparr>rn_st = st, rn_cmds = [], rn_reason = None\<rparr>
      in finish_step i cfg (cx_hs cx) (cx_level cx) (cx_t_out cx) why r)"

end
