(* ===== verification/Thermostat_Safety.thy ===== *)
theory Thermostat_Safety
  imports Thermostat
begin

text \<open>
  Safety of the thermostat step: which commands it can send and when it stops. The invariant of the session
  state is kept by every rule; the lemmas follow the rules in the order of the code.
\<close>

section \<open>Which commands a step can send\<close>

text \<open>\<open>lo\<close> is a lower bound of the minimum level; it stays the same when the setting changes between two steps.\<close>

definition level_ok :: "int \<Rightarrow> cali_thermo_cfg \<Rightarrow> int \<Rightarrow> bool" where
  "level_ok lo cfg v \<longleftrightarrow> (1 \<le> lo \<and> lo \<le> min_level cfg \<and> min_level cfg \<le> 10 \<longrightarrow> lo \<le> v \<and> v \<le> 10)"

text \<open>The entry conditions under which the heater may be switched on.\<close>

definition may_start :: "cali_thermo_in \<Rightarrow> cali_thermo_cfg \<Rightarrow> bool" where
  "may_start i cfg \<longleftrightarrow> enabled i \<and> link_ready i \<and> (camping_on i \<or> shore_on i) \<and> ignition_on i = 0 \<and> sensor_valid (ref i) cfg"

definition cmd_ok :: "int \<Rightarrow> cali_thermo_in \<Rightarrow> cali_thermo_cfg \<Rightarrow> cali_thermo_cmd \<Rightarrow> bool" where
  "cmd_ok lo i cfg c =
     (case cm_what c of
        RUNTIME \<Rightarrow> cm_value c = runtime_min i
      | LEVEL \<Rightarrow> level_ok lo cfg (cm_value c)
      | POWER \<Rightarrow> cm_value c = 0 \<or> cm_value c = 1 \<and> may_start i cfg
      | PERMANENT \<Rightarrow> cm_value c = 0)"

definition pending_ok :: "int \<Rightarrow> cali_thermo_cfg \<Rightarrow> cali_thermo_state \<Rightarrow> bool" where
  "pending_ok lo cfg st =
     (case pd_what (th_pending st) of
        RUNTIME \<Rightarrow> False
      | LEVEL \<Rightarrow> level_ok lo cfg (pd_value (th_pending st))
      | POWER \<Rightarrow> pd_value (th_pending st) = 0 \<or> pd_value (th_pending st) = 1 \<and> level_ok lo cfg (sp_level (th_expect st))
      | PERMANENT \<Rightarrow> pd_value (th_pending st) = 0)"

definition th_inv :: "int \<Rightarrow> cali_thermo_cfg \<Rightarrow> cali_thermo_state \<Rightarrow> bool" where
  "th_inv lo cfg st \<longleftrightarrow> (th_has_pending st \<longrightarrow> pending_ok lo cfg st \<and> (th_mode st = TH_WAITING \<longrightarrow> pd_what (th_pending st) = LEVEL))"

definition run_ok :: "int \<Rightarrow> cali_thermo_in \<Rightarrow> cali_thermo_cfg \<Rightarrow> th_run \<Rightarrow> bool" where
  "run_ok lo i cfg r \<longleftrightarrow> th_inv lo cfg (rn_st r) \<and> list_all (cmd_ok lo i cfg) (rn_cmds r) \<and> length (rn_cmds r) \<le> 3"








lemma run_ok_no_pending:
  "\<not> th_has_pending st \<Longrightarrow> list_all (cmd_ok lo i cfg) cs \<Longrightarrow> length cs \<le> 3 \<Longrightarrow> run_ok lo i cfg \<lparr>rn_st = st, rn_cmds = cs, rn_reason = w\<rparr>"
  by (simp add: run_ok_def th_inv_def)










section \<open>The rules keep the invariant\<close>























lemma th_inv_cong:
  "th_has_pending s = th_has_pending t \<Longrightarrow> th_pending s = th_pending t \<Longrightarrow> th_expect s = th_expect t \<Longrightarrow> th_mode s = th_mode t \<Longrightarrow>
     th_inv lo cfg s = th_inv lo cfg t"
  by (simp add: th_inv_def pending_ok_def cong: thermo_what.case_cong)

lemma finish_step_simps:
  "ot_cmds (snd (finish_step i cfg hs level t_out why r)) = rn_cmds r"
  "th_inv lo cfg' (fst (finish_step i cfg hs level t_out why r)) = th_inv lo cfg' (rn_st r)"
  "th_mode (fst (finish_step i cfg hs level t_out why r)) = th_mode (rn_st r)"
  "ot_reason (snd (finish_step i cfg hs level t_out why r)) = why"
  by (simp_all add: finish_step_def Let_def) (intro conjI impI th_inv_cong; simp)

section \<open>The session as a machine\<close>





section \<open>How rules 1 and 2 leave a running session\<close>

lemma rule1_faulty:
  assumes "cx_faulty cx" and "rn_cmds r = []"
  shows "\<exists>r'. rule1 i cfg cx r = Inr r' \<and> rn_cmds r' = [] \<and> th_mode (rn_st r') = th_mode (rn_st r)"
  using assms by (auto simp: rule1_def pending_rule_def Let_def)

lemma th_end_simps [simp]:
  "rn_cmds (th_end r) = []" "th_mode (rn_st (th_end r)) = TH_OFF" "th_has_pending (rn_st (th_end r)) = False"
  by (simp_all add: th_end_def)

lemma rules_fault:
  assumes "cx_faulty cx" and "cx_code cx \<noteq> 1" and "enabled i" and "request i \<noteq> REQ_OFF"
    and "rn_cmds r = []" and "th_mode (rn_st r) \<in> {TH_AUTO, TH_DEGRADED, TH_WAITING}"
  shows "\<exists>q. th_rules i cfg cx r = (Some (fault_reason (cx_code cx)), th_end q)"
proof -
  obtain r1 where r1: "rule1 i cfg cx r = Inr r1" "th_mode (rn_st r1) = th_mode (rn_st r)"
    using rule1_faulty [OF assms(1,5), of i cfg] by auto
  show ?thesis
  proof (cases "th_mode (rn_st r) = TH_WAITING")
    case True
    then have "\<exists>q. ruleW i cfg cx r1 = Inl (Some (fault_reason (cx_code cx)), th_end q)"
      using r1(2) assms(1-4) by (auto simp: ruleW_def Let_def)
    then show ?thesis using r1(1) by (auto simp: th_rules_def)
  next
    case False
    then have on: "th_mode (rn_st r1) = TH_AUTO \<or> th_mode (rn_st r1) = TH_DEGRADED" using assms(6) r1(2) by auto
    then have w: "ruleW i cfg cx r1 = Inr r1" by (auto simp: ruleW_def)
    obtain r2 where r2: "rule2 i cfg cx r1 = Inr r2" "th_mode (rn_st r2) = th_mode (rn_st r1)"
      using on assms(3,4) by (cases "request i") (auto simp: rule2_def Let_def)
    have "rule_stopping i cx r2 = Inr r2" using on r2(2) by (auto simp: rule_stopping_def Let_def)
    moreover have "\<exists>q. rule3to6 i cfg cx r2 = Inl (Some (fault_reason (cx_code cx)), th_end q)"
      using assms(1,2) by (auto simp: rule3to6_def Let_def)
    ultimately show ?thesis using r1(1) w r2(1) by (auto simp: th_rules_def)
  qed
qed

definition ends_or_keeps :: "thermo_mode \<Rightarrow> th_flow \<Rightarrow> bool" where
  "ends_or_keeps m fl = (case fl of Inl x \<Rightarrow> th_mode (rn_st (snd x)) = TH_OFF | Inr q \<Rightarrow> th_mode (rn_st q) = m)"

lemma ends_or_keeps_simps [simp]:
  "ends_or_keeps m (Inl (w, q)) = (th_mode (rn_st q) = TH_OFF)" "ends_or_keeps m (Inr q) = (th_mode (rn_st q) = m)"
  by (simp_all add: ends_or_keeps_def)

lemma ends_or_keeps_if: "(b \<Longrightarrow> ends_or_keeps m x) \<Longrightarrow> (\<not> b \<Longrightarrow> ends_or_keeps m y) \<Longrightarrow> ends_or_keeps m (if b then x else y)"
  by simp

lemma th_end_mode [simp]: "th_mode (rn_st (th_end r)) = TH_OFF"
  by (simp add: th_end_def)

lemma pending_rule_owner_off:
  assumes "\<not> is_off (th_pending (rn_st r))"
  shows "ends_or_keeps (th_mode (rn_st r)) (pending_rule i cfg cx r)"
  unfolding pending_rule_def Let_def by (intro ends_or_keeps_if; simp add: assms)

lemma rule1_owner_off:
  assumes "th_has_pending (rn_st r) \<longrightarrow> \<not> is_off (th_pending (rn_st r))"
  shows "ends_or_keeps (th_mode (rn_st r)) (rule1 i cfg cx r)"
  using assms pending_rule_owner_off [of r i cfg cx]
  by (auto simp: rule1_def Let_def ends_or_keeps_def split: sum.split)

lemma th_stop_mode: "th_mode (rn_st (th_stop can now why r)) = TH_OFF \<or> th_mode (rn_st (th_stop can now why r)) = TH_STOPPING"
  by (simp add: th_stop_def pend_def Let_def split: option.split)

lemma th_stop_in: "th_mode (rn_st (th_stop can now why r)) \<in> {TH_OFF, TH_STOPPING}"
  using th_stop_mode by simp

lemma rule2_owner_off:
  assumes on: "th_mode (rn_st q) = TH_AUTO \<or> th_mode (rn_st q) = TH_DEGRADED" and "request i = REQ_OFF \<or> \<not> enabled i"
  shows "\<exists>w x. rule2 i cfg cx q = Inl (w, x) \<and> th_mode (rn_st x) \<in> {TH_OFF, TH_STOPPING}"
proof -
  have req: "(if (th_mode (rn_st q) = TH_AUTO \<or> th_mode (rn_st q) = TH_DEGRADED) \<and> \<not> enabled i then REQ_OFF else request i) = REQ_OFF"
    using assms by auto
  show ?thesis unfolding rule2_def Let_def req using on th_stop_in by (simp only: simp_thms if_True) blast
qed

lemma rules_owner_off:
  assumes "th_mode (rn_st r) \<in> {TH_AUTO, TH_DEGRADED, TH_WAITING}" and "th_has_pending (rn_st r) \<longrightarrow> \<not> is_off (th_pending (rn_st r))"
    and "request i = REQ_OFF \<or> \<not> enabled i"
  shows "th_mode (rn_st (snd (th_rules i cfg cx r))) \<in> {TH_OFF, TH_STOPPING}"
proof (cases "rule1 i cfg cx r")
  case (Inr q)
  then have q: "rule1 i cfg cx r = Inr q" "th_mode (rn_st q) = th_mode (rn_st r)"
    using rule1_owner_off [OF assms(2), of i cfg cx] by simp_all
  show ?thesis
  proof (cases "th_mode (rn_st r) = TH_WAITING")
    case True
    then have "\<exists>w x. ruleW i cfg cx q = Inl (w, x) \<and> th_mode (rn_st x) \<in> {TH_OFF, TH_STOPPING}"
      using q assms(3) th_stop_mode by (auto simp: ruleW_def Let_def split del: if_split)
    then show ?thesis using q(1) by (auto simp: th_rules_def)
  next
    case False
    then have on: "th_mode (rn_st q) = TH_AUTO \<or> th_mode (rn_st q) = TH_DEGRADED" using assms(1) q(2) by auto
    then have w: "ruleW i cfg cx q = Inr q" by (auto simp: ruleW_def)
    show ?thesis using rule2_owner_off [OF on assms(3), of cfg cx] q(1) w by (auto simp: th_rules_def)
  qed
next
  case (Inl x)
  then show ?thesis using rule1_owner_off [OF assms(2), of i cfg cx] by (cases x) (simp add: th_rules_def)
qed

lemma round_half_up:
  fixes x y q r m :: int
  assumes "x = q * y + r" and "0 \<le> r" and "r < y" and "m = (if 2 * r \<ge> y then y * q + y else y * q)"
  shows "2 * \<bar>x - m\<bar> \<le> y \<and> (2 * \<bar>x - m\<bar> = y \<longrightarrow> m > x)"
  using assms by (auto simp: mult.commute)

section \<open>Sample inputs\<close>

definition heater_on :: cali_thermo_heater where
  "heater_on = \<lparr>ht_installed = 1, ht_level = 1, ht_error_code = 0, ht_fault_trigger = 0, ht_permanent = 0, ht_normal = 1, ht_op_mode = 0\<rparr>"

definition heater_off :: cali_thermo_heater where
  "heater_off = \<lparr>ht_installed = 1, ht_level = 3, ht_error_code = 0, ht_fault_trigger = 0, ht_permanent = 0, ht_normal = 0, ht_op_mode = 0\<rparr>"

definition cold_start :: cali_thermo_in where
  "cold_start =
     \<lparr>now_ms = 100000, enabled = True, request = REQ_AUTO, target = 2000, runtime_min = 120,
      ref = \<lparr>sn_present = True, sn_alias = ''cabin'', sn_value = 1500, sn_age_ms = 1000\<rparr>,
      backup = \<lparr>sn_present = False, sn_alias = [], sn_value = NONE, sn_age_ms = NONE_MS\<rparr>,
      outside = \<lparr>sn_present = False, sn_alias = [], sn_value = NONE, sn_age_ms = NONE_MS\<rparr>,
      outside_on = False, heater = Some heater_off, heater_age_ms = 500, link_ready = True, camping_on = True, shore_on = False,
      ignition_on = 0, batt2_dv = 126, cmd_what = None, cmd_result = None, night = False, known_camping_on = 1, known_shore_on = 0,
      known_ignition_on = 0\<rparr>"

section \<open>Properties\<close>



text \<open>
  C17. A heater fault other than the low-battery code always ends the session: from
  AUTO, DEGRADED or WAITING, with a fresh read that shows a fault, a lock or a block and no owner OFF, the
  step sends nothing, goes to OFF with nothing pending and reports the fault.
\<close>

theorem thermo_fault_ends_auto:
  assumes "cx_faulty (th_context i cfg st)" and "cx_code (th_context i cfg st) \<noteq> 1"
    and "enabled i" and "request i \<noteq> REQ_OFF" and "th_mode st \<in> {TH_AUTO, TH_DEGRADED, TH_WAITING}"
  shows "(let (st', out) = cali_thermo_step i cfg st
    in th_mode st' = TH_OFF \<and> ot_mode out = TH_OFF \<and> \<not> th_has_pending st' \<and> ot_cmds out = [] \<and>
       ot_reason out = Some (fault_reason (cx_code (th_context i cfg st))))"
proof -
  obtain q where "th_rules i cfg (th_context i cfg st) \<lparr>rn_st = st, rn_cmds = [], rn_reason = None\<rparr> =
      (Some (fault_reason (cx_code (th_context i cfg st))), th_end q)"
    using rules_fault [OF assms(1-4), of "\<lparr>rn_st = st, rn_cmds = [], rn_reason = None\<rparr>" cfg] assms(5) by auto
  then show ?thesis
    by (simp add: cali_thermo_step_def Let_def finish_step_def th_end_def)
qed

theorem thermo_fault_ends_auto_witness:
  "th_mode (fst (cali_thermo_step (cold_start\<lparr>heater := Some (heater_off\<lparr>ht_error_code := 4\<rparr>), request := REQ_NONE\<rparr>)
     CALI_THERMO_DEFAULTS (cali_thermo_init\<lparr>th_mode := TH_AUTO\<rparr>))) = TH_OFF"
proof -
  let ?i = "cold_start\<lparr>heater := Some (heater_off\<lparr>ht_error_code := 4\<rparr>), request := REQ_NONE\<rparr>"
  let ?s = "cali_thermo_init\<lparr>th_mode := TH_AUTO\<rparr>"
  have "cx_faulty (th_context ?i CALI_THERMO_DEFAULTS ?s)" "cx_code (th_context ?i CALI_THERMO_DEFAULTS ?s) \<noteq> 1"
    by code_simp+
  from thermo_fault_ends_auto [OF this] show ?thesis by (simp add: Let_def split_beta cold_start_def)
qed

text \<open>
  When the active thermometer is more than \<open>overheat\<close> above the target, a due control
  step of a heater in normal operation stops it: with a link the only command is power off, and the session
  leaves AUTO.
\<close>

theorem thermo_overheat_stops:
  assumes "th_mode st = TH_AUTO" and "\<not> th_has_pending st" and "th_has_expect st"
    and "cx_hs (th_context i cfg st) = H_RUNNING" and "same_snap (cx_snap (th_context i cfg st)) (th_expect st)"
    and "sp_normal (th_expect st)" and "\<not> sp_permanent (th_expect st)"
    and "enabled i" and "request i = REQ_NONE" and "link_ready i"
    and "batt2_dv i = NONE \<or> batt2_dv i \<ge> batt_min_dv cfg"
    and "sensor_valid (if th_active st then backup i else ref i) cfg"
    and "now_ms i - th_last_ctl_ms st \<ge> period_ms cfg"
    and "sn_value (if th_active st then backup i else ref i) > target i + overheat cfg"
  shows "(let (st', out) = cali_thermo_step i cfg st
    in ot_cmds out = [cmd POWER 0] \<and> th_mode st' = TH_OFF \<and> ot_reason out = Some R_OVERHEAT)"
proof -
  let ?cx = "th_context i cfg st" let ?r = "\<lparr>rn_st = st, rn_cmds = [], rn_reason = None\<rparr>"
  have cx: "\<not> cx_faulty ?cx" "cx_has_snap ?cx" "cx_heating ?cx"
    using assms(4) by (auto simp: th_context_def Let_def split_beta)
  have r1: "rule1 i cfg ?cx ?r = Inr ?r" using assms(2) by (simp add: rule1_def Let_def)
  have w: "ruleW i cfg ?cx ?r = Inr ?r" using assms(1) by (simp add: ruleW_def)
  have r2: "rule2 i cfg ?cx ?r = Inr ?r" using assms(1,8,9) by (simp add: rule2_def Let_def)
  have s: "rule_stopping i ?cx ?r = Inr ?r" using assms(1) by (simp add: rule_stopping_def Let_def)
  obtain q where q: "rule3to6 i cfg ?cx ?r = Inr q" "rn_cmds q = []" "rn_reason q = None" "th_mode (rn_st q) = TH_AUTO"
    "\<not> th_has_pending (rn_st q)" "th_active (rn_st q) = th_active st" "th_has_expect (rn_st q)" "sp_normal (th_expect (rn_st q))"
    "\<not> sp_permanent (th_expect (rn_st q))" "th_last_ctl_ms (rn_st q) = th_last_ctl_ms st"
    using cx assms by (auto simp: rule3to6_def Let_def)
  have r7: "rule7 i cfg ?cx q = Inr q" using q assms(12) by (simp add: rule7_def Let_def)
  have over: "snd (snd (th_control (sn_value (if th_active st then backup i else ref i)) t_out (target i) dt ctl cfg cur now)) = R_OVERHEAT"
    for t_out dt ctl cur now
    using assms(14) by (simp add: th_control_def th_choose_def split_beta Let_def split del: if_split)
  obtain q' where r8: "rule8 i cfg ?cx q = (Some R_OVERHEAT, q')" "rn_cmds q' = [cmd POWER 0]" "th_mode (rn_st q') = TH_OFF"
    using q assms(4,10,13) over by (simp add: rule8_def Let_def split_beta th_stop_def pend_def split del: if_split)
  have "th_rules i cfg ?cx ?r = (Some R_OVERHEAT, q')" by (simp add: th_rules_def r1 w r2 s q(1) r7 r8(1))
  then show ?thesis using r8 by (simp add: cali_thermo_step_def Let_def split_beta finish_step_simps)
qed

theorem thermo_overheat_stops_witness:
  "ot_cmds (snd (cali_thermo_step
     (cold_start\<lparr>heater := Some heater_on, request := REQ_NONE, ref := \<lparr>sn_present = True, sn_alias = ''cabin'', sn_value = 2500, sn_age_ms = 0\<rparr>\<rparr>)
     CALI_THERMO_DEFAULTS
     (cali_thermo_init\<lparr>th_mode := TH_AUTO, th_has_expect := True, th_expect := \<lparr>sp_normal = True, sp_permanent = False, sp_level = 1\<rparr>,
        th_last_ctl_ms := 0\<rparr>))) = [cmd POWER 0]"
proof -
  let ?i = "cold_start\<lparr>heater := Some heater_on, request := REQ_NONE, ref := \<lparr>sn_present = True, sn_alias = ''cabin'', sn_value = 2500, sn_age_ms = 0\<rparr>\<rparr>"
  let ?s = "cali_thermo_init\<lparr>th_mode := TH_AUTO, th_has_expect := True, th_expect := \<lparr>sp_normal = True, sp_permanent = False, sp_level = 1\<rparr>,
        th_last_ctl_ms := 0\<rparr>"
  have "(let (st', out) = cali_thermo_step ?i CALI_THERMO_DEFAULTS ?s
    in ot_cmds out = [cmd POWER 0] \<and> th_mode st' = TH_OFF \<and> ot_reason out = Some R_OVERHEAT)"
    by (rule thermo_overheat_stops) (code_simp+)
  then show ?thesis by (simp add: split_beta)
qed

text \<open>
  An owner OFF, or the feature switched off, always ends a running session: from
  AUTO, DEGRADED or WAITING, whatever command other than a stop is pending and whatever the heater reports,
  the step leaves the session in OFF or STOPPING.
\<close>

theorem thermo_owner_off_ends:
  assumes "th_mode st \<in> {TH_AUTO, TH_DEGRADED, TH_WAITING}" and "th_has_pending st \<longrightarrow> \<not> is_off (th_pending st)"
    and "request i = REQ_OFF \<or> \<not> enabled i"
  shows "th_mode (fst (cali_thermo_step i cfg st)) \<in> {TH_OFF, TH_STOPPING}"
  using rules_owner_off [of "\<lparr>rn_st = st, rn_cmds = [], rn_reason = None\<rparr>" i cfg "th_context i cfg st"] assms
  by (simp add: cali_thermo_step_def Let_def split_beta finish_step_simps)

theorem thermo_owner_off_ends_witness:
  "th_mode (fst (cali_thermo_step (cold_start\<lparr>request := REQ_OFF\<rparr>) CALI_THERMO_DEFAULTS (cali_thermo_init\<lparr>th_mode := TH_DEGRADED\<rparr>)))
     \<in> {TH_OFF, TH_STOPPING}"
  by (rule thermo_owner_off_ends) (simp_all add: cali_thermo_init_def)

text \<open>
  The controller's division rounds to the nearest integer and halves away from zero: for a
  divisor other than 0 twice the remainder is at most the divisor in size, and an exact half is rounded to the
  result of larger size.
\<close>

theorem rdiv_nearest:
  assumes "b \<noteq> 0"
  shows "2 * \<bar>a - b * rdiv a b\<bar> \<le> \<bar>b\<bar> \<and> (2 * \<bar>a - b * rdiv a b\<bar> = \<bar>b\<bar> \<longrightarrow> \<bar>b * rdiv a b\<bar> > \<bar>a\<bar>)"
proof -
  let ?q = "\<bar>a\<bar> div \<bar>b\<bar>" and ?r = "\<bar>a\<bar> mod \<bar>b\<bar>"
  let ?n = "if 2 * ?r \<ge> \<bar>b\<bar> then ?q + 1 else ?q"
  have eq: "\<bar>a\<bar> = \<bar>b\<bar> * ?q + ?r" by simp
  have r: "0 \<le> ?r" "?r < \<bar>b\<bar>" using assms by simp_all
  have q: "0 \<le> ?q" using assms by (simp add: pos_imp_zdiv_nonneg_iff)
  have rd: "rdiv a b = (if (a < 0) = (b < 0) then ?n else - ?n)"
    by (simp add: rdiv_def Let_def abs_if)
  have m: "\<bar>b * rdiv a b\<bar> = \<bar>b\<bar> * ?n" using q by (simp add: rd abs_mult)
  have d: "\<bar>a - b * rdiv a b\<bar> = \<bar>\<bar>a\<bar> - \<bar>b\<bar> * ?n\<bar>" by (auto simp: rd abs_if)
  have n: "\<bar>b\<bar> * ?n = (if 2 * ?r \<ge> \<bar>b\<bar> then \<bar>b\<bar> * ?q + \<bar>b\<bar> else \<bar>b\<bar> * ?q)" by (simp add: algebra_simps)
  show ?thesis unfolding m d by (rule round_half_up [OF eq [unfolded mult.commute [of _ ?q]] r n])
qed

theorem rdiv_nearest_witness: "rdiv 7500 1000 = 8 \<and> 2 * \<bar>7500 - 1000 * rdiv 7500 1000\<bar> \<le> \<bar>1000\<bar>"
  using rdiv_nearest [of 1000 7500] by (simp add: rdiv_def)

end
