(* ===== verification/Json.thy ===== *)
theory Json
  imports Prelude
begin

text \<open>
  The bounded JSON writer, \<open>json.c\<close>. The buffer is the caller's memory of \<open>cap\<close> bytes, NUL-terminated at \<open>pos\<close>; every
  operation of the writer is a function on its state. A double reaches the model as its \<open>%.2f\<close> text, \<open>None\<close> when it is not
  finite. The second half relates the writer to a document tree: the reference text of a tree, and a reader of the JSON grammar.
\<close>

section \<open>The writer\<close>

record cali_json =
  js_buf :: string
  js_cap :: nat
  js_pos :: nat
  js_overflow :: bool

definition memcpy_at :: "string \<Rightarrow> nat \<Rightarrow> string \<Rightarrow> string" where
  "memcpy_at buf pos s = take pos buf @ s @ drop (pos + length s) buf"

definition raw :: "string \<Rightarrow> cali_json \<Rightarrow> cali_json" where
  "raw s j =
     (if js_overflow j then j
      else if js_cap j = 0 \<or> js_pos j + length s > js_cap j - 1 then j\<lparr>js_overflow := True\<rparr>
      else let p = js_pos j + length s in j\<lparr>js_buf := (memcpy_at (js_buf j) (js_pos j) s)[p := CHR 0x00], js_pos := p\<rparr>)"

definition ch :: "char \<Rightarrow> cali_json \<Rightarrow> cali_json" where
  "ch c j = raw [c] j"

definition comma :: "cali_json \<Rightarrow> cali_json" where
  "comma j =
     (if js_overflow j \<or> js_pos j = 0 then j
      else let last = js_buf j ! (js_pos j - 1)
           in if last \<noteq> CHR ''{'' \<and> last \<noteq> CHR ''['' \<and> last \<noteq> CHR '':'' then raw '','' j else j)"

definition hex_digit :: "nat \<Rightarrow> char" where
  "hex_digit n = (if n < 10 then char_of (48 + n) else char_of (87 + n))"

text \<open>The text \<open>\u%04x\<close> of a byte.\<close>

definition hex4 :: "nat \<Rightarrow> string" where
  "hex4 n = [CHR 0x5C, CHR ''u'', hex_digit (n div 4096 mod 16), hex_digit (n div 256 mod 16), hex_digit (n div 16 mod 16), hex_digit (n mod 16)]"

definition escape1 :: "char \<Rightarrow> string" where
  "escape1 c =
     (if c = CHR 0x22 then [CHR 0x5C, CHR 0x22]
      else if c = CHR 0x5C then [CHR 0x5C, CHR 0x5C]
      else if c = CHR 0x0A then [CHR 0x5C, CHR ''n'']
      else if c = CHR 0x0D then [CHR 0x5C, CHR ''r'']
      else if c = CHR 0x09 then [CHR 0x5C, CHR ''t'']
      else if of_char c < (0x20 :: nat) then hex4 (of_char c)
      else [c])"

primrec escaped :: "string \<Rightarrow> cali_json \<Rightarrow> cali_json" where
  "escaped [] j = j"
| "escaped (c # s) j = escaped s (raw (escape1 c) j)"

definition cali_json_begin :: "string \<Rightarrow> nat \<Rightarrow> cali_json" where
  "cali_json_begin buf cap = ch (CHR ''{'') \<lparr>js_buf = buf, js_cap = cap, js_pos = 0, js_overflow = False\<rparr>"

definition cali_json_key :: "string \<Rightarrow> cali_json \<Rightarrow> cali_json" where
  "cali_json_key key j =
     (if js_overflow j then j else ch (CHR '':'') (ch (CHR 0x22) (escaped key (ch (CHR 0x22) (comma j)))))"

definition cali_json_str :: "string \<Rightarrow> cali_json \<Rightarrow> cali_json" where
  "cali_json_str s j = (if js_overflow j then j else ch (CHR 0x22) (escaped s (ch (CHR 0x22) (comma j))))"

text \<open>The text \<open>%lld\<close> of a number.\<close>

fun dec_nat :: "nat \<Rightarrow> string" where
  "dec_nat n = (if n < 10 then [char_of (48 + n)] else dec_nat (n div 10) @ [char_of (48 + n mod 10)])"

declare dec_nat.simps [simp del]

definition dec_int :: "int \<Rightarrow> string" where
  "dec_int v = (if v < 0 then CHR ''-'' # dec_nat (nat (- v)) else dec_nat (nat v))"

definition cali_json_int :: "int \<Rightarrow> cali_json \<Rightarrow> cali_json" where
  "cali_json_int v j =
     (if js_overflow j then j
      else let j1 = comma j; t = dec_int v in if length t \<ge> 32 then j1\<lparr>js_overflow := True\<rparr> else raw t j1)"

definition cali_json_fmt_num :: "nat \<Rightarrow> string option \<Rightarrow> string option" where
  "cali_json_fmt_num cap v =
     (case v of None \<Rightarrow> None
      | Some t \<Rightarrow> if length t \<ge> cap then None
                else let u = rev (dropWhile (\<lambda>c. c = CHR ''0'') (rev t)) in Some (if last u = CHR ''.'' then butlast u else u))"

definition cali_json_null :: "cali_json \<Rightarrow> cali_json" where
  "cali_json_null j = (if js_overflow j then j else raw ''null'' (comma j))"

definition cali_json_num :: "string option \<Rightarrow> cali_json \<Rightarrow> cali_json" where
  "cali_json_num v j =
     (case cali_json_fmt_num 48 v of None \<Rightarrow> cali_json_null j
      | Some t \<Rightarrow> if js_overflow j then j else raw t (comma j))"

definition cali_json_bool :: "bool \<Rightarrow> cali_json \<Rightarrow> cali_json" where
  "cali_json_bool v j = (if js_overflow j then j else if v then raw ''true'' (comma j) else raw ''false'' (comma j))"

definition cali_json_obj_begin :: "cali_json \<Rightarrow> cali_json" where
  "cali_json_obj_begin j = (if js_overflow j then j else ch (CHR ''{'') (comma j))"

definition cali_json_obj_end :: "cali_json \<Rightarrow> cali_json" where
  "cali_json_obj_end j = (if js_overflow j then j else ch (CHR ''}'') j)"

definition cali_json_arr_begin :: "cali_json \<Rightarrow> cali_json" where
  "cali_json_arr_begin j = (if js_overflow j then j else ch (CHR ''['') (comma j))"

definition cali_json_arr_end :: "cali_json \<Rightarrow> cali_json" where
  "cali_json_arr_end j = (if js_overflow j then j else ch (CHR '']'') j)"

definition cali_json_end :: "cali_json \<Rightarrow> int \<times> cali_json" where
  "cali_json_end j =
     (if js_overflow j then (-1, j) else let j1 = ch (CHR ''}'') j in if js_overflow j1 then (-1, j1) else (int (js_pos j1), j1))"

section \<open>Documents\<close>

text \<open>A document tree, the calls that write it, and its reference text.\<close>

datatype jval = JStr string | JInt int | JNum "string option" | JBool bool | JNull | JArr "jval list" | JObj "(string \<times> jval) list"

fun put_val :: "jval \<Rightarrow> cali_json \<Rightarrow> cali_json" where
  "put_val (JStr s) j = cali_json_str s j"
| "put_val (JInt v) j = cali_json_int v j"
| "put_val (JNum v) j = cali_json_num v j"
| "put_val (JBool v) j = cali_json_bool v j"
| "put_val JNull j = cali_json_null j"
| "put_val (JArr vs) j = cali_json_arr_end (fold put_val vs (cali_json_arr_begin j))"
| "put_val (JObj ms) j = cali_json_obj_end (fold (\<lambda>(k, v) j. put_val v (cali_json_key k j)) ms (cali_json_obj_begin j))"

definition json_doc :: "string \<Rightarrow> (string \<times> jval) list \<Rightarrow> int \<times> cali_json" where
  "json_doc buf ms = cali_json_end (fold (\<lambda>(k, v) j. put_val v (cali_json_key k j)) ms (cali_json_begin buf (length buf)))"

definition quoted :: "string \<Rightarrow> string" where
  "quoted s = [CHR 0x22] @ concat (map escape1 s) @ [CHR 0x22]"

fun commas :: "string list \<Rightarrow> string" where
  "commas [] = []"
| "commas [t] = t"
| "commas (t # ts) = t @ '','' @ commas ts"

definition num_text :: "string option \<Rightarrow> string" where
  "num_text v = (case cali_json_fmt_num 48 v of None \<Rightarrow> ''null'' | Some t \<Rightarrow> t)"

fun render :: "jval \<Rightarrow> string" where
  "render (JStr s) = quoted s"
| "render (JInt v) = dec_int v"
| "render (JNum v) = num_text v"
| "render (JBool v) = (if v then ''true'' else ''false'')"
| "render JNull = ''null''"
| "render (JArr vs) = ''['' @ commas (map render vs) @ '']''"
| "render (JObj ms) = ''{'' @ commas (map (\<lambda>(k, v). quoted k @ '':'' @ render v) ms) @ ''}''"

text \<open>The text \<open>%.2f\<close> gives for a finite number: digits without a leading zero, a point, two digits.\<close>

definition is_dec :: "char \<Rightarrow> bool" where
  "is_dec c \<longleftrightarrow> 48 \<le> (of_char c :: nat) \<and> (of_char c :: nat) \<le> 57"

definition whole :: "string \<Rightarrow> bool" where
  "whole t \<longleftrightarrow> t \<noteq> [] \<and> list_all is_dec t \<and> (hd t = CHR ''0'' \<longrightarrow> length t = 1)"

definition unsign :: "string \<Rightarrow> string" where
  "unsign t = (case t of c # r \<Rightarrow> if c = CHR ''-'' then r else t | [] \<Rightarrow> [])"

definition f2_text :: "string \<Rightarrow> bool" where
  "f2_text t \<longleftrightarrow> (case rev (unsign t) of b # a # p # w \<Rightarrow> p = CHR ''.'' \<and> is_dec a \<and> is_dec b \<and> whole (rev w) | _ \<Rightarrow> False)"

fun ok_val :: "jval \<Rightarrow> bool" where
  "ok_val (JInt v) \<longleftrightarrow> - (2 ^ 63) \<le> v \<and> v < 2 ^ 63"
| "ok_val (JNum (Some t)) \<longleftrightarrow> f2_text t"
| "ok_val (JArr vs) \<longleftrightarrow> list_all ok_val vs"
| "ok_val (JObj ms) \<longleftrightarrow> list_all (\<lambda>(k, v). ok_val v) ms"
| "ok_val _ \<longleftrightarrow> True"

section \<open>What a call writes\<close>

definition json_text :: "cali_json \<Rightarrow> string" where
  "json_text j = take (js_pos j) (js_buf j)"

definition json_ok :: "cali_json \<Rightarrow> bool" where
  "json_ok j \<longleftrightarrow> length (js_buf j) = js_cap j \<and> (js_pos j = 0 \<or> js_pos j < js_cap j \<and> js_buf j ! js_pos j = CHR 0x00)"

text \<open>\<open>writes j s j'\<close>: from \<open>j\<close> to \<open>j'\<close> the text grew by \<open>s\<close>, or the overflow is set because \<open>s\<close> and the terminator did not fit.\<close>

definition writes :: "cali_json \<Rightarrow> string \<Rightarrow> cali_json \<Rightarrow> bool" where
  "writes j s j' \<longleftrightarrow> json_ok j' \<and> js_cap j' = js_cap j \<and>
     (js_overflow j' \<longleftrightarrow> js_overflow j \<or> length (json_text j) + length s \<ge> js_cap j) \<and>
     (\<not> js_overflow j' \<longrightarrow> json_text j' = json_text j @ s)"

lemma json_text_length: "json_ok j \<Longrightarrow> length (json_text j) = js_pos j"
  by (auto simp: json_text_def json_ok_def)

lemma writes_raw: "json_ok j \<Longrightarrow> writes j s (raw s j)"
  by (auto simp: writes_def raw_def Let_def json_ok_def json_text_def memcpy_at_def)

lemma writes_ch: "json_ok j \<Longrightarrow> writes j [c] (ch c j)"
  by (simp add: ch_def writes_raw)

lemma writes_append:
  assumes "writes j s j1" and "writes j1 t' j2" and "\<not> js_overflow j1 \<Longrightarrow> t' = t"
  shows "writes j (s @ t) j2"
  using assms by (cases "js_overflow j1") (auto simp: writes_def)

lemma writes_refl: "json_ok j \<Longrightarrow> js_overflow j \<or> js_pos j < js_cap j \<Longrightarrow> writes j [] j"
  by (auto simp: writes_def json_text_length)

lemma writes_stuck: "json_ok j \<Longrightarrow> js_overflow j \<Longrightarrow> writes j s j"
  by (simp add: writes_def)

lemma writes_ok: "writes j s j' \<Longrightarrow> json_ok j'"
  by (simp add: writes_def)

definition opener :: "char \<Rightarrow> bool" where
  "opener c \<longleftrightarrow> c = CHR ''{'' \<or> c = CHR ''['' \<or> c = CHR '':''"

definition sep :: "cali_json \<Rightarrow> string" where
  "sep j = (if json_text j = [] \<or> opener (last (json_text j)) then [] else '','')"

text \<open>A writer in use: the document has begun.\<close>

definition started :: "cali_json \<Rightarrow> bool" where
  "started j \<longleftrightarrow> json_ok j \<and> (js_overflow j \<or> 0 < js_pos j)"

lemma started_writes: "started j \<Longrightarrow> writes j s j' \<Longrightarrow> started j'"
  using json_text_length [of j] json_text_length [of j'] by (auto simp: started_def writes_def)

lemma started_room: "started j \<Longrightarrow> json_ok j \<and> (js_overflow j \<or> js_pos j < js_cap j)"
  by (auto simp: started_def json_ok_def)

lemma writes_comma: "started j \<Longrightarrow> writes j (sep j) (comma j)"
proof -
  assume s: "started j"
  show ?thesis
  proof (cases "js_overflow j")
    case True
    then show ?thesis using s by (simp add: comma_def writes_stuck started_def)
  next
    case False
    then have p: "0 < js_pos j" "json_ok j" using s by (simp_all add: started_def)
    then have n: "json_text j \<noteq> []" using json_text_length [OF p(2)] by auto
    then have l: "last (json_text j) = js_buf j ! (js_pos j - 1)"
      using json_text_length [OF p(2)] p(1) last_conv_nth [OF n] by (simp add: json_text_def)
    show ?thesis
      using False p s n l writes_raw [OF p(2), of "'',''"] by (auto simp: comma_def sep_def opener_def Let_def intro: writes_refl dest: started_room)
  qed
qed

lemma writes_escaped: "started j \<Longrightarrow> writes j (concat (map escape1 s)) (escaped s j)"
proof (induction s arbitrary: j)
  case Nil
  then show ?case using started_room [OF Nil] by (auto intro: writes_refl)
next
  case (Cons c s)
  have r: "writes j (escape1 c) (raw (escape1 c) j)" using Cons.prems by (simp add: writes_raw started_def)
  from writes_append [OF r Cons.IH [OF started_writes [OF Cons.prems r]] refl] show ?case by simp
qed

lemma writes_quoted:
  assumes "started j"
  shows "writes j (sep j @ quoted s) (ch (CHR 0x22) (escaped s (ch (CHR 0x22) (comma j))))"
proof -
  note a = writes_comma [OF assms]
  note b = writes_ch [OF writes_ok [OF a], of "CHR 0x22"]
  note c = writes_escaped [OF started_writes [OF started_writes [OF assms a] b], of s]
  note d = writes_ch [OF writes_ok [OF c], of "CHR 0x22"]
  from writes_append [OF a writes_append [OF b writes_append [OF c d refl] refl] refl] show ?thesis by (simp add: quoted_def)
qed

lemma writes_after_comma: "started j \<Longrightarrow> writes j (sep j @ s) (raw s (comma j))"
  using writes_append [OF writes_comma writes_raw refl] writes_comma writes_ok by blast

text \<open>A call made after an overflow changes nothing.\<close>

lemma writes_unless: "started j \<Longrightarrow> (\<not> js_overflow j \<Longrightarrow> writes j s j') \<Longrightarrow> writes j s (if js_overflow j then j else j')"
  by (simp add: writes_stuck started_def)

lemma writes_str: "started j \<Longrightarrow> writes j (sep j @ quoted s) (cali_json_str s j)"
  unfolding cali_json_str_def by (rule writes_unless) (simp_all add: writes_quoted)

lemma writes_key: "started j \<Longrightarrow> writes j (sep j @ quoted k @ '':'') (cali_json_key k j)"
  unfolding cali_json_key_def
  using writes_append [OF writes_quoted writes_ch [OF writes_ok [OF writes_quoted]] refl] by (intro writes_unless) auto

lemma writes_null: "started j \<Longrightarrow> writes j (sep j @ ''null'') (cali_json_null j)"
  unfolding cali_json_null_def by (rule writes_unless) (simp_all add: writes_after_comma)

lemma writes_bool: "started j \<Longrightarrow> writes j (sep j @ (if v then ''true'' else ''false'')) (cali_json_bool v j)"
  unfolding cali_json_bool_def by (rule writes_unless) (simp_all add: writes_after_comma)

lemma writes_num: "started j \<Longrightarrow> writes j (sep j @ num_text v) (cali_json_num v j)"
  unfolding cali_json_num_def num_text_def
  by (cases "cali_json_fmt_num 48 v") (simp_all add: writes_null writes_unless writes_after_comma)

text \<open>A 64-bit number has at most 20 characters.\<close>

lemma dec_nat_length: "n < 10 ^ k \<Longrightarrow> 0 < k \<Longrightarrow> length (dec_nat n) \<le> k"
proof (induction n arbitrary: k rule: dec_nat.induct)
  case (1 n)
  show ?case
  proof (cases "n < 10")
    case True
    then show ?thesis using 1 by (subst dec_nat.simps) simp
  next
    case False
    then obtain k' where k: "k = Suc k'" "0 < k'" using 1(2,3) by (cases k; cases "k - 1") auto
    then have "n div 10 < 10 ^ k'" using 1(2) by (simp add: less_mult_imp_div_less mult.commute)
    then have "length (dec_nat (n div 10)) \<le> k'" using 1(1) False k by simp
    then show ?thesis using False k by (subst dec_nat.simps) simp
  qed
qed

lemma dec_int_length: "- (2 ^ 63) \<le> v \<Longrightarrow> v < 2 ^ 63 \<Longrightarrow> length (dec_int v) \<le> 20"
  using dec_nat_length [of "nat (- v)" 19] dec_nat_length [of "nat v" 19]
  by (cases "v < 0") (simp_all add: dec_int_def nat_less_iff)

lemma writes_int: "started j \<Longrightarrow> ok_val (JInt v) \<Longrightarrow> writes j (sep j @ dec_int v) (cali_json_int v j)"
  unfolding cali_json_int_def using dec_int_length [of v] by (intro writes_unless) (simp_all add: writes_after_comma Let_def)

section \<open>Values\<close>

lemma dec_char: "n < (10 :: nat) \<Longrightarrow> is_dec (char_of (48 + n))"
  by (simp add: is_dec_def)

lemma is_dec_closed: "is_dec c \<Longrightarrow> \<not> opener c"
  by (auto simp: is_dec_def opener_def)

lemma dec_nat_chars: "list_all is_dec (dec_nat n)" "dec_nat n \<noteq> []"
proof (induction n rule: dec_nat.induct)
  case (1 n)
  { case 1 then show ?case using "1.IH"(1) by (subst dec_nat.simps) (simp add: dec_char) }
  { case 2 then show ?case by (subst dec_nat.simps) simp }
qed

lemma last_dec: "list_all is_dec w \<Longrightarrow> w \<noteq> [] \<Longrightarrow> is_dec (last w)"
  by (simp add: list_all_iff)

lemma dec_int_last: "dec_int v \<noteq> []" "is_dec (last (dec_int v))"
  by (simp_all add: dec_int_def dec_nat_chars last_dec)

text \<open>The trimmed number: an optional sign, the whole part, and the decimals that are not zero.\<close>

lemma fmt_num_cases:
  assumes "f2_text t" and "length t < cap"
  obtains sg w where "sg = [] \<or> sg = ''-''" "whole w"
    "cali_json_fmt_num cap (Some t) = Some (sg @ w) \<or> (\<exists>a. is_dec a \<and> cali_json_fmt_num cap (Some t) = Some (sg @ w @ [CHR ''.'', a])) \<or>
     (\<exists>a b. is_dec a \<and> is_dec b \<and> cali_json_fmt_num cap (Some t) = Some (sg @ w @ [CHR ''.'', a, b]))"
proof -
  obtain b a p r where u: "rev (unsign t) = b # a # p # r" and p: "p = CHR ''.''" "is_dec a" "is_dec b" "whole (rev r)"
    using assms(1) by (auto simp: f2_text_def split: list.splits)
  obtain sg where sg: "sg = [] \<or> sg = ''-''" "t = sg @ unsign t" 
    by (cases t; cases "hd t = CHR ''-''") (auto simp: unsign_def)
  have "unsign t = rev r @ [CHR ''.'', a, b]" using u p by (metis append.assoc append_Cons append_Nil rev.simps(2) rev_rev_ident)
  then have t: "t = sg @ rev r @ [CHR ''.'', a, b]" using sg by simp
  have d: "a \<noteq> CHR ''.''" "b \<noteq> CHR ''.''" using p(2,3) by (auto simp: is_dec_def)
  have "cali_json_fmt_num cap (Some t) = (if b \<noteq> CHR ''0'' then Some (sg @ rev r @ [CHR ''.'', a, b])
      else if a \<noteq> CHR ''0'' then Some (sg @ rev r @ [CHR ''.'', a]) else Some (sg @ rev r))"
    using assms(2) d by (auto simp: cali_json_fmt_num_def t butlast_append Let_def)
  then show ?thesis using that [OF sg(1) p(4)] p(2,3) by (auto split: if_splits)
qed

lemma num_text_last: "ok_val (JNum v) \<Longrightarrow> num_text v \<noteq> [] \<and> \<not> opener (last (num_text v))"
proof (cases "\<exists>t. v = Some t \<and> length t < 48")
  case True
  then obtain t where t: "v = Some t" "length t < 48" by blast
  assume "ok_val (JNum v)"
  then have "f2_text t" using t by simp
  then obtain sg w where "whole w" "cali_json_fmt_num 48 v = Some (sg @ w) \<or> (\<exists>a. is_dec a \<and> cali_json_fmt_num 48 v = Some (sg @ w @ [CHR ''.'', a])) \<or>
     (\<exists>a b. is_dec a \<and> is_dec b \<and> cali_json_fmt_num 48 v = Some (sg @ w @ [CHR ''.'', a, b]))"
    using fmt_num_cases [OF _ t(2)] t(1) by metis
  then show ?thesis by (auto simp: num_text_def whole_def is_dec_closed last_dec)
qed (auto simp: num_text_def cali_json_fmt_num_def opener_def split: option.splits)

lemma render_last: "ok_val v \<Longrightarrow> render v \<noteq> [] \<and> \<not> opener (last (render v))"
proof (cases v)
  case (JInt x)
  then show ?thesis by (simp add: dec_int_last is_dec_closed)
next
  case (JNum x)
  assume "ok_val v"
  then show ?thesis using num_text_last [of x] JNum by simp
qed (simp_all add: quoted_def opener_def)

lemma sep_open: "\<not> js_overflow j' \<Longrightarrow> writes j (s @ [c]) j' \<Longrightarrow> opener c \<Longrightarrow> sep j' = []"
  by (simp add: writes_def sep_def)

lemma sep_closed: "\<not> js_overflow j' \<Longrightarrow> writes j (s @ t) j' \<Longrightarrow> t \<noteq> [] \<Longrightarrow> \<not> opener (last t) \<Longrightarrow> sep j' = '',''"
  by (simp add: writes_def sep_def)

lemma commas_Cons: "ts \<noteq> [] \<Longrightarrow> commas (t # ts) = t @ '','' @ commas ts"
  by (cases ts) simp_all

text \<open>A row of parts, each written after its comma, gives the parts joined by commas.\<close>

lemma writes_row:
  assumes "\<And>x j. x \<in> set xs \<Longrightarrow> started j \<Longrightarrow> writes j (sep j @ txt x) (f x j)"
    and "\<And>x. x \<in> set xs \<Longrightarrow> txt x \<noteq> [] \<and> \<not> opener (last (txt x))" and "started j"
  shows "writes j (if xs = [] then [] else sep j @ commas (map txt xs)) (fold f xs j)"
  using assms
proof (induction xs arbitrary: j)
  case Nil
  then show ?case using started_room by (auto intro: writes_refl)
next
  case (Cons x xs)
  have x: "writes j (sep j @ txt x) (f x j)" using Cons.prems by simp
  have r: "writes (f x j) (if xs = [] then [] else sep (f x j) @ commas (map txt xs)) (fold f xs (f x j))"
    by (rule Cons.IH) (use Cons.prems started_writes [OF Cons.prems(3) x] in auto)
  have s: "\<not> js_overflow (f x j) \<Longrightarrow> sep (f x j) = '',''" using sep_closed [OF _ x] Cons.prems(2) [of x] by simp
  have "writes j ((sep j @ txt x) @ (if xs = [] then [] else '','' @ commas (map txt xs))) (fold f xs (f x j))"
    by (rule writes_append [OF x r]) (simp add: s)
  then show ?case by (cases "xs = []") (simp_all add: commas_Cons)
qed

lemma writes_member:
  assumes "started j" and "\<And>j. started j \<Longrightarrow> writes j (sep j @ render v) (put_val v j)"
  shows "writes j (sep j @ quoted k @ '':'' @ render v) (put_val v (cali_json_key k j))"
proof -
  note a = writes_key [OF assms(1), of k]
  have "writes j ((sep j @ quoted k @ '':'') @ render v) (put_val v (cali_json_key k j))"
  proof (rule writes_append [OF a assms(2) [OF started_writes [OF assms(1) a]]])
    assume "\<not> js_overflow (cali_json_key k j)"
    then have "sep (cali_json_key k j) = []" using sep_open [of _ j "sep j @ quoted k" "CHR '':''"] a by (simp add: opener_def)
    then show "sep (cali_json_key k j) @ render v = render v" by simp
  qed
  then show ?thesis by simp
qed

text \<open>A container: the opening byte, the row, the closing byte.\<close>

lemma writes_container:
  assumes "started j" and "opener o_ch" and "\<And>j. started j \<Longrightarrow> writes j (if xs = [] then [] else sep j @ commas (map txt xs)) (fold f xs j)"
  shows "writes j (sep j @ [o_ch] @ commas (map txt xs) @ [c_ch])
    (let j1 = fold f xs (if js_overflow j then j else ch o_ch (comma j)) in if js_overflow j1 then j1 else ch c_ch j1)"
proof -
  let ?b = "if js_overflow j then j else ch o_ch (comma j)" 
  let ?r = "fold f xs ?b"
  have b: "writes j (sep j @ [o_ch]) ?b"
    by (rule writes_unless [OF assms(1)]) (simp add: ch_def writes_after_comma [OF assms(1)])
  note sb = started_writes [OF assms(1) b]
  note r = assms(3) [OF sb]
  note sr = started_writes [OF sb r]
  have c: "writes ?r [c_ch] (if js_overflow ?r then ?r else ch c_ch ?r)"
    by (rule writes_unless [OF sr]) (use sr in \<open>simp add: writes_ch started_def\<close>)
  have "writes j ((sep j @ [o_ch]) @ commas (map txt xs)) ?r"
    by (rule writes_append [OF b r]) (use sep_open [OF _ b assms(2)] in auto)
  from writes_append [OF this c refl] show ?thesis by (simp add: Let_def)
qed

lemma writes_put: "ok_val v \<Longrightarrow> started j \<Longrightarrow> writes j (sep j @ render v) (put_val v j)"
proof (induction v arbitrary: j)
  case (JArr vs)
  have "writes j (if vs = [] then [] else sep j @ commas (map render vs)) (fold put_val vs j)" if "started j" for j
    by (rule writes_row) (use JArr that render_last in \<open>auto simp: list_all_iff\<close>)
  from writes_container [OF JArr.prems(2) _ this, of "CHR ''[''" "CHR '']''"] show ?case
    by (simp add: cali_json_arr_end_def cali_json_arr_begin_def opener_def Let_def)
next
  case (JObj ms)
  let ?t = "\<lambda>(k, v). quoted k @ '':'' @ render v" and ?f = "\<lambda>(k, v) j. put_val v (cali_json_key k j)"
  have m: "writes j (sep j @ ?t x) (?f x j)" if "x \<in> set ms" "started j" for x j
  proof (cases x)
    case (Pair k v)
    then have "v \<in> Basic_BNFs.snds x" "ok_val v" using that JObj.prems(1) by (auto simp: list_all_iff)
    then show ?thesis using writes_member [OF that(2), of v k] JObj.IH [OF that(1)] Pair by simp
  qed
  have "writes j (if ms = [] then [] else sep j @ commas (map ?t ms)) (fold ?f ms j)" if "started j" for j
    by (rule writes_row [OF m]) (use JObj that render_last in \<open>auto simp: list_all_iff\<close>)
  from writes_container [OF JObj.prems(2) _ this, of "CHR ''{''" "CHR ''}''"] show ?case
    by (simp add: cali_json_obj_end_def cali_json_obj_begin_def opener_def Let_def)
qed (simp_all add: writes_str writes_int writes_num writes_bool writes_null)

section \<open>A reader of the JSON grammar\<close>

datatype jtree = TStr string | TTok string | TArr "jtree list" | TObj "(string \<times> jtree) list"

definition hex_val :: "char \<Rightarrow> nat option" where
  "hex_val c = (let n = of_char c in if 48 \<le> n \<and> n \<le> 57 then Some (n - 48) else if 97 \<le> n \<and> n \<le> 102 then Some (n - 87)
     else if 65 \<le> n \<and> n \<le> 70 then Some (n - 55) else None)"

definition read_hex :: "string \<Rightarrow> (char \<times> string) option" where
  "read_hex r = (case r of a # b # c # d # r' \<Rightarrow>
       (case (hex_val a, hex_val b, hex_val c, hex_val d) of
          (Some w, Some x, Some y, Some z) \<Rightarrow> let n = w * 4096 + x * 256 + y * 16 + z in if n < 256 then Some (char_of n, r') else None
        | _ \<Rightarrow> None)
     | _ \<Rightarrow> None)"

definition read_esc :: "string \<Rightarrow> (char \<times> string) option" where
  "read_esc r = (case r of [] \<Rightarrow> None
     | e # r' \<Rightarrow> if e = CHR 0x22 \<or> e = CHR 0x5C \<or> e = CHR ''/'' then Some (e, r')
               else if e = CHR ''n'' then Some (CHR 0x0A, r') else if e = CHR ''r'' then Some (CHR 0x0D, r')
               else if e = CHR ''t'' then Some (CHR 0x09, r') else if e = CHR ''b'' then Some (CHR 0x08, r')
               else if e = CHR ''f'' then Some (CHR 0x0C, r') else if e = CHR ''u'' then read_hex r' else None)"

lemma read_esc_shorter: "read_esc r = Some (c, r') \<Longrightarrow> length r' < length r"
  by (auto simp: read_esc_def read_hex_def Let_def split: list.splits option.splits if_splits)

function read_str :: "string \<Rightarrow> (string \<times> string) option" where
  "read_str [] = None"
| "read_str (c # r) =
     (if c = CHR 0x22 then Some ([], r)
      else if c = CHR 0x5C then (case read_esc r of None \<Rightarrow> None | Some (x, r') \<Rightarrow> map_option (apfst (Cons x)) (read_str r'))
      else if of_char c < (0x20 :: nat) then None
      else map_option (apfst (Cons c)) (read_str r))"
  by pat_completeness auto
termination by (relation "measure length") (auto dest: read_esc_shorter)

definition json_number :: "string \<Rightarrow> bool" where
  "json_number w \<longleftrightarrow> (let u = unsign w; f = dropWhile is_dec u
     in whole (takeWhile is_dec u) \<and> (f = [] \<or> hd f = CHR ''.'' \<and> tl f \<noteq> [] \<and> list_all is_dec (tl f)))"

definition json_tok :: "string \<Rightarrow> bool" where
  "json_tok w \<longleftrightarrow> w = ''true'' \<or> w = ''false'' \<or> w = ''null'' \<or> json_number w"

definition is_tok :: "char \<Rightarrow> bool" where
  "is_tok c \<longleftrightarrow> is_dec c \<or> c = CHR ''-'' \<or> c = CHR ''.'' \<or> 97 \<le> (of_char c :: nat) \<and> (of_char c :: nat) \<le> 122"

text \<open>The number bounds the nesting and the row lengths still allowed; the length of the text is enough.\<close>

fun read_val :: "nat \<Rightarrow> string \<Rightarrow> (jtree \<times> string) option"
  and read_elems :: "nat \<Rightarrow> string \<Rightarrow> (jtree list \<times> string) option"
  and read_members :: "nat \<Rightarrow> string \<Rightarrow> ((string \<times> jtree) list \<times> string) option"
where
  "read_val 0 s = None"
| "read_val (Suc n) s =
     (case s of [] \<Rightarrow> None
      | c # r \<Rightarrow>
          if c = CHR 0x22 then map_option (apfst TStr) (read_str r)
          else if c = CHR ''['' then if r \<noteq> [] \<and> hd r = CHR '']'' then Some (TArr [], tl r) else map_option (apfst TArr) (read_elems n r)
          else if c = CHR ''{'' then if r \<noteq> [] \<and> hd r = CHR ''}'' then Some (TObj [], tl r) else map_option (apfst TObj) (read_members n r)
          else if json_tok (takeWhile is_tok s) then Some (TTok (takeWhile is_tok s), dropWhile is_tok s) else None)"
| "read_elems 0 s = None"
| "read_elems (Suc n) s =
     (case read_val n s of
        Some (v, c # r) \<Rightarrow> if c = CHR '']'' then Some ([v], r) else if c = CHR '','' then map_option (apfst (Cons v)) (read_elems n r) else None
      | _ \<Rightarrow> None)"
| "read_members 0 s = None"
| "read_members (Suc n) s =
     (case s of [] \<Rightarrow> None
      | q # s1 \<Rightarrow>
          if q \<noteq> CHR 0x22 then None
          else case read_str s1 of
                 Some (k, p # s2) \<Rightarrow>
                   if p \<noteq> CHR '':'' then None
                   else (case read_val n s2 of
                           Some (v, c # r) \<Rightarrow> if c = CHR ''}'' then Some ([(k, v)], r)
                             else if c = CHR '','' then map_option (apfst (Cons (k, v))) (read_members n r) else None
                         | _ \<Rightarrow> None)
               | _ \<Rightarrow> None)"

definition read_json :: "string \<Rightarrow> jtree option" where
  "read_json s = (case read_val (length s) s of Some (t, []) \<Rightarrow> Some t | _ \<Rightarrow> None)"

text \<open>The structure the calls describe.\<close>

fun tree :: "jval \<Rightarrow> jtree" where
  "tree (JStr s) = TStr s"
| "tree (JArr vs) = TArr (map tree vs)"
| "tree (JObj ms) = TObj (map (\<lambda>(k, v). (k, tree v)) ms)"
| "tree v = TTok (render v)"

section \<open>Reading back\<close>

lemma hex_digit_val: "k < 16 \<Longrightarrow> hex_val (hex_digit k) = Some k"
  by (simp add: hex_val_def hex_digit_def Let_def)

lemma read_hex4: "n < 32 \<Longrightarrow> read_esc (tl (hex4 n) @ r) = Some (char_of n, r)"
  by (simp add: read_esc_def hex4_def read_hex_def hex_digit_val Let_def)

lemma read_escape1: "read_str (escape1 c @ r) = map_option (apfst (Cons c)) (read_str r)"
proof (cases "of_char c < (32 :: nat) \<and> c \<noteq> CHR 0x0A \<and> c \<noteq> CHR 0x0D \<and> c \<noteq> CHR 0x09")
  case True
  let ?n = "of_char c :: nat"
  have "c \<noteq> CHR 0x22" "c \<noteq> CHR 0x5C" using True by auto
  then have e: "escape1 c = CHR 0x5C # tl (hex4 ?n)" using True by (simp add: escape1_def hex4_def)
  show ?thesis using read_hex4 [of ?n r] True by (simp add: e)
qed (auto simp: escape1_def read_esc_def)

lemma read_quoted: "read_str (concat (map escape1 s) @ CHR 0x22 # r) = Some (s, r)"
  by (induction s) (simp_all add: read_escape1)

lemma dec_nat_first: "0 < n \<Longrightarrow> hd (dec_nat n) \<noteq> CHR ''0''"
proof (induction n rule: dec_nat.induct)
  case (1 n)
  show ?case
  proof (cases "n < 10")
    case True
    have "(of_char (char_of (48 + n)) :: nat) = 48 + n" using True by simp
    then have "char_of (48 + n) \<noteq> CHR ''0''" using 1(2) by (auto simp del: of_char_of)
    then show ?thesis using True by (subst dec_nat.simps) simp
  next
    case False
    then show ?thesis using 1(1) dec_nat_chars(2) [of "n div 10"] by (subst dec_nat.simps) simp
  qed
qed

lemma whole_dec_nat: "whole (dec_nat n)"
  using dec_nat_chars [of n] dec_nat_first [of n] by (cases "n = 0") (auto simp: whole_def dec_nat.simps [of 0])

lemma dash_not_dec: "\<not> is_dec (CHR ''-'')" "\<not> is_dec (CHR ''.'')"
  by (simp_all add: is_dec_def)

lemma unsign_whole: "whole w \<Longrightarrow> unsign (w @ r) = w @ r"
  by (cases w) (auto simp: unsign_def whole_def dash_not_dec)

lemma json_number_intro:
  assumes "sg = [] \<or> sg = ''-''" and "whole w" and "f = [] \<or> f = CHR ''.'' # d \<and> d \<noteq> [] \<and> list_all is_dec d"
  shows "json_number (sg @ w @ f)"
proof -
  have u: "unsign (sg @ w @ f) = w @ f" using assms(1)
  proof
    assume "sg = ''-''" then show ?thesis by (simp add: unsign_def)
  qed (simp add: unsign_whole [OF assms(2)])
  have f: "takeWhile is_dec f = [] \<and> dropWhile is_dec f = f" using assms(3) by (auto simp: dash_not_dec)
  have w: "\<forall>x\<in>set w. is_dec x" using assms(2) by (simp add: whole_def list_all_iff)
  show ?thesis using assms(2,3) f w by (auto simp: json_number_def u Let_def)
qed

lemma dec_int_number: "json_number (dec_int v)"
  using json_number_intro [of "[]" "dec_nat (nat v)" "[]"] json_number_intro [of "''-''" "dec_nat (nat (- v))" "[]"]
  by (simp add: dec_int_def whole_dec_nat)

lemma num_text_tok: "ok_val (JNum v) \<Longrightarrow> json_tok (num_text v)"
proof (cases "\<exists>t. v = Some t \<and> length t < 48")
  case True
  then obtain t where t: "v = Some t" "length t < 48" by blast
  assume "ok_val (JNum v)"
  then have f: "f2_text t" using t by simp
  show ?thesis
    by (rule fmt_num_cases [OF f t(2)])
      (use json_number_intro in \<open>fastforce simp: t num_text_def json_tok_def\<close>)
qed (auto simp: num_text_def cali_json_fmt_num_def json_tok_def split: option.splits)

lemma json_number_toks: "json_number w \<Longrightarrow> w \<noteq> [] \<and> list_all is_tok w"
proof -
  assume a: "json_number w"
  have u: "unsign w = takeWhile is_dec (unsign w) @ dropWhile is_dec (unsign w)" by simp
  have "list_all is_tok (takeWhile is_dec (unsign w))" by (auto simp: list_all_iff is_tok_def dest: set_takeWhileD)
  moreover have "list_all is_tok (dropWhile is_dec (unsign w))"
  proof (cases "dropWhile is_dec (unsign w)")
    case (Cons x xs)
    then have "x = CHR ''.'' \<and> list_all is_dec xs" using a unfolding json_number_def Let_def Cons by simp
    then show ?thesis unfolding Cons by (auto simp: list_all_iff is_tok_def)
  next
    case Nil
    show ?thesis unfolding Nil by simp
  qed
  ultimately have t: "list_all is_tok (unsign w)" by (subst u) (simp only: list_all_append conj_absorb)
  have "unsign w \<noteq> []" using a by (auto simp: json_number_def whole_def)
  then show ?thesis using t by (cases w) (auto simp: unsign_def is_tok_def split: if_splits)
qed

lemma json_tok_toks: "json_tok w \<Longrightarrow> w \<noteq> [] \<and> list_all is_tok w"
  using json_number_toks by (auto simp: json_tok_def is_tok_def)

definition stops :: "string \<Rightarrow> bool" where
  "stops r \<longleftrightarrow> r = [] \<or> \<not> is_tok (hd r)"

lemma read_tok: "json_tok w \<Longrightarrow> stops r \<Longrightarrow> read_val (Suc n) (w @ r) = Some (TTok w, r)"
proof -
  assume a: "json_tok w" "stops r"
  obtain c w' where w: "w = c # w'" "is_tok c" "\<forall>x\<in>set w'. is_tok x" using json_tok_toks [OF a(1)] by (cases w) (auto simp: list_all_iff)
  have r: "takeWhile is_tok r = []" "dropWhile is_tok r = r" using a(2) by (cases r; simp add: stops_def)+
  have "c \<noteq> CHR 0x22" "c \<noteq> CHR ''[''" "c \<noteq> CHR ''{''" using w(2) by (auto simp: is_tok_def is_dec_def)
  then show ?thesis using w r a(1) by simp
qed

lemma stops_closers: "stops (CHR '']'' # r)" "stops (CHR ''}'' # r)" "stops (CHR '','' # r)"
  by (simp_all add: stops_def is_tok_def is_dec_def)

lemma render_first: "ok_val v \<Longrightarrow> hd (render v) \<noteq> CHR '']''"
proof (cases v)
  case (JInt x)
  then show ?thesis using json_number_toks [OF dec_int_number, of x] by (cases "dec_int x") (auto simp: is_tok_def is_dec_def)
next
  case (JNum x)
  assume "ok_val v"
  then have "json_tok (num_text x)" using num_text_tok JNum by simp
  from json_tok_toks [OF this] JNum show ?thesis by (cases "num_text x") (auto simp: is_tok_def is_dec_def)
qed (simp_all add: quoted_def)

text \<open>\<open>reads v\<close>: the text of the value is read back, whatever follows.\<close>

definition reads :: "jval \<Rightarrow> bool" where
  "reads v \<longleftrightarrow> (\<forall>n r. length (render v) \<le> n \<and> stops r \<longrightarrow> read_val n (render v @ r) = Some (tree v, r))"

lemma reads_tok: "json_tok (render v) \<Longrightarrow> tree v = TTok (render v) \<Longrightarrow> reads v"
  unfolding reads_def
proof (intro allI impI)
  fix n r
  assume a: "json_tok (render v)" "tree v = TTok (render v)" "length (render v) \<le> n \<and> stops r"
  then obtain m where "n = Suc m" using json_tok_toks [OF a(1)] by (cases n) auto
  then show "read_val n (render v @ r) = Some (tree v, r)" using read_tok [OF a(1)] a(2,3) by simp
qed

lemma read_row:
  assumes "vs \<noteq> []" and "\<And>v. v \<in> set vs \<Longrightarrow> reads v \<and> render v \<noteq> []" and "length (commas (map render vs)) < n"
  shows "read_elems n (commas (map render vs) @ CHR '']'' # r) = Some (map tree vs, r)"
  using assms
proof (induction vs arbitrary: n)
  case (Cons v vs)
  then obtain m where n: "n = Suc m" by (cases n) auto
  have v: "reads v" "render v \<noteq> []" using Cons.prems(2) by simp_all
  show ?case
  proof (cases "vs = []")
    case True
    then show ?thesis using v(1) Cons.prems(3) stops_closers by (simp add: n reads_def)
  next
    case False
    then have c: "commas (map render (v # vs)) = render v @ '','' @ commas (map render vs)" by (simp add: commas_Cons)
    then have "length (commas (map render vs)) < m" using Cons.prems(3) n v(2) by (cases "render v") auto
    then have "read_elems m (commas (map render vs) @ CHR '']'' # r) = Some (map tree vs, r)" using Cons False by simp
    moreover have "read_val m (render v @ CHR '','' # x) = Some (tree v, CHR '','' # x)" for x
      using v(1) c Cons.prems(3) n stops_closers by (simp add: reads_def)
    ultimately show ?thesis using c by (simp add: n)
  qed
qed simp

lemma read_rows:
  assumes "ms \<noteq> []" and "\<And>k v. (k, v) \<in> set ms \<Longrightarrow> reads v \<and> render v \<noteq> []"
    and "length (commas (map (\<lambda>(k, v). quoted k @ '':'' @ render v) ms)) < n"
  shows "read_members n (commas (map (\<lambda>(k, v). quoted k @ '':'' @ render v) ms) @ CHR ''}'' # r) = Some (map (\<lambda>(k, v). (k, tree v)) ms, r)"
  using assms
proof (induction ms arbitrary: n)
  case (Cons kv ms)
  let ?t = "\<lambda>(k, v). quoted k @ '':'' @ render v"
  obtain k v where kv: "kv = (k, v)" by (cases kv)
  obtain m where n: "n = Suc m" using Cons.prems(3) by (cases n) auto
  have v: "reads v" using Cons.prems(2) kv by auto
  show ?case
  proof (cases "ms = []")
    case True
    then show ?thesis using v Cons.prems(3) stops_closers by (simp add: n kv reads_def quoted_def read_quoted)
  next
    case False
    then have c: "commas (map ?t (kv # ms)) = quoted k @ '':'' @ render v @ '','' @ commas (map ?t ms)" by (simp add: commas_Cons kv)
    have "length (commas (map ?t ms)) < m" using Cons.prems(3) unfolding c n by (simp add: quoted_def)
    then have "read_members m (commas (map ?t ms) @ CHR ''}'' # r) = Some (map (\<lambda>(k, v). (k, tree v)) ms, r)"
      using Cons.prems(2) by (intro Cons.IH [OF False]) auto
    moreover have "read_val m (render v @ CHR '','' # x) = Some (tree v, CHR '','' # x)" for x
      using v Cons.prems(3) stops_closers unfolding c n by (simp add: reads_def quoted_def)
    ultimately show ?thesis unfolding c n by (simp add: quoted_def read_quoted kv)
  qed
qed simp

lemma reads_render: "ok_val v \<Longrightarrow> reads v"
proof (induction v)
  case (JStr s)
  show ?case unfolding reads_def
  proof (intro allI impI)
    fix n r
    assume "length (render (JStr s)) \<le> n \<and> stops r"
    then obtain m where "n = Suc m" by (cases n) (auto simp: quoted_def)
    then show "read_val n (render (JStr s) @ r) = Some (tree (JStr s), r)" by (simp add: quoted_def read_quoted)
  qed
next
  case (JArr vs)
  have v: "reads v \<and> render v \<noteq> []" if "v \<in> set vs" for v using JArr that render_last by (auto simp: list_all_iff)
  have h: "hd (commas (map render vs) @ r) \<noteq> CHR '']''" if "vs \<noteq> []" for r
    using that JArr.prems v render_first by (cases vs; cases "tl vs") (auto simp: list_all_iff hd_append commas_Cons)
  show ?case unfolding reads_def
  proof (intro allI impI)
    fix n r
    assume l: "length (render (JArr vs)) \<le> n \<and> stops r"
    then obtain m where m: "n = Suc m" by (cases n) auto
    show "read_val n (render (JArr vs) @ r) = Some (tree (JArr vs), r)"
    proof (cases "vs = []")
      case False
      then have "read_elems m (commas (map render vs) @ CHR '']'' # r) = Some (map tree vs, r)" using l m v by (intro read_row) auto
      then show ?thesis using h [OF False] by (simp add: m)
    qed (simp add: m)
  qed
next
  case (JObj ms)
  let ?t = "\<lambda>(k, v). quoted k @ '':'' @ render v"
  have v: "reads v \<and> render v \<noteq> []" if "(k, v) \<in> set ms" for k v
    using JObj that render_last by (fastforce simp: list_all_iff)
  have h: "hd (commas (map ?t ms) @ r) \<noteq> CHR ''}''" if "ms \<noteq> []" for r
    using that by (cases ms; cases "tl ms") (auto simp: hd_append commas_Cons quoted_def)
  show ?case unfolding reads_def
  proof (intro allI impI)
    fix n r
    assume l: "length (render (JObj ms)) \<le> n \<and> stops r"
    then obtain m where m: "n = Suc m" by (cases n) auto
    show "read_val n (render (JObj ms) @ r) = Some (tree (JObj ms), r)"
    proof (cases "ms = []")
      case False
      then have "read_members m (commas (map ?t ms) @ CHR ''}'' # r) = Some (map (\<lambda>(k, v). (k, tree v)) ms, r)" using l m v by (intro read_rows) auto
      then show ?thesis using h [OF False] by (simp add: m)
    qed (simp add: m)
  qed
next
  case (JNum x)
  then show ?case using num_text_tok by (intro reads_tok) simp_all
qed (auto intro!: reads_tok simp: dec_int_number json_tok_def)

section \<open>Properties\<close>

lemma doc_writes:
  assumes "ok_val (JObj ms)"
  shows "writes \<lparr>js_buf = buf, js_cap = length buf, js_pos = 0, js_overflow = False\<rparr> (''{'' @ commas (map (\<lambda>(k, v). quoted k @ '':'' @ render v) ms))
    (fold (\<lambda>(k, v) j. put_val v (cali_json_key k j)) ms (cali_json_begin buf (length buf)))"
proof -
  let ?j = "\<lparr>js_buf = buf, js_cap = length buf, js_pos = 0, js_overflow = False\<rparr>"
  let ?t = "\<lambda>(k, v). quoted k @ '':'' @ render v" and ?f = "\<lambda>(k, v) j. put_val v (cali_json_key k j)"
  have b: "writes ?j ''{'' (cali_json_begin buf (length buf))" by (simp add: cali_json_begin_def writes_ch json_ok_def)
  have sb: "started (cali_json_begin buf (length buf))"
    using b json_text_length [of "cali_json_begin buf (length buf)"] by (auto simp: started_def writes_def json_text_def)
  have o: "ok_val v" if "(k, v) \<in> set ms" for k v using assms that by (auto simp: list_all_iff)
  have r: "writes j (if ms = [] then [] else sep j @ commas (map ?t ms)) (fold ?f ms j)" if "started j" for j
    by (rule writes_row) (use that o writes_member writes_put render_last in \<open>fastforce+\<close>)
  show ?thesis
    by (rule writes_append [OF b r [OF sb]]) (use sep_open [of _ ?j "[]" "CHR ''{''"] b in \<open>auto simp: opener_def\<close>)
qed

text \<open>
  C34. A document written by the calls of the writer, nested as a tree, into a buffer of any size: when the
  reference text of the tree and its terminator fit, the call that ends the document returns its length and the buffer holds exactly
  that text with a NUL behind it; otherwise it returns -1. In no case is a byte written outside the buffer.
\<close>

theorem json_document_exact:
  assumes "ok_val (JObj ms)" and "json_doc buf ms = (rc, j)"
  shows "length (js_buf j) = length buf \<and>
    (if length (render (JObj ms)) < length buf
     then rc = int (length (render (JObj ms))) \<and> take (length (render (JObj ms)) + 1) (js_buf j) = render (JObj ms) @ [CHR 0x00]
     else rc = -1)"
proof -
  let ?start = "\<lparr>js_buf = buf, js_cap = length buf, js_pos = 0, js_overflow = False\<rparr>"
  let ?j = "fold (\<lambda>(k, v) j. put_val v (cali_json_key k j)) ms (cali_json_begin buf (length buf))"
  let ?s = "''{'' @ commas (map (\<lambda>(k, v). quoted k @ '':'' @ render v) ms)"
  note w = doc_writes [OF assms(1), of buf]
  note e = writes_ch [OF writes_ok [OF w], of "CHR ''}''"]
  have d: "writes ?start (render (JObj ms)) (ch (CHR ''}'') ?j)" using writes_append [OF w e refl] by simp
  have st: "js_overflow ?j \<Longrightarrow> ch (CHR ''}'') ?j = ?j" by (simp add: ch_def raw_def)
  have j: "j = ch (CHR ''}'') ?j" "rc = (if js_overflow j then -1 else int (js_pos j))"
    using assms(2) st by (auto simp: json_doc_def cali_json_end_def Let_def split: if_splits)
  have k: "json_ok j" "js_cap j = length buf" "js_overflow j \<longleftrightarrow> length (render (JObj ms)) \<ge> length buf"
      "\<not> js_overflow j \<Longrightarrow> json_text j = render (JObj ms)"
    using d unfolding j(1) [symmetric] by (simp_all add: writes_def json_text_def)
  show ?thesis
  proof (cases "js_overflow j")
    case True
    then show ?thesis using k j(2) by (simp add: json_ok_def)
  next
    case False
    then have p: "js_pos j = length (render (JObj ms))" using k(4) json_text_length [OF k(1)] by simp
    then have "0 < js_pos j" by simp
    then have n: "js_pos j < length (js_buf j)" "js_buf j ! js_pos j = CHR 0x00" using k(1,2) by (auto simp: json_ok_def)
    then have "take (js_pos j + 1) (js_buf j) = render (JObj ms) @ [CHR 0x00]"
      using k(4) False by (simp add: take_Suc_conv_app_nth json_text_def)
    then show ?thesis using k j(2) False p by (simp add: json_ok_def)
  qed
qed

definition demo_members :: "(string \<times> jval) list" where
  "demo_members = [(''v'', JArr [JInt (-12), JNum (Some ''21.50''), JNull]), (''s'', JStr [CHR 0x22, CHR 0x01])]"

theorem json_document_exact_witness:
  "fst (json_doc (replicate 64 (CHR 0x00)) demo_members) = 36 \<and> fst (json_doc (replicate 36 (CHR 0x00)) demo_members) = -1"
proof -
  have o: "ok_val (JObj demo_members)" by code_simp
  have l: "length (render (JObj demo_members)) = 36" by code_simp
  obtain j k rc rk where e: "json_doc (replicate 64 (CHR 0x00)) demo_members = (rc, j)" "json_doc (replicate 36 (CHR 0x00)) demo_members = (rk, k)"
    by (metis surj_pair)
  from json_document_exact [OF o e(1)] json_document_exact [OF o e(2)] show ?thesis unfolding l e by simp
qed

text \<open>
  C35. The text of every document is JSON: a reader of the JSON grammar accepts it with nothing left over and gets back
  the structure of the calls, every string and key with its original bytes, every number as a number of the grammar.
\<close>

theorem json_reads_back:
  assumes "ok_val (JObj ms)"
  shows "read_json (render (JObj ms)) = Some (tree (JObj ms))"
proof -
  have "read_val (length (render (JObj ms))) (render (JObj ms) @ []) = Some (tree (JObj ms), [])"
    using reads_render [OF assms] unfolding reads_def stops_def by blast
  then show ?thesis by (simp only: append_Nil2 read_json_def option.case prod.case list.case)
qed

theorem json_reads_back_witness:
  "read_json (render (JObj demo_members)) = Some (TObj [(''v'', TArr [TTok ''-12'', TTok ''21.5'', TTok ''null'']), (''s'', TStr [CHR 0x22, CHR 0x01])])"
proof -
  have o: "ok_val (JObj demo_members)" by code_simp
  have t: "tree (JObj demo_members) = TObj [(''v'', TArr [TTok ''-12'', TTok ''21.5'', TTok ''null'']), (''s'', TStr [CHR 0x22, CHR 0x01])]" by code_simp
  from json_reads_back [OF o] t show ?thesis by simp
qed

end
