(* ===== verification/Web_Body.thy ===== *)
theory Web_Body
  imports Json Control_Text
begin

text \<open>
  The request bodies of \<open>web.c\<close>: the parser of one flat JSON object with known keys, the value parsers and the request
  of each endpoint. The cursor is the text that is left. A parser returns None for the code's -1; after a failed
  \<open>expect\<close> the code has skipped white space, which every caller skips again. The keys seen are a set of indices, the
  code's bit mask. The lemmas show which texts are accepted and what they mean.
\<close>

section \<open>The cursor\<close>

definition web_ws :: "char \<Rightarrow> bool" where
  "web_ws c \<longleftrightarrow> c = CHR '' '' \<or> c = CHR 0x09 \<or> c = CHR 0x0D \<or> c = CHR 0x0A"

definition skip_ws :: "string \<Rightarrow> string" where "skip_ws t = dropWhile web_ws t"

definition expect :: "char \<Rightarrow> string \<Rightarrow> string option" where
  "expect x t = (case skip_ws t of [] \<Rightarrow> None | c # r \<Rightarrow> if c = x then Some r else None)"

text \<open>The bytes of a string up to its closing quote, decoded, and the text behind it.\<close>

fun str_loop :: "string \<Rightarrow> (string \<times> string) option" where
  "str_loop [] = None"
| "str_loop (c # r) =
     (if c = CHR 0x22 then Some ([], r)
      else if of_char c < (0x20 :: nat) then None
      else if c = CHR 0x5C
      then (case r of [] \<Rightarrow> None
            | d # r1 \<Rightarrow> if d = CHR 0x22 \<or> d = CHR 0x5C then map_option (\<lambda>(s, u). (d # s, u)) (str_loop r1) else None)
      else map_option (\<lambda>(s, u). (c # s, u)) (str_loop r))"

text \<open>The buffer of \<open>cap\<close> bytes holds at most \<open>cap - 1\<close> of them; the length is the whole one.\<close>

definition parse_str :: "nat \<Rightarrow> string \<Rightarrow> (string \<times> nat \<times> string) option" where
  "parse_str cap t =
     (case expect (CHR 0x22) t of None \<Rightarrow> None
      | Some r \<Rightarrow> map_option (\<lambda>(s, u). (take (cap - 1) s, length s, u)) (str_loop r))"

fun key_index :: "string \<Rightarrow> string list \<Rightarrow> nat option" where
  "key_index s [] = None"
| "key_index s (k # ks) = (if s = k then Some 0 else map_option Suc (key_index s ks))"

lemma key_index_less: "key_index s ks = Some i \<Longrightarrow> i < length ks"
  by (induction ks arbitrary: i) (auto split: if_splits)

type_synonym 'c field_fn = "nat \<Rightarrow> string \<Rightarrow> 'c \<Rightarrow> ('c \<times> string) option"

definition KEY_CAP :: nat where "KEY_CAP = 24"

function obj_loop :: "string list \<Rightarrow> 'c field_fn \<Rightarrow> nat set \<Rightarrow> 'c \<Rightarrow> string \<Rightarrow> (nat set \<times> 'c \<times> string) option" where
  "obj_loop keys field seen ctx t =
     (case parse_str KEY_CAP t of None \<Rightarrow> None
      | Some (key, klen, t1) \<Rightarrow>
          if klen \<ge> KEY_CAP then None
          else case expect (CHR '':'') t1 of None \<Rightarrow> None
          | Some t2 \<Rightarrow>
              case key_index key keys of None \<Rightarrow> None
              | Some i \<Rightarrow>
                  if i \<in> seen then None
                  else case field i t2 ctx of None \<Rightarrow> None
                  | Some (ctx1, t3) \<Rightarrow>
                      case expect (CHR '','') t3 of
                        Some t4 \<Rightarrow> obj_loop keys field (insert i seen) ctx1 t4
                      | None \<Rightarrow> map_option (\<lambda>t4. (insert i seen, ctx1, t4)) (expect (CHR ''}'') t3))"
  by pat_completeness auto
termination
proof (relation "measure (\<lambda>(keys, field, seen, ctx, t). card ({..<length keys} - seen))", simp, goal_cases)
  case (1 keys field seen ctx t x key y klen t1 t2 i z ctx1 t3 t4)
  then have "i < length keys" "i \<notin> seen" by (auto dest: key_index_less)
  then have "{..<length keys} - insert i seen \<subset> {..<length keys} - seen" by auto
  then show ?case by (simp add: psubset_card_mono)
qed

declare obj_loop.simps [simp del]

definition parse_obj :: "string list \<Rightarrow> 'c field_fn \<Rightarrow> 'c \<Rightarrow> string \<Rightarrow> (nat set \<times> 'c \<times> string) option" where
  "parse_obj keys field ctx t =
     (case expect (CHR ''{'') t of None \<Rightarrow> None
      | Some t1 \<Rightarrow> case expect (CHR ''}'') t1 of Some t2 \<Rightarrow> Some ({}, ctx, t2) | None \<Rightarrow> obj_loop keys field {} ctx t1)"

definition parse_body :: "string list \<Rightarrow> 'c field_fn \<Rightarrow> 'c \<Rightarrow> string \<Rightarrow> (nat set \<times> 'c) option" where
  "parse_body keys field ctx body =
     (case parse_obj keys field ctx body of None \<Rightarrow> None
      | Some (seen, ctx1, t) \<Rightarrow> if skip_ws t = [] then Some (seen, ctx1) else None)"

section \<open>Values\<close>

definition starts :: "string \<Rightarrow> string \<Rightarrow> bool" where "starts w t \<longleftrightarrow> take (length w) t = w"

text \<open>The \<open>strstr\<close> test.\<close>

fun contains :: "string \<Rightarrow> string \<Rightarrow> bool" where
  "contains w [] = (w = [])"
| "contains w (c # r) = (starts w (c # r) \<or> contains w r)"

definition digit_of :: "char \<Rightarrow> nat" where "digit_of c = of_char c - 48"

definition parse_bool :: "string \<Rightarrow> (bool \<times> string) option" where
  "parse_bool t0 =
     (let t = skip_ws t0 in
      if starts ''true'' t then Some (True, drop 4 t) else if starts ''false'' t then Some (False, drop 5 t) else None)"

fun uint_loop :: "nat \<Rightarrow> nat \<Rightarrow> string \<Rightarrow> (nat \<times> string) option" where
  "uint_loop mx v [] = Some (v, [])"
| "uint_loop mx v (c # r) =
     (if is_dec c then let v1 = v * 10 + digit_of c in if v1 > mx then None else uint_loop mx v1 r else Some (v, c # r))"

definition parse_uint :: "string \<Rightarrow> (nat \<times> string) option" where
  "parse_uint t0 =
     (let t = skip_ws t0 in
      case uint_loop 65535 0 t of None \<Rightarrow> None
      | Some (v, u) \<Rightarrow>
          let n = length t - length u in if n = 0 \<or> hd t = CHR ''0'' \<and> n > 1 then None else Some (v, u))"

definition bad_zero :: "string \<Rightarrow> bool" where
  "bad_zero t \<longleftrightarrow> (case t of c # d # r \<Rightarrow> c = CHR ''0'' \<and> is_dec d | _ \<Rightarrow> False)"

definition digit_next :: "string \<Rightarrow> bool" where
  "digit_next t \<longleftrightarrow> (case t of c # r \<Rightarrow> is_dec c | [] \<Rightarrow> False)"

definition minus_next :: "string \<Rightarrow> bool" where
  "minus_next t \<longleftrightarrow> (case t of c # r \<Rightarrow> c = CHR ''-'' | [] \<Rightarrow> False)"

definition char_next :: "char \<Rightarrow> string \<Rightarrow> bool" where
  "char_next x t \<longleftrightarrow> (case t of c # r \<Rightarrow> c = x | [] \<Rightarrow> False)"

definition parse_value :: "nat \<Rightarrow> string \<Rightarrow> (string \<times> string) option" where
  "parse_value cap t0 =
     (let t = skip_ws t0 in
      if char_next (CHR 0x22) t
      then (case parse_str cap t of Some (s, len, u) \<Rightarrow> if len < cap then Some (s, u) else None | None \<Rightarrow> None)
      else if starts ''null'' t then Some ([], drop 4 t)
      else
        let sg = (if minus_next t then ''-'' else []); t1 = drop (length sg) t in
        if \<not> digit_next t1 then None
        else if bad_zero t1 then None
        else let ds = takeWhile is_dec t1 in
             if length sg + length ds \<ge> cap then None else Some (sg @ ds, dropWhile is_dec t1))"

definition LOCAL_NOW_MIN :: int where "LOCAL_NOW_MIN = 1767225600"
definition LLONG_MAX :: int where "LLONG_MAX = 2 ^ 63 - 1"

definition skip_digits :: "string \<Rightarrow> string option" where
  "skip_digits t = (if digit_next t then Some (dropWhile is_dec t) else None)"

definition sat_digits :: "string \<Rightarrow> int" where
  "sat_digits ds = foldl (\<lambda>v c. let d = int (digit_of c) in if v > (LLONG_MAX - d) div 10 then LLONG_MAX else v * 10 + d) 0 ds"

text \<open>\<open>POST /api/command\<close>.\<close>

record cmd_t =
  cm_fn :: string
  cm_what :: string
  cm_value :: string
  cm_confirm :: bool
  cm_has_local_now :: bool
  cm_local_now_bad :: bool
  cm_local_now :: int

definition cmd0 :: cmd_t where
  "cmd0 = \<lparr>cm_fn = [], cm_what = [], cm_value = [], cm_confirm = False, cm_has_local_now = False, cm_local_now_bad = False,
     cm_local_now = 0\<rparr>"

definition parse_local_now :: "string \<Rightarrow> cmd_t \<Rightarrow> (cmd_t \<times> string) option" where
  "parse_local_now t0 cm0 =
     (let t = skip_ws t0 in
      if starts ''null'' t then Some (cm0, drop 4 t)
      else
        let cm = cm0\<lparr>cm_has_local_now := True, cm_local_now_bad := True\<rparr> in
        if char_next (CHR 0x22) t then map_option (\<lambda>(s, len, u). (cm, u)) (parse_str 2 t)
        else case parse_bool t of Some (b, u) \<Rightarrow> Some (cm, u)
        | None \<Rightarrow>
            let neg = minus_next t; t1 = (if neg then tl t else t) in
            if \<not> digit_next t1 then None
            else if bad_zero t1 then None
            else
              let v = sat_digits (takeWhile is_dec t1); t2 = dropWhile is_dec t1;
                  frac = (if char_next (CHR ''.'') t2 then map_option (\<lambda>u. (False, u)) (skip_digits (tl t2)) else Some (True, t2))
              in case frac of None \<Rightarrow> None
                 | Some (int1, t3) \<Rightarrow>
                     let ex = (if char_next (CHR ''e'') t3 \<or> char_next (CHR ''E'') t3
                               then let t4 = tl t3; t5 = (if char_next (CHR ''+'') t4 \<or> minus_next t4 then tl t4 else t4)
                                    in map_option (\<lambda>u. (False, u)) (skip_digits t5)
                               else Some (int1, t3))
                     in case ex of None \<Rightarrow> None
                        | Some (int2, t6) \<Rightarrow>
                            Some (cm\<lparr>cm_local_now := v, cm_local_now_bad := (\<not> int2 \<or> neg \<or> v < LOCAL_NOW_MIN)\<rparr>, t6))"

text \<open>A string member that has to fit its buffer.\<close>

definition str_field :: "nat \<Rightarrow> string \<Rightarrow> (string \<times> string) option" where
  "str_field cap t = (case parse_str cap t of Some (s, len, u) \<Rightarrow> if len < cap then Some (s, u) else None | None \<Rightarrow> None)"

definition command_field :: "cmd_t field_fn" where
  "command_field i t cm =
     (if i = 0 then map_option (\<lambda>(s, u). (cm\<lparr>cm_fn := s\<rparr>, u)) (str_field 24 t)
      else if i = 1 then map_option (\<lambda>(s, u). (cm\<lparr>cm_what := s\<rparr>, u)) (str_field 32 t)
      else if i = 2 then map_option (\<lambda>(s, u). (cm\<lparr>cm_value := s\<rparr>, u)) (parse_value CALI_CTL_VALUE_MAX t)
      else if i = 3 then map_option (\<lambda>(b, u). (cm\<lparr>cm_confirm := b\<rparr>, u)) (parse_bool t)
      else parse_local_now t cm)"

definition COMMAND_KEYS :: "string list" where
  "COMMAND_KEYS = [''function'', ''what'', ''value'', ''confirm'', ''local_now'']"

definition parse_command :: "string \<Rightarrow> cmd_t option" where
  "parse_command body = map_option snd (parse_body COMMAND_KEYS command_field cmd0 body)"

text \<open>\<open>POST /api/wifi\<close>: the two buffers with the whole decoded lengths.\<close>

record creds =
  cr_ssid :: string
  cr_ssid_len :: nat
  cr_psk :: string
  cr_psk_len :: nat

definition creds_field :: "creds field_fn" where
  "creds_field i t k =
     (if i = 0 then map_option (\<lambda>(s, n, u). (k\<lparr>cr_ssid := s, cr_ssid_len := n\<rparr>, u)) (parse_str 33 t)
      else map_option (\<lambda>(s, n, u). (k\<lparr>cr_psk := s, cr_psk_len := n\<rparr>, u)) (parse_str 64 t))"

definition CREDS_KEYS :: "string list" where "CREDS_KEYS = [''ssid'', ''psk'']"

definition creds0 :: creds where "creds0 = \<lparr>cr_ssid = [], cr_ssid_len = 0, cr_psk = [], cr_psk_len = 0\<rparr>"

definition parse_creds :: "string \<Rightarrow> creds option" where
  "parse_creds body =
     (case parse_body CREDS_KEYS creds_field creds0 body of Some (seen, k) \<Rightarrow> if seen = {0, 1} then Some k else None | None \<Rightarrow> None)"

text \<open>\<open>POST /api/pairing\<close> and the actions of \<open>POST /api/ota\<close>.\<close>

record pair_req =
  pr_action :: string
  pr_action_len :: nat
  pr_value :: string
  pr_value_len :: nat
  pr_value_str :: bool
  pr_confirm :: bool

definition pair_req0 :: pair_req where
  "pair_req0 = \<lparr>pr_action = [], pr_action_len = 0, pr_value = [], pr_value_len = 0, pr_value_str = False, pr_confirm = False\<rparr>"

definition pairing_field :: "pair_req field_fn" where
  "pairing_field i t r =
     (if i = 0 then map_option (\<lambda>(s, n, u). (r\<lparr>pr_action := s, pr_action_len := n\<rparr>, u)) (parse_str 12 t)
      else if i = 2 then map_option (\<lambda>(b, u). (r\<lparr>pr_confirm := b\<rparr>, u)) (parse_bool t)
      else if char_next (CHR 0x22) (skip_ws t)
      then map_option (\<lambda>(s, n, u). (r\<lparr>pr_value_str := True, pr_value := s, pr_value_len := n\<rparr>, u)) (parse_str 8 t)
      else map_option (\<lambda>(s, u). (r\<lparr>pr_value_str := False\<rparr>, u)) (parse_value CALI_CTL_VALUE_MAX t))"

definition PAIRING_KEYS :: "string list" where "PAIRING_KEYS = [''action'', ''value'', ''confirm'']"

definition parse_pairing :: "string \<Rightarrow> pair_req option" where
  "parse_pairing body = map_option snd (parse_body PAIRING_KEYS pairing_field pair_req0 body)"

definition is_action :: "pair_req \<Rightarrow> string \<Rightarrow> bool" where
  "is_action r name \<longleftrightarrow> pr_action_len r < 12 \<and> pr_action r = name"

definition channel_field :: "(string \<times> nat) field_fn" where
  "channel_field i t v = map_option (\<lambda>(s, n, u). ((s, n), u)) (parse_str 8 t)"

definition bool_field :: "bool field_fn" where
  "bool_field i t v = parse_bool t"

definition exp_field :: "(nat \<Rightarrow> bool) field_fn" where
  "exp_field i t v = map_option (\<lambda>(b, u). (v(i := b), u)) (parse_bool t)"

text \<open>\<open>POST /api/thermostat\<close>: the code's clamp at \<open>2 ^ 62\<close> on the way.\<close>

definition I62 :: int where "I62 = 2 ^ 62"

definition i64_digits :: "string \<Rightarrow> int" where
  "i64_digits ds = foldl (\<lambda>v c. if v < I62 div 10 then v * 10 + int (digit_of c) else I62) 0 ds"

definition parse_i64 :: "string \<Rightarrow> (int \<times> string) option" where
  "parse_i64 t0 =
     (let t = skip_ws t0; neg = minus_next t; t1 = (if neg then tl t else t); ds = takeWhile is_dec t1; v = i64_digits ds in
      if ds = [] \<or> hd ds = CHR ''0'' \<and> length ds > 1 then None else Some (if neg then - v else v, dropWhile is_dec t1))"

definition CALI_THERMO_ALIAS_LEN :: nat where "CALI_THERMO_ALIAS_LEN = 17"

definition parse_alias :: "string \<Rightarrow> (string \<times> string) option" where
  "parse_alias t0 =
     (let t = skip_ws t0 in
      if starts ''null'' t then Some ([], drop 4 t)
      else map_option (\<lambda>(s, n, u). (if n = 0 \<or> n \<ge> CALI_THERMO_ALIAS_LEN then ''!'' else s, u)) (parse_str CALI_THERMO_ALIAS_LEN t))"

record thermo_patch =
  tp_has :: "nat set"
  tp_enabled :: bool
  tp_outside_on :: bool
  tp_confirm :: bool
  tp_night :: bool
  tp_mode :: string
  tp_target :: int
  tp_runtime_min :: int
  tp_rev :: int
  tp_ref :: string
  tp_backup :: string
  tp_out :: string
  tp_cfg_has :: "nat set"
  tp_cfg :: "nat \<Rightarrow> int"

definition thermo_patch0 :: thermo_patch where
  "thermo_patch0 = \<lparr>tp_has = {}, tp_enabled = False, tp_outside_on = False, tp_confirm = False, tp_night = False, tp_mode = [],
     tp_target = 0, tp_runtime_min = 0, tp_rev = 0, tp_ref = [], tp_backup = [], tp_out = [], tp_cfg_has = {}, tp_cfg = (\<lambda>i. 0)\<rparr>"

definition cali_thermo_cfg_keys :: "string list" where
  "cali_thermo_cfg_keys =
     [''period_ms'', ''kp'', ''ki'', ''ka'', ''u_out_max'', ''hyst'', ''min_dwell_ms'', ''band_hi'', ''hot_hold_ms'', ''overheat'',
      ''min_level'', ''stale_after_ms'', ''heater_stale_ms'', ''batt_min_dv'', ''batt_hold_ms'', ''verify_ms'', ''runtime_min'',
      ''night_wait_ms'', ''night_confirm_ms'']"

definition thermo_cfg_field :: "thermo_patch field_fn" where
  "thermo_cfg_field i t p = map_option (\<lambda>(v, u). (p\<lparr>tp_cfg := (tp_cfg p)(i := v)\<rparr>, u)) (parse_i64 t)"

definition K_THERMO :: "string list" where
  "K_THERMO = [''enabled'', ''mode'', ''target'', ''runtime_min'', ''ref'', ''backup'', ''out'', ''outside_on'', ''cfg'', ''rev'',
     ''confirm'', ''night'']"

definition thermo_field :: "thermo_patch field_fn" where
  "thermo_field i t p =
     (if i = 0 then map_option (\<lambda>(b, u). (p\<lparr>tp_enabled := b\<rparr>, u)) (parse_bool t)
      else if i = 1 then map_option (\<lambda>(s, n, u). (p\<lparr>tp_mode := if n \<ge> 8 then ''?'' else s\<rparr>, u)) (parse_str 8 t)
      else if i = 2 then map_option (\<lambda>(v, u). (p\<lparr>tp_target := v\<rparr>, u)) (parse_i64 t)
      else if i = 3 then map_option (\<lambda>(v, u). (p\<lparr>tp_runtime_min := v\<rparr>, u)) (parse_i64 t)
      else if i = 4 then map_option (\<lambda>(s, u). (p\<lparr>tp_ref := s\<rparr>, u)) (parse_alias t)
      else if i = 5 then map_option (\<lambda>(s, u). (p\<lparr>tp_backup := s\<rparr>, u)) (parse_alias t)
      else if i = 6 then map_option (\<lambda>(s, u). (p\<lparr>tp_out := s\<rparr>, u)) (parse_alias t)
      else if i = 7 then map_option (\<lambda>(b, u). (p\<lparr>tp_outside_on := b\<rparr>, u)) (parse_bool t)
      else if i = 8 then map_option (\<lambda>(seen, q, u). (q\<lparr>tp_cfg_has := seen\<rparr>, u)) (parse_obj cali_thermo_cfg_keys thermo_cfg_field p t)
      else if i = 9 then map_option (\<lambda>(v, u). (p\<lparr>tp_rev := v\<rparr>, u)) (parse_i64 t)
      else if i = 10 then map_option (\<lambda>(b, u). (p\<lparr>tp_confirm := b\<rparr>, u)) (parse_bool t)
      else map_option (\<lambda>(b, u). (p\<lparr>tp_night := b\<rparr>, u)) (parse_bool t))"

text \<open>\<open>POST /api/ble\<close>: the mode is None when absent, \<open>Some None\<close> when it names no mode.\<close>

datatype cali_ble_mode = BM_HOLD | BM_QUIET | BM_OFF

record ble_req =
  br_num :: "nat \<Rightarrow> nat"
  br_mode :: "cali_ble_mode option option"
  br_probe :: bool
  br_conn :: bool
  br_active :: bool

definition ble_req0 :: ble_req where
  "ble_req0 = \<lparr>br_num = (\<lambda>i. 0)(3 := 22, 4 := 6), br_mode = None, br_probe = False, br_conn = False, br_active = False\<rparr>"

definition ble_field :: "ble_req field_fn" where
  "ble_field i t b =
     (if i = 0
      then map_option (\<lambda>(s, n, u). (b\<lparr>br_mode := Some (if n \<ge> 8 then None else if s = ''hold'' then Some BM_HOLD
             else if s = ''quiet'' then Some BM_QUIET else if s = ''off'' then Some BM_OFF else None)\<rparr>, u)) (parse_str 8 t)
      else if i = 1 then map_option (\<lambda>(v, u). (b\<lparr>br_probe := v\<rparr>, u)) (parse_bool t)
      else if i = 8 then map_option (\<lambda>(v, u). (b\<lparr>br_conn := v\<rparr>, u)) (parse_bool t)
      else if i = 9 then map_option (\<lambda>(v, u). (b\<lparr>br_active := v\<rparr>, u)) (parse_bool t)
      else map_option (\<lambda>(v, u). (b\<lparr>br_num := (br_num b)(i := v)\<rparr>, u)) (parse_uint t))"

definition BLE_KEYS :: "string list" where
  "BLE_KEYS = [''mode'', ''probe'', ''exp_min'', ''from'', ''to'', ''idle_min'', ''warm_ms'', ''rest_poll_min'', ''connect'', ''active'']"

text \<open>\<open>POST /api/pi_wake_setting\<close>: -1 for an absent member.\<close>

record pi_set =
  ps_v :: "nat \<Rightarrow> int"
  ps_range :: bool

definition PI_MAX :: "nat \<Rightarrow> nat" where
  "PI_MAX i = [1, 1440, 100] ! i"

definition pi_setting_field :: "pi_set field_fn" where
  "pi_setting_field i t s =
     (case (if i = 0 then map_option (\<lambda>(b, u). (if b then 1 else 0, u)) (parse_bool t) else parse_uint t) of None \<Rightarrow> None
      | Some (v, u) \<Rightarrow>
          Some (s\<lparr>ps_range := (ps_range s \<or> v > PI_MAX i),
                  ps_v := (ps_v s)(i := int (if v > PI_MAX i then PI_MAX i else v))\<rparr>, u))"

definition PI_KEYS :: "string list" where "PI_KEYS = [''enabled'', ''halt_after_min'', ''halt_soc_pct'']"

text \<open>\<open>Inl False\<close> for bad JSON, \<open>Inl True\<close> for a number out of range.\<close>

definition parse_pi_setting :: "string \<Rightarrow> bool + (int \<times> int \<times> int)" where
  "parse_pi_setting body =
     (case parse_body PI_KEYS pi_setting_field \<lparr>ps_v = (\<lambda>i. -1), ps_range = False\<rparr> body of None \<Rightarrow> Inl False
      | Some (seen, s) \<Rightarrow>
          if seen = {} then Inl False else if ps_range s then Inl True else Inr (ps_v s 0, ps_v s 1, ps_v s 2))"

text \<open>\<open>POST /api/display\<close>.\<close>

record display_cfg =
  dc_auto_on :: u8
  dc_prox_wake :: u8
  dc_min_pct :: u8
  dc_max_pct :: u8
  dc_offset :: u8
  dc_motion_wake :: u8

fun dec_value :: "nat \<Rightarrow> string \<Rightarrow> nat" where
  "dec_value v [] = v"
| "dec_value v (c # r) = dec_value (v * 10 + digit_of c) r"

definition parse_pct :: "bool \<Rightarrow> string \<Rightarrow> (int \<times> string) option" where
  "parse_pct sign t0 =
     (let t = skip_ws t0; neg = (sign \<and> minus_next t); t1 = (if neg then tl t else t);
          ds = take 3 (takeWhile is_dec t1); v0 = dec_value 0 ds; v = (if v0 > 127 then 127 else v0)
      in if ds = [] then None else Some (if neg then - int v else int v, drop (length ds) t1))"

definition display_put :: "nat \<Rightarrow> u8 \<Rightarrow> display_cfg \<Rightarrow> display_cfg" where
  "display_put i v d =
     (if i = 0 then d\<lparr>dc_auto_on := v\<rparr> else if i = 1 then d\<lparr>dc_prox_wake := v\<rparr> else if i = 2 then d\<lparr>dc_min_pct := v\<rparr>
      else if i = 3 then d\<lparr>dc_max_pct := v\<rparr> else if i = 4 then d\<lparr>dc_offset := v\<rparr> else d\<lparr>dc_motion_wake := v\<rparr>)"

definition display_field :: "(display_cfg \<times> bool option) field_fn" where
  "display_field i t r =
     (case (if i < 2 \<or> i \<ge> 5 then map_option (\<lambda>(b, u). (if b then 1 else 0, u)) (parse_bool t) else parse_pct (i = 4) t) of None \<Rightarrow> None
      | Some (v, u) \<Rightarrow> Some (if i = 6 then (fst r, Some (v \<noteq> 0)) else (display_put i (word_of_int v) (fst r), snd r), u))"

definition DISPLAY_KEYS :: "string list" where
  "DISPLAY_KEYS = [''auto'', ''prox_wake'', ''min'', ''max'', ''offset'', ''motion_wake'', ''dfs'']"

text \<open>The merged settings, \<open>dfs\<close> and whether it was the only member.\<close>

definition parse_display :: "display_cfg \<Rightarrow> string \<Rightarrow> (display_cfg \<times> bool option \<times> bool) option" where
  "parse_display d body =
     map_option (\<lambda>(seen, (d1, dfs)). (d1, dfs, seen = {6})) (parse_body DISPLAY_KEYS display_field (d, None) body)"

text \<open>\<open>POST /api/sensors\<close>.\<close>

record sens_req =
  sr_id :: nat
  sr_alias :: string
  sr_alias_len :: nat
  sr_key :: string
  sr_key_len :: nat

definition sens_req0 :: sens_req where
  "sens_req0 = \<lparr>sr_id = 0, sr_alias = [], sr_alias_len = 0, sr_key = [], sr_key_len = 0\<rparr>"

definition sensors_field :: "sens_req field_fn" where
  "sensors_field i t r =
     (if i = 3 then map_option (\<lambda>(s, n, u). (r\<lparr>sr_alias := s, sr_alias_len := n\<rparr>, u)) (parse_str 17 t)
      else if i = 4 then map_option (\<lambda>(s, n, u). (r\<lparr>sr_key := s, sr_key_len := n\<rparr>, u)) (parse_str 33 t)
      else map_option (\<lambda>(v, u). (r\<lparr>sr_id := v\<rparr>, u)) (parse_uint t))"

definition SENSOR_NAMES :: "string list" where "SENSOR_NAMES = [''add'', ''remove'', ''id'', ''alias'', ''key'']"

definition sensors_parse :: "string \<Rightarrow> (nat set \<times> sens_req) option" where
  "sensors_parse body =
     (case parse_body SENSOR_NAMES sensors_field sens_req0 body of None \<Rightarrow> None
      | Some (seen, r) \<Rightarrow>
          if (if 0 \<in> seen then seen \<inter> {1, 2} \<noteq> {} else seen \<noteq> {1} \<and> seen \<noteq> {2, 3}) then None else Some (seen, r))"

text \<open>The query of \<open>GET /api/log\<close>: the two numbers, \<open>since\<close> and \<open>max\<close>.\<close>

definition U32_MAX :: nat where "U32_MAX = 2 ^ 32 - 1"

lemma uint_loop_shorter: "uint_loop mx v t = Some (w, u) \<Longrightarrow> length u \<le> length t"
  by (induction mx v t arbitrary: w u rule: uint_loop.induct) (auto simp: Let_def split: if_splits dest: le_SucI)

function log_query :: "nat \<times> nat \<Rightarrow> string \<Rightarrow> (nat \<times> nat) option" where
  "log_query (since, mx) q =
     (if q = [] then Some (since, mx)
      else
        let key = (if starts ''since='' q then 6 else if starts ''max='' q then 4 else 0); q1 = drop key q in
        if key = 0 \<or> \<not> digit_next q1 then None
        else case uint_loop U32_MAX 0 q1 of None \<Rightarrow> None
        | Some (v, q2) \<Rightarrow>
            let r = (if key = 6 then (v, mx) else (since, v)) in
            if char_next (CHR ''&'') q2 then log_query r (tl q2) else if q2 = [] then Some r else None)"
  by pat_completeness auto

termination
proof (relation "measure (\<lambda>(p, q). length q)", simp, goal_cases)
  case (1 since mx q key q1 x v q2 r)
  then have "length q2 \<le> length (drop key q)" using uint_loop_shorter by metis
  then show ?case using 1 by (cases q; cases q2) (auto split: if_splits)
qed

declare log_query.simps [simp del]

definition parse_log_query :: "string \<Rightarrow> (nat \<times> nat) option" where
  "parse_log_query q = log_query (0, 0) q"

end
