(* ===== verification/Auto_Camper_Run.thy ===== *)
theory Auto_Camper_Run
  imports Auto_Camper Control_Run
begin

text \<open>
  The driver of the camping restore, \<open>auto_camper_run.c\<close>: the inputs of a step read from this link's frames, the
  debt stored in the key-value store, the switch, and the restore chain (master, then USB and lights, one
  command at a time). The store's answers and the sequencer's answer to a submit are inputs; the submits and the
  stored bytes are effects. \<open>chain_done\<close> is the sequencer's completion callback.
\<close>

section \<open>Data\<close>

definition STATE_LEN :: nat where "STATE_LEN = 10"
definition CALI_AC_ON_KEY :: string where "CALI_AC_ON_KEY = ''ac_on''"
definition CALI_AC_STATE_KEY :: string where "CALI_AC_STATE_KEY = ''ac_state''"

record ac_run =
  ar_S :: cali_ac_state
  ar_on :: bool
  ar_resume :: bool
  ar_step_ms :: u32
  ar_next :: u64
  ar_saved :: "u8 list"
  ar_chain :: "string list"
  ar_i :: nat
  ar_wait :: bool
  ar_until :: u64
  ar_now :: u64

definition ac_run_boot :: ac_run where
  "ac_run_boot =
     \<lparr>ar_S = ac_init_state, ar_on = True, ar_resume = False, ar_step_ms = CALI_AC_STEP_MS, ar_next = 0, ar_saved = replicate STATE_LEN 0,
      ar_chain = [], ar_i = 0, ar_wait = False, ar_until = 0, ar_now = 0\<rparr>"

text \<open>The effects: a submit with whether it was accepted, its acknowledged or failed end, a chain begun or dropped, a value stored.\<close>

datatype ar_eff = Ar_submit string bool | Ar_acked | Ar_failed | Ar_chain "string list" | Ar_dropped | Ar_kv string "u8 list"

section \<open>Inputs from the frames\<close>

definition frame_fields :: "ctl_session \<Rightarrow> string \<Rightarrow> codec_kv list" where
  "frame_fields se fn =
     (case (index_of fn, codec_func_by_name fn) of
        (Some i, Some f) \<Rightarrow> (case se_frame_live se i of Some frame \<Rightarrow> codec_decode f frame | None \<Rightarrow> [])
      | _ \<Rightarrow> [])"

definition ac_field :: "codec_kv list \<Rightarrow> string \<Rightarrow> int" where
  "ac_field kvs name = (case find (\<lambda>k. kv_name k = name) kvs of Some k \<Rightarrow> sint (kv_value k) | None \<Rightarrow> -1)"

definition cali_ac_ignition :: "ctl_session \<Rightarrow> int" where
  "cali_ac_ignition se =
     (let t15 = ac_field (frame_fields se ''vehicle'') ''TerminalOneFive''; en = ac_field (frame_fields se ''campingmode'') ''Enable''
      in if t15 < 0 \<and> en < 0 then -1 else b2i (t15 > 0 \<or> en > 0))"

definition ac_inputs :: "ctl_session \<Rightarrow> u64 \<Rightarrow> cali_ac_in" where
  "ac_inputs se now =
     (let c = frame_fields se ''campingmode''; e = frame_fields se ''energy''; lvl = ac_field e ''SocTwoBattAfs'';
          state = ac_field c ''State''; master = (if state > 0 then 1 else state);
          usb = b2i (ac_field c ''UsbCharger'' > 0);
          lights = b2i (master > 0 \<and> ac_field c ''InteriorLight'' = 0 \<and> ac_field c ''OutsideLight'' = 0)
      in \<lparr>in_ign = cali_ac_ignition se, in_master = master, in_usb = (if master < 0 then -1 else usb),
          in_lights = (if master < 0 then -1 else lights), in_soc = (if lvl \<ge> 0 \<and> lvl \<le> 10 then lvl * 10 else -1),
          in_warning = b2i (ac_field e ''SleepWarning'' > 0 \<or> ac_field e ''WarningLevelActive'' > 0 \<or> ac_field e ''WarningLevelTwo'' \<ge> 1),
          in_now = uint now\<rparr>)"

section \<open>The stored debt\<close>

definition pack :: "ac_run \<Rightarrow> u8 list" where
  "pack r =
     (let S = ar_S r in
      [word_of_int (ac_owe S), word_of_int (ac_pre S), word_of_int (ac_pre_usb S), word_of_int (ac_pre_lights S),
       (if ac_until S \<ge> 0 \<or> ar_resume r then 1 else 0), word_of_int (if ac_fails S > 255 then 255 else ac_fails S),
       word_of_int (ac_prev_ign S + 1), word_of_int (ac_prev_master S + 1), word_of_int (ac_prev_usb S + 1),
       word_of_int (ac_prev_lights S + 1)])"

definition save :: "bool \<Rightarrow> ac_run \<Rightarrow> bool \<times> ac_run \<times> ar_eff list" where
  "save kv_ok r =
     (let b = pack r in
      if b = ar_saved r then (True, r, [])
      else if \<not> kv_ok then (False, r, [])
      else (True, r\<lparr>ar_saved := b\<rparr>, [Ar_kv CALI_AC_STATE_KEY b]))"

definition cali_ac_init :: "(string \<Rightarrow> u8 list option) \<Rightarrow> ac_run \<Rightarrow> ac_run" where
  "cali_ac_init kv_get r =
     (let r1 = (case kv_get CALI_AC_ON_KEY of Some b \<Rightarrow> if length b = 1 then r\<lparr>ar_on := (b ! 0 \<noteq> 0)\<rparr> else r | None \<Rightarrow> r)
      in case kv_get CALI_AC_STATE_KEY of
           None \<Rightarrow> r1
         | Some b \<Rightarrow>
             if length b \<noteq> STATE_LEN then r1
             else r1\<lparr>ar_S := \<lparr>ac_owe = uint (b ! 0), ac_pre = uint (b ! 1), ac_pre_usb = uint (b ! 2), ac_pre_lights = uint (b ! 3),
                              ac_until = -1, ac_fails = uint (b ! 5), ac_prev_ign = uint (b ! 6) - 1, ac_prev_master = uint (b ! 7) - 1,
                              ac_prev_usb = uint (b ! 8) - 1, ac_prev_lights = uint (b ! 9) - 1\<rparr>,
                     ar_resume := (b ! 4 \<noteq> 0 \<and> b ! 0 \<noteq> 0), ar_saved := b\<rparr>)"

definition cali_ac_owed :: "ac_run \<Rightarrow> bool" where
  "cali_ac_owed r \<longleftrightarrow> ac_owe (ar_S r) \<noteq> 0"

definition cali_ac_set_enabled :: "bool \<Rightarrow> bool \<Rightarrow> bool \<Rightarrow> ac_run \<Rightarrow> ac_run \<times> ar_eff list" where
  "cali_ac_set_enabled on kv_state_ok kv_on_ok r =
     (let clear = (\<not> on \<or> \<not> ar_on r);
          r1 = (if clear then r\<lparr>ar_S := (ar_S r)\<lparr>ac_owe := 0, ac_until := -1, ac_fails := 0\<rparr>, ar_resume := False, ar_chain := []\<rparr> else r);
          (ok, r2, e2) = save kv_state_ok (r1\<lparr>ar_on := on\<rparr>)
      in (r2, (if clear then [Ar_dropped] else []) @ e2 @ (if ok \<and> kv_on_ok then [Ar_kv CALI_AC_ON_KEY [if on then 1 else 0]] else [])))"

definition cali_ac_set_step_ms :: "u32 \<Rightarrow> ac_run \<Rightarrow> ac_run" where
  "cali_ac_set_step_ms ms r = r\<lparr>ar_step_ms := ms, ar_next := 0\<rparr>"

section \<open>The restore chain\<close>

definition chain_done :: "cali_ctl_rc \<Rightarrow> ac_run \<Rightarrow> ac_run \<times> ar_eff list" where
  "chain_done result r =
     (let r1 = r\<lparr>ar_wait := False\<rparr> in
      if result = CALI_CTL_OK then (r1\<lparr>ar_i := ar_i r1 + 1, ar_until := ar_now r1 + ucast (ar_step_ms r1)\<rparr>, [Ar_acked])
      else (r1\<lparr>ar_chain := []\<rparr>, [Ar_failed]))"

definition chain_tick :: "(string \<Rightarrow> cali_ctl_rc) \<Rightarrow> ac_run \<Rightarrow> ac_run \<times> ar_eff list" where
  "chain_tick ctl_submit r =
     (if ar_wait r \<or> ar_i r \<ge> length (ar_chain r) then (r, [])
      else
        let w = ar_chain r ! ar_i r; rc = ctl_submit w in
        if rc = CALI_CTL_PENDING then (r\<lparr>ar_wait := True\<rparr>, [Ar_submit w True])
        else if \<not> (rc = CALI_CTL_BUSY \<or> rc = CALI_CTL_NOT_READY \<or> rc = CALI_CTL_REFUSED) \<or> ar_now r \<ge> ar_until r
        then (r\<lparr>ar_chain := []\<rparr>, [Ar_submit w False, Ar_dropped])
        else (r, [Ar_submit w False]))"

definition ac_chain :: "cali_ac_state \<Rightarrow> string list" where
  "ac_chain S =
     [''master''] @ (if ac_pre S \<noteq> 0 \<and> ac_pre_usb S \<noteq> 0 then [''usb''] else []) @
     (if ac_pre S \<noteq> 0 \<and> ac_pre_lights S \<noteq> 0 then [''lights''] else [])"

definition ac_track :: "cali_ac_in \<Rightarrow> cali_ac_state \<Rightarrow> cali_ac_state" where
  "ac_track i S =
     (let S1 = (if in_ign i \<ge> 0 then S\<lparr>ac_prev_ign := in_ign i\<rparr> else S)
      in if in_master i \<ge> 0 then S1\<lparr>ac_prev_master := in_master i, ac_prev_usb := in_usb i, ac_prev_lights := in_lights i\<rparr> else S1)"

definition ac_run_step :: "ctl_session \<Rightarrow> bool \<Rightarrow> u64 \<Rightarrow> ac_run \<Rightarrow> ac_run \<times> ar_eff list" where
  "ac_run_step se kv_ok now r =
     (let i = ac_inputs se now in
      if \<not> ar_on r then snd (save kv_ok (r\<lparr>ar_S := ac_track i (ar_S r)\<rparr>))
      else
        let S = (if ar_resume r \<and> ac_owe (ar_S r) \<noteq> 0 then (ar_S r)\<lparr>ac_until := in_now i + cfg_window ac_cfg\<rparr> else ar_S r);
            (S', out) = cali_ac_decide i ac_cfg S;
            r1 = r\<lparr>ar_S := S', ar_resume := False\<rparr>;
            r2 = (if out_actuate out \<noteq> 0
                  then r1\<lparr>ar_chain := ac_chain S', ar_i := 0, ar_wait := False, ar_until := now + ucast (ar_step_ms r1)\<rparr> else r1);
            (r3, e3) = snd (save kv_ok r2)
        in (r3, (if out_actuate out \<noteq> 0 then [Ar_chain (ac_chain S')] else []) @ e3))"

definition cali_ac_tick :: "ctl_session \<Rightarrow> (string \<Rightarrow> cali_ctl_rc) \<Rightarrow> bool \<Rightarrow> u64 \<Rightarrow> ac_run \<Rightarrow> ac_run \<times> ar_eff list" where
  "cali_ac_tick se ctl_submit kv_ok now r =
     (let (r1, e1) = chain_tick ctl_submit (r\<lparr>ar_now := now\<rparr>) in
      if ar_i r1 < length (ar_chain r1) \<or> now < ar_next r1 \<or> \<not> se_ready se then (r1, e1)
      else let (r2, e2) = ac_run_step se kv_ok now (r1\<lparr>ar_next := now + ucast (ar_step_ms r1)\<rparr>) in (r2, e1 @ e2))"

datatype ar_in = Ar_tick ctl_session "string \<Rightarrow> cali_ctl_rc" bool u64 | Ar_done cali_ctl_rc | Ar_set_enabled bool bool bool | Ar_step_ms u32

fun ar_do :: "ac_run \<Rightarrow> ar_in \<Rightarrow> ac_run \<times> ar_eff list" where
  "ar_do r (Ar_tick se ctl_submit kv_ok now) = cali_ac_tick se ctl_submit kv_ok now r"
| "ar_do r (Ar_done result) = chain_done result r"
| "ar_do r (Ar_set_enabled on a b) = cali_ac_set_enabled on a b r"
| "ar_do r (Ar_step_ms ms) = (cali_ac_set_step_ms ms r, [])"

section \<open>The stages keep each other's state\<close>

lemma save_frame [simp]:
  "ar_S (fst (snd (save ok r))) = ar_S r" "ar_on (fst (snd (save ok r))) = ar_on r" "ar_chain (fst (snd (save ok r))) = ar_chain r"
  "ar_i (fst (snd (save ok r))) = ar_i r" "ar_wait (fst (snd (save ok r))) = ar_wait r" "ar_resume (fst (snd (save ok r))) = ar_resume r"
  by (simp_all add: save_def Let_def)

lemma save_effects: "snd (snd (save ok r)) = [] \<or> snd (snd (save ok r)) = [Ar_kv CALI_AC_STATE_KEY (pack r)]"
  by (simp add: save_def Let_def)

lemma ac_run_step_off:
  assumes "\<not> ar_on r"
  shows "ac_run_step se ok now r = snd (save ok (r\<lparr>ar_S := ac_track (ac_inputs se now) (ar_S r)\<rparr>))"
  using assms by (simp add: ac_run_step_def Let_def)

lemma chain_tick_frame: "ar_on (fst (chain_tick f r)) = ar_on r" "ar_S (fst (chain_tick f r)) = ar_S r"
  by (simp_all add: chain_tick_def Let_def)

section \<open>Switched off\<close>

text \<open>Switched off there is no chain, so nothing is submitted and no debt is owed.\<close>

definition ar_idle :: "ac_run \<Rightarrow> bool" where
  "ar_idle r \<longleftrightarrow> \<not> ar_on r \<and> ar_chain r = [] \<and> \<not> cali_ac_owed r \<and> \<not> ar_resume r"

fun enables :: "ar_in \<Rightarrow> bool" where
  "enables (Ar_set_enabled on a b) = on"
| "enables _ = False"

fun is_submit :: "ar_eff \<Rightarrow> bool" where
  "is_submit (Ar_submit w ok) = True"
| "is_submit (Ar_chain ws) = True"
| "is_submit _ = False"

lemma save_quiet: "list_all (\<lambda>e. \<not> is_submit e) (snd (snd (save ok r)))"
  using save_effects [of ok r] by auto

lemma ar_idle_off: "ar_idle (fst (cali_ac_set_enabled False a b r))"
  "list_all (\<lambda>e. \<not> is_submit e) (snd (cali_ac_set_enabled False a b r))"
  using save_quiet [of a] by (simp_all add: cali_ac_set_enabled_def Let_def split_beta ar_idle_def cali_ac_owed_def)

lemma ac_track_owe [simp]: "ac_owe (ac_track i S) = ac_owe S"
  by (simp add: ac_track_def Let_def)

lemma ar_idle_step:
  assumes "ar_idle r" and "\<not> enables e"
  shows "ar_idle (fst (ar_do r e)) \<and> list_all (\<lambda>x. \<not> is_submit x) (snd (ar_do r e))"
proof (cases e)
  case (Ar_tick se f ok now)
  let ?r1 = "r\<lparr>ar_now := now\<rparr>"
  have t: "chain_tick f ?r1 = (?r1, [])" using assms(1) by (simp add: chain_tick_def ar_idle_def)
  show ?thesis using assms(1) save_quiet [of ok]
    by (simp add: Ar_tick cali_ac_tick_def t ac_run_step_off ar_idle_def split_beta cali_ac_owed_def)
qed (use assms ar_idle_off in \<open>auto simp: ar_idle_def chain_done_def cali_ac_set_step_ms_def cali_ac_owed_def Let_def\<close>)

section \<open>The order of a chain\<close>

text \<open>
  What an observer of the effects may see: a chain begins with the master switch; the next entry is submitted
  only when nothing submitted is still unanswered, an accepted submit waits for its answer, an acknowledgement
  moves on to the next entry, a failure or a switch-off forgets the rest.
\<close>

type_synonym chain_view = "(string list \<times> bool) option"

fun view :: "chain_view \<Rightarrow> ar_eff \<Rightarrow> chain_view" where
  "view None _ = None"
| "view (Some (todo, out)) (Ar_chain ws) = (if ws \<noteq> [] \<and> hd ws = ''master'' \<and> todo = [] then Some (ws, False) else None)"
| "view (Some (todo, out)) (Ar_submit w ok) = (if \<not> out \<and> todo \<noteq> [] \<and> hd todo = w then Some (todo, ok) else None)"
| "view (Some (todo, out)) Ar_acked = (if out then Some (tl todo, False) else None)"
| "view (Some (todo, out)) Ar_failed = (if out then Some ([], False) else None)"
| "view (Some (todo, out)) Ar_dropped = Some ([], out)"
| "view (Some (todo, out)) (Ar_kv k b) = Some (todo, out)"

definition ar_view :: "ac_run \<Rightarrow> chain_view" where
  "ar_view r = Some (drop (ar_i r) (ar_chain r), ar_wait r)"

text \<open>The sequencer completes a command only once, so it answers only while the chain waits.\<close>

primrec answers_awaited :: "ac_run \<Rightarrow> ar_in list \<Rightarrow> bool" where
  "answers_awaited r [] \<longleftrightarrow> True"
| "answers_awaited r (e # es) \<longleftrightarrow> (case e of Ar_done _ \<Rightarrow> ar_wait r | _ \<Rightarrow> True) \<and> answers_awaited (fst (ar_do r e)) es"

lemma view_saved [simp]: "foldl view (Some v) (snd (snd (save ok r))) = Some v"
  using save_effects [of ok r] by (cases v) auto

lemma view_save [simp]: "foldl view (ar_view r) (snd (snd (save ok r'))) = ar_view r"
  by (simp add: ar_view_def)

lemma view_chain_tick: "foldl view (ar_view r) (snd (chain_tick f r)) = ar_view (fst (chain_tick f r))"
  by (auto simp: chain_tick_def ar_view_def Let_def hd_drop_conv_nth)

lemma view_chain_done: "ar_wait r \<Longrightarrow> foldl view (ar_view r) (snd (chain_done result r)) = ar_view (fst (chain_done result r))"
  by (simp add: chain_done_def ar_view_def Let_def drop_Suc tl_drop)

lemma ar_view_cong: "ar_i r = ar_i r' \<Longrightarrow> ar_chain r = ar_chain r' \<Longrightarrow> ar_wait r = ar_wait r' \<Longrightarrow> ar_view r = ar_view r'"
  by (simp add: ar_view_def)

lemma ar_view_save [simp]: "ar_view (fst (snd (save ok r))) = ar_view r"
  by (rule ar_view_cong) simp_all

lemma ac_chain_master: "ac_chain S \<noteq> [] \<and> hd (ac_chain S) = ''master''"
  by (simp add: ac_chain_def)

lemma view_step:
  assumes "ar_i r \<ge> length (ar_chain r)"
  shows "foldl view (ar_view r) (snd (ac_run_step se ok now r)) = ar_view (fst (ac_run_step se ok now r))"
proof (cases "ar_on r")
  case False
  have "ar_view r = ar_view (r\<lparr>ar_S := ac_track (ac_inputs se now) (ar_S r)\<rparr>)" by (rule ar_view_cong) simp_all
  then show ?thesis by (simp add: ac_run_step_off [OF False])
next
  case True
  let ?S = "if ar_resume r \<and> ac_owe (ar_S r) \<noteq> 0 then (ar_S r)\<lparr>ac_until := in_now (ac_inputs se now) + cfg_window ac_cfg\<rparr> else ar_S r"
  obtain S' out where d: "cali_ac_decide (ac_inputs se now) ac_cfg ?S = (S', out)" by fastforce
  show ?thesis
  proof (cases "out_actuate out = 0")
    case q: True
    have "ar_view r = ar_view (r\<lparr>ar_S := S', ar_resume := False\<rparr>)" by (rule ar_view_cong) simp_all
    then show ?thesis using True d q by (simp add: ac_run_step_def Let_def split_beta)
  next
    case q: False
    let ?r2 = "r\<lparr>ar_S := S', ar_resume := False, ar_chain := ac_chain S', ar_i := 0, ar_wait := False, ar_until := now + ucast (ar_step_ms r)\<rparr>"
    have "view (ar_view r) (Ar_chain (ac_chain S')) = ar_view ?r2"
      using assms ac_chain_master [of S'] by (simp add: ar_view_def)
    then show ?thesis using True d q by (simp add: ac_run_step_def Let_def split_beta)
  qed
qed

lemma view_tick: "foldl view (ar_view r) (snd (cali_ac_tick se f ok now r)) = ar_view (fst (cali_ac_tick se f ok now r))"
proof -
  let ?c = "chain_tick f (r\<lparr>ar_now := now\<rparr>)"
  let ?r2 = "(fst ?c)\<lparr>ar_next := now + ucast (ar_step_ms (fst ?c))\<rparr>"
  have 1: "ar_view r = ar_view (r\<lparr>ar_now := now\<rparr>)" "ar_view (fst ?c) = ar_view ?r2" by (rule ar_view_cong; simp)+
  then show ?thesis using view_chain_tick [of "r\<lparr>ar_now := now\<rparr>" f] view_step [of ?r2 se ok now]
    by (simp add: cali_ac_tick_def split_beta)
qed

lemma view_set_enabled: "foldl view (ar_view r) (snd (cali_ac_set_enabled on a b r)) = ar_view (fst (cali_ac_set_enabled on a b r))"
  by (simp add: cali_ac_set_enabled_def Let_def split_beta) (auto simp: ar_view_def)

lemma view_run: "answers_awaited r es \<Longrightarrow> foldl view (ar_view r) (snd (run ar_do r es)) = ar_view (fst (run ar_do r es))"
proof (induction es arbitrary: r)
  case (Cons e es)
  have "foldl view (ar_view r) (snd (ar_do r e)) = ar_view (fst (ar_do r e))"
    using Cons.prems by (cases e) (simp_all add: view_tick view_chain_done view_set_enabled, simp add: cali_ac_set_step_ms_def ar_view_def)
  then show ?case using Cons by simp
qed simp

section \<open>Properties\<close>

lemma byte_of_int: "0 \<le> k \<Longrightarrow> k < 256 \<Longrightarrow> uint (word_of_int k :: u8) = k"
  by (simp add: uint_word_of_int)

lemma flag_byte: "flag k \<Longrightarrow> uint (word_of_int k :: u8) = k"
  and flag_byte_zero: "flag k \<Longrightarrow> (word_of_int k :: u8) = 0 \<longleftrightarrow> k = 0"
  and tri_byte: "tri k \<Longrightarrow> uint (word_of_int k + 1 :: u8) = k + 1"
  by (auto simp: flag_def tri_def)

text \<open>
  What a save stores, a boot restores: the debt, the state before the drive,
  the count of tries and the last readings are the ones saved; a restore that was open (or already waiting to be
  resumed) is resumed exactly when something is still owed.
\<close>

theorem auto_camper_debt_survives_reboot:
  assumes "ac_inv (ar_S r)" and "kv_get CALI_AC_STATE_KEY = Some (pack r)"
  shows "ar_S (cali_ac_init kv_get ac_run_boot) = (ar_S r)\<lparr>ac_until := -1\<rparr> \<and>
    ar_resume (cali_ac_init kv_get ac_run_boot) = ((ac_until (ar_S r) \<ge> 0 \<or> ar_resume r) \<and> cali_ac_owed r) \<and>
    pack (cali_ac_init kv_get ac_run_boot) = (pack r)[4 := if (ac_until (ar_S r) \<ge> 0 \<or> ar_resume r) \<and> cali_ac_owed r then 1 else 0]"
proof -
  have f: "flag (ac_owe (ar_S r))" "flag (ac_pre (ar_S r))" "flag (ac_pre_usb (ar_S r))" "flag (ac_pre_lights (ar_S r))"
    "tri (ac_prev_ign (ar_S r))" "tri (ac_prev_master (ar_S r))" "tri (ac_prev_usb (ar_S r))" "tri (ac_prev_lights (ar_S r))"
    "0 \<le> ac_fails (ar_S r)" "ac_fails (ar_S r) \<le> 3"
    using assms(1) by (simp_all add: ac_inv_def CALI_AC_MAX_FAILS_def)
  have F: "uint (word_of_int (ac_fails (ar_S r)) :: u8) = ac_fails (ar_S r)" "\<not> ac_fails (ar_S r) > 255"
    using f(9,10) by (simp_all add: byte_of_int)
  have S: "ar_S (cali_ac_init kv_get ac_run_boot) = (ar_S r)\<lparr>ac_until := -1\<rparr>"
    by (rule cali_ac_state.equality)
       (simp_all add: cali_ac_init_def assms(2) pack_def Let_def STATE_LEN_def flag_byte tri_byte f F split: option.split)
  have R: "ar_resume (cali_ac_init kv_get ac_run_boot) = ((ac_until (ar_S r) \<ge> 0 \<or> ar_resume r) \<and> cali_ac_owed r)"
    by (simp add: cali_ac_init_def assms(2) pack_def Let_def STATE_LEN_def flag_byte_zero f cali_ac_owed_def split: option.split)
  show ?thesis using S R F(2) by (simp add: pack_def [of "cali_ac_init kv_get ac_run_boot"] Let_def) (simp add: pack_def Let_def)
qed

theorem auto_camper_debt_survives_reboot_witness:
  "cali_ac_owed (cali_ac_init (\<lambda>k. if k = CALI_AC_STATE_KEY then Some (pack (ac_run_boot\<lparr>ar_S := ac_init_state\<lparr>ac_owe := 1, ac_fails := 2, ac_until := 7\<rparr>\<rparr>)) else None) ac_run_boot)"
proof -
  let ?S = "ac_init_state\<lparr>ac_owe := 1, ac_fails := 2, ac_until := 7\<rparr>"
  let ?r = "ac_run_boot\<lparr>ar_S := ?S\<rparr>"
  let ?kv = "\<lambda>k. if k = CALI_AC_STATE_KEY then Some (pack ?r) else None"
  have "ac_inv (ar_S ?r)" by (simp add: ac_inv_def ac_init_state_def CALI_AC_MAX_FAILS_def)
  from auto_camper_debt_survives_reboot [OF this, of ?kv] show ?thesis by (simp add: cali_ac_owed_def)
qed

text \<open>
  From the moment the automation is switched off until it is switched on again it
  submits no command and begins no restore, whatever it reads, whatever the sequencer still answers and whether
  or not the writes to the store succeed; nothing is owed any more.
\<close>

theorem auto_camper_off_is_silent:
  assumes "list_all (\<lambda>e. \<not> enables e) es"
  shows "list_all (\<lambda>x. \<not> is_submit x) (snd (run ar_do r (Ar_set_enabled False a b # es))) \<and>
    \<not> cali_ac_owed (fst (run ar_do r (Ar_set_enabled False a b # es)))"
proof -
  have "ar_idle s \<Longrightarrow> ar_idle (fst (run ar_do s es)) \<and> list_all (\<lambda>x. \<not> is_submit x) (snd (run ar_do s es))" for s
    using assms by (induction es arbitrary: s) (simp_all add: ar_idle_step)
  from this [OF ar_idle_off(1), of a b r] show ?thesis using ar_idle_off(2) by (simp add: ar_idle_def)
qed

theorem auto_camper_off_is_silent_witness:
  "\<not> cali_ac_owed (fst (run ar_do (ac_run_boot\<lparr>ar_S := ac_init_state\<lparr>ac_owe := 1\<rparr>, ar_chain := [''master''], ar_wait := True\<rparr>)
     [Ar_set_enabled False False True, Ar_done CALI_CTL_OK, Ar_step_ms 1000]))"
  using auto_camper_off_is_silent [of "[Ar_done CALI_CTL_OK, Ar_step_ms 1000]"] by simp

text \<open>
  In every run from boot, as long as the sequencer answers only commands that
  wait for their answer, a restore is written in order: it begins with the camping master, one command is
  outstanding at a time, and USB and lights are submitted only after every entry before them was acknowledged.
  A failure, a submit that cannot be retried or the switch-off ends the chain.
\<close>

theorem auto_camper_restores_in_order:
  assumes "answers_awaited (cali_ac_init kv_get ac_run_boot) es"
  shows "foldl view (Some ([], False)) (snd (run ar_do (cali_ac_init kv_get ac_run_boot) es)) =
    ar_view (fst (run ar_do (cali_ac_init kv_get ac_run_boot) es))"
proof -
  have "ar_view (cali_ac_init kv_get ac_run_boot) = Some ([], False)"
    by (simp add: cali_ac_init_def Let_def ar_view_def ac_run_boot_def split: option.split)
  then show ?thesis using view_run [OF assms] by simp
qed

theorem auto_camper_restores_in_order_witness:
  "foldl view (Some ([], False)) (snd (run ar_do (cali_ac_init (\<lambda>_. None) ac_run_boot) [Ar_step_ms 1000, Ar_set_enabled False True True])) =
    Some ([], False)"
  using auto_camper_restores_in_order [of "\<lambda>_. None" "[Ar_step_ms 1000, Ar_set_enabled False True True]"]
  by (simp add: ar_view_def cali_ac_init_def cali_ac_set_step_ms_def cali_ac_set_enabled_def split_beta Let_def ac_run_boot_def)

end
