(* ===== verification/Thermo_Run.thy ===== *)
theory Thermo_Run
  imports Web_Body Json Auto_Camper_Run Thermostat_Safety
begin

text \<open>
  The driver of the cabin thermostat, \<open>thermostat_run.c\<close>: the inputs of a step from the stored and the live frames and the
  thermometers, the plausibility of a reading, the estimate of the time left, the batch of commands that goes out one at a time
  through the sequencer, the wait for the link, the settings with their limits and their stored form, the patch of a POST, and the reports.
  The session, the sensors, the store and the sequencer's answers are inputs; log lines and diagnostics are left out.
\<close>

section \<open>Data\<close>

definition T_MIN :: int where "T_MIN = -4000"
definition T_MAX :: int where "T_MAX = 6000"
definition T_RATE_PER_MIN :: int where "T_RATE_PER_MIN = 300"
definition CALI_THERMO_ON_KEY :: string where "CALI_THERMO_ON_KEY = ''th_on''"
definition CALI_THERMO_CFG_KEY :: string where "CALI_THERMO_CFG_KEY = ''th_cfg''"
definition CALI_THERMO_TARGET_DEFAULT :: int where "CALI_THERMO_TARGET_DEFAULT = 2000"
definition CALI_THERMO_TARGET_MIN :: int where "CALI_THERMO_TARGET_MIN = 500"
definition CALI_THERMO_TARGET_MAX :: int where "CALI_THERMO_TARGET_MAX = 3000"
definition CALI_THERMO_TARGET_STEP :: int where "CALI_THERMO_TARGET_STEP = 50"
definition CALI_THERMO_CFG_N :: nat where "CALI_THERMO_CFG_N = 19"
definition CALI_THERMO_LINK_WAIT_MS :: u64 where "CALI_THERMO_LINK_WAIT_MS = 30000"
definition CALI_THERMO_WAIT_STEP_MS :: int where "CALI_THERMO_WAIT_STEP_MS = 5000"
definition CALI_THERMO_ETA_WINDOW_MS :: u64 where "CALI_THERMO_ETA_WINDOW_MS = 600000"
definition ETA_N :: nat where "ETA_N = 12"

text \<open>The configuration; the flags are the C integers, checked when a stored one is loaded.\<close>

record run_cfg =
  cf_s :: cali_thermo_cfg
  cf_target :: int
  cf_ref :: string
  cf_backup :: string
  cf_out :: string
  cf_outside_on :: int
  cf_night :: int

definition run_cfg_defaults :: run_cfg where
  "run_cfg_defaults = \<lparr>cf_s = CALI_THERMO_DEFAULTS, cf_target = CALI_THERMO_TARGET_DEFAULT, cf_ref = [], cf_backup = [], cf_out = [],
     cf_outside_on = 0, cf_night = 0\<rparr>"

text \<open>What lies under \<open>CALI_THERMO_CFG_KEY\<close>: the struct of version 2, the shorter one of version 1 (17 settings), or anything else.\<close>

datatype th_blob = Th_v2 run_cfg | Th_v1 "int list" int string string string int | Th_other

record thermo_run =
  tr_cfg :: run_cfg
  tr_S :: cali_thermo_state
  tr_status :: cali_thermo_status
  tr_reason :: "thermo_reason option"
  tr_on :: bool
  tr_req :: thermo_req
  tr_due :: bool
  tr_next :: u64
  tr_link_wait :: u64
  tr_heater_seen :: u64
  tr_heater_fault :: int
  tr_cmds :: "cali_thermo_cmd list"
  tr_i :: nat
  tr_wait :: bool
  tr_batch_on :: bool
  tr_last :: "nat \<Rightarrow> string \<times> int \<times> u64"
  tr_cmd_what :: "thermo_what option"
  tr_cmd_res :: "cmd_res option"
  tr_stepped :: bool
  tr_tick_now :: u64
  tr_es :: "(u64 \<times> int) list"
  tr_eta_src :: "bool option"
  tr_eta :: int
  tr_eta_first :: bool
  tr_rev :: nat
  tr_kv_on :: "u8 list option"
  tr_kv_cfg :: "th_blob option"

text \<open>The other components during a call: the session, its last-known frames, the time of the last 1702 frame, a thermometer's value and time, the
  type of an alias, what the sequencer answers to a submit.\<close>

record thermo_env =
  te_se :: ctl_session
  te_frame :: "nat \<Rightarrow> u8 list option"
  te_frame_ms :: u64
  te_value :: "string \<Rightarrow> (int \<times> u64) option"
  te_submit :: "string \<Rightarrow> string \<Rightarrow> cali_ctl_rc"

datatype thermo_eff = T_submit string string cali_ctl_rc | T_hold bool | T_connect_now

section \<open>Inputs of a step\<close>

text \<open>\<open>frame_fields\<close> of Auto_Camper_Run reads this link's frame; this one the last known.\<close>

definition known_fields :: "thermo_env \<Rightarrow> string \<Rightarrow> codec_kv list" where
  "known_fields e fn = frame_fields ((te_se e)\<lparr>se_frame_live := te_frame e\<rparr>) fn"

definition th_field :: "codec_kv list \<Rightarrow> string \<Rightarrow> int" where
  "th_field kvs name = (case find (\<lambda>k. kv_name k = name) kvs of Some k \<Rightarrow> sint (kv_value k) | None \<Rightarrow> NONE)"

definition plausible :: "nat \<Rightarrow> string \<Rightarrow> int \<Rightarrow> u64 \<Rightarrow> bool \<Rightarrow> thermo_run \<Rightarrow> bool \<times> thermo_run" where
  "plausible k alias v at commit s =
     (let (last_alias, lv, lat) = tr_last s k; dt = sint (at - lat) in
      if v < T_MIN \<or> v > T_MAX then (False, s)
      else if last_alias = alias \<and> at \<ge> lat \<and> \<bar>v - lv\<bar> * 60000 > T_RATE_PER_MIN * (if dt < 60000 then 60000 else dt) then (False, s)
      else if \<not> commit then (True, s)
      else (True, s\<lparr>tr_last := (tr_last s)(k := (take (CALI_THERMO_ALIAS_LEN - 1) alias, v, at))\<rparr>))"

definition th_sensor :: "thermo_env \<Rightarrow> nat \<Rightarrow> string \<Rightarrow> u64 \<Rightarrow> bool \<Rightarrow> thermo_run \<Rightarrow> cali_thermo_sensor \<times> thermo_run" where
  "th_sensor e k alias now commit s =
     (if alias = [] then (\<lparr>sn_present = False, sn_alias = [], sn_value = 0, sn_age_ms = 0\<rparr>, s)
      else
        let none = \<lparr>sn_present = True, sn_alias = take (CALI_THERMO_ALIAS_LEN - 1) alias, sn_value = NONE, sn_age_ms = NONE_MS\<rparr> in
        case te_value e alias of None \<Rightarrow> (none, s)
        | Some (v, at) \<Rightarrow>
            let (ok, s1) = plausible k alias v at commit s
            in (if ok then none\<lparr>sn_value := v, sn_age_ms := (if now \<ge> at then sint (now - at) else 0)\<rparr> else none, s1))"

definition th_heater :: "codec_kv list \<Rightarrow> cali_thermo_heater option" where
  "th_heater h =
     (if h = [] then None
      else Some \<lparr>ht_installed = th_field h ''Installed'', ht_level = th_field h ''HeatingLevel'', ht_error_code = th_field h ''ErrorCode'',
        ht_fault_trigger = th_field h ''FaultTriggerBit'', ht_permanent = th_field h ''PermanentOperation'',
        ht_normal = th_field h ''NormalOperation'', ht_op_mode = th_field h ''OperationModeAirHeater''\<rparr>)"

definition thermo_inputs :: "thermo_env \<Rightarrow> u64 \<Rightarrow> bool \<Rightarrow> thermo_run \<Rightarrow> cali_thermo_in \<times> thermo_run" where
  "thermo_inputs e now commit s =
     (let C = tr_cfg s; h = known_fields e ''airheater''; c = frame_fields (te_se e) ''campingmode''; en = frame_fields (te_se e) ''energy'';
          kc = known_fields e ''campingmode''; ke = known_fields e ''energy''; kvh = known_fields e ''vehicle'';
          shore = th_field en ''StateLandAfs''; kshore = th_field ke ''StateLandAfs'';
          t15 = th_field kvh ''TerminalOneFive''; enable = th_field kc ''Enable'';
          (r, s1) = th_sensor e 0 (cf_ref C) now commit s; (b, s2) = th_sensor e 1 (cf_backup C) now commit s1;
          (ou, s3) = th_sensor e 2 (cf_out C) now commit s2
      in (\<lparr>now_ms = sint now, enabled = tr_on s, request = REQ_NONE, target = cf_target C, runtime_min = cfg_runtime_min (cf_s C), ref = r,
            backup = b, outside = ou, outside_on = (cf_outside_on C \<noteq> 0), heater = th_heater h,
            heater_age_ms = (if h = [] then NONE_MS else if now \<ge> te_frame_ms e then sint (now - te_frame_ms e) else 0),
            link_ready = se_ready (te_se e), camping_on = (th_field c ''State'' = 1), shore_on = (shore = 1 \<or> shore = 2),
            ignition_on = cali_ac_ignition (te_se e), batt2_dv = th_field en ''UTwoBattBemAfs'', cmd_what = None, cmd_result = None,
            night = (cf_night C \<noteq> 0), known_camping_on = b2i (th_field kc ''State'' = 1), known_shore_on = b2i (kshore = 1 \<or> kshore = 2),
            known_ignition_on = (if t15 < 0 \<and> enable < 0 then -1 else b2i (t15 > 0 \<or> enable > 0))\<rparr>, s3))"

section \<open>The estimate\<close>

definition eta_at :: "cali_thermo_sensor \<Rightarrow> u64 \<Rightarrow> (u64 \<times> int) list \<Rightarrow> u64" where
  "eta_at r now es =
     (let age = (if sn_age_ms r > 0 \<and> sn_age_ms r \<noteq> NONE_MS then word_of_int (sn_age_ms r) else 0); at = (if now > age then now - age else 0)
      in if es \<noteq> [] \<and> at < fst (last es) then fst (last es) else at)"

fun eta_trim :: "u64 \<Rightarrow> (u64 \<times> int) list \<Rightarrow> (u64 \<times> int) list" where
  "eta_trim at (x # y # r) = (if at - fst x > CALI_THERMO_ETA_WINDOW_MS then eta_trim at (y # r) else x # y # r)"
| "eta_trim at es = es"

definition eta_update :: "u64 \<Rightarrow> cali_thermo_in \<Rightarrow> int \<Rightarrow> thermo_run \<Rightarrow> thermo_run" where
  "eta_update now i rem_min s =
     (let sts = tr_status s; S = tr_S s; r = (if th_active S then backup i else ref i);
          heating = (th_mode S = TH_AUTO \<and> ss_t_ref sts \<noteq> NONE \<and> (ss_heater sts = H_RUNNING \<or> ss_heater sts = H_CONTINUOUS));
          es0 = (if \<not> heating \<or> tr_eta_src s \<noteq> Some (th_active S) then [] else tr_es s);
          s1 = s\<lparr>tr_eta := NONE, tr_eta_first := False, tr_es := es0, tr_eta_src := Some (th_active S)\<rparr>
      in if \<not> heating then s1
         else
           let at = eta_at r now es0;
               es1 = (if es0 = [] \<or> at - fst (last es0) \<ge> 60000
                      then (if length es0 = ETA_N then tl es0 else es0) @ [(at, ss_t_ref sts)] else es0);
               es2 = eta_trim at es1;
               rem_s = (if \<not> ss_night sts \<and> rem_min \<noteq> NONE
                        then let left = rem_min * 60 - (if heater_age_ms i = NONE_MS then 0 else heater_age_ms i div 1000)
                             in if left < 0 then 0 else to_i32 left
                        else NONE);
               (eta, fst_end) = cali_thermo_eta (sint (at - fst (hd es2))) (ss_t_ref sts - snd (hd es2)) (cf_target (tr_cfg s) - ss_t_ref sts) rem_s
           in s1\<lparr>tr_es := es2, tr_eta := eta, tr_eta_first := fst_end\<rparr>)"

section \<open>The batch\<close>

definition result_name :: "cali_ctl_rc \<Rightarrow> cmd_res" where
  "result_name rc =
     (case rc of CALI_CTL_OK \<Rightarrow> RES_OK | CALI_CTL_BUSY \<Rightarrow> RES_BUSY | CALI_CTL_NOT_READY \<Rightarrow> RES_NOT_READY | CALI_CTL_FAILED \<Rightarrow> RES_OTHER
      | CALI_CTL_TIMEOUT \<Rightarrow> RES_OTHER | CALI_CTL_UNCONFIRMED \<Rightarrow> RES_OTHER | _ \<Rightarrow> RES_REFUSED)"

definition what_text :: "thermo_what \<Rightarrow> string" where
  "what_text w = (case w of RUNTIME \<Rightarrow> ''runtime'' | LEVEL \<Rightarrow> ''level'' | POWER \<Rightarrow> ''power'' | PERMANENT \<Rightarrow> ''permanent'')"

definition th_value_text :: "cali_thermo_cmd \<Rightarrow> string" where
  "th_value_text c =
     (if cm_what c = POWER \<or> cm_what c = PERMANENT then (if cm_value c \<noteq> 0 then ''on'' else ''off'') else take 11 (dec_int (cm_value c)))"

text \<open>The completion without the next submit: whether one follows.\<close>

definition batch_done :: "cali_ctl_rc \<Rightarrow> thermo_run \<Rightarrow> bool \<times> thermo_run" where
  "batch_done rc s =
     (let s1 = s\<lparr>tr_wait := False, tr_cmd_what := Some (cm_what (tr_cmds s ! tr_i s)), tr_cmd_res := Some (result_name rc)\<rparr> in
      if rc = CALI_CTL_OK \<and> tr_i s + 1 < length (tr_cmds s) \<and> \<not> (tr_batch_on s \<and> \<not> tr_on s) \<and> tr_req s \<noteq> REQ_OFF
      then (True, s1\<lparr>tr_i := tr_i s + 1\<rparr>)
      else (False, s1\<lparr>tr_cmds := [], tr_i := 0, tr_due := tr_due s \<or> rc \<noteq> CALI_CTL_BUSY \<and> rc \<noteq> CALI_CTL_NOT_READY\<rparr>))"

lemma batch_done_go: "batch_done rc s = (True, s1) \<Longrightarrow> tr_i s1 = tr_i s + 1 \<and> tr_cmds s1 = tr_cmds s \<and> tr_i s + 1 < length (tr_cmds s)"
  by (auto simp: batch_done_def Let_def split: if_splits)

function submit_next :: "thermo_env \<Rightarrow> thermo_run \<Rightarrow> thermo_run \<times> thermo_eff list" where
  "submit_next e s =
     (let c = tr_cmds s ! tr_i s; s1 = s\<lparr>tr_wait := True\<rparr>; rc = te_submit e (what_text (cm_what c)) (th_value_text c);
          eff = T_submit (what_text (cm_what c)) (th_value_text c) rc in
      if rc = CALI_CTL_PENDING then (s1, [eff])
      else case batch_done rc s1 of
             (True, s2) \<Rightarrow> let (s3, es) = submit_next e s2 in (s3, eff # es)
           | (False, s2) \<Rightarrow> (s2, [eff]))"
  by pat_completeness auto
termination
  by (relation "measure (\<lambda>(e, s). length (tr_cmds s) - tr_i s)") (auto dest!: batch_done_go [OF sym])

declare submit_next.simps [simp del]

definition th_cmd_done :: "thermo_env \<Rightarrow> cali_ctl_rc \<Rightarrow> thermo_run \<Rightarrow> thermo_run \<times> thermo_eff list" where
  "th_cmd_done e rc s = (case batch_done rc s of (True, s2) \<Rightarrow> submit_next e s2 | (False, s2) \<Rightarrow> (s2, []))"

section \<open>The step and the tick\<close>

definition thermo_run_step :: "thermo_env \<Rightarrow> u64 \<Rightarrow> thermo_run \<Rightarrow> thermo_run \<times> thermo_eff list" where
  "thermo_run_step e now s =
     (let (i0, s1) = thermo_inputs e now True s;
          i = i0\<lparr>request := tr_req s, cmd_what := tr_cmd_what s, cmd_result := tr_cmd_res s\<rparr>;
          (S', out) = cali_thermo_step i (cf_s (tr_cfg s)) (tr_S s);
          s2 = s1\<lparr>tr_req := REQ_NONE, tr_cmd_what := None, tr_cmd_res := None, tr_S := S', tr_status := ot_status out, tr_stepped := True\<rparr>;
          s3 = eta_update now i (th_field (known_fields e ''airheater'') ''RunningTimeinAction'') s2;
          busy = (th_mode S' \<noteq> TH_OFF \<or> th_has_pending S')
      in (s3\<lparr>tr_reason := (case ot_reason out of Some w \<Rightarrow> Some w | None \<Rightarrow> tr_reason s), tr_cmds := ot_cmds out, tr_i := 0,
             tr_batch_on := tr_on s\<rparr>, [T_hold busy]))"

text \<open>A new 1702 frame.\<close>

definition see_heater :: "thermo_env \<Rightarrow> thermo_run \<Rightarrow> thermo_run" where
  "see_heater e s =
     (if te_frame_ms e = tr_heater_seen s then s
      else
        let kvs = frame_fields (te_se e) ''airheater''; err = th_field kvs ''ErrorCode'';
            s1 = s\<lparr>tr_heater_seen := te_frame_ms e, tr_due := tr_due s \<or> th_field kvs ''FaultTriggerBit'' > 0 \<or> err > 0\<rparr>
        in if err > 0 then s1\<lparr>tr_heater_fault := err\<rparr>
           else if th_field kvs ''NormalOperation'' > 0 \<or> th_field kvs ''PermanentOperation'' > 0 then s1\<lparr>tr_heater_fault := 0\<rparr>
           else s1)"

text \<open>An AUTO request from OFF without a ready link and a fresh frame: whether to wait.\<close>

definition await_link :: "thermo_env \<Rightarrow> u64 \<Rightarrow> thermo_run \<Rightarrow> bool \<times> thermo_run \<times> thermo_eff list" where
  "await_link e now s =
     (if tr_req s = REQ_AUTO \<and> tr_on s \<and> th_mode (tr_S s) = TH_OFF \<and>
         (\<not> se_ready (te_se e) \<or> te_frame_ms e = 0 \<or> now - te_frame_ms e > word_of_int (heater_stale_ms (cf_s (tr_cfg s))))
      then
        let s1 = (if tr_link_wait s = 0 then s\<lparr>tr_link_wait := now + CALI_THERMO_LINK_WAIT_MS\<rparr> else s)
        in (now < tr_link_wait s1, s1, [T_hold True])
      else (False, s, []))"

definition next_period :: "thermo_run \<Rightarrow> int" where
  "next_period s =
     (if th_mode (tr_S s) = TH_WAITING \<and> period_ms (cf_s (tr_cfg s)) > CALI_THERMO_WAIT_STEP_MS then CALI_THERMO_WAIT_STEP_MS
      else period_ms (cf_s (tr_cfg s)))"

definition cali_thermo_run_tick :: "thermo_env \<Rightarrow> u64 \<Rightarrow> thermo_run \<Rightarrow> thermo_run \<times> thermo_eff list" where
  "cali_thermo_run_tick e now s0 =
     (let s = see_heater e (s0\<lparr>tr_tick_now := now\<rparr>) in
      if tr_wait s \<or> tr_cmds s \<noteq> [] then (s, [])
      else
        let (waits, s1, e1) = await_link e now s in
        if waits then (s1, e1)
        else
          let s2 = s1\<lparr>tr_link_wait := 0\<rparr> in
          if \<not> tr_due s2 \<and> now < tr_next s2 then (s2, e1)
          else
            let (s3, e2) = thermo_run_step e now (s2\<lparr>tr_due := False\<rparr>); s4 = s3\<lparr>tr_next := now + word_of_int (next_period s3)\<rparr>;
                (s5, e3) = (if tr_cmds s4 \<noteq> [] then submit_next e s4 else (s4, []))
            in (s5, e1 @ e2 @ e3))"

section \<open>Requests and the switch\<close>

definition cali_thermo_request :: "string \<Rightarrow> thermo_run \<Rightarrow> bool \<times> thermo_run \<times> thermo_eff list" where
  "cali_thermo_request md s =
     (if md = ''AUTO'' then (True, s\<lparr>tr_req := REQ_AUTO, tr_link_wait := 0, tr_due := True\<rparr>, if tr_on s then [T_connect_now] else [])
      else if md = ''OFF'' then (True, s\<lparr>tr_req := REQ_OFF, tr_link_wait := 0, tr_due := True\<rparr>, [])
      else (False, s, []))"

definition cali_thermo_set_enabled :: "bool \<Rightarrow> bool \<Rightarrow> thermo_run \<Rightarrow> bool \<times> thermo_run" where
  "cali_thermo_set_enabled kv_ok on s =
     (let s1 = s\<lparr>tr_on := on, tr_due := True\<rparr> in (kv_ok, if kv_ok then s1\<lparr>tr_kv_on := Some [if on then 1 else 0]\<rparr> else s1))"

section \<open>Settings\<close>

definition cfg_list :: "cali_thermo_cfg \<Rightarrow> int list" where
  "cfg_list c = [period_ms c, kp c, ki c, ka c, u_out_max c, hyst c, min_dwell_ms c, band_hi c, hot_hold_ms c, overheat c, min_level c,
     stale_after_ms c, heater_stale_ms c, batt_min_dv c, batt_hold_ms c, verify_ms c, cfg_runtime_min c, night_wait_ms c, night_confirm_ms c]"

definition cfg_of :: "int list \<Rightarrow> cali_thermo_cfg" where
  "cfg_of l = \<lparr>period_ms = l ! 0, kp = l ! 1, ki = l ! 2, ka = l ! 3, u_out_max = l ! 4, hyst = l ! 5, min_dwell_ms = l ! 6, band_hi = l ! 7,
     hot_hold_ms = l ! 8, overheat = l ! 9, min_level = l ! 10, stale_after_ms = l ! 11, heater_stale_ms = l ! 12, batt_min_dv = l ! 13,
     batt_hold_ms = l ! 14, verify_ms = l ! 15, cfg_runtime_min = l ! 16, night_wait_ms = l ! 17, night_confirm_ms = l ! 18\<rparr>"

definition INT32_MAX :: int where "INT32_MAX = 2147483647"
definition CFG_runtime_min :: nat where "CFG_runtime_min = 16"

definition CFG_LIM :: "(int \<times> int) list" where
  "CFG_LIM = [(1, INT32_MAX), (0, INT32_MAX), (0, INT32_MAX), (0, INT32_MAX), (0, INT32_MAX), (0, INT32_MAX), (1, INT32_MAX), (1, INT32_MAX),
     (1, INT32_MAX), (1, INT32_MAX), (1, 10), (1, INT32_MAX), (1, INT32_MAX), (100, 150), (1, INT32_MAX), (1, INT32_MAX), (10, 120),
     (1, INT32_MAX), (1, INT32_MAX)]"

definition cfg_at :: "cali_thermo_cfg \<Rightarrow> nat \<Rightarrow> int" where "cfg_at c i = cfg_list c ! i"

definition cfg_put :: "nat \<Rightarrow> int \<Rightarrow> cali_thermo_cfg \<Rightarrow> cali_thermo_cfg" where "cfg_put i v c = cfg_of ((cfg_list c)[i := v])"

definition cfg_ok :: "nat \<Rightarrow> int \<Rightarrow> bool" where "cfg_ok i v \<longleftrightarrow> fst (CFG_LIM ! i) \<le> v \<and> v \<le> snd (CFG_LIM ! i)"

definition target_ok :: "int \<Rightarrow> bool" where
  "target_ok v \<longleftrightarrow> CALI_THERMO_TARGET_MIN \<le> v \<and> v \<le> CALI_THERMO_TARGET_MAX \<and> v mod CALI_THERMO_TARGET_STEP = 0"

definition alias_chars_ok :: "string \<Rightarrow> bool" where
  "alias_chars_ok a \<longleftrightarrow> length a < CALI_THERMO_ALIAS_LEN \<and>
     list_all (\<lambda>c. 97 \<le> (of_char c :: nat) \<and> (of_char c :: nat) \<le> 122 \<or> is_dec c \<or> c = CHR ''_'' \<or> c = CHR ''-'') a"

definition cfg_valid :: "run_cfg \<Rightarrow> bool" where
  "cfg_valid c \<longleftrightarrow> list_all (\<lambda>i. cfg_ok i (cfg_at (cf_s c) i)) [0..<CALI_THERMO_CFG_N] \<and> target_ok (cf_target c) \<and> cf_outside_on c \<in> {0, 1} \<and>
     cf_night c \<in> {0, 1} \<and> alias_chars_ok (cf_ref c) \<and> alias_chars_ok (cf_backup c) \<and> alias_chars_ok (cf_out c)"

definition cfg_from_v1 :: "th_blob \<Rightarrow> run_cfg option" where
  "cfg_from_v1 b =
     (case b of
        Th_v1 vs tgt r bk ou oon \<Rightarrow>
          Some (run_cfg_defaults\<lparr>cf_s := cfg_of (take 17 vs @ drop 17 (cfg_list CALI_THERMO_DEFAULTS)), cf_target := tgt, cf_ref := r,
            cf_backup := bk, cf_out := ou, cf_outside_on := oon\<rparr>)
      | _ \<Rightarrow> None)"

definition cfg_load :: "th_blob option \<Rightarrow> run_cfg" where
  "cfg_load b =
     (case b of
        Some (Th_v2 c) \<Rightarrow> if cfg_valid c then c else run_cfg_defaults
      | Some x \<Rightarrow> (case cfg_from_v1 x of Some c \<Rightarrow> if cfg_valid c then c else run_cfg_defaults | None \<Rightarrow> run_cfg_defaults)
      | None \<Rightarrow> run_cfg_defaults)"

definition status0 :: cali_thermo_status where
  "status0 = \<lparr>ss_heater = H_UNKNOWN, ss_t_ref = NONE, ss_t_out = NONE, ss_target = 0, ss_level = NONE, ss_active_alias = [],
     ss_outside_active = False, ss_end_run = False, ss_blocked = None, ss_wait_left_s = NONE, ss_night = False\<rparr>"

text \<open>The start of the firmware over what the store holds.\<close>

definition cali_thermo_run_init :: "u8 list option \<Rightarrow> th_blob option \<Rightarrow> thermo_run" where
  "cali_thermo_run_init kv_on kv_cfg =
     \<lparr>tr_cfg = cfg_load kv_cfg, tr_S = cali_thermo_init, tr_status = status0, tr_reason = None,
      tr_on = (case kv_on of Some [b] \<Rightarrow> b \<noteq> 0 | _ \<Rightarrow> False), tr_req = REQ_NONE, tr_due = False, tr_next = 0, tr_link_wait = 0,
      tr_heater_seen = 0, tr_heater_fault = 0, tr_cmds = [], tr_i = 0, tr_wait = False, tr_batch_on = False, tr_last = (\<lambda>k. ([], 0, 0)),
      tr_cmd_what = None, tr_cmd_res = None, tr_stepped = False, tr_tick_now = 0, tr_es = [], tr_eta_src = None, tr_eta = NONE,
      tr_eta_first = False, tr_rev = 0, tr_kv_on = kv_on, tr_kv_cfg = kv_cfg\<rparr>"

definition cali_thermo_cfg_set :: "string \<Rightarrow> int \<Rightarrow> thermo_run \<Rightarrow> bool \<times> thermo_run" where
  "cali_thermo_cfg_set key v s =
     (case find (\<lambda>i. cali_thermo_cfg_keys ! i = key) [0..<CALI_THERMO_CFG_N] of None \<Rightarrow> (False, s)
      | Some i \<Rightarrow> (True, s\<lparr>tr_cfg := (tr_cfg s)\<lparr>cf_s := cfg_put i v (cf_s (tr_cfg s))\<rparr>\<rparr>))"

section \<open>The patch\<close>

datatype thermo_err = E_STALE | E_VALUE | E_SENSOR | E_CONFIRM | E_STORE

text \<open>The members of a patch by their place in \<open>K_THERMO\<close>: 0 \<open>enabled\<close>, 1 \<open>mode\<close>, 2 \<open>target\<close>, 3 \<open>runtime_min\<close>, 4 \<open>ref\<close>, 5 \<open>backup\<close>, 6 \<open>out\<close>, 7
  \<open>outside_on\<close>, 8 \<open>cfg\<close>, 9 \<open>rev\<close>, 10 \<open>confirm\<close>, 11 \<open>night\<close>.\<close>

definition sensor_ok :: "(string \<Rightarrow> string option) \<Rightarrow> string \<Rightarrow> bool" where
  "sensor_ok ty al \<longleftrightarrow> (if al = [] then True else ty al = Some ''govee'')"

definition patch_error :: "(string \<Rightarrow> string option) \<Rightarrow> thermo_patch \<Rightarrow> thermo_run \<Rightarrow> thermo_err option" where
  "patch_error ty p s =
     (let h = tp_has p; plain_off = (h - {9} = {1} \<and> tp_mode p = ''OFF'') in
      if 9 \<in> h \<and> \<not> plain_off \<and> tp_rev p \<noteq> int (tr_rev s) then Some E_STALE
      else if 1 \<in> h \<and> tp_mode p \<noteq> ''AUTO'' \<and> tp_mode p \<noteq> ''OFF'' then Some E_VALUE
      else if 2 \<in> h \<and> \<not> target_ok (tp_target p) \<or> 3 \<in> h \<and> \<not> cfg_ok CFG_runtime_min (tp_runtime_min p) then Some E_VALUE
      else if 8 \<in> h \<and> list_ex (\<lambda>i. i \<in> tp_cfg_has p \<and> \<not> cfg_ok i (tp_cfg p i)) [0..<CALI_THERMO_CFG_N] then Some E_VALUE
      else if 4 \<in> h \<and> \<not> sensor_ok ty (tp_ref p) \<or> 5 \<in> h \<and> \<not> sensor_ok ty (tp_backup p) \<or> 6 \<in> h \<and> \<not> sensor_ok ty (tp_out p) then Some E_SENSOR
      else if (0 \<in> h \<or> 8 \<in> h \<or> 1 \<in> h \<and> tp_mode p = ''AUTO'') \<and> \<not> (10 \<in> h \<and> tp_confirm p) then Some E_CONFIRM
      else None)"

definition patch_cfg :: "thermo_patch \<Rightarrow> run_cfg \<Rightarrow> run_cfg" where
  "patch_cfg p c0 =
     (let h = tp_has p; al = take (CALI_THERMO_ALIAS_LEN - 1);
          c1 = (if 2 \<in> h then c0\<lparr>cf_target := tp_target p\<rparr> else c0);
          c2 = (if 3 \<in> h then c1\<lparr>cf_s := cfg_put CFG_runtime_min (tp_runtime_min p) (cf_s c1)\<rparr> else c1);
          c3 = (if 4 \<in> h then c2\<lparr>cf_ref := al (tp_ref p)\<rparr> else c2); c4 = (if 5 \<in> h then c3\<lparr>cf_backup := al (tp_backup p)\<rparr> else c3);
          c5 = (if 6 \<in> h then c4\<lparr>cf_out := al (tp_out p)\<rparr> else c4); c6 = (if 7 \<in> h then c5\<lparr>cf_outside_on := b2i (tp_outside_on p)\<rparr> else c5);
          c7 = (if 11 \<in> h then c6\<lparr>cf_night := b2i (tp_night p)\<rparr> else c6)
      in if 8 \<in> h
         then c7\<lparr>cf_s := foldl (\<lambda>c i. if i \<in> tp_cfg_has p then cfg_put i (tp_cfg p i) c else c) (cf_s c7) [0..<CALI_THERMO_CFG_N]\<rparr>
         else c7)"

text \<open>The answers of the store: for the configuration, for the switch, and for the switch taken back.\<close>

definition cali_thermo_apply ::
  "(string \<Rightarrow> string option) \<Rightarrow> bool \<Rightarrow> bool \<Rightarrow> bool \<Rightarrow> thermo_patch \<Rightarrow> thermo_run \<Rightarrow> thermo_err option \<times> thermo_run \<times> thermo_eff list" where
  "cali_thermo_apply ty cfg_stored on_stored off_stored p s =
     (case patch_error ty p s of Some x \<Rightarrow> (Some x, s, [])
      | None \<Rightarrow>
          let n = patch_cfg p (tr_cfg s) in
          if n \<noteq> tr_cfg s \<and> \<not> cfg_stored then (Some E_STORE, s, [])
          else
            let s1 = (if n = tr_cfg s then s
                      else (if cf_target n \<noteq> cf_target (tr_cfg s) then s\<lparr>tr_eta := NONE, tr_eta_first := False\<rparr> else s)
                        \<lparr>tr_kv_cfg := Some (Th_v2 n), tr_cfg := n\<rparr>);
                (ok, s2) = (if 0 \<in> tp_has p then cali_thermo_set_enabled on_stored (tp_enabled p) s1 else (True, s1))
            in if \<not> ok then (Some E_STORE, if tp_enabled p then snd (cali_thermo_set_enabled off_stored False s2) else s2, [])
               else
                 let (rc, s3, es) = (if 1 \<in> tp_has p \<and> tp_mode p = ''AUTO'' then cali_thermo_request ''AUTO'' s2
                                     else if 1 \<in> tp_has p then cali_thermo_request ''OFF'' s2 else (True, s2, []))
                 in (None, s3\<lparr>tr_rev := tr_rev s3 + 1\<rparr>, es))"

section \<open>Reports\<close>

definition thermo_heater_name :: "thermo_heater \<Rightarrow> string" where
  "thermo_heater_name h =
     (case h of H_OFF \<Rightarrow> ''OFF'' | H_RUNNING \<Rightarrow> ''RUNNING'' | H_CONTINUOUS \<Rightarrow> ''CONTINUOUS'' | H_TIMER_ARMED \<Rightarrow> ''TIMER_ARMED''
      | H_FAULT \<Rightarrow> ''FAULT'' | H_LOCKED \<Rightarrow> ''LOCKED'' | H_BLOCKED \<Rightarrow> ''BLOCKED'' | H_UNKNOWN \<Rightarrow> ''UNKNOWN'')"

definition thermo_mode_name :: "thermo_mode \<Rightarrow> string" where
  "thermo_mode_name m =
     (case m of TH_OFF \<Rightarrow> ''OFF'' | TH_AUTO \<Rightarrow> ''AUTO'' | TH_DEGRADED \<Rightarrow> ''DEGRADED'' | TH_STOPPING \<Rightarrow> ''STOPPING'' | TH_WAITING \<Rightarrow> ''WAITING'')"

fun thermo_reason_text :: "thermo_reason \<Rightarrow> string" where
  "thermo_reason_text (R_FAULT n) = ''FAULT_'' @ dec_int n"
| "thermo_reason_text R_OVERHEAT = ''OVERHEAT''"
| "thermo_reason_text R_TARGET_EXCEEDED_AT_MIN_LEVEL = ''TARGET_EXCEEDED_AT_MIN_LEVEL''"
| "thermo_reason_text R_LEVEL_UP = ''LEVEL_UP''"
| "thermo_reason_text R_LEVEL_DOWN = ''LEVEL_DOWN''"
| "thermo_reason_text R_HOLD = ''HOLD''"
| "thermo_reason_text R_LOCKED = ''LOCKED''"
| "thermo_reason_text R_HEATER_UNKNOWN = ''HEATER_UNKNOWN''"
| "thermo_reason_text R_START_NOT_CONFIRMED = ''START_NOT_CONFIRMED''"
| "thermo_reason_text R_NOT_APPLIED = ''NOT_APPLIED''"
| "thermo_reason_text R_CONTINUOUS_ENDED = ''CONTINUOUS_ENDED''"
| "thermo_reason_text R_RUN_ENDED = ''RUN_ENDED''"
| "thermo_reason_text R_FOREIGN_CHANGE = ''FOREIGN_CHANGE''"
| "thermo_reason_text R_STOP_DROPPED = ''STOP_DROPPED''"
| "thermo_reason_text R_STOPPING = ''STOPPING''"
| "thermo_reason_text R_AUTO_ON = ''AUTO_ON''"
| "thermo_reason_text R_USER_OFF = ''USER_OFF''"
| "thermo_reason_text R_DISABLED = ''DISABLED''"
| "thermo_reason_text R_BATTERY_LOW = ''BATTERY_LOW''"
| "thermo_reason_text R_NIGHT_WAIT_ENDED = ''NIGHT_WAIT_ENDED''"
| "thermo_reason_text R_WAITING_FOR_CONTINUOUS = ''WAITING_FOR_CONTINUOUS''"
| "thermo_reason_text R_ADOPT_CONTINUOUS = ''ADOPT_CONTINUOUS''"
| "thermo_reason_text R_ADOPT_RUN = ''ADOPT_RUN''"
| "thermo_reason_text R_START = ''START''"
| "thermo_reason_text R_BACKUP_SELECTED = ''BACKUP_SELECTED''"
| "thermo_reason_text R_REFERENCE_SELECTED = ''REFERENCE_SELECTED''"
| "thermo_reason_text R_REFERENCE_LOST = ''REFERENCE_LOST''"
| "thermo_reason_text R_HOLD_AT_MIN_LEVEL = ''HOLD_AT_MIN_LEVEL''"
| "thermo_reason_text R_OUTSIDE_INACTIVE = ''OUTSIDE_INACTIVE''"
| "thermo_reason_text R_REFUSED_DISABLED = ''AUTO_REFUSED_DISABLED''"
| "thermo_reason_text R_REFUSED_NO_LINK = ''AUTO_REFUSED_NO_LINK''"
| "thermo_reason_text R_REFUSED_STALE_HEATER = ''AUTO_REFUSED_STALE_HEATER''"
| "thermo_reason_text R_REFUSED_NOT_INSTALLED = ''AUTO_REFUSED_NOT_INSTALLED''"
| "thermo_reason_text R_REFUSED_FAULT = ''AUTO_REFUSED_FAULT''"
| "thermo_reason_text R_REFUSED_TIMER_ARMED = ''AUTO_REFUSED_TIMER_ARMED''"
| "thermo_reason_text R_REFUSED_NO_CAMPING = ''AUTO_REFUSED_NO_CAMPING''"
| "thermo_reason_text R_REFUSED_IGNITION = ''AUTO_REFUSED_IGNITION''"
| "thermo_reason_text R_REFUSED_NO_REFERENCE = ''AUTO_REFUSED_NO_REFERENCE''"
| "thermo_reason_text R_REFUSED_WARM = ''AUTO_REFUSED_WARM''"

definition thermo_block_text :: "thermo_block \<Rightarrow> string" where
  "thermo_block_text b =
     (case b of B_NOT_INSTALLED \<Rightarrow> ''NOT_INSTALLED'' | B_FAULT \<Rightarrow> ''FAULT'' | B_TIMER_ARMED \<Rightarrow> ''TIMER_ARMED'' | B_NO_CAMPING \<Rightarrow> ''NO_CAMPING''
      | B_IGNITION \<Rightarrow> ''IGNITION'' | B_NO_REFERENCE \<Rightarrow> ''NO_REFERENCE'')"

definition opt_num :: "int \<Rightarrow> jval" where "opt_num v = (if v = NONE then JNull else JInt v)"

definition opt_text :: "string option \<Rightarrow> jval" where "opt_text t = (case t of Some x \<Rightarrow> JStr x | None \<Rightarrow> JNull)"

definition alias_json :: "string \<Rightarrow> jval" where "alias_json a = (if a = [] then JNull else JStr a)"

definition cali_thermo_state_json :: "thermo_env \<Rightarrow> thermo_run \<Rightarrow> jval" where
  "cali_thermo_state_json e s =
     (let sts = tr_status s; S = tr_S s; i = fst (thermo_inputs e (tr_tick_now s) False s); left = th_wait_until_ms S - sint (tr_tick_now s) in
      JObj [(''enabled'', JBool (tr_on s)), (''mode'', JStr (thermo_mode_name (th_mode S))),
        (''reason'', opt_text (map_option thermo_reason_text (tr_reason s))), (''heater'', JStr (thermo_heater_name (ss_heater sts))),
        (''t_ref'', opt_num (ss_t_ref sts)), (''t_out'', opt_num (ss_t_out sts)), (''target'', opt_num (cf_target (tr_cfg s))),
        (''level'', opt_num (ss_level sts)), (''active'', alias_json (ss_active_alias sts)), (''outside_active'', JBool (ss_outside_active sts)),
        (''end'', JStr (if ss_end_run sts then ''run'' else ''none'')),
        (''blocked'', opt_text (map_option thermo_block_text (cali_thermo_blocked i (cf_s (tr_cfg s))))),
        (''wait_left_s'', if th_mode S = TH_WAITING \<and> th_wait_until_ms S \<noteq> NONE_MS
                           then opt_num (if left \<le> 0 then 0 else to_i32 ((left + 999) div 1000)) else opt_num (ss_wait_left_s sts)),
        (''night'', JBool (if th_mode S = TH_OFF \<and> tr_stepped s then cf_night (tr_cfg s) \<noteq> 0 else ss_night sts)),
        (''eta_s'', opt_num (tr_eta s)), (''eta_ends_first'', JBool (tr_eta_first s))])"

definition cali_thermo_api_json :: "thermo_env \<Rightarrow> thermo_run \<Rightarrow> (string \<times> jval) list" where
  "cali_thermo_api_json e s =
     (let C = tr_cfg s in
      [(''rev'', JInt (int (tr_rev s))), (''mode'', JStr (thermo_mode_name (th_mode (tr_S s)))), (''target'', JInt (cf_target C)),
       (''runtime_min'', JInt (cfg_runtime_min (cf_s C))), (''ref'', alias_json (cf_ref C)), (''backup'', alias_json (cf_backup C)),
       (''out'', alias_json (cf_out C)), (''outside_on'', JBool (cf_outside_on C \<noteq> 0)), (''night'', JBool (cf_night C \<noteq> 0)),
       (''cfg'', JObj (map (\<lambda>i. (cali_thermo_cfg_keys ! i, JInt (cfg_at (cf_s C) i))) [0..<CALI_THERMO_CFG_N])),
       (''status'', cali_thermo_state_json e s)])"

definition cali_thermo_has_ref :: "thermo_run \<Rightarrow> bool" where "cali_thermo_has_ref s \<longleftrightarrow> cf_ref (tr_cfg s) \<noteq> []"

definition cali_thermo_brief_json :: "thermo_run \<Rightarrow> jval" where
  "cali_thermo_brief_json s =
     JObj [(''mode'', JStr (thermo_mode_name (th_mode (tr_S s)))), (''target'', opt_num (cf_target (tr_cfg s))),
       (''t_ref'', opt_num (ss_t_ref (tr_status s))), (''level'', opt_num (ss_level (tr_status s))),
       (''reason'', opt_text (map_option thermo_reason_text (tr_reason s)))]"

end
