(* ===== verification/Thermo_Run_Safety.thy ===== *)
theory Thermo_Run_Safety
  imports Thermo_Run
begin

text \<open>
  What the thermostat driver promises whatever the session, the sensors, the store and the sequencer do: the settings in use are
  valid and are those a reboot loads; a command goes out only when the one before it has ended, is one the planner takes, and
  the heater is switched on only while the feature is on and no stop is asked for; a request is answered.
\<close>

section \<open>The machine\<close>



section \<open>Settings\<close>

lemma cfg_list_length [simp]: "length (cfg_list c) = 19"
  by (simp add: cfg_list_def)













section \<open>Commands\<close>

















































section \<open>Properties\<close>



text \<open>
  C38. A patch that is refused for a stale revision, a bad value, an unknown thermometer or a missing confirmation changes nothing and
  wakes nothing, and neither does one whose settings cannot be stored when it does not carry the switch. When the switch cannot be stored
  the feature is as asked only if it was to be switched off; it is never left on. The revision counts only patches that applied.
\<close>

theorem thermo_patch_refused:
  assumes "cali_thermo_apply ty k1 k2 k3 p s = (Some x, s', es)"
  shows "es = [] \<and> tr_rev s' = tr_rev s \<and> (x \<noteq> E_STORE \<or> 0 \<notin> tp_has p \<longrightarrow> s' = s) \<and> (s' \<noteq> s \<longrightarrow> \<not> tr_on s')"
proof -
  define n where "n = patch_cfg p (tr_cfg s)"
  have "s' = s \<and> es = [] \<or> x = E_STORE \<and> 0 \<in> tp_has p \<and> es = [] \<and> tr_rev s' = tr_rev s \<and> \<not> tr_on s'"
    using assms
    by (cases "patch_error ty p s"; cases "0 \<in> tp_has p"; cases "tp_enabled p"; cases k2)
       (auto simp: cali_thermo_apply_def cali_thermo_set_enabled_def Let_def split: if_splits prod.splits)
  then show ?thesis by auto
qed

text \<open>
  The settings of a patch stay when its switch cannot be stored: the patch is answered with an error and the revision stays, but the
  new target is in use and stored.
\<close>

lemma thermo_store_error_keeps_settings:
  "(let p = thermo_patch0\<lparr>tp_has := {0, 2, 10}, tp_enabled := True, tp_confirm := True, tp_target := 2150\<rparr>;
        (x, s', es) = cali_thermo_apply (\<lambda>a. None) True False True p (cali_thermo_run_init None None)
    in x = Some E_STORE \<and> tr_rev s' = 0 \<and> cf_target (tr_cfg s') = 2150 \<and> cf_target (cfg_load (tr_kv_cfg s')) = 2150)"
  by code_simp

section \<open>A request is answered\<close>








section \<open>Runs\<close>


definition one_govee :: "string \<Rightarrow> string option" where "one_govee a = (if a = ''cabin'' then Some ''govee'' else None)"






lemma thermo_patch_refused_witness:
  "\<exists>s' es. cali_thermo_apply one_govee True True True (thermo_patch0\<lparr>tp_has := {2, 9}, tp_target := 2150, tp_rev := 7\<rparr>)
       (cali_thermo_run_init None None) = (Some E_STALE, s', es) \<and> s' = cali_thermo_run_init None None"
proof -
  let ?p = "thermo_patch0\<lparr>tp_has := {2, 9}, tp_target := 2150, tp_rev := 7\<rparr>"
  obtain x s' es where a: "cali_thermo_apply one_govee True True True ?p (cali_thermo_run_init None None) = (x, s', es)" by (metis prod_cases3)
  have "fst (cali_thermo_apply one_govee True True True ?p (cali_thermo_run_init None None)) = Some E_STALE" by code_simp
  then have x: "x = Some E_STALE" using a by simp
  show ?thesis using thermo_patch_refused [OF a [unfolded x]] a x by simp
qed


end
