(* ===== verification/Pi_Wake.thy ===== *)
theory Pi_Wake
  imports Control_Run
begin

text \<open>
  The Raspberry Pi's wake and halt lines of \<open>pi_wake.c\<close>: the settings in the key-value store, the two
  pulses, the ignition edge rule, the parking timer and the battery guard. The store, the uptime clock and the
  frames the session holds are inputs of the calls; the levels put on the two lines are their effects.
\<close>

section \<open>Data\<close>

definition CALI_PW_PULSE_MS :: u32 where "CALI_PW_PULSE_MS = 200"
definition CALI_PW_HOLD_MAX_MS :: u32 where "CALI_PW_HOLD_MAX_MS = 5000"
definition CALI_PW_MIN_GAP_MS :: u64 where "CALI_PW_MIN_GAP_MS = 60000"
definition CALI_PW_ON_KEY :: string where "CALI_PW_ON_KEY = ''pw_ign''"
definition CALI_PH_PULSE_MS :: u32 where "CALI_PH_PULSE_MS = 500"
definition CALI_PH_GUARD_MIN :: nat where "CALI_PH_GUARD_MIN = 10"
definition CALI_PH_MINUTE_MS :: u64 where "CALI_PH_MINUTE_MS = 60000"
definition CALI_PH_MIN_KEY :: string where "CALI_PH_MIN_KEY = ''ph_min''"
definition CALI_PH_MIN_DEFAULT :: nat where "CALI_PH_MIN_DEFAULT = 30"
definition CALI_PH_MIN_MAX :: nat where "CALI_PH_MIN_MAX = 1440"
definition CALI_PH_SOC_KEY :: string where "CALI_PH_SOC_KEY = ''ph_soc''"
definition CALI_PH_SOC_DEFAULT :: nat where "CALI_PH_SOC_DEFAULT = 30"

datatype pw_reason = Why_ignition | Why_manual
datatype ph_reason = Why_timer | Why_battery | Why_hand

record pi_wake =
  pw_on :: bool
  pw_prev :: int
  pw_low :: bool
  pw_auto_ever :: bool
  pw_ever :: bool
  pw_release_at :: u64
  pw_auto_at :: u64
  pw_at :: u64
  pw_why :: "pw_reason option"
  ph_min :: nat
  ph_soc :: nat
  pw_driving :: bool
  pw_halted :: bool
  ph_low :: bool
  ph_ever :: bool
  pw_batt :: bool
  pw_parked_at :: u64
  ph_release_at :: u64
  ph_at :: u64
  ph_why :: "ph_reason option"

text \<open>The effects: the level of a line (low = \<open>True\<close>), a value stored, a diagnostics event.\<close>

datatype pw_eff = Wake_line bool | Halt_line bool | Kv_set string "u8 list" | Diag_wake pw_reason | Diag_halt ph_reason

definition pw_boot :: pi_wake where
  "pw_boot =
     \<lparr>pw_on = True, pw_prev = -1, pw_low = False, pw_auto_ever = False, pw_ever = False, pw_release_at = 0, pw_auto_at = 0, pw_at = 0,
      pw_why = None, ph_min = CALI_PH_MIN_DEFAULT, ph_soc = CALI_PH_SOC_DEFAULT, pw_driving = False, pw_halted = False, ph_low = False,
      ph_ever = False, pw_batt = False, pw_parked_at = 0, ph_release_at = 0, ph_at = 0, ph_why = None\<rparr>"

section \<open>Operations\<close>

definition le16 :: "u8 list \<Rightarrow> nat" where
  "le16 b = unat (b ! 0) + 256 * unat (b ! 1)"

definition cali_pw_init :: "(string \<Rightarrow> u8 list option) \<Rightarrow> u64 \<Rightarrow> pi_wake \<Rightarrow> pi_wake \<times> pw_eff list" where
  "cali_pw_init kv_get uptime s =
     (let on = (case kv_get CALI_PW_ON_KEY of Some b \<Rightarrow> if length b = 1 then b ! 0 \<noteq> 0 else pw_on s | None \<Rightarrow> pw_on s);
          mn = (case kv_get CALI_PH_MIN_KEY of
                  Some b \<Rightarrow> if length b = 2 \<and> le16 b \<le> CALI_PH_MIN_MAX then le16 b else ph_min s | None \<Rightarrow> ph_min s);
          soc = (case kv_get CALI_PH_SOC_KEY of
                   Some b \<Rightarrow> if length b = 1 \<and> b ! 0 \<le> 100 then unat (b ! 0) else ph_soc s | None \<Rightarrow> ph_soc s)
      in (s\<lparr>pw_on := on, ph_min := mn, ph_soc := soc, pw_parked_at := uptime\<rparr>, [Wake_line False, Halt_line False]))"

definition cali_pw_set_enabled :: "bool \<Rightarrow> bool \<Rightarrow> pi_wake \<Rightarrow> pi_wake \<times> pw_eff list" where
  "cali_pw_set_enabled kv_ok on s =
     (if \<not> kv_ok then (s, []) else (s\<lparr>pw_on := on\<rparr>, [Kv_set CALI_PW_ON_KEY [if on then 1 else 0]]))"

definition cali_ph_set_min :: "bool \<Rightarrow> nat \<Rightarrow> pi_wake \<Rightarrow> pi_wake \<times> pw_eff list" where
  "cali_ph_set_min kv_ok m s =
     (if m > CALI_PH_MIN_MAX \<or> \<not> kv_ok then (s, [])
      else (s\<lparr>ph_min := m\<rparr>, [Kv_set CALI_PH_MIN_KEY [word_of_nat (m mod 256), word_of_nat (m div 256)]]))"

definition cali_ph_set_soc :: "bool \<Rightarrow> nat \<Rightarrow> pi_wake \<Rightarrow> pi_wake \<times> pw_eff list" where
  "cali_ph_set_soc kv_ok pct s =
     (if pct > 100 \<or> \<not> kv_ok then (s, []) else (s\<lparr>ph_soc := pct\<rparr>, [Kv_set CALI_PH_SOC_KEY [word_of_nat pct]]))"

definition cali_pw_pulse :: "pw_reason \<Rightarrow> u32 \<Rightarrow> u64 \<Rightarrow> pi_wake \<Rightarrow> bool \<times> pi_wake \<times> pw_eff list" where
  "cali_pw_pulse reason ms now s =
     (if pw_low s \<or> ph_low s \<or> ms < 1 \<or> ms > CALI_PW_HOLD_MAX_MS then (False, s, [])
      else (True, s\<lparr>pw_low := True, pw_release_at := now + ucast ms, pw_at := now, pw_ever := True, pw_parked_at := now,
                   pw_halted := False, pw_why := Some reason\<rparr>,
            [Wake_line True, Diag_wake reason]))"

definition cali_pw_wake :: "pw_reason \<Rightarrow> u64 \<Rightarrow> pi_wake \<Rightarrow> bool \<times> pi_wake \<times> pw_eff list" where
  "cali_pw_wake reason now s = cali_pw_pulse reason CALI_PW_PULSE_MS now s"

definition cali_ph_pulse :: "ph_reason \<Rightarrow> u32 \<Rightarrow> u64 \<Rightarrow> pi_wake \<Rightarrow> bool \<times> pi_wake \<times> pw_eff list" where
  "cali_ph_pulse reason ms now s =
     (if pw_low s \<or> ph_low s \<or> ms < 1 \<or> ms > CALI_PW_HOLD_MAX_MS then (False, s, [])
      else (True, s\<lparr>ph_low := True, ph_release_at := now + ucast ms, ph_at := now, ph_ever := True, pw_halted := True,
                   ph_why := Some reason\<rparr>,
            [Halt_line True, Diag_halt reason]))"

definition cali_ph_halt :: "ph_reason \<Rightarrow> u64 \<Rightarrow> pi_wake \<Rightarrow> bool \<times> pi_wake \<times> pw_eff list" where
  "cali_ph_halt reason now s = cali_ph_pulse reason CALI_PH_PULSE_MS now s"

definition cali_pw_batt_low :: "int \<Rightarrow> int \<Rightarrow> int \<Rightarrow> int \<Rightarrow> bool" where
  "cali_pw_batt_low sleep_warning warn_two soc_level soc_pct \<longleftrightarrow>
     sleep_warning = 1 \<or> warn_two \<ge> 1 \<or> soc_level \<ge> 1 \<and> soc_level \<le> 10 \<and> soc_level * 10 \<le> soc_pct"

text \<open>The last entry of a name wins, as the loop assigns it.\<close>

definition kv_last :: "codec_kv list \<Rightarrow> string \<Rightarrow> int" where
  "kv_last kvs name = foldl (\<lambda>v k. if kv_name k = name then sint (kv_value k) else v) (-1) kvs"

definition batt_low_now :: "u8 list option \<Rightarrow> pi_wake \<Rightarrow> bool" where
  "batt_low_now energy s =
     (let e = (case (energy, codec_func_by_name ''energy'') of (Some frame, Some f) \<Rightarrow> codec_decode f frame | _ \<Rightarrow> [])
      in cali_pw_batt_low (kv_last e ''SleepWarning'') (kv_last e ''WarningLevelTwo'') (kv_last e ''SocTwoBattAfs'') (int (ph_soc s)))"

definition limit_min :: "pi_wake \<Rightarrow> nat" where
  "limit_min s = (if pw_batt s \<and> ph_soc s \<noteq> 0 \<and> (ph_min s = 0 \<or> ph_min s > CALI_PH_GUARD_MIN) then CALI_PH_GUARD_MIN else ph_min s)"

text \<open>What a step reads besides its arguments: the energy frame and the uptime.\<close>

definition pw_park :: "int \<Rightarrow> u64 \<Rightarrow> pi_wake \<Rightarrow> pi_wake" where
  "pw_park ign now s =
     (let s1 = (if ign = 1 then s\<lparr>pw_driving := True, pw_halted := False\<rparr>
                else if ign = 0 \<and> pw_prev s \<noteq> 0 then s\<lparr>pw_driving := False, pw_parked_at := now\<rparr> else s)
      in if ign \<ge> 0 then s1\<lparr>pw_prev := ign\<rparr> else s1)"

definition pw_edge :: "bool \<Rightarrow> u64 \<Rightarrow> u64 \<Rightarrow> pi_wake \<Rightarrow> pi_wake \<times> pw_eff list" where
  "pw_edge edge now uptime s =
     (if edge \<and> pw_on s \<and> \<not> (pw_auto_ever s \<and> now - pw_auto_at s < CALI_PW_MIN_GAP_MS) then
        let (ok, s1, e) = cali_pw_wake Why_ignition uptime s
        in (if ok then s1\<lparr>pw_auto_ever := True, pw_auto_at := now\<rparr> else s1, e)
      else (s, []))"

definition pw_park_timer :: "u64 \<Rightarrow> u64 \<Rightarrow> pi_wake \<Rightarrow> pi_wake \<times> pw_eff list" where
  "pw_park_timer now uptime s =
     (let lim = limit_min s in
      if \<not> pw_driving s \<and> \<not> pw_halted s \<and> lim \<noteq> 0 \<and> now - pw_parked_at s \<ge> word_of_nat lim * CALI_PH_MINUTE_MS
      then snd (cali_ph_halt (if lim \<noteq> ph_min s then Why_battery else Why_timer) uptime s)
      else (s, []))"

definition cali_pw_step :: "u8 list option \<Rightarrow> u64 \<Rightarrow> int \<Rightarrow> u64 \<Rightarrow> pi_wake \<Rightarrow> pi_wake \<times> pw_eff list" where
  "cali_pw_step energy uptime ign now s =
     (let edge = (ign = 1 \<and> pw_prev s \<noteq> 1);
          s1 = pw_park ign now s;
          s2 = s1\<lparr>pw_batt := batt_low_now energy s1\<rparr>;
          (s3, e3) = pw_edge edge now uptime s2;
          (s4, e4) = pw_park_timer now uptime s3
      in (s4, e3 @ e4))"

definition pw_release :: "u64 \<Rightarrow> pi_wake \<Rightarrow> pi_wake \<times> pw_eff list" where
  "pw_release now s =
     (let (s1, e1) = (if pw_low s \<and> now \<ge> pw_release_at s then (s\<lparr>pw_low := False\<rparr>, [Wake_line False]) else (s, []));
          (s2, e2) = (if ph_low s1 \<and> now \<ge> ph_release_at s1 then (s1\<lparr>ph_low := False\<rparr>, [Halt_line False]) else (s1, []))
      in (s2, e1 @ e2))"

definition cali_pw_tick :: "bool \<Rightarrow> int \<Rightarrow> u8 list option \<Rightarrow> u64 \<Rightarrow> u64 \<Rightarrow> pi_wake \<Rightarrow> pi_wake \<times> pw_eff list" where
  "cali_pw_tick ready ac_ignition energy uptime now s =
     (let (s1, e1) = pw_release now s; (s2, e2) = cali_pw_step energy uptime (if ready then ac_ignition else -1) now s1
      in (s2, e1 @ e2))"

text \<open>The calls, in the order they come: the tick, the pulses by hand, the settings.\<close>

datatype pw_call = Pw_tick bool int "u8 list option" u64 u64 | Pw_pulse pw_reason u32 u64 | Ph_pulse ph_reason u32 u64
  | Pw_set_enabled bool bool | Ph_set_min bool nat | Ph_set_soc bool nat

fun pw_do :: "pi_wake \<Rightarrow> pw_call \<Rightarrow> pi_wake \<times> pw_eff list" where
  "pw_do s (Pw_tick ready ign energy uptime now) = cali_pw_tick ready ign energy uptime now s"
| "pw_do s (Pw_pulse reason ms now) = snd (cali_pw_pulse reason ms now s)"
| "pw_do s (Ph_pulse reason ms now) = snd (cali_ph_pulse reason ms now s)"
| "pw_do s (Pw_set_enabled ok on) = cali_pw_set_enabled ok on s"
| "pw_do s (Ph_set_min ok m) = cali_ph_set_min ok m s"
| "pw_do s (Ph_set_soc ok p) = cali_ph_set_soc ok p s"

section \<open>The levels of the two lines\<close>

text \<open>The wires as the Pi sees them: (wake low, halt low). Pulling a line low is legal only while both are released.\<close>

fun line_eff :: "bool \<times> bool \<Rightarrow> pw_eff \<Rightarrow> (bool \<times> bool) option" where
  "line_eff (w, h) (Wake_line True) = (if w \<or> h then None else Some (True, h))"
| "line_eff (w, h) (Halt_line True) = (if w \<or> h then None else Some (w, True))"
| "line_eff (w, h) (Wake_line False) = Some (False, h)"
| "line_eff (w, h) (Halt_line False) = Some (w, False)"
| "line_eff l _ = Some l"

definition line_upd :: "(bool \<times> bool) option \<Rightarrow> pw_eff \<Rightarrow> (bool \<times> bool) option" where
  "line_upd l e = Option.bind l (\<lambda>x. line_eff x e)"

lemma line_upd_Some [simp]: "line_upd (Some l) e = line_eff l e"
  by (simp add: line_upd_def)

definition lines :: "pi_wake \<Rightarrow> (bool \<times> bool) option" where
  "lines s = Some (pw_low s, ph_low s)"

definition pw_inv :: "pi_wake \<Rightarrow> bool" where
  "pw_inv s \<longleftrightarrow> \<not> (pw_low s \<and> ph_low s) \<and> ph_min s \<le> CALI_PH_MIN_MAX \<and> ph_soc s \<le> 100"

lemma lines_pulse:
  "foldl line_upd (lines s) (snd (snd (cali_pw_pulse r ms t s))) = lines (fst (snd (cali_pw_pulse r ms t s)))"
  "foldl line_upd (lines s) (snd (snd (cali_ph_pulse r' ms t s))) = lines (fst (snd (cali_ph_pulse r' ms t s)))"
  by (simp_all add: cali_pw_pulse_def cali_ph_pulse_def lines_def)

lemma inv_pulse: "pw_inv s \<Longrightarrow> pw_inv (fst (snd (cali_pw_pulse r ms t s)))" "pw_inv s \<Longrightarrow> pw_inv (fst (snd (cali_ph_pulse r' ms t s)))"
  by (simp_all add: cali_pw_pulse_def cali_ph_pulse_def pw_inv_def)

lemma lines_upd_other [simp]:
  "lines (pw_park ign now s) = lines s" "lines (s\<lparr>pw_batt := b\<rparr>) = lines s" "lines (s\<lparr>pw_auto_ever := x, pw_auto_at := y\<rparr>) = lines s"
  by (simp_all add: lines_def pw_park_def Let_def)

lemma inv_upd_other [simp]:
  "pw_inv (pw_park ign now s) = pw_inv s" "pw_inv (s\<lparr>pw_batt := b\<rparr>) = pw_inv s"
  "pw_inv (s\<lparr>pw_auto_ever := x, pw_auto_at := y\<rparr>) = pw_inv s"
  by (simp_all add: pw_inv_def pw_park_def Let_def)

lemma edge_facts:
  "foldl line_upd (lines s) (snd (pw_edge edge now t s)) = lines (fst (pw_edge edge now t s))"
  "pw_inv s \<Longrightarrow> pw_inv (fst (pw_edge edge now t s))"
  by (simp_all add: pw_edge_def cali_pw_wake_def split_beta lines_pulse inv_pulse)

lemma timer_facts:
  "foldl line_upd (lines s) (snd (pw_park_timer now t s)) = lines (fst (pw_park_timer now t s))"
  "pw_inv s \<Longrightarrow> pw_inv (fst (pw_park_timer now t s))"
  by (simp_all add: pw_park_timer_def cali_ph_halt_def Let_def lines_pulse inv_pulse)

lemma release_facts:
  "foldl line_upd (lines s) (snd (pw_release now s)) = lines (fst (pw_release now s))"
  "pw_inv s \<Longrightarrow> pw_inv (fst (pw_release now s))"
  by (auto simp: pw_release_def lines_def pw_inv_def Let_def)

lemma step_facts:
  "foldl line_upd (lines s) (snd (cali_pw_step energy t ign now s)) = lines (fst (cali_pw_step energy t ign now s))"
  "pw_inv s \<Longrightarrow> pw_inv (fst (cali_pw_step energy t ign now s))"
proof -
  let ?s2 = "(pw_park ign now s)\<lparr>pw_batt := batt_low_now energy (pw_park ign now s)\<rparr>"
  have l: "lines s = lines ?s2" by simp
  show "foldl line_upd (lines s) (snd (cali_pw_step energy t ign now s)) = lines (fst (cali_pw_step energy t ign now s))"
    unfolding l by (simp add: cali_pw_step_def Let_def split_beta edge_facts timer_facts del: lines_upd_other)
  show "pw_inv s \<Longrightarrow> pw_inv (fst (cali_pw_step energy t ign now s))"
    by (simp add: cali_pw_step_def Let_def split_beta edge_facts timer_facts)
qed

lemma call_facts:
  "foldl line_upd (lines s) (snd (pw_do s c)) = lines (fst (pw_do s c))"
  "pw_inv s \<Longrightarrow> pw_inv (fst (pw_do s c))"
  by (cases c; simp add: cali_pw_tick_def split_beta release_facts step_facts lines_pulse inv_pulse;
      simp add: cali_pw_set_enabled_def cali_ph_set_min_def cali_ph_set_soc_def lines_def pw_inv_def)+

interpretation pi_lines: tracked_machine pw_do pw_boot pw_inv line_upd lines
  by unfold_locales
     (simp_all add: call_facts, simp add: pw_inv_def pw_boot_def CALI_PH_MIN_DEFAULT_def CALI_PH_MIN_MAX_def CALI_PH_SOC_DEFAULT_def)

section \<open>The parking timer\<close>

text \<open>A call that does not re-arm the halt: a tick without a known ignition 1, or a setting.\<close>

fun quiet_call :: "pw_call \<Rightarrow> bool" where
  "quiet_call (Pw_tick ready ign energy uptime now) \<longleftrightarrow> \<not> (ready \<and> ign = 1)"
| "quiet_call (Pw_pulse reason ms now) \<longleftrightarrow> False"
| "quiet_call (Ph_pulse reason ms now) \<longleftrightarrow> False"
| "quiet_call _ \<longleftrightarrow> True"

lemma pw_edge_False [simp]: "pw_edge False now t s = (s, [])"
  by (simp add: pw_edge_def)

lemma park_halted: "ign \<noteq> 1 \<Longrightarrow> pw_halted (pw_park ign now s) = pw_halted s"
  by (simp add: pw_park_def Let_def)

lemma step_halted:
  assumes "pw_halted s" and "ign \<noteq> 1"
  shows "pw_halted (fst (cali_pw_step energy t ign now s)) \<and> snd (cali_pw_step energy t ign now s) = []"
  using assms by (simp add: cali_pw_step_def Let_def pw_park_timer_def park_halted)

lemma release_halted: "pw_halted (fst (pw_release now s)) = pw_halted s" "Halt_line True \<notin> set (snd (pw_release now s))"
  by (auto simp: pw_release_def Let_def)

lemma quiet_step:
  assumes "pw_halted s" and "quiet_call c"
  shows "pw_halted (fst (pw_do s c)) \<and> Halt_line True \<notin> set (snd (pw_do s c))"
  using assms step_halted [of "fst (pw_release _ s)"] release_halted [of _ s]
  by (cases c) (simp_all add: cali_pw_tick_def split_beta cali_pw_set_enabled_def cali_ph_set_min_def cali_ph_set_soc_def)

lemma quiet_run:
  "pw_halted s \<Longrightarrow> list_all quiet_call cs \<Longrightarrow>
     pw_halted (fst (run pw_do s cs)) \<and> Halt_line True \<notin> set (snd (run pw_do s cs))"
proof (induction cs arbitrary: s)
  case (Cons c cs)
  then show ?case using quiet_step [of s c] by simp
qed simp

lemma le_minutes:
  assumes "lim \<le> 1440"
  shows "unat (word_of_nat lim * CALI_PH_MINUTE_MS :: u64) = lim * 60000"
proof -
  have "lim * 60000 < 2 ^ 64" using assms by simp
  then show ?thesis by (simp add: CALI_PH_MINUTE_MS_def unat_word_ariths unat_of_nat)
qed

lemma limit_bound: "ph_min s \<le> CALI_PH_MIN_MAX \<Longrightarrow> limit_min s \<le> 1440"
  by (simp add: limit_min_def CALI_PH_MIN_MAX_def CALI_PH_GUARD_MIN_def)

lemma park_settings [simp]:
  "ph_min (pw_park ign now s) = ph_min s" "ph_soc (pw_park ign now s) = ph_soc s" "pw_low (pw_park ign now s) = pw_low s"
  "ph_low (pw_park ign now s) = ph_low s"
  by (simp_all add: pw_park_def Let_def)

lemma park_driving: "pw_driving (pw_park 1 now s)"
  by (simp add: pw_park_def Let_def)

lemma edge_driving: "pw_driving (fst (pw_edge edge now t s)) = pw_driving s" "Halt_line True \<notin> set (snd (pw_edge edge now t s))"
  by (simp_all add: pw_edge_def cali_pw_wake_def cali_pw_pulse_def)

section \<open>Properties\<close>

text \<open>
  C13. Over every sequence of ticks, pulses by hand and settings from boot, whatever the clock and
  the frames: a line is pulled low only while both lines are released, so wake and halt are never low together and a pulse
  is never restarted, and the module's flags always say the level of both lines.
\<close>

theorem pi_lines_never_both_low:
  "foldl line_upd (Some (False, False)) (snd (run pw_do pw_boot cs)) =
     Some (pw_low (fst (run pw_do pw_boot cs)), ph_low (fst (run pw_do pw_boot cs)))"
  using pi_lines.track_run [of cs] by (simp add: lines_def pw_boot_def)

text \<open>
  After a halt the Pi is left alone: as long as no ignition 1 is read and nobody pulses a line by
  hand, no sequence of ticks and settings halts it again, whatever the timer, the battery and the settings become.
\<close>

theorem pi_halt_once_per_park:
  assumes "pw_halted s" and "list_all quiet_call cs"
  shows "Halt_line True \<notin> set (snd (run pw_do s cs))"
  using quiet_run [OF assms] by simp

theorem pi_halt_once_per_park_witness:
  "Halt_line True \<in> set (snd (run pw_do pw_boot [Pw_tick False 0 None 1800000 1800000])) \<and>
   Halt_line True \<notin> set (snd (run pw_do (fst (run pw_do pw_boot [Pw_tick False 0 None 1800000 1800000]))
     [Pw_tick False 0 None 1900000 1900000, Ph_set_min True 1, Pw_tick True 0 None 9000000 9000000]))"
proof
  show "Halt_line True \<in> set (snd (run pw_do pw_boot [Pw_tick False 0 None 1800000 1800000]))" by code_simp
  have "pw_halted (fst (run pw_do pw_boot [Pw_tick False 0 None 1800000 1800000]))" by code_simp
  then show "Halt_line True \<notin> set (snd (run pw_do (fst (run pw_do pw_boot [Pw_tick False 0 None 1800000 1800000]))
     [Pw_tick False 0 None 1900000 1900000, Ph_set_min True 1, Pw_tick True 0 None 9000000 9000000]))"
    by (rule pi_halt_once_per_park) simp
qed

text \<open>
  An automatic halt is only ever given to a parked van: in a step that pulls the halt line low the
  ignition is not known to be on, the van is not driving, both lines were released, and it has been parked for the set
  number of minutes, or for ten minutes with the battery guard on and the battery low.
\<close>

theorem pi_halt_only_parked:
  assumes "Halt_line True \<in> set (snd (cali_pw_step energy t ign now s))" and "ph_min s \<le> CALI_PH_MIN_MAX"
  shows "ign \<noteq> 1 \<and> \<not> pw_driving (pw_park ign now s) \<and> \<not> pw_low s \<and> \<not> ph_low s \<and> \<not> pw_halted s \<and>
    (\<exists>lim. 0 < lim \<and> lim * 60000 \<le> unat (now - pw_parked_at (pw_park ign now s)) \<and>
       (lim = ph_min s \<or> lim = 10 \<and> ph_soc s \<noteq> 0 \<and> batt_low_now energy (pw_park ign now s)))"
proof -
  let ?s1 = "pw_park ign now s" let ?s2 = "?s1\<lparr>pw_batt := batt_low_now energy ?s1\<rparr>"
  have i: "ign \<noteq> 1"
    using assms(1) park_driving [of now s] by (auto simp: cali_pw_step_def Let_def split_beta edge_driving pw_park_timer_def)
  then have h: "Halt_line True \<in> set (snd (pw_park_timer now t ?s2))"
    using assms(1) by (simp add: cali_pw_step_def Let_def split_beta)
  have c: "\<not> pw_driving ?s1" "\<not> pw_halted s" "limit_min ?s2 \<noteq> 0" "word_of_nat (limit_min ?s2) * CALI_PH_MINUTE_MS \<le> now - pw_parked_at ?s1"
    "\<not> pw_low s" "\<not> ph_low s"
    using h i by (auto simp: pw_park_timer_def Let_def park_halted cali_ph_halt_def cali_ph_pulse_def split: if_split_asm)
  have "limit_min ?s2 * 60000 \<le> unat (now - pw_parked_at ?s1)"
    using c(4) le_minutes [OF limit_bound, of ?s2] assms(2) by (simp add: word_le_nat_alt)
  moreover have "limit_min ?s2 = ph_min s \<or> limit_min ?s2 = 10 \<and> ph_soc s \<noteq> 0 \<and> batt_low_now energy ?s1"
    by (auto simp: limit_min_def CALI_PH_GUARD_MIN_def)
  ultimately show ?thesis using i c by blast
qed

theorem pi_halt_only_parked_witness:
  "Halt_line True \<in> set (snd (cali_pw_step None 1800000 0 1800000 (pw_boot\<lparr>pw_prev := 0\<rparr>))) \<and>
   \<not> pw_driving (pw_park 0 1800000 (pw_boot\<lparr>pw_prev := 0\<rparr>))"
proof
  show h: "Halt_line True \<in> set (snd (cali_pw_step None 1800000 0 1800000 (pw_boot\<lparr>pw_prev := 0\<rparr>)))" by code_simp
  have "ph_min (pw_boot\<lparr>pw_prev := 0\<rparr>) \<le> CALI_PH_MIN_MAX" by code_simp
  then show "\<not> pw_driving (pw_park 0 1800000 (pw_boot\<lparr>pw_prev := 0\<rparr>))" using pi_halt_only_parked [OF h] by simp
qed

text \<open>
  A halt delay and a guard threshold that the setters accept survive a restart: booting on the
  bytes they stored restores both, for every delay of 0 to 1440 minutes and every threshold of 0 to 100 percent.
\<close>

theorem pi_settings_roundtrip:
  assumes "m \<le> 1440" and "p \<le> 100"
    and "snd (cali_ph_set_min True m s) = [Kv_set CALI_PH_MIN_KEY bm]" and "snd (cali_ph_set_soc True p s) = [Kv_set CALI_PH_SOC_KEY bp]"
  shows "(let s' = fst (cali_pw_init [CALI_PH_MIN_KEY \<mapsto> bm, CALI_PH_SOC_KEY \<mapsto> bp] up pw_boot) in ph_min s' = m \<and> ph_soc s' = p)"
proof -
  have bm: "bm = [word_of_nat (m mod 256), word_of_nat (m div 256)]" using assms(1,3) by (simp add: cali_ph_set_min_def CALI_PH_MIN_MAX_def)
  have bp: "bp = [word_of_nat p]" using assms(2,4) by (simp add: cali_ph_set_soc_def)
  have "m div 256 < 256" using assms(1) by simp
  then have m: "le16 bm = m" by (simp add: bm le16_def unat_of_nat)
  have u: "unat (word_of_nat p :: u8) = p" using assms(2) by (simp add: unat_of_nat)
  then have "(word_of_nat p :: u8) \<le> 100" using assms(2) by (simp add: word_le_nat_alt)
  then show ?thesis
    using m u assms(1) by (simp add: cali_pw_init_def Let_def CALI_PW_ON_KEY_def CALI_PH_MIN_KEY_def CALI_PH_SOC_KEY_def bp bm CALI_PH_MIN_MAX_def)
qed

theorem pi_settings_roundtrip_witness:
  "(let s' = fst (cali_pw_init [CALI_PH_MIN_KEY \<mapsto> [0x2c, 0x01], CALI_PH_SOC_KEY \<mapsto> [45]] 0 pw_boot) in ph_min s' = 300 \<and> ph_soc s' = 45)"
proof (rule pi_settings_roundtrip [of _ _ pw_boot])
  show "snd (cali_ph_set_min True 300 pw_boot) = [Kv_set CALI_PH_MIN_KEY [0x2c, 0x01]]" by code_simp
  show "snd (cali_ph_set_soc True 45 pw_boot) = [Kv_set CALI_PH_SOC_KEY [45]]" by code_simp
qed simp_all

end
