(* ===== verification/Captive_DNS.thy ===== *)
theory Captive_DNS
  imports Prelude
begin

text \<open>
  The setup hotspot's DNS responder of \<open>captive_dns.c\<close>: the query parser, the reply builder, the socket's life
  cycle and the poll that answers at most sixteen datagrams. The network table is a parameter: what
  \<open>udp_bind\<close> and each \<open>udp_recvfrom\<close> return is an input, what is sent or closed an effect.
\<close>

section \<open>Data\<close>

definition MAX_NAME_WIRE :: nat where "MAX_NAME_WIRE = 253"
definition RECV_MAX :: nat where "RECV_MAX = 512"
definition REPLY_MAX :: nat where "REPLY_MAX = 512"
definition DRAIN_MAX :: nat where "DRAIN_MAX = 16"
definition ANSWER_RR_LEN :: nat where "ANSWER_RR_LEN = 16"
definition CALI_CAPTIVE_DNS_PORT :: u16 where "CALI_CAPTIVE_DNS_PORT = 53"

definition PROBE_PATHS :: "string list" where
  "PROBE_PATHS =
     [''/generate_204'', ''/gen_204'', ''/hotspot-detect.html'', ''/library/test/success.html'', ''/connecttest.txt'', ''/ncsi.txt'',
      ''/canonical.html'', ''/success.txt'']"

record dns =
  dns_fd :: int
  dns_answer_ip :: u32

definition dns_boot :: dns where "dns_boot = \<lparr>dns_fd = -1, dns_answer_ip = 0\<rparr>"

text \<open>One \<open>udp_recvfrom\<close>: no bytes (nothing waiting, or an error), or a datagram with its sender.\<close>

datatype dns_recv = Recv_none int | Recv "u8 list" u32 u16

datatype dns_eff = Dns_close int | Dns_bind u16 | Dns_send int "u8 list" u32 u16

section \<open>Operations\<close>

definition cali_captive_is_probe :: "string \<Rightarrow> bool" where
  "cali_captive_is_probe path = list_ex (\<lambda>p. path = p) PROBE_PATHS"

function skip_qname :: "u8 list \<Rightarrow> nat \<Rightarrow> nat \<Rightarrow> nat option" where
  "skip_qname buf i wire =
     (if i \<ge> length buf then None
      else
        let label_len = buf ! i in
        if label_len AND 0xC0 \<noteq> 0 then None
        else if label_len = 0 then Some (i + 1)
        else if i + 1 + unat label_len > length buf then None
        else if wire + 1 + unat label_len > MAX_NAME_WIRE then None
        else skip_qname buf (i + 1 + unat label_len) (wire + 1 + unat label_len))"
  by auto
termination by (relation "measure (\<lambda>(buf, i, wire). length buf - i)") auto

declare skip_qname.simps [simp del]

definition be16 :: "u8 \<Rightarrow> u8 \<Rightarrow> u16" where
  "be16 a b = push_bit 8 (ucast a) OR ucast b"

definition dns_answer :: "u32 \<Rightarrow> u8 list" where
  "dns_answer ip =
     [0xC0, 0x0C, 0, 1, 0, 1, 0, 0, 0, 0, 0, 4, ucast (drop_bit 24 ip), ucast (drop_bit 16 ip), ucast (drop_bit 8 ip), ucast ip]"

definition reply_flags :: "u16 \<Rightarrow> u16" where
  "reply_flags flags = 0x8000 OR (flags AND 0x7800) OR 0x0400 OR (flags AND 0x0100)"

definition asks_A :: "u8 list \<Rightarrow> nat \<Rightarrow> bool" where
  "asks_A buf e \<longleftrightarrow> be16 (buf ! e) (buf ! (e + 1)) = 1 \<and> be16 (buf ! (e + 2)) (buf ! (e + 3)) = 1"

text \<open>The reply to a query whose question name ends before byte \<open>e\<close>.\<close>

definition reply_to :: "u32 \<Rightarrow> u8 list \<Rightarrow> nat \<Rightarrow> u8 list" where
  "reply_to ip buf e =
     [buf ! 0, buf ! 1, ucast (drop_bit 8 (reply_flags (be16 (buf ! 2) (buf ! 3)))), ucast (reply_flags (be16 (buf ! 2) (buf ! 3))),
      0, 1, 0, if asks_A buf e then 1 else 0, 0, 0, 0, 0]
     @ take (e + 4 - 12) (drop 12 buf) @ (if asks_A buf e then dns_answer ip else [])"

definition build_reply :: "u32 \<Rightarrow> u8 list \<Rightarrow> u8 list option" where
  "build_reply answer_ip buf =
     (if length buf < 12 then None
      else
        let flags = be16 (buf ! 2) (buf ! 3) in
        if flags AND 0x8000 \<noteq> 0 then None
        else if be16 (buf ! 4) (buf ! 5) \<noteq> 1 then None
        else
          case skip_qname buf 12 0 of
            None \<Rightarrow> None
          | Some qname_end \<Rightarrow>
              if qname_end + 4 > length buf then None
              else
                let qsec_len = qname_end + 4 - 12;
                    answer = asks_A buf qname_end;
                    reply_len = 12 + qsec_len + (if answer then ANSWER_RR_LEN else 0)
                in if reply_len > REPLY_MAX then None else Some (reply_to answer_ip buf qname_end))"

definition cali_captive_dns_stop :: "dns \<Rightarrow> dns \<times> dns_eff list" where
  "cali_captive_dns_stop s = (s\<lparr>dns_fd := -1\<rparr>, if dns_fd s \<ge> 0 then [Dns_close (dns_fd s)] else [])"

definition cali_captive_dns_start :: "int \<Rightarrow> u32 \<Rightarrow> dns \<Rightarrow> dns \<times> dns_eff list" where
  "cali_captive_dns_start bound answer_ip s =
     (let (s1, e1) = cali_captive_dns_stop s
      in (s1\<lparr>dns_answer_ip := answer_ip, dns_fd := (if bound \<ge> 0 then bound else -1)\<rparr>, e1 @ [Dns_bind CALI_CAPTIVE_DNS_PORT]))"

fun dns_drain :: "nat \<Rightarrow> dns_recv list \<Rightarrow> dns \<Rightarrow> dns_eff list" where
  "dns_drain 0 rs s = []"
| "dns_drain (Suc k) [] s = []"
| "dns_drain (Suc k) (Recv_none n # rs) s = []"
| "dns_drain (Suc k) (Recv d ip port # rs) s =
     (let buf = take RECV_MAX d in
      if buf = [] then []
      else (case build_reply (dns_answer_ip s) buf of Some r \<Rightarrow> [Dns_send (dns_fd s) r ip port] | None \<Rightarrow> []) @ dns_drain k rs s)"

definition cali_captive_dns_poll :: "dns_recv list \<Rightarrow> dns \<Rightarrow> dns_eff list" where
  "cali_captive_dns_poll rs s = (if dns_fd s < 0 then [] else dns_drain DRAIN_MAX rs s)"

section \<open>The parser\<close>

lemma skip_qname_bounds: "skip_qname buf i wire = Some e \<Longrightarrow> i < e \<and> e \<le> length buf"
proof (induction buf i wire rule: skip_qname.induct)
  case (1 buf i wire)
  show ?case
  proof (cases "i \<ge> length buf \<or> buf ! i AND 0xC0 \<noteq> 0 \<or> buf ! i = 0 \<or> i + 1 + unat (buf ! i) > length buf \<or>
      wire + 1 + unat (buf ! i) > MAX_NAME_WIRE")
    case True
    then show ?thesis using 1(2) by (auto simp: skip_qname.simps [of buf i wire] Let_def split: if_split_asm)
  next
    case False
    then have "skip_qname buf (i + 1 + unat (buf ! i)) (wire + 1 + unat (buf ! i)) = Some e"
      using 1(2) by (simp add: skip_qname.simps [of buf i wire] Let_def)
    then show ?thesis using 1(1) False by auto
  qed
qed

text \<open>The wire form of a name: each label after its length octet, then the empty label.\<close>

definition wire_labels :: "u8 list list \<Rightarrow> u8 list" where
  "wire_labels ls = concat (map (\<lambda>l. word_of_nat (length l) # l) ls)"

definition label_ok :: "u8 list \<Rightarrow> bool" where
  "label_ok l \<longleftrightarrow> l \<noteq> [] \<and> length l < 64"

lemma label_octet_all: "list_all (\<lambda>n. (word_of_nat n :: u8) AND 0xC0 = 0 \<and> ((word_of_nat n :: u8) = 0 \<longleftrightarrow> n = 0)) [0..<64]"
  by code_simp

lemma label_octet: "n < 64 \<Longrightarrow> (word_of_nat n :: u8) AND 0xC0 = 0" "n < 64 \<Longrightarrow> (word_of_nat n :: u8) = 0 \<longleftrightarrow> n = 0"
  "n < 64 \<Longrightarrow> unat (word_of_nat n :: u8) = n"
  using label_octet_all by (auto simp: list_all_iff unat_of_nat)

lemma skip_qname_labels:
  "list_all label_ok ls \<Longrightarrow> wire + length (wire_labels ls) \<le> MAX_NAME_WIRE \<Longrightarrow>
     skip_qname (pre @ wire_labels ls @ 0 # post) (length pre) wire = Some (length pre + length (wire_labels ls) + 1)"
proof (induction ls arbitrary: pre wire)
  case Nil
  then show ?case by (simp add: wire_labels_def skip_qname.simps [of _ "length pre"])
next
  case (Cons l ls)
  have l: "l \<noteq> []" "length l < 64" using Cons.prems(1) by (simp_all add: label_ok_def)
  let ?o = "word_of_nat (length l) :: u8"
  let ?buf = "pre @ wire_labels (l # ls) @ 0 # post"
  have buf: "?buf = (pre @ ?o # l) @ wire_labels ls @ 0 # post" by (simp add: wire_labels_def)
  have nth: "?buf ! length pre = ?o" by (simp add: wire_labels_def)
  have len: "length (wire_labels (l # ls)) = Suc (length l + length (wire_labels ls))" by (simp add: wire_labels_def)
  have step: "skip_qname ?buf (length pre) wire = skip_qname ?buf (length pre + 1 + length l) (wire + 1 + length l)"
    unfolding skip_qname.simps [of ?buf "length pre" wire]
    using l nth len Cons.prems(2) by (simp add: label_octet Let_def)
  have "skip_qname ?buf (length (pre @ ?o # l)) (wire + 1 + length l) = Some (length (pre @ ?o # l) + length (wire_labels ls) + 1)"
    unfolding buf by (rule Cons.IH) (use Cons.prems len in simp_all)
  then show ?case using step len by simp
qed

section \<open>The reply\<close>

lemma be16_bits: "bit (be16 a b) n = (n < 16 \<and> (if n < 8 then bit b n else bit a (n - 8)))"
  by (auto simp: be16_def bit_or_iff bit_push_bit_iff bit_unsigned_iff dest: bit_imp_le_length)

lemma build_reply_eq:
  "build_reply ip buf =
     (if length buf < 12 \<or> be16 (buf ! 2) (buf ! 3) AND 0x8000 \<noteq> 0 \<or> be16 (buf ! 4) (buf ! 5) \<noteq> 1 then None
      else case skip_qname buf 12 0 of
             None \<Rightarrow> None
           | Some e \<Rightarrow> if e + 4 > length buf \<or> length (reply_to ip buf e) > 512 then None else Some (reply_to ip buf e))"
proof -
  have len: "length (reply_to ip buf e) = 12 + (e - 8) + (if asks_A buf e then ANSWER_RR_LEN else 0)" if "e + 4 \<le> length buf" for e
    using that by (simp add: reply_to_def dns_answer_def ANSWER_RR_LEN_def)
  then show ?thesis by (simp add: build_reply_def Let_def REPLY_MAX_def not_less split: option.split) auto
qed

lemma build_reply_SomeD:
  assumes "build_reply ip buf = Some r"
  shows "\<exists>e. 12 \<le> length buf \<and> skip_qname buf 12 0 = Some e \<and> e + 4 \<le> length buf \<and> be16 (buf ! 2) (buf ! 3) AND 0x8000 = 0 \<and>
    length r \<le> 512 \<and> r = reply_to ip buf e"
  using assms by (cases "skip_qname buf 12 0") (simp_all add: build_reply_eq not_less split: if_split_asm)

lemma reply_flag_bits: "(ucast (drop_bit 8 (reply_flags f)) :: u8) AND 0x80 = 0x80"
proof (rule bit_eqI)
  fix n
  have b: "bit (0x80 :: u8) n = (n = 7)" for n
    using bit_exp_iff [where 'a = "8 word", of 7 n] by (auto simp: possible_bit_word)
  have c: "bit (0x8000 :: u16) n = (n = 15)" for n
    using bit_exp_iff [where 'a = "16 word", of 15 n] by (auto simp: possible_bit_word)
  show "bit ((ucast (drop_bit 8 (reply_flags f)) :: u8) AND 0x80) n = bit (0x80 :: u8) n"
    by (auto simp: reply_flags_def bit_and_iff b bit_unsigned_iff bit_drop_bit_eq bit_or_iff c)
qed

section \<open>Properties\<close>

text \<open>
  C39. Whatever datagram arrives, a reply is built only for a query: it is at most 512 bytes long, echoes
  the query's identifier, carries the response flag, one question and the query's own question section byte for byte, and
  after that nothing or exactly one 16-byte answer record, as its answer count says.
\<close>

theorem dns_reply_wellformed:
  assumes "build_reply ip buf = Some r"
  shows "length r \<le> 512 \<and> take 2 r = take 2 buf \<and> be16 (buf ! 2) (buf ! 3) AND 0x8000 = 0 \<and> r ! 2 AND 0x80 = 0x80 \<and>
    be16 (r ! 4) (r ! 5) = 1 \<and>
    (\<exists>e. skip_qname buf 12 0 = Some e \<and> e + 4 \<le> length buf \<and> take (e - 8) (drop 12 r) = take (e - 8) (drop 12 buf) \<and>
       drop (e + 4) r = (if r ! 7 = 1 then dns_answer ip else []))"
proof -
  obtain e where e: "12 \<le> length buf" "skip_qname buf 12 0 = Some e" "e + 4 \<le> length buf"
    "be16 (buf ! 2) (buf ! 3) AND 0x8000 = 0" "length r \<le> 512" and r: "r = reply_to ip buf e"
    using build_reply_SomeD [OF assms] by blast
  have e12: "12 < e" using skip_qname_bounds [OF e(2)] by simp
  have id: "take 2 r = take 2 buf" using e(1) by (cases buf; cases "tl buf") (auto simp: r reply_to_def numeral_2_eq_2)
  have flag: "r ! 2 AND 0x80 = 0x80" by (simp add: r reply_to_def reply_flag_bits)
  have one: "be16 (r ! 4) (r ! 5) = 1" by (simp add: r reply_to_def be16_def)
  obtain h where h: "r = h @ take (e - 8) (drop 12 buf) @ (if asks_A buf e then dns_answer ip else [])" "length h = 12"
    by (rule that [of "take 12 r"]) (simp_all add: r reply_to_def)
  have l: "length (take (e - 8) (drop 12 buf)) = e - 8" using e(3) by simp
  have q: "take (e - 8) (drop 12 r) = take (e - 8) (drop 12 buf)" using h l by simp
  have "drop (e + 4) r = (if asks_A buf e then dns_answer ip else [])" using h l e12 by simp
  then have rest: "drop (e + 4) r = (if r ! 7 = 1 then dns_answer ip else [])" by (simp add: r reply_to_def)
  show ?thesis by (intro conjI exI [of _ e]) (fact e id flag one q rest)+
qed

text \<open>A query for the address of \<open>a.de\<close>.\<close>

definition sample_query :: "u8 list" where
  "sample_query = [0xAB, 0xCD, 1, 0, 0, 1, 0, 0, 0, 0, 0, 0, 1, 97, 2, 100, 101, 0, 0, 1, 0, 1]"

theorem dns_reply_wellformed_witness:
  "\<exists>r. build_reply 0xC0A80401 sample_query = Some r \<and> length r = 38 \<and> take 2 r = [0xAB, 0xCD]"
proof -
  obtain r where r: "build_reply 0xC0A80401 sample_query = Some r" "length r = 38"
    by (rule that [of "reply_to 0xC0A80401 sample_query 18"]) code_simp+
  show ?thesis using dns_reply_wellformed [OF r(1)] r by (auto simp: sample_query_def)
qed

text \<open>
  Every well-formed address query is answered with the hotspot's address: for an identifier,
  any flags without the response bit and any name of labels of 1 to 63 bytes whose wire form has at most 253 bytes, the
  A/IN query gets a reply that ends in the four bytes of \<open>answer_ip\<close> in network order and has answer count one.
\<close>

theorem dns_answers_every_A_query:
  assumes "list_all label_ok ls" and "length (wire_labels ls) \<le> 253" and "be16 f1 f2 AND 0x8000 = 0"
  shows "\<exists>r. build_reply ip ([i1, i2, f1, f2, 0, 1, a1, a2, n1, n2, x1, x2] @ wire_labels ls @ [0, 0, 1, 0, 1] @ rest) = Some r \<and>
    r ! 7 = 1 \<and> drop (length r - 4) r = [ucast (drop_bit 24 ip), ucast (drop_bit 16 ip), ucast (drop_bit 8 ip), ucast ip]"
proof -
  let ?h = "[i1, i2, f1, f2, 0, 1, a1, a2, n1, n2, x1, x2]"
  let ?buf = "?h @ wire_labels ls @ 0 # [0, 1, 0, 1] @ rest" let ?e = "13 + length (wire_labels ls)"
  have h12: "length ?h = 12" by simp
  have s: "skip_qname ?buf 12 0 = Some ?e"
    using skip_qname_labels [of ls 0 ?h "[0, 1, 0, 1] @ rest"] assms(1,2) unfolding h12 by (simp add: MAX_NAME_WIRE_def)
  have n: "?buf ! (12 + length (wire_labels ls) + k) = (0 # [0, 1, 0, 1] @ rest) ! k" for k
    using nth_append_length_plus [of "?h @ wire_labels ls" "0 # [0, 1, 0, 1] @ rest" k] by simp
  have "?buf ! ?e = 0" "?buf ! (?e + 1) = 1" "?buf ! (?e + 2) = 0" "?buf ! (?e + 3) = 1"
    using n [of 1] n [of 2] n [of 3] n [of 4] by (simp_all add: eval_nat_numeral)
  then have asks: "asks_A ?buf ?e" by (simp add: asks_A_def be16_def)
  have len: "length (reply_to ip ?buf ?e) = 33 + length (wire_labels ls)" using asks by (simp add: reply_to_def dns_answer_def)
  have one: "be16 0 1 = 1" by (simp add: be16_def)
  have b: "build_reply ip ?buf = Some (reply_to ip ?buf ?e)"
    using s len assms(2,3) one by (simp add: build_reply_eq)
  have "drop (length (reply_to ip ?buf ?e) - 4) (reply_to ip ?buf ?e) = drop 12 (dns_answer ip)"
    unfolding len using asks by (simp add: reply_to_def dns_answer_def eval_nat_numeral)
  then show ?thesis using b asks by (intro exI [of _ "reply_to ip ?buf ?e"]) (simp add: dns_answer_def reply_to_def)
qed

theorem dns_answers_every_A_query_witness:
  "\<exists>r. build_reply 0xC0A80401 sample_query = Some r \<and> r ! 7 = 1 \<and> drop (length r - 4) r = [192, 168, 4, 1]"
proof -
  have ip: "[ucast (drop_bit 24 (0xC0A80401 :: u32)), ucast (drop_bit 16 (0xC0A80401 :: u32)), ucast (drop_bit 8 (0xC0A80401 :: u32)),
      ucast (0xC0A80401 :: u32)] = ([192, 168, 4, 1] :: u8 list)" by code_simp
  show ?thesis
    using dns_answers_every_A_query [of "[[97], [100, 101]]" 1 0 "0xC0A80401" "0xAB" "0xCD" 0 0 0 0 0 0 "[]"] unfolding ip
    by (simp add: label_ok_def wire_labels_def sample_query_def be16_def)
qed

text \<open>
  One poll answers at most sixteen datagrams, every one on the bound socket, and none while no socket
  is bound.
\<close>

theorem dns_poll_bounded:
  "length (cali_captive_dns_poll rs s) \<le> 16 \<and> (dns_fd s < 0 \<longrightarrow> cali_captive_dns_poll rs s = []) \<and>
   list_all (\<lambda>e. \<exists>r ip port. e = Dns_send (dns_fd s) r ip port \<and> length r \<le> 512) (cali_captive_dns_poll rs s)"
proof -
  have d: "length (dns_drain k rs s) \<le> k \<and> list_all (\<lambda>e. \<exists>r ip port. e = Dns_send (dns_fd s) r ip port \<and> length r \<le> 512) (dns_drain k rs s)" for k rs
  proof (induction k rs s rule: dns_drain.induct)
    case (4 k d ip port rs s)
    have "build_reply (dns_answer_ip s) buf = Some r \<Longrightarrow> length r \<le> 512" for buf r
      using build_reply_SomeD by blast
    with 4 show ?case by (auto simp: Let_def split: option.split)
  qed simp_all
  show ?thesis using d [of DRAIN_MAX rs] by (simp add: cali_captive_dns_poll_def DRAIN_MAX_def)
qed

theorem dns_poll_bounded_witness:
  "length (cali_captive_dns_poll (replicate 20 (Recv sample_query 1 2)) \<lparr>dns_fd = 3, dns_answer_ip = 0xC0A80401\<rparr>) = 16 \<and>
   cali_captive_dns_poll [Recv sample_query 1 2] dns_boot = []"
proof
  show "length (cali_captive_dns_poll (replicate 20 (Recv sample_query 1 2)) \<lparr>dns_fd = 3, dns_answer_ip = 0xC0A80401\<rparr>) = 16"
    by code_simp
  show "cali_captive_dns_poll [Recv sample_query 1 2] dns_boot = []"
    using dns_poll_bounded [of "[Recv sample_query 1 2]" dns_boot] by (simp add: dns_boot_def)
qed

end
