(* ===== verification/Runner.thy ===== *)
theory Runner
  imports Pairing_SM
begin

text \<open>
  The pairing flow of \<open>runner.c\<close>: transport events are mapped to events of the pairing machine, queued in a ring of
  eight slots, stepped one at a time, and the machine's actions become transport calls. The transport is a parameter:
  the answer to its n-th call says whether the call started and which events it delivered to the sink before it
  returned. The drain loop may run as long as the transport answers with events, so it is a partial function; that it
  returns is proved for a transport whose events come later, on the owner's task.
\<close>

section \<open>Data\<close>

datatype cali_tev = CALI_TEV_FOUND | CALI_TEV_CONNECTED | CALI_TEV_CONNECT_FAIL | CALI_TEV_PASSKEY_REQ | CALI_TEV_ENC_OK
  | CALI_TEV_ENC_FAIL | CALI_TEV_DISCONNECTED | CALI_TEV_READ | CALI_TEV_NOTIFY | CALI_TEV_DISCOVERED | CALI_TEV_HEARTBEAT
  | CALI_TEV_WRITTEN | CALI_TEV_ADV | CALI_TEV_UNIT_ADV

record cali_tevent =
  te_ev :: cali_tev
  te_status :: int
  te_char_short :: u16
  te_data :: "u8 list"

datatype tcall = T_start_scan string | T_stop_scan | T_connect_found | T_pair | T_inject_passkey u32 | T_read u16
  | T_keep_only_bond | T_disconnect | T_remove_bond

record tanswer =
  ta_ok :: bool
  ta_events :: "cali_tevent list"

record tport =
  tp_answer :: "nat \<Rightarrow> tanswer"
  tp_identity :: "string option"

datatype ru_eff = Ru_call tcall | Ru_state cali_pair_state "string option" | Ru_other cali_tevent | Ru_unit_adv u64
  | Ru_sensor_adv cali_tevent u64

definition CODEC_DEVICE_NAME :: string where "CODEC_DEVICE_NAME = ''VWCAMPER''"
definition CODEC_CHAR_AUTH :: u16 where "CODEC_CHAR_AUTH = 0x1004"
definition QLEN :: nat where "QLEN = 8"

record runner =
  ru_ps :: cali_pair_state
  ru_now_ms :: u64
  ru_entered_ms :: u64
  ru_q :: "(pair_ev \<times> u32) list"
  ru_qhead :: nat
  ru_qlen :: nat
  ru_draining :: bool
  ru_calls :: nat

section \<open>Operations\<close>

definition ru_pop :: "runner \<Rightarrow> runner" where
  "ru_pop r = r\<lparr>ru_qhead := (ru_qhead r + 1) mod QLEN, ru_qlen := ru_qlen r - 1\<rparr>"

definition ru_push :: "runner \<Rightarrow> pair_ev \<times> u32 \<Rightarrow> runner" where
  "ru_push r x = r\<lparr>ru_q := (ru_q r)[(ru_qhead r + ru_qlen r) mod QLEN := x], ru_qlen := ru_qlen r + 1\<rparr>"

text \<open>The first half of \<open>feed\<close>: an event that finds no slot is dropped.\<close>

definition ru_enqueue :: "pair_ev \<times> u32 \<Rightarrow> runner \<Rightarrow> runner" where
  "ru_enqueue x r = (if ru_qlen r < QLEN then ru_push r x else r)"

definition in_flow :: "pair_st \<Rightarrow> bool" where
  "in_flow st \<longleftrightarrow> st = PAIR_SCANNING \<or> st = PAIR_CONNECTING \<or> st = PAIR_WAITING_PASSKEY \<or> st = PAIR_PAIRING \<or>
     st = PAIR_VERIFYING \<or> st = PAIR_RESETTING"

definition map_event :: "cali_pair_state \<Rightarrow> cali_tevent \<Rightarrow> (pair_ev \<times> u32) option" where
  "map_event ps e =
     (let st = ps_st ps in
      if \<not> in_flow st then None
      else case te_ev e of
        CALI_TEV_FOUND \<Rightarrow> Some (PAIR_EV_DEVICE_FOUND, 0)
      | CALI_TEV_CONNECTED \<Rightarrow> Some (PAIR_EV_CONNECTED, 0)
      | CALI_TEV_CONNECT_FAIL \<Rightarrow> Some (PAIR_EV_CONNECT_FAIL, 0)
      | CALI_TEV_PASSKEY_REQ \<Rightarrow> Some (PAIR_EV_PASSKEY_REQUESTED, 0)
      | CALI_TEV_ENC_OK \<Rightarrow> Some (PAIR_EV_PAIR_OK, 0)
      | CALI_TEV_ENC_FAIL \<Rightarrow> Some (PAIR_EV_PAIR_FAIL, 0)
      | CALI_TEV_DISCONNECTED \<Rightarrow>
          if st = PAIR_CONNECTING then Some (PAIR_EV_CONNECT_FAIL, 0)
          else if st = PAIR_WAITING_PASSKEY \<or> st = PAIR_PAIRING then Some (PAIR_EV_PAIR_FAIL, 0)
          else if st = PAIR_VERIFYING then Some (PAIR_EV_VERIFY_FAIL, 0)
          else None
      | CALI_TEV_READ \<Rightarrow>
          if st \<noteq> PAIR_VERIFYING \<or> te_char_short e \<noteq> CODEC_CHAR_AUTH then None
          else if te_status e \<noteq> 0 then Some (PAIR_EV_VERIFY_FAIL, 0)
          else Some (PAIR_EV_VERIFY_OK, 1)
      | _ \<Rightarrow> None)"

text \<open>The sink while a step runs: \<open>feed\<close> only queues.\<close>

definition sink_inside :: "cali_tevent \<Rightarrow> runner \<Rightarrow> runner \<times> ru_eff list" where
  "sink_inside e r =
     (if te_ev e = CALI_TEV_UNIT_ADV then (r, [Ru_unit_adv (ru_now_ms r)])
      else if te_ev e = CALI_TEV_ADV then (r, [Ru_sensor_adv e (ru_now_ms r)])
      else case map_event (ru_ps r) e of Some x \<Rightarrow> (ru_enqueue x r, []) | None \<Rightarrow> (r, [Ru_other e]))"

fun sinks_inside :: "cali_tevent list \<Rightarrow> runner \<Rightarrow> runner \<times> ru_eff list" where
  "sinks_inside [] r = (r, [])"
| "sinks_inside (e # es) r = (let (r1, f1) = sink_inside e r; (r2, f2) = sinks_inside es r1 in (r2, f1 @ f2))"

text \<open>The transport call of an action, and the event fed for its answer.\<close>

fun act_call :: "cali_pair_action \<Rightarrow> tcall" where
  "act_call a =
     (case pa_act a of
        PAIR_ACT_START_SCAN \<Rightarrow> T_start_scan CODEC_DEVICE_NAME
      | PAIR_ACT_STOP_SCAN \<Rightarrow> T_stop_scan
      | PAIR_ACT_CONNECT \<Rightarrow> T_connect_found
      | PAIR_ACT_PAIR \<Rightarrow> T_pair
      | PAIR_ACT_SEND_PASSKEY \<Rightarrow> T_inject_passkey (pa_arg a)
      | PAIR_ACT_VERIFY \<Rightarrow> T_read CODEC_CHAR_AUTH
      | PAIR_ACT_PERSIST_BOND \<Rightarrow> T_keep_only_bond
      | PAIR_ACT_DISCONNECT \<Rightarrow> T_disconnect
      | PAIR_ACT_REMOVE_BOND \<Rightarrow> T_remove_bond)"

fun act_feed :: "pair_act \<Rightarrow> bool \<Rightarrow> pair_ev option" where
  "act_feed PAIR_ACT_CONNECT ok = (if ok then None else Some PAIR_EV_CONNECT_FAIL)"
| "act_feed PAIR_ACT_PAIR ok = (if ok then None else Some PAIR_EV_PAIR_FAIL)"
| "act_feed PAIR_ACT_SEND_PASSKEY ok = (if ok then None else Some PAIR_EV_PAIR_FAIL)"
| "act_feed PAIR_ACT_VERIFY ok = (if ok then None else Some PAIR_EV_VERIFY_FAIL)"
| "act_feed PAIR_ACT_REMOVE_BOND ok = (if ok then Some PAIR_EV_RESET_DONE else None)"
| "act_feed _ ok = None"

definition run_action :: "tport \<Rightarrow> cali_pair_action \<Rightarrow> runner \<Rightarrow> runner \<times> ru_eff list" where
  "run_action t a r =
     (let ans = tp_answer t (ru_calls r);
          (r1, f1) = sinks_inside (ta_events ans) (r\<lparr>ru_calls := ru_calls r + 1\<rparr>)
      in (case act_feed (pa_act a) (ta_ok ans) of Some ev \<Rightarrow> ru_enqueue (ev, 0) r1 | None \<Rightarrow> r1, Ru_call (act_call a) # f1))"

fun run_actions :: "tport \<Rightarrow> cali_pair_action list \<Rightarrow> runner \<Rightarrow> runner \<times> ru_eff list" where
  "run_actions t [] r = (r, [])"
| "run_actions t (a # as) r = (let (r1, f1) = run_action t a r; (r2, f2) = run_actions t as r1 in (r2, f1 @ f2))"

definition ru_step :: "tport \<Rightarrow> pair_ev \<times> u32 \<Rightarrow> runner \<Rightarrow> runner \<times> ru_eff list" where
  "ru_step t e r =
     (let (ps, acts) = cali_pair_step (ru_ps r) e;
          changed = (ps \<noteq> ru_ps r);
          r1 = r\<lparr>ru_ps := ps, ru_entered_ms := (if changed then ru_now_ms r else ru_entered_ms r)\<rparr>;
          (r2, f2) = run_actions t acts r1
      in (r2, f2 @ (if changed then [Ru_state (ru_ps r2) (if ps_st (ru_ps r2) = PAIR_BONDED then tp_identity t else None)] else [])))"

partial_function (option) ru_drain :: "tport \<Rightarrow> runner \<Rightarrow> (runner \<times> ru_eff list) option" where
  "ru_drain t r =
     (if ru_qlen r = 0 then Some (r, [])
      else
        let x = ru_q r ! ru_qhead r; s = ru_step t x (ru_pop r)
        in Option.bind (ru_drain t (fst s)) (\<lambda>y. Some (fst y, snd s @ snd y)))"

declare ru_drain.simps [code]

definition feed :: "tport \<Rightarrow> pair_ev \<times> u32 \<Rightarrow> runner \<Rightarrow> (runner \<times> ru_eff list) option" where
  "feed t x r =
     (let r1 = ru_enqueue x r in
      if ru_draining r1 then Some (r1, [])
      else map_option (\<lambda>y. ((fst y)\<lparr>ru_draining := False\<rparr>, snd y)) (ru_drain t (r1\<lparr>ru_draining := True\<rparr>)))"

definition sink :: "tport \<Rightarrow> cali_tevent \<Rightarrow> runner \<Rightarrow> (runner \<times> ru_eff list) option" where
  "sink t e r =
     (if te_ev e = CALI_TEV_UNIT_ADV then Some (r, [Ru_unit_adv (ru_now_ms r)])
      else if te_ev e = CALI_TEV_ADV then Some (r, [Ru_sensor_adv e (ru_now_ms r)])
      else case map_event (ru_ps r) e of Some x \<Rightarrow> feed t x r | None \<Rightarrow> Some (r, [Ru_other e]))"

definition cali_runner_init :: runner where
  "cali_runner_init =
     \<lparr>ru_ps = pair_init, ru_now_ms = 0, ru_entered_ms = 0, ru_q = replicate QLEN (PAIR_EV_START, 0), ru_qhead = 0, ru_qlen = 0,
      ru_draining = False, ru_calls = 0\<rparr>"

definition cali_runner_tick :: "tport \<Rightarrow> u64 \<Rightarrow> runner \<Rightarrow> (runner \<times> ru_eff list) option" where
  "cali_runner_tick t now r0 =
     (let r = r0\<lparr>ru_now_ms := now\<rparr>; s = PAIR_TIMEOUT_S (ps_st (ru_ps r))
      in if s \<noteq> 0 \<and> now - ru_entered_ms r \<ge> ucast s * 1000 then feed t (PAIR_EV_TIMEOUT, 0) r else Some (r, []))"

text \<open>The calls of the owner task.\<close>

datatype ru_in = Ru_start | Ru_passkey u32 | Ru_forget | Ru_cancel | Ru_tick u64 | Ru_event cali_tevent

fun cali_runner :: "tport \<Rightarrow> ru_in \<Rightarrow> runner \<Rightarrow> (runner \<times> ru_eff list) option" where
  "cali_runner t Ru_start r = feed t (PAIR_EV_START, 0) r"
| "cali_runner t (Ru_passkey pk) r =
     (if ps_st (ru_ps r) = PAIR_WAITING_PASSKEY then feed t (PAIR_EV_PASSKEY_ENTERED, pk) r else Some (r, []))"
| "cali_runner t Ru_forget r = feed t (PAIR_EV_RESET, 0) r"
| "cali_runner t Ru_cancel r = feed t (PAIR_EV_CANCEL, 0) r"
| "cali_runner t (Ru_tick now) r = cali_runner_tick t now r"
| "cali_runner t (Ru_event e) r = sink t e r"

definition cali_runner_in_flow :: "runner \<Rightarrow> bool" where
  "cali_runner_in_flow r \<longleftrightarrow> ps_st (ru_ps r) \<noteq> PAIR_IDLE \<and> ps_st (ru_ps r) \<noteq> PAIR_BONDED \<and> ps_st (ru_ps r) \<noteq> PAIR_ERROR"

section \<open>The ring as a queue\<close>

definition ru_ok :: "runner \<Rightarrow> bool" where
  "ru_ok r \<longleftrightarrow> length (ru_q r) = QLEN \<and> ru_qhead r < QLEN \<and> ru_qlen r \<le> QLEN"

definition ru_items :: "runner \<Rightarrow> (pair_ev \<times> u32) list" where
  "ru_items r = ring_items (ru_q r) (ru_qhead r) (ru_qlen r)"

lemma length_ru_items [simp]: "length (ru_items r) = ru_qlen r"
  by (simp add: ru_items_def)

lemma ru_items_Nil: "ru_items r = [] \<longleftrightarrow> ru_qlen r = 0"
  by (simp add: ru_items_def ring_items_def)

interpretation ru: bounded_queue ru_ok ru_items ru_pop ru_push QLEN
proof unfold_locales
  fix q :: runner and x :: "pair_ev \<times> u32"
  assume ok: "ru_ok q"
  have pop: "ru_qhead (ru_pop q) = Suc (ru_qhead q) mod length (ru_q q)" using ok by (simp add: ru_pop_def ru_ok_def)
  show "ru_items q \<noteq> [] \<Longrightarrow> ru_ok (ru_pop q)" using ok by (auto simp: ru_ok_def ru_pop_def QLEN_def)
  show "ru_items q \<noteq> [] \<Longrightarrow> ru_items (ru_pop q) = tl (ru_items q)"
    using pop by (simp add: ru_items_def ru_pop_def ring_items_pop)
  assume room: "length (ru_items q) < QLEN"
  then show "ru_ok (ru_push q x)" using ok by (simp add: ru_ok_def ru_push_def)
  show "ru_items (ru_push q x) = ru_items q @ [x]"
    using ok room ring_items_push [of "ru_qlen q" "ru_q q" "ru_qhead q" x] by (simp add: ru_items_def ru_push_def ru_ok_def)
qed (simp_all add: ru_ok_def QLEN_def)

lemma hd_ru_items: "ru_ok r \<Longrightarrow> ru_qlen r \<noteq> 0 \<Longrightarrow> hd (ru_items r) = ru_q r ! ru_qhead r"
  by (simp add: hd_conv_nth ru_items_def ring_items_nth ru_ok_def flip: length_0_conv)

lemma ru_upd_simps [simp]:
  "ru_items (r\<lparr>ru_ps := a\<rparr>) = ru_items r" "ru_ok (r\<lparr>ru_ps := a\<rparr>) = ru_ok r"
  "ru_items (r\<lparr>ru_ps := a, ru_entered_ms := b\<rparr>) = ru_items r" "ru_ok (r\<lparr>ru_ps := a, ru_entered_ms := b\<rparr>) = ru_ok r"
  "ru_items (r\<lparr>ru_calls := c\<rparr>) = ru_items r" "ru_ok (r\<lparr>ru_calls := c\<rparr>) = ru_ok r"
  "ru_items (r\<lparr>ru_draining := d\<rparr>) = ru_items r" "ru_ok (r\<lparr>ru_draining := d\<rparr>) = ru_ok r"
  "ru_items (r\<lparr>ru_now_ms := n\<rparr>) = ru_items r" "ru_ok (r\<lparr>ru_now_ms := n\<rparr>) = ru_ok r"
  by (simp_all add: ru_items_def ru_ok_def)

lemma ru_queue_keeps [simp]:
  "ru_ps (ru_pop r) = ru_ps r" "ru_ps (ru_enqueue x r) = ru_ps r" "ru_draining (ru_pop r) = ru_draining r"
  "ru_draining (ru_enqueue x r) = ru_draining r"
  by (simp_all add: ru_pop_def ru_enqueue_def ru_push_def)

lemma enqueue_room: "ru_ok r \<Longrightarrow> ru_qlen r < QLEN \<Longrightarrow> ru_ok (ru_enqueue x r) \<and> ru_items (ru_enqueue x r) = ru_items r @ [x]"
  by (simp add: ru_enqueue_def ru.ok_push ru.items_push)

section \<open>A transport whose events come later\<close>

definition later :: "tport \<Rightarrow> bool" where
  "later t \<longleftrightarrow> (\<forall>n. ta_events (tp_answer t n) = [])"

definition calls :: "ru_eff list \<Rightarrow> tcall list" where
  "calls fs = concat (map (\<lambda>f. case f of Ru_call c \<Rightarrow> [c] | _ \<Rightarrow> []) fs)"

lemma calls_simps [simp]: "calls [] = []" "calls (f # fs) = (case f of Ru_call c \<Rightarrow> [c] | _ \<Rightarrow> []) @ calls fs" "calls (fs @ gs) = calls fs @ calls gs"
  by (simp_all add: calls_def)

text \<open>The events that report a call which could not start, or the removed bond.\<close>

definition fed_ev :: "pair_ev \<Rightarrow> bool" where
  "fed_ev ev \<longleftrightarrow> ev \<in> {PAIR_EV_CONNECT_FAIL, PAIR_EV_PAIR_FAIL, PAIR_EV_VERIFY_FAIL, PAIR_EV_RESET_DONE}"

definition feeding :: "pair_act \<Rightarrow> bool" where
  "feeding a \<longleftrightarrow> a \<in> {PAIR_ACT_CONNECT, PAIR_ACT_PAIR, PAIR_ACT_SEND_PASSKEY, PAIR_ACT_VERIFY, PAIR_ACT_REMOVE_BOND}"

lemma act_feed_fed: "act_feed a ok = Some ev \<Longrightarrow> fed_ev ev \<and> feeding a"
  by (cases a) (auto simp: fed_ev_def feeding_def split: if_split_asm)

lemma step_feeding:
  "length (filter (\<lambda>a. feeding (pa_act a)) (snd (cali_pair_step ps e))) \<le> (if fed_ev (fst e) then 0 else 1)"
  by (cases e; cases "fst e"; cases "ps_st ps") (simp_all add: pair_defs feeding_def fed_ev_def Let_def)

lemma run_action_later:
  assumes "later t" and "ru_ok r" and "ru_qlen r < QLEN"
  obtains fed where "ru_ok (fst (run_action t a r))" "ru_items (fst (run_action t a r)) = ru_items r @ fed"
    "length fed \<le> (if feeding (pa_act a) then 1 else 0)" "list_all (\<lambda>x. fed_ev (fst x)) fed"
    "calls (snd (run_action t a r)) = [act_call a]" "ru_ps (fst (run_action t a r)) = ru_ps r"
    "ru_draining (fst (run_action t a r)) = ru_draining r" "ru_now_ms (fst (run_action t a r)) = ru_now_ms r"
proof (cases "act_feed (pa_act a) (ta_ok (tp_answer t (ru_calls r)))")
  case None
  then show ?thesis using assms by (intro that [of "[]"]) (simp_all add: run_action_def later_def)
next
  case (Some ev)
  let ?r = "r\<lparr>ru_calls := ru_calls r + 1\<rparr>"
  have f: "fed_ev ev" "feeding (pa_act a)" using act_feed_fed [OF Some] by simp_all
  have q: "ru_qlen ?r < QLEN" using assms(3) by simp
  have "ru_ok ?r" using assms(2) by simp
  from enqueue_room [OF this q, of "(ev, 0)"]
  show ?thesis using Some assms f by (intro that [of "[(ev, 0)]"]) (simp_all add: run_action_def later_def, simp add: ru_enqueue_def ru_push_def)
qed

lemma run_actions_later:
  assumes "later t"
  shows "ru_ok r \<Longrightarrow> ru_qlen r + length as \<le> QLEN \<Longrightarrow>
    \<exists>fed. ru_ok (fst (run_actions t as r)) \<and> ru_items (fst (run_actions t as r)) = ru_items r @ fed \<and>
      length fed \<le> length (filter (\<lambda>a. feeding (pa_act a)) as) \<and> list_all (\<lambda>x. fed_ev (fst x)) fed \<and>
      calls (snd (run_actions t as r)) = map act_call as \<and> ru_ps (fst (run_actions t as r)) = ru_ps r \<and>
      ru_draining (fst (run_actions t as r)) = ru_draining r \<and> ru_now_ms (fst (run_actions t as r)) = ru_now_ms r"
proof (induction as arbitrary: r)
  case Nil
  then show ?case by simp
next
  case (Cons a as)
  have room: "ru_qlen r < QLEN" using Cons.prems(2) by simp
  obtain f1 where f1: "ru_ok (fst (run_action t a r))" "ru_items (fst (run_action t a r)) = ru_items r @ f1"
    "length f1 \<le> (if feeding (pa_act a) then 1 else 0)" "list_all (\<lambda>x. fed_ev (fst x)) f1"
    "calls (snd (run_action t a r)) = [act_call a]" "ru_ps (fst (run_action t a r)) = ru_ps r"
    "ru_draining (fst (run_action t a r)) = ru_draining r" "ru_now_ms (fst (run_action t a r)) = ru_now_ms r"
    using run_action_later [OF assms Cons.prems(1) room, of a] by metis
  have "ru_qlen (fst (run_action t a r)) = ru_qlen r + length f1"
    using arg_cong [OF f1(2), of length] by simp
  then have "ru_qlen (fst (run_action t a r)) + length as \<le> QLEN" using f1(3) Cons.prems(2) by (simp split: if_split_asm)
  from Cons.IH [OF f1(1) this] obtain f2 where f2:
    "ru_ok (fst (run_actions t as (fst (run_action t a r))))"
    "ru_items (fst (run_actions t as (fst (run_action t a r)))) = ru_items (fst (run_action t a r)) @ f2"
    "length f2 \<le> length (filter (\<lambda>a. feeding (pa_act a)) as)" "list_all (\<lambda>x. fed_ev (fst x)) f2"
    "calls (snd (run_actions t as (fst (run_action t a r)))) = map act_call as"
    "ru_ps (fst (run_actions t as (fst (run_action t a r)))) = ru_ps (fst (run_action t a r))"
    "ru_draining (fst (run_actions t as (fst (run_action t a r)))) = ru_draining (fst (run_action t a r))"
    "ru_now_ms (fst (run_actions t as (fst (run_action t a r)))) = ru_now_ms (fst (run_action t a r))"
    by blast
  show ?case using f1 f2 by (intro exI [of _ "f1 @ f2"]) (auto simp: split_beta simp del: act_call.simps)
qed

lemma ru_step_later:
  assumes "later t" and "ru_ok r" and "ru_items r = []"
  shows "\<exists>fed. ru_ok (fst (ru_step t e r)) \<and> ru_items (fst (ru_step t e r)) = fed \<and> length fed \<le> (if fed_ev (fst e) then 0 else 1) \<and>
    list_all (\<lambda>x. fed_ev (fst x)) fed \<and> calls (snd (ru_step t e r)) = map act_call (snd (cali_pair_step (ru_ps r) e)) \<and>
    ru_ps (fst (ru_step t e r)) = fst (cali_pair_step (ru_ps r) e) \<and> ru_draining (fst (ru_step t e r)) = ru_draining r"
proof -
  let ?as = "snd (cali_pair_step (ru_ps r) e)"
  let ?r1 = "r\<lparr>ru_ps := fst (cali_pair_step (ru_ps r) e),
      ru_entered_ms := (if fst (cali_pair_step (ru_ps r) e) \<noteq> ru_ps r then ru_now_ms r else ru_entered_ms r)\<rparr>"
  have "ru_qlen r = 0" using assms(3) by (simp add: ru_items_Nil)
  moreover have "length ?as \<le> 2" using pair_out_bound [of "ru_ps r" e] by (simp add: CALI_PAIR_MAX_ACTIONS_def)
  ultimately have room: "ru_qlen ?r1 + length ?as \<le> QLEN" by (simp add: QLEN_def)
  have "ru_ok ?r1" using assms(2) by simp
  from run_actions_later [OF assms(1) this room] obtain fed where
    "ru_ok (fst (run_actions t ?as ?r1))" "ru_items (fst (run_actions t ?as ?r1)) = ru_items ?r1 @ fed"
    "length fed \<le> length (filter (\<lambda>a. feeding (pa_act a)) ?as)" "list_all (\<lambda>x. fed_ev (fst x)) fed"
    "calls (snd (run_actions t ?as ?r1)) = map act_call ?as" "ru_ps (fst (run_actions t ?as ?r1)) = ru_ps ?r1"
    "ru_draining (fst (run_actions t ?as ?r1)) = ru_draining ?r1"
    by blast
  then show ?thesis
    using assms(3) le_trans [OF _ step_feeding [of "ru_ps r" e], of "length fed"]
    by (intro exI [of _ fed]) (simp add: ru_step_def Let_def split_beta del: act_call.simps)
qed

lemma ru_drain_empty: "ru_items r = [] \<Longrightarrow> ru_drain t r = Some (r, [])"
  by (simp add: ru_drain.simps ru_items_Nil)

text \<open>One queued event: the drain returns, and has stepped it and at most one event fed for it.\<close>

definition drained :: "tport \<Rightarrow> runner \<Rightarrow> pair_ev \<times> u32 \<Rightarrow> (pair_ev \<times> u32) list \<Rightarrow> bool" where
  "drained t r x fed \<longleftrightarrow>
     (\<exists>r' fs. ru_drain t r = Some (r', fs) \<and> ru_ok r' \<and> ru_items r' = [] \<and> ru_draining r' = ru_draining r \<and>
        ru_ps r' = fst (run cali_pair_step (ru_ps r) (x # fed)) \<and> calls fs = map act_call (snd (run cali_pair_step (ru_ps r) (x # fed))))"

lemma drained_first:
  assumes t: "later t" and r: "ru_ok r" "ru_items r = [x]"
    and nxt: "\<And>y q. \<not> fed_ev (fst x) \<Longrightarrow> fed_ev (fst y) \<Longrightarrow> ru_ok q \<Longrightarrow> ru_items q = [y] \<Longrightarrow> drained t q y []"
  shows "\<exists>fed. length fed \<le> (if fed_ev (fst x) then 0 else 1) \<and> list_all (\<lambda>y. fed_ev (fst y)) fed \<and> drained t r x fed"
proof -
  let ?s = "ru_step t x (ru_pop r)"
  have len: "ru_qlen r = 1" using r(2) length_ru_items [of r] by simp
  have hd: "ru_q r ! ru_qhead r = x" using hd_ru_items [OF r(1)] len r(2) by simp
  have pop: "ru_ok (ru_pop r)" "ru_items (ru_pop r) = []" using ru.ok_pop [OF r(1)] ru.items_pop [OF r(1)] r(2) by simp_all
  obtain fed where s: "ru_ok (fst ?s)" "ru_items (fst ?s) = fed" "length fed \<le> (if fed_ev (fst x) then 0 else 1)"
    "list_all (\<lambda>x. fed_ev (fst x)) fed" "calls (snd ?s) = map act_call (snd (cali_pair_step (ru_ps r) x))"
    "ru_ps (fst ?s) = fst (cali_pair_step (ru_ps r) x)" "ru_draining (fst ?s) = ru_draining r"
    using ru_step_later [OF t pop, of x] by auto
  have d: "ru_drain t r = Option.bind (ru_drain t (fst ?s)) (\<lambda>y. Some (fst y, snd ?s @ snd y))"
    using len hd by (subst ru_drain.simps) (simp add: Let_def)
  show ?thesis
  proof (cases fed)
    case Nil
    then have "drained t r x []" unfolding drained_def using s d ru_drain_empty [of "fst ?s" t]
      by (intro exI [of _ "fst ?s"] exI [of _ "snd ?s"]) (simp del: act_call.simps)
    then show ?thesis by (intro exI [of _ "[]"]) simp
  next
    case (Cons y ys)
    then have y: "ys = []" "fed_ev (fst y)" "\<not> fed_ev (fst x)" using s(3,4) by (auto split: if_split_asm)
    obtain r' fs where n: "ru_drain t (fst ?s) = Some (r', fs)" "ru_ok r'" "ru_items r' = []" "ru_draining r' = ru_draining (fst ?s)"
      "ru_ps r' = fst (run cali_pair_step (ru_ps (fst ?s)) [y])" "calls fs = map act_call (snd (run cali_pair_step (ru_ps (fst ?s)) [y]))"
      using nxt [OF y(3,2) s(1)] s(2) Cons y(1) unfolding drained_def by auto
    then have "drained t r x [y]" using s d by (simp add: drained_def del: act_call.simps)
    then show ?thesis using y by (intro exI [of _ "[y]"]) simp
  qed
qed

lemma drained_one:
  assumes "later t" and "ru_ok r" and "ru_items r = [x]"
  shows "\<exists>fed. length fed \<le> (if fed_ev (fst x) then 0 else 1) \<and> list_all (\<lambda>y. fed_ev (fst y)) fed \<and> drained t r x fed"
proof (rule drained_first [OF assms])
  fix y q
  assume "fed_ev (fst y)" "ru_ok q" "ru_items q = [y]"
  then show "drained t q y []" using drained_first [OF assms(1), of q y] by auto
qed

definition ru_rest :: "runner \<Rightarrow> bool" where
  "ru_rest r \<longleftrightarrow> ru_ok r \<and> ru_items r = [] \<and> \<not> ru_draining r"

lemma feed_later:
  assumes "later t" and "ru_rest r"
  shows "\<exists>r' fs fed. feed t x r = Some (r', fs) \<and> ru_rest r' \<and> length fed \<le> (if fed_ev (fst x) then 0 else 1) \<and>
    list_all (\<lambda>y. fed_ev (fst y)) fed \<and> ru_ps r' = fst (run cali_pair_step (ru_ps r) (x # fed)) \<and> calls fs = map act_call (snd (run cali_pair_step (ru_ps r) (x # fed)))"
proof -
  have "ru_qlen r = 0" using assms(2) by (simp add: ru_rest_def ru_items_Nil)
  then have e: "ru_ok (ru_enqueue x r)" "ru_items (ru_enqueue x r) = [x]"
    using enqueue_room [of r x] assms(2) by (simp_all add: ru_rest_def QLEN_def)
  let ?q = "(ru_enqueue x r)\<lparr>ru_draining := True\<rparr>"
  have q: "ru_ok ?q" "ru_items ?q = [x]" using e by simp_all
  obtain fed where "length fed \<le> (if fed_ev (fst x) then 0 else 1)" "list_all (\<lambda>y. fed_ev (fst y)) fed" "drained t ?q x fed"
    using drained_one [OF assms(1) q] by blast
  moreover have "\<not> ru_draining r" using assms(2) by (simp add: ru_rest_def)
  ultimately show ?thesis unfolding drained_def by (auto simp: feed_def Let_def ru_rest_def simp del: act_call.simps)
qed

section \<open>Runs of the owner task\<close>

fun runner_run :: "tport \<Rightarrow> ru_in list \<Rightarrow> runner \<Rightarrow> (runner \<times> ru_eff list) option" where
  "runner_run t [] r = Some (r, [])"
| "runner_run t (i # is) r =
     Option.bind (cali_runner t i r) (\<lambda>x. Option.bind (runner_run t is (fst x)) (\<lambda>y. Some (fst y, snd x @ snd y)))"

lemma runner_call_later:
  assumes "later t" and "ru_rest r"
  shows "\<exists>r' fs evs. cali_runner t i r = Some (r', fs) \<and> ru_rest r' \<and> ru_ps r' = fst (run cali_pair_step (ru_ps r) evs) \<and>
    calls fs = map act_call (snd (run cali_pair_step (ru_ps r) evs))"
proof -
  have f: "\<exists>r' fs evs. feed t x q = Some (r', fs) \<and> ru_rest r' \<and> ru_ps r' = fst (run cali_pair_step (ru_ps q) evs) \<and>
      calls fs = map act_call (snd (run cali_pair_step (ru_ps q) evs))" if "ru_rest q" for x q
    using feed_later [OF assms(1) that, of x] by blast
  have none: "\<exists>evs. ru_ps r = fst (run cali_pair_step (ru_ps r) evs) \<and> [] = map act_call (snd (run cali_pair_step (ru_ps r) evs))"
    by (intro exI [of _ "[]"]) simp
  have n: "ru_rest (r\<lparr>ru_now_ms := now\<rparr>)" for now using assms(2) by (simp add: ru_rest_def)
  show ?thesis
  proof (cases i)
    case (Ru_tick now)
    then show ?thesis using f [OF n, of "(PAIR_EV_TIMEOUT, 0)" now] n [of now] none by (simp add: cali_runner_tick_def Let_def)
  next
    case (Ru_event e)
    then show ?thesis using f [OF assms(2)] assms(2) none by (simp add: sink_def split: option.split)
  qed (use f [OF assms(2)] assms(2) none in simp_all)
qed

lemma runner_run_later:
  assumes "later t"
  shows "ru_rest r \<Longrightarrow> \<exists>r' fs evs. runner_run t is r = Some (r', fs) \<and> ru_rest r' \<and>
    ru_ps r' = fst (run cali_pair_step (ru_ps r) evs) \<and> calls fs = map act_call (snd (run cali_pair_step (ru_ps r) evs))"
proof (induction "is" arbitrary: r)
  case Nil
  then show ?case by (intro exI [of _ r] exI [of _ "[]"] exI [of _ "[]"]) simp
next
  case (Cons i "is")
  obtain r1 f1 e1 where 1: "cali_runner t i r = Some (r1, f1)" "ru_rest r1" "ru_ps r1 = fst (run cali_pair_step (ru_ps r) e1)"
    "calls f1 = map act_call (snd (run cali_pair_step (ru_ps r) e1))"
    using runner_call_later [OF assms Cons.prems] by blast
  obtain r2 f2 e2 where 2: "runner_run t is r1 = Some (r2, f2)" "ru_rest r2" "ru_ps r2 = fst (run cali_pair_step (ru_ps r1) e2)"
    "calls f2 = map act_call (snd (run cali_pair_step (ru_ps r1) e2))"
    using Cons.IH [OF 1(2)] by blast
  show ?case using 1 2 by (intro exI [of _ r2] exI [of _ "f1 @ f2"] exI [of _ "e1 @ e2"]) (simp add: run_append del: act_call.simps)
qed

lemma runner_init_rest: "ru_rest cali_runner_init"
  by (simp add: ru_rest_def cali_runner_init_def ru_ok_def ru_items_def QLEN_def)

section \<open>Properties\<close>

text \<open>
  With a transport that delivers its events on the owner's task, every sequence of starts, passkeys,
  cancels, ticks and transport events is processed to the end: each call returns, leaves the event queue empty, and what the
  runner did is a run of the pairing machine, its transport calls being exactly the machine's actions in order. No event is ever
  dropped and no step is ever re-entered, whichever calls fail to start.
\<close>

theorem runner_refines_machine:
  assumes "\<forall>n. ta_events (tp_answer t n) = []"
  shows "\<exists>r fs evs. runner_run t is cali_runner_init = Some (r, fs) \<and> ru_qlen r = 0 \<and> \<not> ru_draining r \<and>
    ru_ps r = fst (run cali_pair_step pair_init evs) \<and> calls fs = map act_call (snd (run cali_pair_step pair_init evs))"
proof -
  have "ru_ps cali_runner_init = pair_init" by (simp add: cali_runner_init_def)
  moreover have "ru_rest r \<Longrightarrow> ru_qlen r = 0 \<and> \<not> ru_draining r" for r
    by (simp add: ru_rest_def ru_items_Nil)
  ultimately show ?thesis
    using runner_run_later [OF _ runner_init_rest, of t "is"] assms unfolding later_def by metis
qed

definition refusing_port :: tport where
  "refusing_port = \<lparr>tp_answer = (\<lambda>n. \<lparr>ta_ok = False, ta_events = []\<rparr>), tp_identity = None\<rparr>"

definition tev :: "cali_tev \<Rightarrow> cali_tevent" where
  "tev k = \<lparr>te_ev = k, te_status = 0, te_char_short = 0, te_data = []\<rparr>"

theorem runner_refines_machine_witness:
  "map_option (\<lambda>y. (ps_st (ru_ps (fst y)), calls (snd y))) (runner_run refusing_port [Ru_start, Ru_event (tev CALI_TEV_FOUND)] cali_runner_init) =
     Some (PAIR_SCANNING, [T_start_scan ''VWCAMPER'', T_stop_scan, T_connect_found, T_disconnect, T_start_scan ''VWCAMPER'']) \<and>
   (\<exists>r fs. runner_run refusing_port [Ru_start, Ru_event (tev CALI_TEV_FOUND)] cali_runner_init = Some (r, fs) \<and> ru_qlen r = 0)"
proof
  show "map_option (\<lambda>y. (ps_st (ru_ps (fst y)), calls (snd y))) (runner_run refusing_port [Ru_start, Ru_event (tev CALI_TEV_FOUND)] cali_runner_init) =
     Some (PAIR_SCANNING, [T_start_scan ''VWCAMPER'', T_stop_scan, T_connect_found, T_disconnect, T_start_scan ''VWCAMPER''])"
    by code_simp
  have "\<forall>n. ta_events (tp_answer refusing_port n) = []" by (simp add: refusing_port_def)
  from runner_refines_machine [OF this, of "[Ru_start, Ru_event (tev CALI_TEV_FOUND)]"]
  show "\<exists>r fs. runner_run refusing_port [Ru_start, Ru_event (tev CALI_TEV_FOUND)] cali_runner_init = Some (r, fs) \<and> ru_qlen r = 0"
    by blast
qed

text \<open>
  A pairing flow never hangs: a tick at least 60 s after the current state was entered ends every flow in
  the error state with the timeout code, whatever the transport did or did not answer.
\<close>

theorem runner_flow_times_out:
  assumes "\<forall>n. ta_events (tp_answer t n) = []" and "runner_run t is cali_runner_init = Some (r, fs)"
    and "cali_runner_in_flow r" and "60000 \<le> now - ru_entered_ms r"
  shows "\<exists>r' gs. cali_runner t (Ru_tick now) r = Some (r', gs) \<and> ps_st (ru_ps r') = PAIR_ERROR \<and> ps_error (ru_ps r') = PAIR_ERR_TIMEOUT"
proof -
  have t: "later t" using assms(1) by (simp add: later_def)
  have rest: "ru_rest (r\<lparr>ru_now_ms := now\<rparr>)" using runner_run_later [OF t runner_init_rest, of "is"] assms(2) by (auto simp: ru_rest_def)
  let ?x = "(PAIR_EV_TIMEOUT, 0 :: u32)"
  have due: "PAIR_TIMEOUT_S (ps_st (ru_ps r)) \<noteq> 0" "ucast (PAIR_TIMEOUT_S (ps_st (ru_ps r))) * 1000 \<le> (60000 :: u64)"
    using assms(3) by (cases "ps_st (ru_ps r)"; simp add: cali_runner_in_flow_def)+
  have step: "ps_st (fst (cali_pair_step (ru_ps r) ?x)) = PAIR_ERROR" "ps_error (fst (cali_pair_step (ru_ps r) ?x)) = PAIR_ERR_TIMEOUT"
    using due(1) by (simp_all add: pair_defs Let_def)
  have stay: "cali_pair_step p (ev, a) = (p, [])" if "ps_st p = PAIR_ERROR" "fed_ev ev" for p ev a
    using that by (auto simp: pair_defs fed_ev_def)
  obtain r' gs fed where f: "feed t ?x (r\<lparr>ru_now_ms := now\<rparr>) = Some (r', gs)" "length fed \<le> 1" "list_all (\<lambda>y. fed_ev (fst y)) fed"
    "ru_ps r' = fst (run cali_pair_step (ru_ps r) (?x # fed))"
    using feed_later [OF t rest, of ?x] by (auto simp: fed_ev_def)
  have "ru_ps r' = fst (cali_pair_step (ru_ps r) ?x)"
    using f(2-4) stay [OF step(1)] by (cases fed) auto
  then show ?thesis using f(1) due order_trans [OF due(2) assms(4)] step by (simp add: cali_runner_tick_def Let_def)
qed

definition silent_port :: tport where
  "silent_port = \<lparr>tp_answer = (\<lambda>n. \<lparr>ta_ok = True, ta_events = []\<rparr>), tp_identity = None\<rparr>"

theorem runner_flow_times_out_witness:
  "\<exists>r fs r' gs. runner_run silent_port [Ru_tick 5000, Ru_start] cali_runner_init = Some (r, fs) \<and> ps_st (ru_ps r) = PAIR_SCANNING \<and>
     cali_runner silent_port (Ru_tick 65000) r = Some (r', gs) \<and> ps_st (ru_ps r') = PAIR_ERROR"
proof -
  let ?y = "the (runner_run silent_port [Ru_tick 5000, Ru_start] cali_runner_init)"
  have y: "runner_run silent_port [Ru_tick 5000, Ru_start] cali_runner_init = Some (fst ?y, snd ?y)" by code_simp
  have "ps_st (ru_ps (fst ?y)) = PAIR_SCANNING" "cali_runner_in_flow (fst ?y)" "60000 \<le> 65000 - ru_entered_ms (fst ?y)" by code_simp+
  then show ?thesis using runner_flow_times_out [OF _ y] y by (fastforce simp: silent_port_def)
qed

end
