(* ===== verification/Session_Data.thy ===== *)
theory Session_Data
  imports Ports Control_Run
begin

text \<open>
  What the session of \<open>session.c\<close> keeps of the unit's state: the last frame of every characteristic with its age and
  whether it came on this link, the plausible water baseline with the candidate of its ramp, the lighting
  configuration latches, and the identity of the unit all of it came from. The store and its decisions are here;
  the link's life cycle is in theory \<open>Session\<close>. The baseline's copy in the key-value store appears as effects.
\<close>

section \<open>Data\<close>

definition CODEC_FRAME_MAX :: nat where "CODEC_FRAME_MAX = 32"
definition WATER_CHAR :: u16 where "WATER_CHAR = 0x1302"
definition HEATER_CHAR :: u16 where "HEATER_CHAR = 0x1702"
definition VEHICLE_CHAR :: u16 where "VEHICLE_CHAR = 0x1004"
definition WATER_GOOD_KEY :: string where "WATER_GOOD_KEY = ''water_good''"

text \<open>A stored frame; the C array and its length are one list, \<open>have\<close> tells whether there is one.\<close>

record frame_slot =
  fs_frame :: "u8 list"
  fs_have :: bool
  fs_live :: bool
  fs_at :: u64

definition empty_slot :: frame_slot where
  "empty_slot = \<lparr>fs_frame = [], fs_have = False, fs_live = False, fs_at = 0\<rparr>"

definition no_lcfg :: cali_light_cfg where
  "no_lcfg = \<lparr>lc_have = 0, lc_v = replicate CALI_LCFG_N 0\<rparr>"

record sess_data =
  d_wg :: "u8 list option"
  d_water_held :: bool
  d_wg_at :: u64
  d_fr :: "frame_slot list"
  d_last_update :: u64
  d_lcfg :: "cali_light_cfg list"
  d_wpend :: fresh_pending
  d_unit :: string

text \<open>The calls the session makes: to the transport, the store, the console, the listener of the log.\<close>

datatype sess_why = W_disconnected | W_enc_fail | W_connect_fail | W_discover | W_heartbeat | W_connect_timeout | W_enc_timeout
  | W_stop | W_read_all | W_pairing | W_unit_state | W_unreachable | W_camping_off | W_command | W_connect | W_thermostat | W_viewer

datatype se_eff = Ef_connect | Ef_disconnect | Ef_discover | Ef_read u16 | Ef_subscribe u16 | Ef_heartbeat u32
  | Ef_snapshot u64 | Ef_kv_set string "u8 list" | Ef_kv_erase string | Ef_io_up | Ef_io_down | Ef_io_read u16 "u8 list"
  | Ef_io_notify u16 "u8 list" | Ef_rest bool sess_why | Ef_probe bool sess_why | Ef_written int

section \<open>Fields of stored frames\<close>

fun short_index_from :: "nat \<Rightarrow> (string \<times> u16) list \<Rightarrow> u16 \<Rightarrow> nat option" where
  "short_index_from i [] c = None"
| "short_index_from i (x # xs) c = (if snd x = c then Some i else short_index_from (Suc i) xs c)"

definition short_index :: "u16 \<Rightarrow> nat option" where
  "short_index c = short_index_from 0 (take CODEC_NCHARS CODEC_CHARS) c"

text \<open>\<open>codec_decode\<close> of a function that the dictionary has.\<close>

definition decode_fn :: "string \<Rightarrow> u8 list \<Rightarrow> codec_kv list" where
  "decode_fn fn raw = (case codec_func_by_name fn of Some f \<Rightarrow> codec_decode f raw | None \<Rightarrow> [])"

definition stored_field :: "sess_data \<Rightarrow> u16 \<Rightarrow> string \<Rightarrow> string \<Rightarrow> int" where
  "stored_field d c fn field =
     (case short_index c of None \<Rightarrow> -1
      | Some i \<Rightarrow>
          if \<not> fs_have (d_fr d ! i) then -1
          else (case kv_lookup (decode_fn fn (fs_frame (d_fr d ! i))) field of Some v \<Rightarrow> sint v | None \<Rightarrow> -1))"

definition live_unit_awake :: "sess_data \<Rightarrow> bool" where
  "live_unit_awake d =
     (let live = (\<lambda>c. case short_index c of Some i \<Rightarrow> fs_live (d_fr d ! i) | None \<Rightarrow> False);
          camping = (if live 0x1202 then stored_field d 0x1202 ''campingmode'' ''State'' else -1);
          shore = (if live 0x1602 then stored_field d 0x1602 ''energy'' ''StateLandAfs'' else -1)
      in camping = 1 \<or> shore = 1 \<or> shore = 2)"

section \<open>The lighting latch\<close>

text \<open>The new frame read through the previous latch, and alone.\<close>

definition lkv_get :: "codec_kv list \<Rightarrow> ctl_get" where
  "lkv_get kvs fn field = kv_lookup kvs field"

definition lcfg_get :: "cali_light_cfg \<Rightarrow> codec_kv list \<Rightarrow> ctl_get" where
  "lcfg_get prev kvs fn field =
     (case find (\<lambda>k. lcfg_has prev k \<and> field = CALI_LCFG_KEYS ! k) [0..<CALI_LCFG_N] of
        Some k \<Rightarrow> Some (lc_v prev ! k)
      | None \<Rightarrow> lkv_get kvs fn field)"

definition latch_lighting :: "u8 list \<Rightarrow> sess_data \<Rightarrow> bool \<times> sess_data" where
  "latch_lighting raw d =
     (let kvs = decode_fn ''lighting'' raw
      in (cali_light_reports_state_ctx (lkv_get kvs), d\<lparr>d_lcfg := map (\<lambda>prev. cali_light_cfg_ctx (lcfg_get prev kvs)) (d_lcfg d)\<rparr>))"

definition stored_reports_state :: "sess_data \<Rightarrow> nat \<Rightarrow> bool" where
  "stored_reports_state d i = cali_light_reports_state_ctx (lkv_get (decode_fn ''lighting'' (fs_frame (d_fr d ! i))))"

section \<open>The water guard\<close>

text \<open>The levels of a water frame: fresh, grey, and the measured-empty alarm.\<close>

definition water_levels :: "u8 list \<Rightarrow> u32 option \<times> u32 option \<times> bool" where
  "water_levels raw =
     fold (\<lambda>k (fresh, waste, empty).
        if kv_name k = ''FreshWaterLevel'' then (Some (kv_value k), waste, empty)
        else if kv_name k = ''FreshWaterInfoPopUp'' then (fresh, waste, kv_value k = 5)
        else if kv_name k = ''WasteWaterLevel'' then (fresh, Some (kv_value k), empty)
        else (fresh, waste, empty)) (decode_fn ''water'' raw) (None, None, False)"

definition level_or_0 :: "u32 option \<Rightarrow> int" where
  "level_or_0 v = (case v of Some x \<Rightarrow> sint x | None \<Rightarrow> 0)"

definition bit_if :: "bool \<Rightarrow> u8 \<Rightarrow> u8" where
  "bit_if b x = (if b then x else 0)"

definition water_settle :: "u64 \<Rightarrow> u8 list \<Rightarrow> sess_data \<Rightarrow> bool \<times> sess_data" where
  "water_settle now raw d =
     (let (nf, ng, empty) = water_levels raw;
          (pf, pg, _) = (case d_wg d of Some good \<Rightarrow> water_levels good | None \<Rightarrow> (None, None, False));
          have = bit_if (nf \<noteq> None) FRESH_HAVE_NF OR bit_if empty FRESH_NEW_EMPTY OR bit_if (pf \<noteq> None) FRESH_HAVE_PF OR
                 bit_if (ng \<noteq> None) FRESH_HAVE_NG OR bit_if (pg \<noteq> None) FRESH_HAVE_PG;
          (adopt, p) = freshness_settle (level_or_0 nf) (level_or_0 pf) (level_or_0 ng) (level_or_0 pg) have now FRESH_SETTLE_MS (d_wpend d)
      in (adopt, d\<lparr>d_wpend := p\<rparr>))"

text \<open>A stamp: the clock, but never 0, which stands for never.\<close>

definition stamp :: "u64 \<Rightarrow> u64" where
  "stamp now = (if now \<noteq> 0 then now else 1)"

definition seed_water_frame :: "sess_data \<Rightarrow> sess_data" where
  "seed_water_frame d =
     (case (short_index WATER_CHAR, d_wg d) of
        (Some w, Some good) \<Rightarrow> d\<lparr>d_fr := (d_fr d)[w := (d_fr d ! w)\<lparr>fs_frame := good, fs_have := True, fs_live := False\<rparr>]\<rparr>
      | _ \<Rightarrow> d)"

definition adopt_water :: "u64 \<Rightarrow> u8 list \<Rightarrow> sess_data \<Rightarrow> sess_data \<times> se_eff list" where
  "adopt_water now raw d =
     (d\<lparr>d_water_held := False, d_wg := Some raw, d_wg_at := stamp now\<rparr>, [Ef_kv_set WATER_GOOD_KEY raw])"

section \<open>The store\<close>

text \<open>What of a frame passes the water guard: nothing on a cold start, the baseline while held.\<close>

definition water_guard :: "nat \<Rightarrow> u64 \<Rightarrow> u8 list \<Rightarrow> sess_data \<Rightarrow> u8 list option \<times> sess_data \<times> se_eff list" where
  "water_guard i now raw d =
     (if snd (CODEC_CHARS ! i) = WATER_CHAR then
        let (adopt, d1) = water_settle now raw d in
        if \<not> adopt then (d_wg d1, d1\<lparr>d_water_held := True\<rparr>, [])
        else let (d2, e) = adopt_water now raw d1 in (Some raw, d2, e)
      else (Some raw, d, []))"

definition store :: "nat \<Rightarrow> u64 \<Rightarrow> u8 list \<Rightarrow> sess_data \<Rightarrow> sess_data \<times> se_eff list" where
  "store i now raw0 d0 =
     (let (served, d1, e) = water_guard i now (take CODEC_FRAME_MAX raw0) d0 in
      case served of None \<Rightarrow> (d1, e)
      | Some raw \<Rightarrow>
          let lighting = (fst (CODEC_CHARS ! i) = ''lighting'');
              (state, d2) = (if lighting then latch_lighting raw d1 else (False, d1));
              keep = (lighting \<and> \<not> state \<and> fs_have (d_fr d2 ! i) \<and> stored_reports_state d2 i);
              f = d_fr d2 ! i;
              f1 = (if keep then f else f\<lparr>fs_frame := raw, fs_have := True\<rparr>)
          in (d2\<lparr>d_fr := (d_fr d2)[i := f1\<lparr>fs_live := True, fs_at := stamp now\<rparr>], d_last_update := stamp now\<rparr>, e))"

definition unit_check :: "string option \<Rightarrow> sess_data \<Rightarrow> sess_data \<times> se_eff list" where
  "unit_check identity d =
     (let uid = (case identity of Some s \<Rightarrow> s | None \<Rightarrow> []) in
      if take 32 uid = take 32 (d_unit d) then (d, [])
      else
        let had = (d_unit d \<noteq> []);
            d1 = d\<lparr>d_unit := take 31 uid, d_fr := replicate CODEC_NCHARS empty_slot, d_lcfg := [no_lcfg, no_lcfg], d_last_update := 0\<rparr>;
            d2 = (if had then d1\<lparr>d_wg := None, d_wpend := no_pending, d_water_held := False, d_wg_at := 0\<rparr> else d1)
        in (seed_water_frame d2, if had then [Ef_kv_erase WATER_GOOD_KEY] else []))"

definition data_init :: "(string \<Rightarrow> u8 list option) \<Rightarrow> sess_data" where
  "data_init kv_get =
     seed_water_frame
       \<lparr>d_wg = (case kv_get WATER_GOOD_KEY of Some b \<Rightarrow> if length b \<le> CODEC_FRAME_MAX then Some b else None | None \<Rightarrow> None),
        d_water_held = False, d_wg_at = 0, d_fr = replicate CODEC_NCHARS empty_slot, d_last_update = 0,
        d_lcfg = [no_lcfg, no_lcfg], d_wpend = no_pending, d_unit = []\<rparr>"

text \<open>On a new link the stored frames and the shown configuration stay, but nothing of them counts as this link's.\<close>

definition link_fresh :: "sess_data \<Rightarrow> sess_data" where
  "link_fresh d = d\<lparr>d_fr := map (\<lambda>f. f\<lparr>fs_live := False\<rparr>) (d_fr d), d_lcfg := (d_lcfg d)[1 := no_lcfg]\<rparr>"

section \<open>Queries\<close>

definition cali_session_frame :: "sess_data \<Rightarrow> nat \<Rightarrow> u8 list option" where
  "cali_session_frame d i = (if i \<ge> CODEC_NCHARS \<or> \<not> fs_have (d_fr d ! i) then None else Some (fs_frame (d_fr d ! i)))"

definition cali_session_frame_live :: "sess_data \<Rightarrow> nat \<Rightarrow> u8 list option" where
  "cali_session_frame_live d i = (if i \<ge> CODEC_NCHARS \<or> \<not> fs_live (d_fr d ! i) then None else cali_session_frame d i)"

definition cali_session_light_cfg :: "sess_data \<Rightarrow> bool \<Rightarrow> codec_kv list" where
  "cali_session_light_cfg d live =
     (let c = d_lcfg d ! (if live then 1 else 0)
      in map (\<lambda>k. \<lparr>kv_name = CALI_LCFG_KEYS ! k, kv_value = lc_v c ! k, kv_supplied = 1\<rparr>) (filter (lcfg_has c) [0..<CALI_LCFG_N]))"

definition cali_session_frame_ms :: "sess_data \<Rightarrow> nat \<Rightarrow> u64" where
  "cali_session_frame_ms d i = (if i < CODEC_NCHARS \<and> fs_have (d_fr d ! i) then fs_at (d_fr d ! i) else 0)"

end
