(* ===== verification/Session.thy ===== *)
theory Session
  imports Session_Data Auto_Camper_Run Runner
begin

text \<open>
  The bonded session of \<open>session.c\<close>: it keeps one encrypted link to the stored bond, beats the heartbeat, runs the read
  pass, re-reads water and heater, reconnects with a growing delay, and rests while the unit saves power. The static
  variables are the record \<open>session\<close>; the calls it makes are collected in \<open>x_out\<close> in their order. What the ports answer
  during one call from outside (the transport, the sequencer, the camping restore) is the record \<open>sess_port\<close>. Log
  lines, and the reason, status and attempt counter that only the diagnostics report, are not modelled.
\<close>

section \<open>Data\<close>

definition CALI_SESSION_BACKOFF_MIN_MS :: u32 where "CALI_SESSION_BACKOFF_MIN_MS = 1000"
definition CALI_SESSION_BACKOFF_MAX_MS :: u32 where "CALI_SESSION_BACKOFF_MAX_MS = 60000"
definition CALI_SESSION_STABLE_MS :: u64 where "CALI_SESSION_STABLE_MS = 60000"
definition CALI_SESSION_UNIT_COOLDOWN_MS :: u64 where "CALI_SESSION_UNIT_COOLDOWN_MS = 7000"
definition CALI_SESSION_ENC_TIMEOUT_MS :: u64 where "CALI_SESSION_ENC_TIMEOUT_MS = 15000"
definition CALI_SESSION_CONNECT_TIMEOUT_MS :: u64 where "CALI_SESSION_CONNECT_TIMEOUT_MS = 20000"
definition CALI_SESSION_WATER_REREAD_MS :: u64 where "CALI_SESSION_WATER_REREAD_MS = 30000"
definition CALI_SESSION_HEATER_REREAD_MS :: u32 where "CALI_SESSION_HEATER_REREAD_MS = 60000"
definition CALI_SESSION_HEATER_RETRY_MS :: u64 where "CALI_SESSION_HEATER_RETRY_MS = 5000"
definition CALI_SESSION_REST_POLL_DEFAULT_MIN :: u32 where "CALI_SESSION_REST_POLL_DEFAULT_MIN = 30"
definition CALI_SESSION_VIEWER_MS :: u64 where "CALI_SESSION_VIEWER_MS = 10000"
definition CALI_SESSION_INPUT_IDLE_MS :: u64 where "CALI_SESSION_INPUT_IDLE_MS = 600000"
definition CODEC_HEARTBEAT_START :: u32 where "CODEC_HEARTBEAT_START = 0x00100000"
definition CODEC_HEARTBEAT_PERIOD_MS :: u64 where "CODEC_HEARTBEAT_PERIOD_MS = 600"
definition CODEC_ARM_DELAY_MS :: u64 where "CODEC_ARM_DELAY_MS = 3000"

lemmas session_consts = CALI_SESSION_BACKOFF_MIN_MS_def CALI_SESSION_BACKOFF_MAX_MS_def CALI_SESSION_STABLE_MS_def
  CALI_SESSION_UNIT_COOLDOWN_MS_def CALI_SESSION_ENC_TIMEOUT_MS_def CALI_SESSION_CONNECT_TIMEOUT_MS_def

datatype sess_link = LINK_DOWN | LINK_CONNECTING | LINK_CONNECTED | LINK_UP
datatype ble_mode = CALI_BLE_HOLD | CALI_BLE_QUIET | CALI_BLE_OFF

record session =
  x_active :: bool
  x_link :: sess_link
  x_now :: u64
  x_connect_started :: u64
  x_connected_at :: u64
  x_up_at :: u64
  x_hb_on :: bool
  x_hb_ctr :: u32
  x_hb_next :: u64
  x_hb_since :: u64
  x_reconnect_pending :: bool
  x_reconnect_at :: u64
  x_backoff :: u32
  x_warming :: bool
  x_warm_until :: u64
  x_reading :: bool
  x_read_idx :: nat
  x_warm_ms :: u32
  x_snapped :: bool
  x_rereading :: bool
  x_variant_pending :: bool
  x_vehicle_pre :: bool
  x_link_variant :: int
  x_water_next :: u64
  x_mode :: ble_mode
  x_probe :: bool
  x_rest :: bool
  x_rest_next :: u64
  x_rest_poll_ms :: u32
  x_viewer_at :: u64
  x_input_at :: u64
  x_redial :: bool
  x_rest_left :: bool
  x_hold :: bool
  x_heater_reading :: bool
  x_heater_next :: u64
  x_heater_ms :: u32
  x_was_up :: bool
  x_down_at :: u64
  x_data :: sess_data
  x_out :: "se_eff list"

record sess_port =
  po_connect :: int
  po_discover :: int
  po_read :: "u16 \<Rightarrow> int"
  po_heartbeat :: int
  po_bond :: bool
  po_identity :: "string option"
  po_busy :: bool
  po_owed :: bool

definition emit :: "se_eff \<Rightarrow> session \<Rightarrow> session" where
  "emit e s = s\<lparr>x_out := x_out s @ [e]\<rparr>"

definition on_data :: "(sess_data \<Rightarrow> sess_data \<times> se_eff list) \<Rightarrow> session \<Rightarrow> session" where
  "on_data f s = (let (d, e) = f (x_data s) in s\<lparr>x_data := d, x_out := x_out s @ e\<rparr>)"

section \<open>What the other components see\<close>

definition cali_session_link_up :: "session \<Rightarrow> bool" where
  "cali_session_link_up s \<longleftrightarrow> x_link s = LINK_UP"

definition cali_session_ready :: "session \<Rightarrow> bool" where
  "cali_session_ready s \<longleftrightarrow> x_link s = LINK_UP \<and> x_snapped s \<and> x_mode s = CALI_BLE_HOLD \<and> x_now s - x_hb_since s \<ge> CODEC_ARM_DELAY_MS"

definition sess_view :: "session \<Rightarrow> ctl_session" where
  "sess_view s = \<lparr>se_link_up = cali_session_link_up s, se_ready = cali_session_ready s,
     se_frame_live = cali_session_frame_live (x_data s), se_light_cfg = cali_session_light_cfg (x_data s) True\<rparr>"

section \<open>Rest and viewers\<close>

definition rest_conditions :: "sess_port \<Rightarrow> session \<Rightarrow> bool" where
  "rest_conditions po s =
     (let camping = stored_field (x_data s) 0x1202 ''campingmode'' ''State''; shore = stored_field (x_data s) 0x1602 ''energy'' ''StateLandAfs''
      in camping = 0 \<and> shore \<ge> 0 \<and> shore \<noteq> 1 \<and> shore \<noteq> 2 \<and> cali_ac_ignition (sess_view s) = 0 \<and> \<not> po_owed po \<and> \<not> x_hold s)"

definition peer_hangup :: "int \<Rightarrow> bool" where
  "peer_hangup status \<longleftrightarrow> status = 0x13 \<or> status = 0x213"

definition within :: "u64 \<Rightarrow> u64 \<Rightarrow> u64 \<Rightarrow> bool" where
  "within now t ms \<longleftrightarrow> t \<noteq> 0 \<and> (now < t \<or> now - t \<le> ms)"

definition viewer_active :: "u64 \<Rightarrow> session \<Rightarrow> bool" where
  "viewer_active now s \<longleftrightarrow> within now (x_viewer_at s) CALI_SESSION_VIEWER_MS \<and> within now (x_input_at s) CALI_SESSION_INPUT_IDLE_MS"

definition rest_set :: "bool \<Rightarrow> sess_why \<Rightarrow> session \<Rightarrow> session" where
  "rest_set on why s =
     (let s1 = (if on then s\<lparr>x_redial := False\<rparr> else s);
          s2 = s1\<lparr>x_rest_left := (x_rest s1 \<and> \<not> on \<and> x_link s1 \<noteq> LINK_UP)\<rparr>
      in if x_rest s2 = on then s2
         else emit (Ef_rest on why) (s2\<lparr>x_rest := on, x_rest_next := x_now s2 + ucast (x_rest_poll_ms s2)\<rparr>))"

section \<open>Losing a link\<close>

definition link_clear :: "session \<Rightarrow> session" where
  "link_clear s =
     (let s1 = (if x_link s = LINK_UP
                then (emit Ef_io_down (if x_now s - x_up_at s \<ge> CALI_SESSION_STABLE_MS then s\<lparr>x_backoff := CALI_SESSION_BACKOFF_MIN_MS\<rparr> else s))
                       \<lparr>x_was_up := True, x_down_at := x_now s\<rparr>
                else s)
      in s1\<lparr>x_link := LINK_DOWN, x_hb_on := False, x_warming := False, x_reading := False, x_snapped := False, x_rereading := False,
            x_heater_reading := False, x_variant_pending := False, x_vehicle_pre := False\<rparr>)"

definition hb_wanted :: "sess_port \<Rightarrow> session \<Rightarrow> bool" where
  "hb_wanted po s \<longleftrightarrow> x_mode s = CALI_BLE_HOLD \<or> x_variant_pending s \<or> x_warming s \<or> x_reading s \<or> x_probe s \<or> po_busy po"

definition probe_rest :: "sess_port \<Rightarrow> bool \<Rightarrow> session \<Rightarrow> session" where
  "probe_rest po ok s =
     (if x_rest s then
        let s' = s\<lparr>x_rest_next := x_now s + ucast (x_rest_poll_ms s)\<rparr>
        in if ok \<and> \<not> rest_conditions po s' then rest_set False W_unit_state s' else s'
      else s)"

definition probe_end :: "sess_port \<Rightarrow> bool \<Rightarrow> sess_why \<Rightarrow> session \<Rightarrow> session" where
  "probe_end po ok reason s =
     (let s2 = probe_rest po ok (emit (Ef_probe ok reason) (s\<lparr>x_probe := False\<rparr>))
      in if ok \<and> (x_rest s2 \<or> x_mode s2 = CALI_BLE_OFF) \<and> x_link s2 \<noteq> LINK_DOWN then link_clear (emit Ef_disconnect s2) else s2)"

text \<open>A probe that is under way fails.\<close>

definition probe_over :: "sess_port \<Rightarrow> sess_why \<Rightarrow> session \<Rightarrow> session" where
  "probe_over po why s = (if x_probe s then probe_end po False why s else s)"

definition schedule_reconnect :: "sess_port \<Rightarrow> session \<Rightarrow> session" where
  "schedule_reconnect po s =
     (if \<not> x_active s then s
      else if x_mode s = CALI_BLE_OFF then s
      else if x_rest s then s
      else if \<not> po_bond po then s\<lparr>x_active := False\<rparr>
      else
        let t0 = x_now s + ucast (x_backoff s);
            t = (if x_was_up s \<and> t0 < x_down_at s + CALI_SESSION_UNIT_COOLDOWN_MS then x_down_at s + CALI_SESSION_UNIT_COOLDOWN_MS else t0)
        in s\<lparr>x_reconnect_pending := True, x_reconnect_at := t,
             x_backoff := (if x_backoff s * 2 > CALI_SESSION_BACKOFF_MAX_MS then CALI_SESSION_BACKOFF_MAX_MS else x_backoff s * 2)\<rparr>)"

definition rest_again :: "sess_port \<Rightarrow> session \<Rightarrow> bool \<times> session" where
  "rest_again po s =
     (if \<not> x_rest_left s \<or> \<not> x_active s \<or> x_mode s = CALI_BLE_OFF \<or> po_busy po \<or> \<not> rest_conditions po s \<or> viewer_active (x_now s) s
      then (False, s) else (True, rest_set True W_unreachable s))"

text \<open>The state of \<open>link_lost\<close> once the link is down, before it decides about rest and reconnect.\<close>

definition lost_down :: "sess_port \<Rightarrow> sess_why \<Rightarrow> session \<Rightarrow> session" where
  "lost_down po why s =
     (let s2 = probe_over po why (s\<lparr>x_redial := False\<rparr>);
          s3 = (if x_rest s2 \<and> live_unit_awake (x_data s2) then rest_set False W_unit_state s2 else s2)
      in if x_link s \<noteq> LINK_DOWN then emit Ef_disconnect (link_clear s3) else link_clear s3)"

definition lost_rest :: "sess_port \<Rightarrow> sess_why \<Rightarrow> int \<Rightarrow> session \<Rightarrow> session" where
  "lost_rest po why status s =
     (let (again, s6) = rest_again po s
      in if \<not> again \<and> x_active s6 \<and> x_mode s6 \<noteq> CALI_BLE_OFF \<and> why = W_disconnected \<and> peer_hangup status \<and> \<not> po_busy po \<and>
            rest_conditions po s6
         then if viewer_active (x_now s6) s6 then s6\<lparr>x_redial := True, x_backoff := CALI_SESSION_BACKOFF_MIN_MS\<rparr>
              else rest_set True W_camping_off s6
         else s6)"

definition link_lost :: "sess_port \<Rightarrow> sess_why \<Rightarrow> int \<Rightarrow> session \<Rightarrow> session" where
  "link_lost po why status s = schedule_reconnect po (lost_rest po why status (lost_down po why s))"

section \<open>Connecting\<close>

definition link_begin :: "session \<Rightarrow> session" where
  "link_begin s =
     (emit Ef_io_up (s\<lparr>x_rest_left := False\<rparr>))
       \<lparr>x_link := LINK_UP, x_up_at := x_now s, x_reconnect_pending := False, x_hb_on := True, x_hb_ctr := CODEC_HEARTBEAT_START,
        x_hb_next := x_now s, x_hb_since := x_now s, x_warming := False, x_reading := False, x_snapped := False, x_rereading := False,
        x_heater_reading := False, x_heater_next := x_now s + ucast (x_heater_ms s), x_variant_pending := False, x_vehicle_pre := False\<rparr>"

definition link_up :: "sess_port \<Rightarrow> session \<Rightarrow> session" where
  "link_up po s =
     (let s2 = on_data (unit_check (po_identity po)) (link_begin s);
          s3 = emit Ef_discover (s2\<lparr>x_data := link_fresh (x_data s2)\<rparr>)
      in if po_discover po \<noteq> 0 then link_lost po W_discover (po_discover po) s3 else s3)"

definition connect_now :: "sess_port \<Rightarrow> session \<Rightarrow> session" where
  "connect_now po s =
     (let s1 = emit Ef_connect s in
      if po_connect po = 0 then s1\<lparr>x_link := LINK_CONNECTING, x_connect_started := x_now s1\<rparr>
      else
        schedule_reconnect po (snd (rest_again po (probe_over po W_connect_fail (s1\<lparr>x_redial := False\<rparr>)))))"

section \<open>The read pass\<close>

definition READ_FIRST :: "string list" where
  "READ_FIRST = [''energy'', ''water'', ''cooler'', ''campingmode'', ''vehicle'', ''lighting'', ''airheater'', ''general'']"

definition build_order :: "nat list" where
  "build_order =
     (let first = concat (map (\<lambda>f. filter (\<lambda>i. fst (CODEC_CHARS ! i) = f) [0..<CODEC_NCHARS]) READ_FIRST)
      in fold (\<lambda>i order. if i \<in> set order then order else order @ [i]) [0..<CODEC_NCHARS] first)"

definition VARIANT_GATE :: "(string \<times> u32) list" where
  "VARIANT_GATE =
     [(''roof'', 1), (''satelliteantenna'', 2), (''stairs'', 2), (''livingroomheater'', 2), (''roofaircondition'', 2),
      (''energy'', 3), (''water'', 3), (''airheater'', 3), (''cooler'', 3)]"

definition cali_variant_has :: "string \<Rightarrow> int \<Rightarrow> bool" where
  "cali_variant_has fn car_variant =
     (if car_variant < 0 then True
      else let v = (if car_variant > 2 then 0 else car_variant)
           in case map_of VARIANT_GATE fn of Some m \<Rightarrow> drop_bit (nat v) m AND 1 \<noteq> 0 | None \<Rightarrow> True)"

definition stored_variant :: "session \<Rightarrow> int" where
  "stored_variant s = stored_field (x_data s) VEHICLE_CHAR ''vehicle'' ''CarVariant''"

definition pass_reads :: "session \<Rightarrow> nat \<Rightarrow> bool" where
  "pass_reads s i = (if x_vehicle_pre s \<and> snd (CODEC_CHARS ! i) = VEHICLE_CHAR then False
                     else cali_variant_has (fst (CODEC_CHARS ! i)) (x_link_variant s))"

definition pass_done :: "sess_port \<Rightarrow> session \<Rightarrow> session" where
  "pass_done po s =
     (let s1 = emit (Ef_snapshot (x_now s)) (s\<lparr>x_reading := False, x_vehicle_pre := False, x_snapped := True,
                 x_water_next := x_now s + CALI_SESSION_WATER_REREAD_MS\<rparr>)
      in if x_probe s1 then probe_end po True W_read_all s1 else s1)"

function read_next :: "sess_port \<Rightarrow> session \<Rightarrow> session" where
  "read_next po s =
     (if x_read_idx s < CODEC_NCHARS then
        let i = build_order ! x_read_idx s; c = snd (CODEC_CHARS ! i) in
        if \<not> pass_reads s i then read_next po (s\<lparr>x_read_idx := x_read_idx s + 1\<rparr>)
        else
          let s1 = emit (Ef_read c) s in
          if po_read po c = 0 then s1 else read_next po (s1\<lparr>x_read_idx := x_read_idx s1 + 1\<rparr>)
      else pass_done po s)"
  by pat_completeness auto
termination
  by (relation "measure (\<lambda>(po, s). CODEC_NCHARS - x_read_idx s)") (auto simp: emit_def)

declare read_next.simps [simp del]

definition subscribe_and_warm :: "session \<Rightarrow> session" where
  "subscribe_and_warm s =
     (let v = stored_variant s;
          subs = filter (\<lambda>(fn, c). cali_variant_has fn v \<and> fn \<noteq> ''general'' \<and> fn \<noteq> ''generalpurposesignals'') (take CODEC_NCHARS CODEC_CHARS)
      in s\<lparr>x_link_variant := v, x_out := x_out s @ map (\<lambda>(fn, c). Ef_subscribe c) subs, x_warming := True,
           x_warm_until := x_now s + ucast (x_warm_ms s)\<rparr>)"

definition on_discovered :: "sess_port \<Rightarrow> int \<Rightarrow> session \<Rightarrow> session" where
  "on_discovered po status s =
     (if status \<noteq> 0 then link_lost po W_discover status s
      else if stored_variant s \<ge> 0 then subscribe_and_warm s
      else
        let s1 = emit (Ef_read VEHICLE_CHAR) s in
        if po_read po VEHICLE_CHAR = 0 then s1\<lparr>x_variant_pending := True\<rparr> else subscribe_and_warm s1)"

definition start_reads :: "sess_port \<Rightarrow> session \<Rightarrow> session" where
  "start_reads po s = read_next po (s\<lparr>x_warming := False, x_reading := True, x_read_idx := 0\<rparr>)"

definition store_at :: "nat \<Rightarrow> u8 list \<Rightarrow> session \<Rightarrow> session" where
  "store_at i raw s = on_data (store i (x_now s) raw) s"

definition read_answer :: "sess_port \<Rightarrow> cali_tevent \<Rightarrow> session \<Rightarrow> session" where
  "read_answer po e s =
     (let c = te_char_short e; ok = (te_status e = 0); i = short_index c in
      if x_variant_pending s \<and> c = VEHICLE_CHAR then
        let s1 = s\<lparr>x_variant_pending := False\<rparr>
        in subscribe_and_warm (if ok then (store_at (the i) (te_data e) s1)\<lparr>x_vehicle_pre := True\<rparr> else s1)
      else if x_heater_reading s \<and> c = HEATER_CHAR \<and> i \<noteq> None then
        let s1 = s\<lparr>x_heater_reading := False\<rparr>
        in if ok then store_at (the i) (te_data e) s1 else s1\<lparr>x_heater_next := x_now s1 + CALI_SESSION_HEATER_RETRY_MS\<rparr>
      else if x_rereading s \<and> c = WATER_CHAR \<and> i \<noteq> None then
        let s1 = s\<lparr>x_rereading := False\<rparr>
        in if ok then emit (Ef_snapshot (x_now s1)) (store_at (the i) (te_data e) s1) else s1
      else if \<not> x_reading s \<or> c \<noteq> snd (CODEC_CHARS ! (build_order ! x_read_idx s)) then s
      else
        let s1 = (if ok then store_at (build_order ! x_read_idx s) (te_data e) s else s)
        in read_next po (s1\<lparr>x_read_idx := x_read_idx s1 + 1\<rparr>))"

definition on_read :: "sess_port \<Rightarrow> cali_tevent \<Rightarrow> session \<Rightarrow> session" where
  "on_read po e s =
     read_answer po e (if te_status e = 0 \<and> short_index (te_char_short e) \<noteq> None then emit (Ef_io_read (te_char_short e) (te_data e)) s else s)"

section \<open>Events of the transport\<close>

definition on_event :: "sess_port \<Rightarrow> cali_tevent \<Rightarrow> session \<Rightarrow> session" where
  "on_event po e s =
     (if \<not> x_active s then s
      else case te_ev e of
        CALI_TEV_CONNECTED \<Rightarrow> if x_link s = LINK_CONNECTING then s\<lparr>x_link := LINK_CONNECTED, x_connected_at := x_now s\<rparr> else s
      | CALI_TEV_ENC_OK \<Rightarrow> if x_link s = LINK_CONNECTED then link_up po s else s
      | CALI_TEV_CONNECT_FAIL \<Rightarrow> if x_link s = LINK_DOWN then s else link_lost po W_connect_fail (te_status e) (link_clear s)
      | CALI_TEV_ENC_FAIL \<Rightarrow> if x_link s = LINK_DOWN then s else link_lost po W_enc_fail (te_status e) s
      | CALI_TEV_DISCONNECTED \<Rightarrow> if x_link s = LINK_DOWN then s else link_lost po W_disconnected (te_status e) (link_clear s)
      | CALI_TEV_DISCOVERED \<Rightarrow> if x_link s = LINK_UP then on_discovered po (te_status e) s else s
      | CALI_TEV_READ \<Rightarrow> if x_link s = LINK_UP then on_read po e s else s
      | CALI_TEV_NOTIFY \<Rightarrow>
          (case short_index (te_char_short e) of None \<Rightarrow> s
           | Some i \<Rightarrow>
               if x_link s \<noteq> LINK_UP then s
               else
                 let s1 = store_at i (te_data e) (emit (Ef_io_notify (te_char_short e) (te_data e)) s)
                 in if x_snapped s1 then emit (Ef_snapshot (x_now s1)) s1 else s1)
      | CALI_TEV_HEARTBEAT \<Rightarrow> if x_link s = LINK_UP \<and> te_status e \<noteq> 0 then link_lost po W_heartbeat (te_status e) s else s
      | CALI_TEV_WRITTEN \<Rightarrow> emit (Ef_written (te_status e)) s
      | _ \<Rightarrow> s)"

section \<open>Operations\<close>

definition session_reset :: session where
  "session_reset =
     \<lparr>x_active = False, x_link = LINK_DOWN, x_now = 0, x_connect_started = 0, x_connected_at = 0, x_up_at = 0, x_hb_on = False,
      x_hb_ctr = 0, x_hb_next = 0, x_hb_since = 0, x_reconnect_pending = False, x_reconnect_at = 0,
      x_backoff = CALI_SESSION_BACKOFF_MIN_MS, x_warming = False, x_warm_until = 0, x_reading = False, x_read_idx = 0, x_warm_ms = 0,
      x_snapped = False, x_rereading = False, x_variant_pending = False, x_vehicle_pre = False, x_link_variant = -1,
      x_water_next = 0, x_mode = CALI_BLE_HOLD, x_probe = False, x_rest = False, x_rest_next = 0,
      x_rest_poll_ms = CALI_SESSION_REST_POLL_DEFAULT_MIN * 60000, x_viewer_at = 0, x_input_at = 0, x_redial = False,
      x_rest_left = False, x_hold = False, x_heater_reading = False, x_heater_next = 0, x_heater_ms = CALI_SESSION_HEATER_REREAD_MS,
      x_was_up = False, x_down_at = 0, x_data = data_init (\<lambda>_. None), x_out = []\<rparr>"

definition cali_session_init :: "(string \<Rightarrow> u8 list option) \<Rightarrow> session \<Rightarrow> session" where
  "cali_session_init kv_get s =
     (link_clear (s\<lparr>x_active := False, x_rest := False\<rparr>))
       \<lparr>x_reconnect_pending := False, x_backoff := CALI_SESSION_BACKOFF_MIN_MS, x_data := data_init kv_get\<rparr>"

definition cali_session_boot :: "sess_port \<Rightarrow> session \<Rightarrow> session" where
  "cali_session_boot po s =
     (if \<not> po_bond po then s
      else let s1 = s\<lparr>x_active := True\<rparr> in if x_mode s1 \<noteq> CALI_BLE_OFF then connect_now po s1 else s1)"

definition ble_mode_of :: "int \<Rightarrow> ble_mode option" where
  "ble_mode_of m = (if m = 0 then Some CALI_BLE_HOLD else if m = 1 then Some CALI_BLE_QUIET else if m = 2 then Some CALI_BLE_OFF else None)"

definition set_mode :: "sess_port \<Rightarrow> ble_mode \<Rightarrow> session \<Rightarrow> session" where
  "set_mode po mode s =
     (if mode = x_mode s then s
      else
        let s1 = s\<lparr>x_mode := mode\<rparr> in
        if \<not> x_active s1 then s1
        else
          let s2 = (if mode = CALI_BLE_HOLD then s1\<lparr>x_hb_since := x_now s1\<rparr> else s1) in
          if mode = CALI_BLE_OFF then
            let s3 = s2\<lparr>x_reconnect_pending := False, x_redial := False\<rparr>
            in if x_link s3 \<noteq> LINK_DOWN \<and> \<not> x_probe s3 then link_clear (emit Ef_disconnect s3) else s3
          else if x_link s2 = LINK_DOWN \<and> \<not> x_reconnect_pending s2 \<and> \<not> x_rest s2
          then connect_now po (s2\<lparr>x_backoff := CALI_SESSION_BACKOFF_MIN_MS\<rparr>)
          else s2)"

definition cali_session_set_mode :: "sess_port \<Rightarrow> int \<Rightarrow> session \<Rightarrow> int \<times> session" where
  "cali_session_set_mode po m s = (case ble_mode_of m of None \<Rightarrow> (-1, s) | Some mode \<Rightarrow> (0, set_mode po mode s))"

definition cali_session_on_bonded :: "sess_port \<Rightarrow> session \<Rightarrow> session" where
  "cali_session_on_bonded po s = link_up po ((rest_set False W_pairing (set_mode po CALI_BLE_HOLD s))\<lparr>x_active := True\<rparr>)"

definition cali_session_stop :: "sess_port \<Rightarrow> session \<Rightarrow> session" where
  "cali_session_stop po s =
     (let s1 = (rest_set False W_stop s)\<lparr>x_redial := False\<rparr>;
          s2 = probe_over po W_stop s1;
          s3 = s2\<lparr>x_active := False, x_reconnect_pending := False, x_backoff := CALI_SESSION_BACKOFF_MIN_MS\<rparr>;
          s4 = link_clear (if x_link s3 \<noteq> LINK_DOWN then emit Ef_disconnect s3 else s3)
      in on_data (unit_check (po_identity po)) s4)"

text \<open>\<open>on_state\<close> of \<open>console.c\<close>: the pairing flow takes the link over and gives it back.\<close>

definition on_state :: "sess_port \<Rightarrow> pair_st \<Rightarrow> session \<Rightarrow> session" where
  "on_state po ps s =
     (if ps = PAIR_BONDED then cali_session_on_bonded po s
      else let s1 = cali_session_stop po s in if ps = PAIR_IDLE \<or> ps = PAIR_ERROR then cali_session_boot po s1 else s1)"

definition cali_session_probe :: "sess_port \<Rightarrow> session \<Rightarrow> int \<times> session" where
  "cali_session_probe po s =
     (if \<not> x_active s \<or> x_probe s then (-1, s)
      else
        let s1 = s\<lparr>x_probe := True\<rparr> in
        (0, if x_link s1 = LINK_DOWN then connect_now po (s1\<lparr>x_reconnect_pending := False\<rparr>)
            else if x_link s1 = LINK_UP \<and> x_snapped s1 \<and> \<not> x_reading s1 \<and> \<not> x_warming s1
            then s1\<lparr>x_warming := True, x_warm_until := x_now s1 + ucast (x_warm_ms s1)\<rparr>
            else s1))"

text \<open>The stages of a tick, in the order of the code; a stage that returns early is \<open>Inl\<close>.\<close>

definition tick_heartbeat :: "sess_port \<Rightarrow> u64 \<Rightarrow> session \<Rightarrow> session + session" where
  "tick_heartbeat po now s =
     (if x_link s = LINK_UP \<and> x_hb_on s \<and> hb_wanted po s \<and> now \<ge> x_hb_next s then
        let n = x_hb_ctr s;
            s1 = emit (Ef_heartbeat n) (s\<lparr>x_hb_ctr := n + 1,
                   x_hb_next := (if now - x_hb_next s \<ge> CODEC_HEARTBEAT_PERIOD_MS then now + CODEC_HEARTBEAT_PERIOD_MS
                                 else x_hb_next s + CODEC_HEARTBEAT_PERIOD_MS)\<rparr>)
        in if po_heartbeat po \<noteq> 0 then Inl (link_lost po W_heartbeat (po_heartbeat po) s1) else Inr s1
      else Inr s)"

definition tick_reads :: "sess_port \<Rightarrow> u64 \<Rightarrow> session \<Rightarrow> session" where
  "tick_reads po now s =
     (let s1 = (if x_link s = LINK_UP \<and> x_warming s \<and> \<not> x_rereading s \<and> \<not> x_heater_reading s \<and> now \<ge> x_warm_until s
                then start_reads po s else s);
          s2 = (if x_redial s1 \<and> x_link s1 = LINK_UP \<and> x_snapped s1 \<and> (x_mode s1 \<noteq> CALI_BLE_HOLD \<or> cali_session_ready s1)
                then s1\<lparr>x_redial := False\<rparr> else s1)
      in if x_link s2 = LINK_UP \<and> x_snapped s2 \<and> \<not> x_reading s2 \<and> \<not> x_warming s2 \<and> \<not> x_rereading s2 \<and> \<not> x_heater_reading s2 \<and>
            now \<ge> x_water_next s2
         then let s3 = emit (Ef_read WATER_CHAR) (s2\<lparr>x_water_next := now + CALI_SESSION_WATER_REREAD_MS\<rparr>)
              in if po_read po WATER_CHAR = 0 then s3\<lparr>x_rereading := True\<rparr> else s3
         else s2)"

definition tick_heater :: "sess_port \<Rightarrow> u64 \<Rightarrow> session \<Rightarrow> session" where
  "tick_heater po now s =
     (if x_hold s \<and> x_link s = LINK_UP \<and> x_snapped s \<and> \<not> x_reading s \<and> \<not> x_warming s \<and> \<not> x_rereading s \<and> \<not> x_heater_reading s \<and>
         now \<ge> x_heater_next s
      then let s1 = emit (Ef_read HEATER_CHAR) (s\<lparr>x_heater_next := now + ucast (x_heater_ms s)\<rparr>)
           in if po_read po HEATER_CHAR = 0 then s1\<lparr>x_heater_reading := True\<rparr>
              else s1\<lparr>x_heater_next := now + CALI_SESSION_HEATER_RETRY_MS\<rparr>
      else s)"

definition tick_connect :: "sess_port \<Rightarrow> u64 \<Rightarrow> session \<Rightarrow> session" where
  "tick_connect po now s =
     (if x_link s = LINK_CONNECTING \<and> now - x_connect_started s \<ge> CALI_SESSION_CONNECT_TIMEOUT_MS then link_lost po W_connect_timeout 0 s
      else if x_link s = LINK_CONNECTED \<and> now - x_connected_at s \<ge> CALI_SESSION_ENC_TIMEOUT_MS then link_lost po W_enc_timeout 0 s
      else if x_rest s \<and> x_rest_poll_ms s \<noteq> 0 \<and> x_mode s \<noteq> CALI_BLE_OFF \<and> x_link s = LINK_DOWN \<and> \<not> x_probe s \<and> now \<ge> x_rest_next s
      then snd (cali_session_probe po s)
      else if x_link s = LINK_DOWN \<and> x_reconnect_pending s \<and> now \<ge> x_reconnect_at s then
        let s1 = s\<lparr>x_reconnect_pending := False\<rparr> in
        if \<not> po_bond po then s1\<lparr>x_active := False, x_redial := False\<rparr> else connect_now po s1
      else s)"

definition cali_session_tick :: "sess_port \<Rightarrow> u64 \<Rightarrow> session \<Rightarrow> session" where
  "cali_session_tick po now s0 =
     (let s = s0\<lparr>x_now := now\<rparr> in
      if \<not> x_active s then s
      else case tick_heartbeat po now s of Inl s1 \<Rightarrow> s1 | Inr s1 \<Rightarrow> tick_connect po now (tick_heater po now (tick_reads po now s1)))"

definition reconnect_soon :: "sess_port \<Rightarrow> sess_why \<Rightarrow> session \<Rightarrow> session" where
  "reconnect_soon po why s =
     (let s1 = (if x_rest s then
                  let s' = rest_set False why s
                  in if x_active s' \<and> x_link s' = LINK_DOWN \<and> \<not> x_reconnect_pending s' \<and> \<not> x_probe s'
                     then schedule_reconnect po (s'\<lparr>x_backoff := CALI_SESSION_BACKOFF_MIN_MS\<rparr>) else s'
                else s)
      in if x_active s1 \<and> x_link s1 = LINK_DOWN \<and> x_reconnect_pending s1
         then s1\<lparr>x_reconnect_at := (if x_was_up s1 \<and> x_now s1 < x_down_at s1 + CALI_SESSION_UNIT_COOLDOWN_MS
                                   then x_down_at s1 + CALI_SESSION_UNIT_COOLDOWN_MS else x_now s1)\<rparr>
         else s1)"

definition wake_session :: "sess_port \<Rightarrow> sess_why \<Rightarrow> session \<Rightarrow> session" where
  "wake_session po why s =
     (let s1 = s\<lparr>x_input_at := stamp (x_now s)\<rparr>
      in reconnect_soon po why (if x_mode s1 \<noteq> CALI_BLE_HOLD then set_mode po CALI_BLE_HOLD s1 else s1))"

definition cali_session_connect_now :: "sess_port \<Rightarrow> session \<Rightarrow> session" where
  "cali_session_connect_now po s = wake_session po W_command s"

definition cali_session_connect :: "sess_port \<Rightarrow> session \<Rightarrow> int \<times> session" where
  "cali_session_connect po s = (if \<not> po_bond po then (-1, s) else (0, wake_session po W_connect s))"

definition cali_session_hold :: "sess_port \<Rightarrow> bool \<Rightarrow> session \<Rightarrow> session" where
  "cali_session_hold po on s =
     (if on = x_hold s then s
      else
        let s1 = s\<lparr>x_hold := on\<rparr> in
        if \<not> on then s1
        else
          let s2 = s1\<lparr>x_heater_next := x_now s1\<rparr>
          in reconnect_soon po W_thermostat (if x_mode s2 \<noteq> CALI_BLE_HOLD then set_mode po CALI_BLE_HOLD s2 else s2))"

definition cali_session_set_heater_ms :: "u32 \<Rightarrow> session \<Rightarrow> session" where
  "cali_session_set_heater_ms ms s = s\<lparr>x_heater_ms := ms\<rparr>"

definition cali_session_viewer :: "sess_port \<Rightarrow> u64 \<Rightarrow> session \<Rightarrow> session" where
  "cali_session_viewer po now s =
     (let s1 = s\<lparr>x_viewer_at := stamp now\<rparr> in
      if x_rest s1 \<and> x_active s1 \<and> x_mode s1 \<noteq> CALI_BLE_OFF \<and> viewer_active now s1 then
        let s2 = reconnect_soon po W_viewer s1 in s2\<lparr>x_redial := (x_link s2 = LINK_DOWN \<and> x_reconnect_pending s2)\<rparr>
      else s1)"

definition cali_session_input :: "sess_port \<Rightarrow> u64 \<Rightarrow> session \<Rightarrow> session" where
  "cali_session_input po now s = cali_session_viewer po now (s\<lparr>x_input_at := stamp now\<rparr>)"

definition cali_session_rest_next_ms :: "session \<Rightarrow> int" where
  "cali_session_rest_next_ms s =
     (if \<not> x_rest s \<or> x_rest_poll_ms s = 0 then -1 else if x_rest_next s > x_now s then uint (x_rest_next s - x_now s) else 0)"

definition cali_session_set_rest_poll :: "u32 \<Rightarrow> session \<Rightarrow> session" where
  "cali_session_set_rest_poll mins s =
     (let s1 = s\<lparr>x_rest_poll_ms := mins * 60000\<rparr> in s1\<lparr>x_rest_next := x_now s1 + ucast (x_rest_poll_ms s1)\<rparr>)"

definition cali_session_set_warm_ms :: "u32 \<Rightarrow> session \<Rightarrow> session" where
  "cali_session_set_warm_ms ms s = s\<lparr>x_warm_ms := ms\<rparr>"

section \<open>Runs\<close>

datatype sess_op = Se_tick u64 | Se_event cali_tevent | Se_state pair_st | Se_mode int | Se_probe | Se_connect | Se_connect_now
  | Se_hold bool | Se_viewer u64 | Se_input u64 | Se_rest_poll u32 | Se_warm_ms u32 | Se_heater_ms u32

fun sess_apply :: "sess_port \<Rightarrow> sess_op \<Rightarrow> session \<Rightarrow> session" where
  "sess_apply po (Se_tick now) s = cali_session_tick po now s"
| "sess_apply po (Se_event e) s = on_event po e s"
| "sess_apply po (Se_state ps) s = on_state po ps s"
| "sess_apply po (Se_mode m) s = snd (cali_session_set_mode po m s)"
| "sess_apply po Se_probe s = snd (cali_session_probe po s)"
| "sess_apply po Se_connect s = snd (cali_session_connect po s)"
| "sess_apply po Se_connect_now s = cali_session_connect_now po s"
| "sess_apply po (Se_hold on) s = cali_session_hold po on s"
| "sess_apply po (Se_viewer now) s = cali_session_viewer po now s"
| "sess_apply po (Se_input now) s = cali_session_input po now s"
| "sess_apply po (Se_rest_poll m) s = cali_session_set_rest_poll m s"
| "sess_apply po (Se_warm_ms ms) s = cali_session_set_warm_ms ms s"
| "sess_apply po (Se_heater_ms ms) s = cali_session_set_heater_ms ms s"

definition sess_step :: "session \<Rightarrow> sess_port \<times> sess_op \<Rightarrow> session \<times> se_eff list" where
  "sess_step s e = (let s1 = sess_apply (fst e) (snd e) (s\<lparr>x_out := []\<rparr>) in (s1\<lparr>x_out := []\<rparr>, x_out s1))"

definition sess_start :: "(string \<Rightarrow> u8 list option) \<Rightarrow> sess_port \<Rightarrow> session" where
  "sess_start kv_get po = (cali_session_boot po (cali_session_init kv_get session_reset))\<lparr>x_out := []\<rparr>"

end
