(* ===== verification/Session_Inv.thy ===== *)
theory Session_Inv
  imports Session
begin

text \<open>
  The invariant of the session and that every operation keeps it: what the link's flags say in each state of the
  link, that an active session which is neither off nor resting has a link or a reconnect planned, that a planned
  reconnect respects the unit's cooldown, and that the index of the read pass stays inside its table.
\<close>

section \<open>The stored data keeps its shape\<close>

definition data_ok :: "sess_data \<Rightarrow> bool" where
  "data_ok d \<longleftrightarrow> length (d_fr d) = CODEC_NCHARS \<and> length (d_lcfg d) = 2"

lemma data_ok_seed: "data_ok d \<Longrightarrow> data_ok (seed_water_frame d)"
  by (simp add: data_ok_def seed_water_frame_def split: option.split)

lemma data_ok_init: "data_ok (data_init kv)"
  unfolding data_init_def by (rule data_ok_seed) (simp add: data_ok_def)

lemma data_ok_unit_check: "data_ok d \<Longrightarrow> data_ok (fst (unit_check i d))"
  by (auto simp: unit_check_def Let_def data_ok_def intro!: data_ok_seed [unfolded data_ok_def])

lemma water_settle_shape: "d_fr (snd (water_settle now raw d)) = d_fr d" "d_lcfg (snd (water_settle now raw d)) = d_lcfg d"
  by (simp_all add: water_settle_def split_beta Let_def)

lemma water_guard_shape:
  "d_fr (fst (snd (water_guard i now raw d))) = d_fr d" "d_lcfg (fst (snd (water_guard i now raw d))) = d_lcfg d"
  by (simp_all add: water_guard_def split_beta Let_def adopt_water_def water_settle_shape)

lemma latch_lighting_shape:
  "d_fr (snd (latch_lighting raw d)) = d_fr d" "length (d_lcfg (snd (latch_lighting raw d))) = length (d_lcfg d)"
  by (simp_all add: latch_lighting_def Let_def)

lemma data_ok_store: "data_ok d \<Longrightarrow> data_ok (fst (store i now raw d))"
  by (simp add: store_def split_beta Let_def data_ok_def water_guard_shape latch_lighting_shape split: option.split)

lemma data_ok_fresh: "data_ok d \<Longrightarrow> data_ok (link_fresh d)"
  by (simp add: data_ok_def link_fresh_def)

section \<open>The invariant of the link\<close>

definition flags_off :: "session \<Rightarrow> bool" where
  "flags_off s \<longleftrightarrow> \<not> x_hb_on s \<and> \<not> x_warming s \<and> \<not> x_reading s \<and> \<not> x_snapped s \<and> \<not> x_rereading s \<and> \<not> x_heater_reading s \<and>
     \<not> x_variant_pending s \<and> \<not> x_vehicle_pre s"

definition base_ok :: "session \<Rightarrow> bool" where
  "base_ok s \<longleftrightarrow> CALI_SESSION_BACKOFF_MIN_MS \<le> x_backoff s \<and> x_backoff s \<le> CALI_SESSION_BACKOFF_MAX_MS \<and> data_ok (x_data s)"

lemma update_frame [simp]:
  "flags_off (s\<lparr>x_active := v1\<rparr>) = flags_off s" "flags_off (s\<lparr>x_link := v2\<rparr>) = flags_off s"
  "flags_off (s\<lparr>x_now := v3\<rparr>) = flags_off s" "flags_off (s\<lparr>x_connect_started := v4\<rparr>) = flags_off s"
  "flags_off (s\<lparr>x_connected_at := v5\<rparr>) = flags_off s" "flags_off (s\<lparr>x_up_at := v6\<rparr>) = flags_off s"
  "flags_off (s\<lparr>x_hb_ctr := v7\<rparr>) = flags_off s" "flags_off (s\<lparr>x_hb_next := v8\<rparr>) = flags_off s"
  "flags_off (s\<lparr>x_hb_since := v9\<rparr>) = flags_off s" "flags_off (s\<lparr>x_reconnect_pending := v10\<rparr>) = flags_off s"
  "flags_off (s\<lparr>x_reconnect_at := v11\<rparr>) = flags_off s" "flags_off (s\<lparr>x_backoff := v12\<rparr>) = flags_off s"
  "flags_off (s\<lparr>x_warm_until := v13\<rparr>) = flags_off s" "flags_off (s\<lparr>x_read_idx := v14\<rparr>) = flags_off s"
  "flags_off (s\<lparr>x_warm_ms := v15\<rparr>) = flags_off s" "flags_off (s\<lparr>x_link_variant := v16\<rparr>) = flags_off s"
  "flags_off (s\<lparr>x_water_next := v17\<rparr>) = flags_off s" "flags_off (s\<lparr>x_mode := v18\<rparr>) = flags_off s"
  "flags_off (s\<lparr>x_probe := v19\<rparr>) = flags_off s" "flags_off (s\<lparr>x_rest := v20\<rparr>) = flags_off s"
  "flags_off (s\<lparr>x_rest_next := v21\<rparr>) = flags_off s" "flags_off (s\<lparr>x_rest_poll_ms := v22\<rparr>) = flags_off s"
  "flags_off (s\<lparr>x_viewer_at := v23\<rparr>) = flags_off s" "flags_off (s\<lparr>x_input_at := v24\<rparr>) = flags_off s"
  "flags_off (s\<lparr>x_redial := v25\<rparr>) = flags_off s" "flags_off (s\<lparr>x_rest_left := v26\<rparr>) = flags_off s"
  "flags_off (s\<lparr>x_hold := v27\<rparr>) = flags_off s" "flags_off (s\<lparr>x_heater_next := v28\<rparr>) = flags_off s"
  "flags_off (s\<lparr>x_heater_ms := v29\<rparr>) = flags_off s" "flags_off (s\<lparr>x_was_up := v30\<rparr>) = flags_off s"
  "flags_off (s\<lparr>x_down_at := v31\<rparr>) = flags_off s" "flags_off (s\<lparr>x_data := v32\<rparr>) = flags_off s"
  "flags_off (s\<lparr>x_out := v33\<rparr>) = flags_off s" "base_ok (s\<lparr>x_active := v34\<rparr>) = base_ok s"
  "base_ok (s\<lparr>x_link := v35\<rparr>) = base_ok s" "base_ok (s\<lparr>x_now := v36\<rparr>) = base_ok s"
  "base_ok (s\<lparr>x_connect_started := v37\<rparr>) = base_ok s" "base_ok (s\<lparr>x_connected_at := v38\<rparr>) = base_ok s"
  "base_ok (s\<lparr>x_up_at := v39\<rparr>) = base_ok s" "base_ok (s\<lparr>x_hb_on := v40\<rparr>) = base_ok s"
  "base_ok (s\<lparr>x_hb_ctr := v41\<rparr>) = base_ok s" "base_ok (s\<lparr>x_hb_next := v42\<rparr>) = base_ok s"
  "base_ok (s\<lparr>x_hb_since := v43\<rparr>) = base_ok s" "base_ok (s\<lparr>x_reconnect_pending := v44\<rparr>) = base_ok s"
  "base_ok (s\<lparr>x_reconnect_at := v45\<rparr>) = base_ok s" "base_ok (s\<lparr>x_warming := v46\<rparr>) = base_ok s"
  "base_ok (s\<lparr>x_warm_until := v47\<rparr>) = base_ok s" "base_ok (s\<lparr>x_reading := v48\<rparr>) = base_ok s"
  "base_ok (s\<lparr>x_read_idx := v49\<rparr>) = base_ok s" "base_ok (s\<lparr>x_warm_ms := v50\<rparr>) = base_ok s"
  "base_ok (s\<lparr>x_snapped := v51\<rparr>) = base_ok s" "base_ok (s\<lparr>x_rereading := v52\<rparr>) = base_ok s"
  "base_ok (s\<lparr>x_variant_pending := v53\<rparr>) = base_ok s" "base_ok (s\<lparr>x_vehicle_pre := v54\<rparr>) = base_ok s"
  "base_ok (s\<lparr>x_link_variant := v55\<rparr>) = base_ok s" "base_ok (s\<lparr>x_water_next := v56\<rparr>) = base_ok s"
  "base_ok (s\<lparr>x_mode := v57\<rparr>) = base_ok s" "base_ok (s\<lparr>x_probe := v58\<rparr>) = base_ok s"
  "base_ok (s\<lparr>x_rest := v59\<rparr>) = base_ok s" "base_ok (s\<lparr>x_rest_next := v60\<rparr>) = base_ok s"
  "base_ok (s\<lparr>x_rest_poll_ms := v61\<rparr>) = base_ok s" "base_ok (s\<lparr>x_viewer_at := v62\<rparr>) = base_ok s"
  "base_ok (s\<lparr>x_input_at := v63\<rparr>) = base_ok s" "base_ok (s\<lparr>x_redial := v64\<rparr>) = base_ok s"
  "base_ok (s\<lparr>x_rest_left := v65\<rparr>) = base_ok s" "base_ok (s\<lparr>x_hold := v66\<rparr>) = base_ok s"
  "base_ok (s\<lparr>x_heater_reading := v67\<rparr>) = base_ok s" "base_ok (s\<lparr>x_heater_next := v68\<rparr>) = base_ok s"
  "base_ok (s\<lparr>x_heater_ms := v69\<rparr>) = base_ok s" "base_ok (s\<lparr>x_was_up := v70\<rparr>) = base_ok s"
  "base_ok (s\<lparr>x_down_at := v71\<rparr>) = base_ok s" "base_ok (s\<lparr>x_out := v72\<rparr>) = base_ok s"
  by (simp_all add: flags_off_def base_ok_def)

definition down :: "session \<Rightarrow> bool" where
  "down s \<longleftrightarrow> x_link s = LINK_DOWN \<and> flags_off s \<and> base_ok s \<and> \<not> x_reconnect_pending s"

definition sess_inv :: "session \<Rightarrow> bool" where
  "sess_inv s \<longleftrightarrow> base_ok s \<and>
     (if x_link s = LINK_UP then x_hb_on s else flags_off s) \<and>
     (\<not> x_reading s \<or> x_read_idx s < CODEC_NCHARS) \<and>
     (x_active s \<or> x_link s = LINK_DOWN \<and> \<not> x_reconnect_pending s) \<and>
     (\<not> x_reconnect_pending s \<or> x_link s = LINK_DOWN \<and> x_mode s \<noteq> CALI_BLE_OFF \<and> \<not> x_rest s) \<and>
     (\<not> x_reconnect_pending s \<or> \<not> x_was_up s \<or> x_down_at s + CALI_SESSION_UNIT_COOLDOWN_MS \<le> x_reconnect_at s) \<and>
     (\<not> x_probe s \<or> x_link s \<noteq> LINK_DOWN) \<and>
     (x_mode s \<noteq> CALI_BLE_OFF \<and> \<not> x_rest s \<or> x_link s = LINK_DOWN \<or> x_probe s) \<and>
     (\<not> x_active s \<or> x_mode s = CALI_BLE_OFF \<or> x_rest s \<or> x_link s \<noteq> LINK_DOWN \<or> x_reconnect_pending s)"

lemma backoff_double:
  assumes "CALI_SESSION_BACKOFF_MIN_MS \<le> b" and "b \<le> CALI_SESSION_BACKOFF_MAX_MS"
  shows "CALI_SESSION_BACKOFF_MIN_MS \<le> (if b * 2 > CALI_SESSION_BACKOFF_MAX_MS then CALI_SESSION_BACKOFF_MAX_MS else b * 2)"
    "(if b * 2 > CALI_SESSION_BACKOFF_MAX_MS then CALI_SESSION_BACKOFF_MAX_MS else b * 2) \<le> CALI_SESSION_BACKOFF_MAX_MS"
  using assms by (auto simp: session_consts word_le_nat_alt word_less_nat_alt unat_word_ariths)

lemma schedule_inv:
  assumes "down s" and "\<not> x_probe s"
  shows "sess_inv (schedule_reconnect po s)"
proof -
  have b: "base_ok (s\<lparr>x_reconnect_pending := True, x_reconnect_at := t,
      x_backoff := (if x_backoff s * 2 > CALI_SESSION_BACKOFF_MAX_MS then CALI_SESSION_BACKOFF_MAX_MS else x_backoff s * 2)\<rparr>)" for t
    using assms backoff_double [of "x_backoff s"] by (simp add: down_def base_ok_def split del: if_split)
  have o: "\<not> a < c \<Longrightarrow> c \<le> a" for a c :: u64 by simp
  show ?thesis using assms b o
    by (auto simp: schedule_reconnect_def Let_def sess_inv_def down_def flags_off_def base_ok_def)
qed

lemma down_rest_set: "down (rest_set on why s) = down s"
  by (simp add: rest_set_def Let_def emit_def down_def flags_off_def base_ok_def)

lemma rest_set_frame [simp]:
  "x_active (rest_set on why s) = x_active s" "x_link (rest_set on why s) = x_link s" "x_now (rest_set on why s) = x_now s"
  "x_connect_started (rest_set on why s) = x_connect_started s" "x_connected_at (rest_set on why s) = x_connected_at s"
  "x_up_at (rest_set on why s) = x_up_at s" "x_hb_on (rest_set on why s) = x_hb_on s" "x_hb_ctr (rest_set on why s) = x_hb_ctr s"
  "x_hb_next (rest_set on why s) = x_hb_next s" "x_hb_since (rest_set on why s) = x_hb_since s"
  "x_reconnect_pending (rest_set on why s) = x_reconnect_pending s" "x_reconnect_at (rest_set on why s) = x_reconnect_at s"
  "x_backoff (rest_set on why s) = x_backoff s" "x_warming (rest_set on why s) = x_warming s" "x_warm_until (rest_set on why s) = x_warm_until s"
  "x_reading (rest_set on why s) = x_reading s" "x_read_idx (rest_set on why s) = x_read_idx s" "x_warm_ms (rest_set on why s) = x_warm_ms s"
  "x_snapped (rest_set on why s) = x_snapped s" "x_rereading (rest_set on why s) = x_rereading s"
  "x_variant_pending (rest_set on why s) = x_variant_pending s" "x_vehicle_pre (rest_set on why s) = x_vehicle_pre s"
  "x_link_variant (rest_set on why s) = x_link_variant s" "x_water_next (rest_set on why s) = x_water_next s" "x_mode (rest_set on why s) = x_mode s"
  "x_probe (rest_set on why s) = x_probe s" "x_rest_poll_ms (rest_set on why s) = x_rest_poll_ms s" "x_viewer_at (rest_set on why s) = x_viewer_at s"
  "x_input_at (rest_set on why s) = x_input_at s" "x_hold (rest_set on why s) = x_hold s" "x_heater_reading (rest_set on why s) = x_heater_reading s"
  "x_heater_next (rest_set on why s) = x_heater_next s" "x_heater_ms (rest_set on why s) = x_heater_ms s" "x_was_up (rest_set on why s) = x_was_up s"
  "x_down_at (rest_set on why s) = x_down_at s" "x_data (rest_set on why s) = x_data s" "x_rest (rest_set on why s) = on"
  "flags_off (rest_set on why s) = flags_off s" "base_ok (rest_set on why s) = base_ok s"
  by (simp_all add: rest_set_def Let_def emit_def flags_off_def base_ok_def)

lemma down_rest_again: "down (snd (rest_again po s)) = down s" "x_probe (snd (rest_again po s)) = x_probe s"
  by (simp_all add: rest_again_def down_rest_set)

lemma link_clear_frame [simp]:
  "x_active (link_clear s) = x_active s" "x_now (link_clear s) = x_now s" "x_connect_started (link_clear s) = x_connect_started s"
  "x_connected_at (link_clear s) = x_connected_at s" "x_up_at (link_clear s) = x_up_at s" "x_hb_ctr (link_clear s) = x_hb_ctr s"
  "x_hb_next (link_clear s) = x_hb_next s" "x_hb_since (link_clear s) = x_hb_since s" "x_reconnect_pending (link_clear s) = x_reconnect_pending s"
  "x_reconnect_at (link_clear s) = x_reconnect_at s" "x_warm_until (link_clear s) = x_warm_until s" "x_read_idx (link_clear s) = x_read_idx s"
  "x_warm_ms (link_clear s) = x_warm_ms s" "x_link_variant (link_clear s) = x_link_variant s" "x_water_next (link_clear s) = x_water_next s"
  "x_mode (link_clear s) = x_mode s" "x_probe (link_clear s) = x_probe s" "x_rest (link_clear s) = x_rest s"
  "x_rest_next (link_clear s) = x_rest_next s" "x_rest_poll_ms (link_clear s) = x_rest_poll_ms s" "x_viewer_at (link_clear s) = x_viewer_at s"
  "x_input_at (link_clear s) = x_input_at s" "x_redial (link_clear s) = x_redial s" "x_rest_left (link_clear s) = x_rest_left s"
  "x_hold (link_clear s) = x_hold s" "x_heater_next (link_clear s) = x_heater_next s" "x_heater_ms (link_clear s) = x_heater_ms s"
  "x_data (link_clear s) = x_data s" "x_link (link_clear s) = LINK_DOWN" "flags_off (link_clear s)" "\<not> x_hb_on (link_clear s)"
  "\<not> x_reading (link_clear s)" "\<not> x_snapped (link_clear s)"
  by (simp_all add: link_clear_def Let_def emit_def flags_off_def)

lemma base_link_clear [simp]: "base_ok s \<Longrightarrow> base_ok (link_clear s)"
  by (simp add: link_clear_def Let_def emit_def base_ok_def session_consts)

lemma down_link_clear: "base_ok s \<Longrightarrow> \<not> x_reconnect_pending s \<Longrightarrow> down (link_clear s)"
  by (simp add: down_def)

lemma emit_frame [simp]:
  "x_active (emit e s) = x_active s" "x_link (emit e s) = x_link s" "x_now (emit e s) = x_now s" "x_connect_started (emit e s) = x_connect_started s"
  "x_connected_at (emit e s) = x_connected_at s" "x_up_at (emit e s) = x_up_at s" "x_hb_on (emit e s) = x_hb_on s" "x_hb_ctr (emit e s) = x_hb_ctr s"
  "x_hb_next (emit e s) = x_hb_next s" "x_hb_since (emit e s) = x_hb_since s" "x_reconnect_pending (emit e s) = x_reconnect_pending s"
  "x_reconnect_at (emit e s) = x_reconnect_at s" "x_backoff (emit e s) = x_backoff s" "x_warming (emit e s) = x_warming s"
  "x_warm_until (emit e s) = x_warm_until s" "x_reading (emit e s) = x_reading s" "x_read_idx (emit e s) = x_read_idx s"
  "x_warm_ms (emit e s) = x_warm_ms s" "x_snapped (emit e s) = x_snapped s" "x_rereading (emit e s) = x_rereading s"
  "x_variant_pending (emit e s) = x_variant_pending s" "x_vehicle_pre (emit e s) = x_vehicle_pre s" "x_link_variant (emit e s) = x_link_variant s"
  "x_water_next (emit e s) = x_water_next s" "x_mode (emit e s) = x_mode s" "x_probe (emit e s) = x_probe s" "x_rest (emit e s) = x_rest s"
  "x_rest_next (emit e s) = x_rest_next s" "x_rest_poll_ms (emit e s) = x_rest_poll_ms s" "x_viewer_at (emit e s) = x_viewer_at s"
  "x_input_at (emit e s) = x_input_at s" "x_redial (emit e s) = x_redial s" "x_rest_left (emit e s) = x_rest_left s" "x_hold (emit e s) = x_hold s"
  "x_heater_reading (emit e s) = x_heater_reading s" "x_heater_next (emit e s) = x_heater_next s" "x_heater_ms (emit e s) = x_heater_ms s"
  "x_was_up (emit e s) = x_was_up s" "x_down_at (emit e s) = x_down_at s" "x_data (emit e s) = x_data s" "flags_off (emit e s) = flags_off s"
  "base_ok (emit e s) = base_ok s" "down (emit e s) = down s" "sess_inv (emit e s) = sess_inv s"
  by (simp_all add: emit_def flags_off_def base_ok_def down_def sess_inv_def)

lemma probe_over_frame [simp]:
  "x_active (probe_over po why s) = x_active s" "x_link (probe_over po why s) = x_link s" "x_now (probe_over po why s) = x_now s"
  "x_connect_started (probe_over po why s) = x_connect_started s" "x_connected_at (probe_over po why s) = x_connected_at s"
  "x_up_at (probe_over po why s) = x_up_at s" "x_hb_on (probe_over po why s) = x_hb_on s" "x_hb_ctr (probe_over po why s) = x_hb_ctr s"
  "x_hb_next (probe_over po why s) = x_hb_next s" "x_hb_since (probe_over po why s) = x_hb_since s"
  "x_reconnect_pending (probe_over po why s) = x_reconnect_pending s" "x_reconnect_at (probe_over po why s) = x_reconnect_at s"
  "x_backoff (probe_over po why s) = x_backoff s" "x_warming (probe_over po why s) = x_warming s"
  "x_warm_until (probe_over po why s) = x_warm_until s" "x_reading (probe_over po why s) = x_reading s"
  "x_read_idx (probe_over po why s) = x_read_idx s" "x_warm_ms (probe_over po why s) = x_warm_ms s" "x_snapped (probe_over po why s) = x_snapped s"
  "x_rereading (probe_over po why s) = x_rereading s" "x_variant_pending (probe_over po why s) = x_variant_pending s"
  "x_vehicle_pre (probe_over po why s) = x_vehicle_pre s" "x_link_variant (probe_over po why s) = x_link_variant s"
  "x_water_next (probe_over po why s) = x_water_next s" "x_mode (probe_over po why s) = x_mode s" "x_rest (probe_over po why s) = x_rest s"
  "x_rest_poll_ms (probe_over po why s) = x_rest_poll_ms s" "x_viewer_at (probe_over po why s) = x_viewer_at s"
  "x_input_at (probe_over po why s) = x_input_at s" "x_redial (probe_over po why s) = x_redial s" "x_rest_left (probe_over po why s) = x_rest_left s"
  "x_hold (probe_over po why s) = x_hold s" "x_heater_reading (probe_over po why s) = x_heater_reading s"
  "x_heater_next (probe_over po why s) = x_heater_next s" "x_heater_ms (probe_over po why s) = x_heater_ms s"
  "x_was_up (probe_over po why s) = x_was_up s" "x_down_at (probe_over po why s) = x_down_at s" "x_data (probe_over po why s) = x_data s"
  "\<not> x_probe (probe_over po why s)" "flags_off (probe_over po why s) = flags_off s" "base_ok (probe_over po why s) = base_ok s"
  "down (probe_over po why s) = down s"
  by (simp_all add: probe_over_def probe_end_def probe_rest_def Let_def emit_def flags_off_def base_ok_def down_def)

lemma base_ok_update [simp]: "base_ok (s\<lparr>x_redial := r\<rparr>) = base_ok s" "down (s\<lparr>x_redial := r\<rparr>) = down s"
  by (simp_all add: base_ok_def down_def flags_off_def)

lemma lost_down_down: "base_ok s \<Longrightarrow> \<not> x_reconnect_pending s \<Longrightarrow> down (lost_down po why s) \<and> \<not> x_probe (lost_down po why s)"
  by (simp add: lost_down_def Let_def down_link_clear)

lemma lost_rest_down: "down s \<Longrightarrow> \<not> x_probe s \<Longrightarrow> down (lost_rest po why status s) \<and> \<not> x_probe (lost_rest po why status s)"
proof -
  assume d: "down s" "\<not> x_probe s"
  let ?s = "snd (rest_again po s)"
  have "down ?s" "\<not> x_probe ?s" using d by (simp_all add: down_rest_again)
  moreover have "down (?s\<lparr>x_redial := True, x_backoff := CALI_SESSION_BACKOFF_MIN_MS\<rparr>)"
    using \<open>down ?s\<close> by (simp add: down_def flags_off_def base_ok_def session_consts)
  ultimately show ?thesis by (simp add: lost_rest_def split_beta Let_def down_rest_set)
qed

lemma link_lost_inv: "base_ok s \<Longrightarrow> \<not> x_reconnect_pending s \<Longrightarrow> sess_inv (link_lost po why status s)"
  unfolding link_lost_def using lost_down_down lost_rest_down schedule_inv by blast

lemma connect_inv:
  assumes "down s" and "x_active s" and "x_mode s = CALI_BLE_OFF \<or> x_rest s \<Longrightarrow> x_probe s"
  shows "sess_inv (connect_now po s)"
proof (cases "po_connect po = 0")
  case True
  then show ?thesis using assms
    by (auto simp: connect_now_def Let_def emit_def sess_inv_def down_def flags_off_def base_ok_def)
next
  case False
  let ?s = "snd (rest_again po (probe_over po W_connect_fail ((emit Ef_connect s)\<lparr>x_redial := False\<rparr>)))"
  have "down ?s" "\<not> x_probe ?s" using assms by (simp_all add: down_rest_again)
  then show ?thesis using False schedule_inv by (simp add: connect_now_def Let_def)
qed

lemma on_data_frame [simp]:
  "x_active (on_data f s) = x_active s" "x_link (on_data f s) = x_link s" "x_now (on_data f s) = x_now s"
  "x_connect_started (on_data f s) = x_connect_started s" "x_connected_at (on_data f s) = x_connected_at s" "x_up_at (on_data f s) = x_up_at s"
  "x_hb_on (on_data f s) = x_hb_on s" "x_hb_ctr (on_data f s) = x_hb_ctr s" "x_hb_next (on_data f s) = x_hb_next s"
  "x_hb_since (on_data f s) = x_hb_since s" "x_reconnect_pending (on_data f s) = x_reconnect_pending s"
  "x_reconnect_at (on_data f s) = x_reconnect_at s" "x_backoff (on_data f s) = x_backoff s" "x_warming (on_data f s) = x_warming s"
  "x_warm_until (on_data f s) = x_warm_until s" "x_reading (on_data f s) = x_reading s" "x_read_idx (on_data f s) = x_read_idx s"
  "x_warm_ms (on_data f s) = x_warm_ms s" "x_snapped (on_data f s) = x_snapped s" "x_rereading (on_data f s) = x_rereading s"
  "x_variant_pending (on_data f s) = x_variant_pending s" "x_vehicle_pre (on_data f s) = x_vehicle_pre s"
  "x_link_variant (on_data f s) = x_link_variant s" "x_water_next (on_data f s) = x_water_next s" "x_mode (on_data f s) = x_mode s"
  "x_probe (on_data f s) = x_probe s" "x_rest (on_data f s) = x_rest s" "x_rest_next (on_data f s) = x_rest_next s"
  "x_rest_poll_ms (on_data f s) = x_rest_poll_ms s" "x_viewer_at (on_data f s) = x_viewer_at s" "x_input_at (on_data f s) = x_input_at s"
  "x_redial (on_data f s) = x_redial s" "x_rest_left (on_data f s) = x_rest_left s" "x_hold (on_data f s) = x_hold s"
  "x_heater_reading (on_data f s) = x_heater_reading s" "x_heater_next (on_data f s) = x_heater_next s" "x_heater_ms (on_data f s) = x_heater_ms s"
  "x_was_up (on_data f s) = x_was_up s" "x_down_at (on_data f s) = x_down_at s" "flags_off (on_data f s) = flags_off s"
  "x_data (on_data f s) = fst (f (x_data s))"
  by (simp_all add: on_data_def split_beta Let_def flags_off_def)

lemma on_data_inv: "data_ok (fst (f (x_data s))) \<Longrightarrow> sess_inv s \<Longrightarrow> sess_inv (on_data f s)"
  unfolding sess_inv_def base_ok_def on_data_frame by simp

lemma base_data_ok: "base_ok s \<Longrightarrow> data_ok (x_data s)" "sess_inv s \<Longrightarrow> data_ok (x_data s)" "sess_inv s \<Longrightarrow> base_ok s"
  by (simp_all add: base_ok_def sess_inv_def)

lemma store_at_inv: "sess_inv s \<Longrightarrow> sess_inv (store_at i raw s)"
  unfolding store_at_def by (rule on_data_inv) (simp_all add: data_ok_store base_data_ok)

lemma link_up_inv:
  assumes "base_ok s" and "x_active s" and "x_mode s = CALI_BLE_OFF \<or> x_rest s \<Longrightarrow> x_probe s"
  shows "sess_inv (link_up po s)"
proof -
  let ?s1 = "link_begin s"
  have 1: "sess_inv ?s1" using assms by (auto simp: link_begin_def sess_inv_def base_ok_def emit_def)
  let ?s2 = "on_data (unit_check (po_identity po)) ?s1"
  have 2: "sess_inv ?s2" using 1 by (intro on_data_inv data_ok_unit_check base_data_ok)
  let ?s3 = "emit Ef_discover (?s2\<lparr>x_data := link_fresh (x_data ?s2)\<rparr>)"
  have "data_ok (link_fresh (x_data ?s2))" using 2 by (intro data_ok_fresh base_data_ok)
  moreover have "x_link (link_begin s) = LINK_UP" by (simp add: link_begin_def)
  ultimately have 3: "sess_inv ?s3" using 2 by (simp add: sess_inv_def base_ok_def)
  have p: "\<not> x_reconnect_pending ?s3" by (simp add: link_begin_def)
  show ?thesis using 3 link_lost_inv [OF base_data_ok(3) [OF 3] p] by (simp add: link_up_def Let_def)
qed

lemma probe_rest_frame: "x_link (probe_rest po ok s) = x_link s" "x_active (probe_rest po ok s) = x_active s" "x_hb_on (probe_rest po ok s) = x_hb_on s"
  "x_reconnect_pending (probe_rest po ok s) = x_reconnect_pending s" "base_ok (probe_rest po ok s) = base_ok s" "x_probe (probe_rest po ok s) = x_probe s"
  "x_reading (probe_rest po ok s) = x_reading s" "x_read_idx (probe_rest po ok s) = x_read_idx s"
  by (simp_all add: probe_rest_def Let_def base_ok_def)

lemma probe_ok_inv:
  assumes "sess_inv s" and "x_link s = LINK_UP"
  shows "sess_inv (probe_end po True why s)"
proof -
  let ?s2 = "probe_rest po True (emit (Ef_probe True why) (s\<lparr>x_probe := False\<rparr>))"
  have up: "x_active s" "x_hb_on s" "\<not> x_reconnect_pending s" "base_ok s" using assms by (auto simp: sess_inv_def)
  then have s2: "x_link ?s2 = LINK_UP" "x_active ?s2" "x_hb_on ?s2" "\<not> x_reconnect_pending ?s2" "base_ok ?s2" "\<not> x_probe ?s2"
    "x_reading ?s2 = x_reading s" "x_read_idx ?s2 = x_read_idx s"
    using assms(2) by (simp_all add: probe_rest_frame)
  show ?thesis
  proof (cases "x_rest ?s2 \<or> x_mode ?s2 = CALI_BLE_OFF")
    case True
    then have "sess_inv (link_clear (emit Ef_disconnect ?s2))" using s2 by (auto simp: sess_inv_def)
    then show ?thesis using True s2(1) by (simp add: probe_end_def)
  next
    case False
    then have "sess_inv ?s2" using s2 assms(1) by (simp add: sess_inv_def)
    then show ?thesis using False by (simp add: probe_end_def)
  qed
qed

lemma pass_done_inv:
  assumes "sess_inv (s\<lparr>x_read_idx := 0\<rparr>)" and "x_link s = LINK_UP"
  shows "sess_inv (pass_done po s)"
proof -
  let ?s1 = "emit (Ef_snapshot (x_now s)) (s\<lparr>x_reading := False, x_vehicle_pre := False, x_snapped := True,
                 x_water_next := x_now s + CALI_SESSION_WATER_REREAD_MS\<rparr>)"
  have "sess_inv ?s1" using assms by (simp add: sess_inv_def base_ok_def)
  then show ?thesis using probe_ok_inv [of ?s1] assms(2) by (simp add: pass_done_def Let_def)
qed

lemma read_next_inv:
  assumes "sess_inv (s\<lparr>x_read_idx := 0\<rparr>)" and "x_link s = LINK_UP"
  shows "sess_inv (read_next po s)"
  using assms
proof (induction po s rule: read_next.induct)
  case (1 po s)
  have i: "sess_inv s" if "x_read_idx s < CODEC_NCHARS" using that 1(3,4) by (simp add: sess_inv_def base_ok_def)
  have z: "sess_inv (s\<lparr>x_read_idx := n, x_read_idx := 0\<rparr>)" "sess_inv ((emit e s)\<lparr>x_read_idx := n, x_read_idx := 0\<rparr>)" for n e
    using 1(3,4) by (simp_all add: sess_inv_def base_ok_def)
  let ?i = "build_order ! x_read_idx s"
  consider "\<not> x_read_idx s < CODEC_NCHARS" | "x_read_idx s < CODEC_NCHARS" "\<not> pass_reads s ?i"
    | "x_read_idx s < CODEC_NCHARS" "pass_reads s ?i" "po_read po (snd (CODEC_CHARS ! ?i)) = 0"
    | "x_read_idx s < CODEC_NCHARS" "pass_reads s ?i" "po_read po (snd (CODEC_CHARS ! ?i)) \<noteq> 0" by blast
  then show ?case
  proof cases
    case b: 2
    then show ?thesis using 1(1) [OF b(1) refl refl b(2) z(1)] 1(4) by (simp add: read_next.simps [of po s])
  next
    case b: 4
    have "\<not> \<not> pass_reads s ?i" using b(2) by simp
    then show ?thesis using b 1(2) [OF b(1) refl refl _ refl b(3) z(2)] 1(4) by (simp add: read_next.simps [of po s])
  qed (use pass_done_inv [OF 1(3,4)] i in \<open>simp_all add: read_next.simps [of po s]\<close>)
qed

lemma start_reads_inv: "sess_inv s \<Longrightarrow> x_link s = LINK_UP \<Longrightarrow> sess_inv (start_reads po s)"
  unfolding start_reads_def by (rule read_next_inv) (simp_all add: sess_inv_def base_ok_def CODEC_NCHARS_def)

lemma subscribe_inv: "sess_inv s \<Longrightarrow> x_link s = LINK_UP \<Longrightarrow> sess_inv (subscribe_and_warm s)"
  by (simp add: subscribe_and_warm_def Let_def sess_inv_def base_ok_def)

lemma up_not_pending: "sess_inv s \<Longrightarrow> x_link s \<noteq> LINK_DOWN \<Longrightarrow> \<not> x_reconnect_pending s"
  by (auto simp: sess_inv_def)

lemma link_lost_inv': "sess_inv s \<Longrightarrow> x_link s \<noteq> LINK_DOWN \<Longrightarrow> sess_inv (link_lost po why status s)"
  by (intro link_lost_inv base_data_ok up_not_pending)

lemma link_lost_clear_inv: "sess_inv s \<Longrightarrow> x_link s \<noteq> LINK_DOWN \<Longrightarrow> sess_inv (link_lost po why status (link_clear s))"
  by (intro link_lost_inv base_link_clear base_data_ok) (simp_all add: up_not_pending)

text \<open>Flags that only matter while the link is up.\<close>

lemma up_flags_inv:
  assumes "sess_inv s" and "x_link s = LINK_UP"
  shows "sess_inv (s\<lparr>x_variant_pending := a\<rparr>)" "sess_inv (s\<lparr>x_vehicle_pre := a\<rparr>)" "sess_inv (s\<lparr>x_heater_reading := a\<rparr>)"
    "sess_inv (s\<lparr>x_rereading := a\<rparr>)" "sess_inv (s\<lparr>x_warming := a\<rparr>)" "sess_inv (s\<lparr>x_heater_next := t\<rparr>)" "sess_inv (s\<lparr>x_water_next := t\<rparr>)"
    "sess_inv (s\<lparr>x_warm_until := t\<rparr>)" "sess_inv (s\<lparr>x_hb_ctr := n\<rparr>)" "sess_inv (s\<lparr>x_hb_next := t\<rparr>)" "sess_inv (s\<lparr>x_read_idx := 0\<rparr>)"
  using assms by (simp_all add: sess_inv_def base_ok_def CODEC_NCHARS_def)

lemma on_discovered_inv: "sess_inv s \<Longrightarrow> x_link s = LINK_UP \<Longrightarrow> sess_inv (on_discovered po status s)"
  by (simp add: on_discovered_def Let_def link_lost_inv' subscribe_inv up_flags_inv)

lemma store_at_frame [simp]: "x_link (store_at i raw s) = x_link s" "x_reading (store_at i raw s) = x_reading s"
  "x_read_idx (store_at i raw s) = x_read_idx s"
  by (simp_all add: store_at_def)

lemma inv_if: "(c \<Longrightarrow> sess_inv a) \<Longrightarrow> (\<not> c \<Longrightarrow> sess_inv b) \<Longrightarrow> sess_inv (if c then a else b)"
  by simp

lemma read_answer_inv:
  assumes "sess_inv s" and "x_link s = LINK_UP"
  shows "sess_inv (read_answer po e s)"
proof -
  have r: "sess_inv (read_next po (u\<lparr>x_read_idx := n\<rparr>))" if "sess_inv u" "x_link u = LINK_UP" for u n
    by (rule read_next_inv) (use that up_flags_inv(11) [OF that] in simp_all)
  show ?thesis unfolding read_answer_def Let_def
    by (intro inv_if) (simp_all add: assms store_at_inv subscribe_inv up_flags_inv r)
qed

lemma on_read_inv: "sess_inv s \<Longrightarrow> x_link s = LINK_UP \<Longrightarrow> sess_inv (on_read po e s)"
  unfolding on_read_def by (rule read_answer_inv) simp_all

lemma on_event_inv:
  assumes "sess_inv s"
  shows "sess_inv (on_event po e s)"
proof (cases "x_active s")
  case True
  have lu: "x_link s = LINK_CONNECTED \<Longrightarrow> sess_inv (link_up po s)"
    using assms True by (intro link_up_inv) (auto simp: sess_inv_def)
  have c: "x_link s = LINK_CONNECTING \<Longrightarrow> sess_inv (s\<lparr>x_link := LINK_CONNECTED, x_connected_at := x_now s\<rparr>)"
    using assms by (auto simp: sess_inv_def base_ok_def flags_off_def)
  show ?thesis using assms True lu c
    by (cases "te_ev e") (auto simp: on_event_def Let_def link_lost_inv' link_lost_clear_inv on_discovered_inv on_read_inv store_at_inv split: option.split)
qed (simp add: on_event_def assms)

lemma inv_down: "sess_inv s \<Longrightarrow> x_link s = LINK_DOWN \<Longrightarrow> down (s\<lparr>x_reconnect_pending := False\<rparr>)"
  by (simp add: sess_inv_def down_def flags_off_def base_ok_def)

lemma down_update [simp]: "down (s\<lparr>x_mode := m\<rparr>) = down s" "down (s\<lparr>x_probe := p\<rparr>) = down s" "down (s\<lparr>x_hb_since := t\<rparr>) = down s"
  "down (s\<lparr>x_active := a\<rparr>) = down s" "down (s\<lparr>x_backoff := CALI_SESSION_BACKOFF_MIN_MS\<rparr>) = (x_link s = LINK_DOWN \<and> flags_off s \<and> data_ok (x_data s) \<and> \<not> x_reconnect_pending s)"
  by (simp_all add: down_def flags_off_def base_ok_def session_consts)

lemma inv_inactive: "sess_inv s \<Longrightarrow> \<not> x_active s \<Longrightarrow> x_link s = LINK_DOWN \<and> \<not> x_reconnect_pending s \<and> flags_off s \<and> \<not> x_probe s \<and> base_ok s"
  by (auto simp: sess_inv_def)

lemma inv_down_facts: "sess_inv s \<Longrightarrow> x_link s = LINK_DOWN \<Longrightarrow> flags_off s \<and> base_ok s \<and> \<not> x_probe s \<and> \<not> x_reading s"
  by (simp add: sess_inv_def flags_off_def)

lemma hb_since_inv: "sess_inv (s\<lparr>x_hb_since := t\<rparr>) = sess_inv s" "sess_inv (s\<lparr>x_mode := m, x_hb_since := t\<rparr>) = sess_inv (s\<lparr>x_mode := m\<rparr>)"
  by (simp_all add: sess_inv_def)

lemma set_mode_inv:
  assumes "sess_inv s"
  shows "sess_inv (set_mode po mode s)"
proof (cases "mode = x_mode s \<or> \<not> x_active s")
  case True
  have "sess_inv (s\<lparr>x_mode := mode\<rparr>)" if "\<not> x_active s"
    using inv_inactive [OF assms that] that by (simp add: sess_inv_def base_ok_def flags_off_def)
  then show ?thesis using True assms by (auto simp: set_mode_def)
next
  case False
  then have na: "mode \<noteq> x_mode s" "x_active s" by auto
  show ?thesis
  proof (cases "mode = CALI_BLE_OFF")
    case True
    let ?s = "s\<lparr>x_mode := CALI_BLE_OFF, x_reconnect_pending := False, x_redial := False\<rparr>"
    have "sess_inv ?s" if "x_link s = LINK_DOWN \<or> x_probe s"
      using that
    proof
      assume d: "x_link s = LINK_DOWN"
      show ?thesis using inv_down_facts [OF assms d] d na by (simp add: sess_inv_def)
    next
      assume p: "x_probe s"
      then have "x_link s \<noteq> LINK_DOWN" using assms by (simp add: sess_inv_def)
      then show ?thesis using p assms by (simp add: sess_inv_def)
    qed
    moreover have "sess_inv (link_clear (emit Ef_disconnect ?s))" if "\<not> x_probe s"
      using that na base_link_clear [of "emit Ef_disconnect ?s"] base_data_ok(3) [OF assms] by (simp add: sess_inv_def)
    ultimately show ?thesis using na True by (auto simp: set_mode_def Let_def)
  next
    case on: False
    let ?s = "if mode = CALI_BLE_HOLD then s\<lparr>x_mode := mode, x_hb_since := x_now s\<rparr> else s\<lparr>x_mode := mode\<rparr>"
    have f: "x_link ?s = x_link s" "x_reconnect_pending ?s = x_reconnect_pending s" "x_rest ?s = x_rest s" "x_active ?s"
      "x_mode ?s = mode" "x_probe ?s = x_probe s" "x_data ?s = x_data s" "flags_off ?s = flags_off s" "base_ok ?s = base_ok s"
      using na by (simp_all add: flags_off_def base_ok_def)
    have keep: "sess_inv ?s" if "\<not> (x_link s = LINK_DOWN \<and> \<not> x_reconnect_pending s \<and> \<not> x_rest s)"
    proof -
      have "x_link s \<noteq> LINK_DOWN \<or> x_reconnect_pending s \<or> x_rest s" using that by blast
      then have "sess_inv (s\<lparr>x_mode := mode\<rparr>)" using assms on na(2) by (cases "x_link s") (auto simp: sess_inv_def)
      then show ?thesis by (auto simp: hb_since_inv)
    qed
    have conn: "sess_inv (connect_now po (?s\<lparr>x_backoff := CALI_SESSION_BACKOFF_MIN_MS\<rparr>))"
      if "x_link s = LINK_DOWN" "\<not> x_reconnect_pending s" "\<not> x_rest s"
    proof (rule connect_inv)
      show "down (?s\<lparr>x_backoff := CALI_SESSION_BACKOFF_MIN_MS\<rparr>)"
        unfolding down_update using f that inv_down [OF assms that(1)] by (simp add: down_def flags_off_def base_ok_def split del: if_split)
    qed (use f that on in \<open>simp_all split del: if_split\<close>)
    have e: "set_mode po mode s = (if x_link ?s = LINK_DOWN \<and> \<not> x_reconnect_pending ?s \<and> \<not> x_rest ?s
        then connect_now po (?s\<lparr>x_backoff := CALI_SESSION_BACKOFF_MIN_MS\<rparr>) else ?s)"
      using na on by (simp add: set_mode_def Let_def)
    show ?thesis unfolding e f(1-3) by (rule inv_if) (use conn keep in blast)+
  qed
qed

lemma inv_rest_off:
  assumes "sess_inv s" and "x_active s \<Longrightarrow> x_link s = LINK_DOWN \<Longrightarrow> x_rest s \<Longrightarrow> x_mode s = CALI_BLE_OFF"
  shows "sess_inv (rest_set False why s)"
  using assms by (auto simp: sess_inv_def)

lemma on_bonded_inv: "sess_inv s \<Longrightarrow> sess_inv (cali_session_on_bonded po s)"
proof -
  assume "sess_inv s"
  then have i: "sess_inv (set_mode po CALI_BLE_HOLD s)" by (rule set_mode_inv)
  show ?thesis unfolding cali_session_on_bonded_def
  proof (rule link_up_inv)
    have "base_ok (rest_set False W_pairing (set_mode po CALI_BLE_HOLD s))" using i by (simp add: base_data_ok)
    then show "base_ok (rest_set False W_pairing (set_mode po CALI_BLE_HOLD s)\<lparr>x_active := True\<rparr>)" by (simp add: base_ok_def)
    have "x_mode (set_mode po CALI_BLE_HOLD s) = CALI_BLE_HOLD" 
      by (simp add: set_mode_def Let_def connect_now_def schedule_reconnect_def rest_again_def)
    then show "x_mode (rest_set False W_pairing (set_mode po CALI_BLE_HOLD s)\<lparr>x_active := True\<rparr>) = CALI_BLE_OFF \<or>
        x_rest (rest_set False W_pairing (set_mode po CALI_BLE_HOLD s)\<lparr>x_active := True\<rparr>) \<Longrightarrow>
      x_probe (rest_set False W_pairing (set_mode po CALI_BLE_HOLD s)\<lparr>x_active := True\<rparr>)" by simp
  qed simp
qed

lemma stop_down:
  assumes "sess_inv s"
  shows "down (cali_session_stop po s) \<and> \<not> x_probe (cali_session_stop po s) \<and> \<not> x_rest (cali_session_stop po s) \<and> \<not> x_active (cali_session_stop po s)"
proof -
  let ?s1 = "probe_over po W_stop ((rest_set False W_stop s)\<lparr>x_redial := False\<rparr>)"
  let ?s3 = "?s1\<lparr>x_active := False, x_reconnect_pending := False, x_backoff := CALI_SESSION_BACKOFF_MIN_MS\<rparr>"
  let ?s4 = "link_clear (if x_link ?s3 \<noteq> LINK_DOWN then emit Ef_disconnect ?s3 else ?s3)"
  have d: "data_ok (x_data s)" using assms by (rule base_data_ok)
  have b: "base_ok ?s3" using d by (simp add: base_ok_def session_consts)
  have "down ?s4" using b by (intro down_link_clear) simp_all
  moreover have "\<not> x_probe ?s4" "\<not> x_rest ?s4" "\<not> x_active ?s4" by simp_all
  ultimately show ?thesis using data_ok_unit_check [of "x_data ?s4" "po_identity po"]
    by (simp add: cali_session_stop_def Let_def down_def base_ok_def)
qed

lemma on_state_inv: "sess_inv s \<Longrightarrow> sess_inv (on_state po ps s)"
proof -
  assume i: "sess_inv s"
  let ?s = "cali_session_stop po s"
  note d = stop_down [OF i, of po]
  have "sess_inv ?s" using d by (simp add: sess_inv_def down_def flags_off_def)
  moreover have "sess_inv (connect_now po (?s\<lparr>x_active := True\<rparr>))" if "x_mode ?s \<noteq> CALI_BLE_OFF"
    by (rule connect_inv) (use d that in simp_all)
  moreover have "sess_inv (?s\<lparr>x_active := True\<rparr>)" if "x_mode ?s = CALI_BLE_OFF"
    using d that by (simp add: sess_inv_def down_def flags_off_def base_ok_def)
  ultimately show ?thesis using on_bonded_inv [OF i, of po] by (simp add: on_state_def cali_session_boot_def Let_def)
qed

lemma probe_inv: "sess_inv s \<Longrightarrow> sess_inv (snd (cali_session_probe po s))"
proof -
  assume i: "sess_inv s"
  have "sess_inv (connect_now po (s\<lparr>x_probe := True, x_reconnect_pending := False\<rparr>))" if "x_active s" "x_link s = LINK_DOWN"
    by (rule connect_inv) (use inv_down [OF i that(2)] that in \<open>simp_all add: down_def flags_off_def base_ok_def\<close>)
  moreover have "sess_inv (s\<lparr>x_probe := True\<rparr>)" if "x_link s \<noteq> LINK_DOWN"
    using i that by (auto simp: sess_inv_def base_ok_def flags_off_def)
  moreover have "sess_inv (s\<lparr>x_probe := True, x_warming := True, x_warm_until := t\<rparr>)" if "x_link s = LINK_UP" for t
    using i that by (auto simp: sess_inv_def base_ok_def)
  ultimately show ?thesis using i by (simp add: cali_session_probe_def Let_def)
qed

lemma inv_sum: "(\<And>a. x = Inl a \<Longrightarrow> sess_inv (f a)) \<Longrightarrow> (\<And>b. x = Inr b \<Longrightarrow> sess_inv (g b)) \<Longrightarrow> sess_inv (case x of Inl a \<Rightarrow> f a | Inr b \<Rightarrow> g b)"
  by (cases x) simp_all

lemma tick_heartbeat_inv:
  assumes "sess_inv s"
  shows "tick_heartbeat po now s = Inl a \<Longrightarrow> sess_inv a" and "tick_heartbeat po now s = Inr b \<Longrightarrow> sess_inv b"
  using assms by (auto simp: tick_heartbeat_def Let_def link_lost_inv' up_flags_inv split: if_split_asm)

lemma tick_reads_inv:
  assumes "sess_inv s"
  shows "sess_inv (tick_reads po now s)"
proof -
  have r: "sess_inv (u\<lparr>x_redial := False\<rparr>)" if "sess_inv u" for u
    using that by (simp add: sess_inv_def)
  show ?thesis unfolding tick_reads_def Let_def by (intro inv_if) (simp_all add: assms r start_reads_inv up_flags_inv)
qed

lemma tick_heater_inv: "sess_inv s \<Longrightarrow> sess_inv (tick_heater po now s)"
  unfolding tick_heater_def Let_def by (intro inv_if) (simp_all add: up_flags_inv)

lemma inv_not_resting: "sess_inv s \<Longrightarrow> x_reconnect_pending s \<Longrightarrow> x_active s \<and> \<not> x_rest s \<and> x_mode s \<noteq> CALI_BLE_OFF \<and> x_link s = LINK_DOWN \<and> \<not> x_probe s"
  by (auto simp: sess_inv_def)

lemma tick_connect_inv:
  assumes "sess_inv s"
  shows "sess_inv (tick_connect po now s)"
proof -
  let ?s = "s\<lparr>x_reconnect_pending := False\<rparr>"
  have off: "sess_inv (?s\<lparr>x_active := False, x_redial := False\<rparr>)" if "x_reconnect_pending s"
    using inv_not_resting [OF assms that] inv_down [OF assms] by (simp add: sess_inv_def down_def flags_off_def base_ok_def)
  have conn: "sess_inv (connect_now po ?s)" if "x_reconnect_pending s"
    by (rule connect_inv) (use inv_not_resting [OF assms that] inv_down [OF assms] in simp_all)
  show ?thesis unfolding tick_connect_def Let_def
    by (intro inv_if) (simp_all add: assms off conn link_lost_inv' probe_inv)
qed

lemma tick_inv:
  assumes "sess_inv s"
  shows "sess_inv (cali_session_tick po now s)"
proof -
  have i: "sess_inv (s\<lparr>x_now := now\<rparr>)" using assms by (simp add: sess_inv_def)
  show ?thesis unfolding cali_session_tick_def Let_def
    by (intro inv_if inv_sum) (simp_all add: i tick_heartbeat_inv [OF i] tick_connect_inv tick_heater_inv tick_reads_inv)
qed

lemma reconnect_at_inv: "sess_inv s \<Longrightarrow> \<not> x_was_up s \<or> x_down_at s + CALI_SESSION_UNIT_COOLDOWN_MS \<le> t \<Longrightarrow> sess_inv (s\<lparr>x_reconnect_at := t\<rparr>)"
  by (simp add: sess_inv_def)

lemma reconnect_soon_inv:
  assumes "sess_inv s"
  shows "sess_inv (reconnect_soon po why s)"
proof -
  let ?r = "rest_set False why s"
  have sch: "sess_inv (schedule_reconnect po (?r\<lparr>x_backoff := CALI_SESSION_BACKOFF_MIN_MS\<rparr>))"
    if "x_link s = LINK_DOWN" "\<not> x_reconnect_pending s" "\<not> x_probe s"
    by (rule schedule_inv) (use that inv_down [OF assms that(1)] in \<open>simp_all add: down_def flags_off_def base_ok_def session_consts\<close>)
  have off: "sess_inv ?r" if "\<not> (x_active s \<and> x_link s = LINK_DOWN \<and> \<not> x_reconnect_pending s \<and> \<not> x_probe s)"
    using assms that by (auto simp: sess_inv_def)
  let ?s1 = "if x_rest s then if x_active ?r \<and> x_link ?r = LINK_DOWN \<and> \<not> x_reconnect_pending ?r \<and> \<not> x_probe ?r
      then schedule_reconnect po (?r\<lparr>x_backoff := CALI_SESSION_BACKOFF_MIN_MS\<rparr>) else ?r else s"
  have 1: "sess_inv ?s1" by (intro inv_if) (use assms sch off in simp_all)
  have e: "reconnect_soon po why s = (if x_active ?s1 \<and> x_link ?s1 = LINK_DOWN \<and> x_reconnect_pending ?s1
      then ?s1\<lparr>x_reconnect_at := (if x_was_up ?s1 \<and> x_now ?s1 < x_down_at ?s1 + CALI_SESSION_UNIT_COOLDOWN_MS
                                 then x_down_at ?s1 + CALI_SESSION_UNIT_COOLDOWN_MS else x_now ?s1)\<rparr> else ?s1)"
    unfolding reconnect_soon_def Let_def ..
  have t: "\<not> w \<or> d + c \<le> (if w \<and> n < d + c then d + c else n)" for w and d c n :: u64 by auto
  show ?thesis unfolding e using reconnect_at_inv [OF 1 t] 1 by (rule inv_if)
qed

lemma stamps_inv: "sess_inv s \<Longrightarrow> sess_inv (s\<lparr>x_input_at := t\<rparr>)" "sess_inv s \<Longrightarrow> sess_inv (s\<lparr>x_viewer_at := t\<rparr>)"
  "sess_inv s \<Longrightarrow> sess_inv (s\<lparr>x_heater_next := t\<rparr>)" "sess_inv s \<Longrightarrow> sess_inv (s\<lparr>x_hold := b\<rparr>)" "sess_inv s \<Longrightarrow> sess_inv (s\<lparr>x_redial := b\<rparr>)"
  "sess_inv s \<Longrightarrow> sess_inv (s\<lparr>x_heater_ms := m\<rparr>)" "sess_inv s \<Longrightarrow> sess_inv (s\<lparr>x_warm_ms := m\<rparr>)" "sess_inv s \<Longrightarrow> sess_inv (s\<lparr>x_rest_poll_ms := m\<rparr>)"
  "sess_inv s \<Longrightarrow> sess_inv (s\<lparr>x_rest_next := t\<rparr>)" "sess_inv s \<Longrightarrow> sess_inv (s\<lparr>x_out := e\<rparr>)"
  by (simp_all add: sess_inv_def)

lemma wake_inv: "sess_inv s \<Longrightarrow> sess_inv (wake_session po why s)"
  unfolding wake_session_def Let_def by (intro reconnect_soon_inv inv_if set_mode_inv stamps_inv)

lemma hold_inv: "sess_inv s \<Longrightarrow> sess_inv (cali_session_hold po on s)"
  unfolding cali_session_hold_def Let_def by (intro inv_if reconnect_soon_inv set_mode_inv stamps_inv)

lemma viewer_inv: "sess_inv s \<Longrightarrow> sess_inv (cali_session_viewer po now s)"
  unfolding cali_session_viewer_def Let_def by (intro inv_if reconnect_soon_inv stamps_inv)

lemma sess_apply_inv: "sess_inv s \<Longrightarrow> sess_inv (sess_apply po op s)"
  by (cases op) (simp_all add: tick_inv on_event_inv on_state_inv cali_session_set_mode_def set_mode_inv probe_inv cali_session_connect_def
    wake_inv cali_session_connect_now_def hold_inv viewer_inv cali_session_input_def stamps_inv cali_session_set_rest_poll_def Let_def
    cali_session_set_warm_ms_def cali_session_set_heater_ms_def split: option.split)

lemma sess_start_inv: "sess_inv (sess_start kv po)"
proof -
  let ?s = "cali_session_init kv session_reset"
  have d: "down ?s" using data_ok_init
    by (simp add: cali_session_init_def session_reset_def link_clear_def down_def flags_off_def base_ok_def session_consts)
  have f: "x_mode ?s = CALI_BLE_HOLD" "\<not> x_rest ?s" "\<not> x_probe ?s" "\<not> x_active ?s"
    by (simp_all add: cali_session_init_def session_reset_def link_clear_def)
  have "sess_inv ?s" using d f by (simp add: sess_inv_def down_def flags_off_def)
  moreover have "sess_inv (connect_now po (?s\<lparr>x_active := True\<rparr>))" by (rule connect_inv) (use d f in simp_all)
  ultimately show ?thesis using f by (simp add: sess_start_def cali_session_boot_def stamps_inv)
qed

interpretation sess: machine sess_step "sess_start kv po" sess_inv for kv po
proof unfold_locales
  show "sess_inv (sess_start kv po)" by (rule sess_start_inv)
  show "sess_inv (fst (sess_step s e))" if "sess_inv s" for s e
    unfolding sess_step_def Let_def using that by (simp add: stamps_inv sess_apply_inv)
qed

end
