(* ===== verification/Unit_Link.thy ===== *)
theory Unit_Link
  imports Session_Inv
begin

text \<open>
  The session and the command sequencer put together as the firmware wires them: the session's tick runs the sequencer
  first (\<open>cali_session_tick\<close>), a completed write goes through the session to the sequencer (\<open>on_event\<close>), a command that finds
  the link not ready wakes the session (\<open>cali_session_connect_now\<close>), and the sequencer sees the link, the frames and the
  lighting latch of the session, which asks it back whether a command is in flight.
\<close>

record unit_link =
  u_sess :: session
  u_ctl :: ctl_run

datatype unit_in = U_tick sess_port ctl_wr u64 | U_event sess_port cali_tevent | U_submit sess_port ctl_cmd | U_op sess_port sess_op

datatype unit_eff = U_se se_eff | U_ctl ctl_eff

text \<open>The session's question to the sequencer is answered by the sequencer's state.\<close>

definition busy_port :: "sess_port \<Rightarrow> ctl_run \<Rightarrow> sess_port" where
  "busy_port po c = po\<lparr>po_busy := cali_ctl_busy c\<rparr>"

text \<open>The completed writes the session passes on.\<close>

fun written :: "se_eff list \<Rightarrow> int list" where
  "written [] = []"
| "written (Ef_written status # es) = status # written es"
| "written (_ # es) = written es"

primrec pass_written :: "int list \<Rightarrow> ctl_run \<Rightarrow> ctl_run \<times> ctl_eff list" where
  "pass_written [] c = (c, [])"
| "pass_written (w # ws) c = (let (c1, e1) = cali_ctl_on_written w c; (c2, e2) = pass_written ws c1 in (c2, e1 @ e2))"

text \<open>The operations that reach the session only together with the sequencer.\<close>

fun wired :: "sess_op \<Rightarrow> bool" where
  "wired (Se_tick now) = True"
| "wired (Se_event e) = True"
| "wired Se_connect_now = True"
| "wired _ = False"

fun unit_step :: "unit_link \<Rightarrow> unit_in \<Rightarrow> unit_link \<times> unit_eff list" where
  "unit_step u (U_tick po wr now) =
     (let (c, ce) = cali_ctl_tick (sess_view ((u_sess u)\<lparr>x_now := now\<rparr>)) wr now (u_ctl u);
          (s, se) = sess_step (u_sess u) (busy_port po c, Se_tick now)
      in (\<lparr>u_sess = s, u_ctl = c\<rparr>, map U_ctl ce @ map U_se se))"
| "unit_step u (U_event po e) =
     (let (s, se) = sess_step (u_sess u) (busy_port po (u_ctl u), Se_event e);
          (c, ce) = pass_written (written se) (u_ctl u)
      in (\<lparr>u_sess = s, u_ctl = c\<rparr>, map U_se se @ map U_ctl ce))"
| "unit_step u (U_submit po cmd) =
     (let (c, ce) = cali_ctl_submit (sess_view (u_sess u)) cmd (u_ctl u);
          (s, se) = (if E_connect_now \<in> set ce then sess_step (u_sess u) (busy_port po c, Se_connect_now) else (u_sess u, []))
      in (\<lparr>u_sess = s, u_ctl = c\<rparr>, map U_ctl ce @ map U_se se))"
| "unit_step u (U_op po op) =
     (if wired op then (u, [])
      else let (s, se) = sess_step (u_sess u) (busy_port po (u_ctl u), op) in (u\<lparr>u_sess := s\<rparr>, map U_se se))"

definition unit_start :: "(string \<Rightarrow> u8 list option) \<Rightarrow> sess_port \<Rightarrow> unit_link" where
  "unit_start kv po = \<lparr>u_sess = sess_start kv po, u_ctl = cali_ctl_run_init 0\<rparr>"

definition unit_inv :: "unit_link \<Rightarrow> bool" where
  "unit_inv u \<longleftrightarrow> sess_inv (u_sess u) \<and> ctl_inv (u_ctl u)"

lemma pass_written_inv: "ctl_inv c \<Longrightarrow> ctl_inv (fst (pass_written ws c))"
  by (induction ws arbitrary: c) (simp_all add: split_beta Let_def inv_written)

interpretation ulink: machine unit_step "unit_start kv po" unit_inv for kv po
proof unfold_locales
  show "unit_inv (unit_start kv po)" by (simp add: unit_inv_def unit_start_def sess_start_inv sequencer.inv_init)
  show "unit_inv (fst (unit_step u e))" if "unit_inv u" for u e
    using that sess.inv_step by (cases e) (auto simp: unit_inv_def split_beta Let_def inv_tick inv_submit pass_written_inv)
qed

section \<open>Where control frames come from\<close>

lemma finish_writes_nothing: "E_write c d \<notin> set (snd (ctl_finish rc reason s))"
  by (simp add: ctl_finish_def cmd_evt_def)

lemma written_writes_nothing: "E_write c d \<notin> set (snd (cali_ctl_on_written w s))"
  by (auto simp: cali_ctl_on_written_def Let_def split_beta finish_writes_nothing)

lemma pass_written_writes_nothing: "E_write c d \<notin> set (snd (pass_written ws s))"
  by (induction ws arbitrary: s) (simp_all add: split_beta Let_def written_writes_nothing)

lemma send_writes:
  assumes "E_write c d \<in> set (snd (ctl_send wr s))" and "ctl_inv s" and "r_active s" and "r_pull s \<noteq> 2"
  shows "cali_ctl_write_ok c (length d)"
proof -
  let ?f = "pl_f (r_plan s) ! r_i s"
  have i: "r_i s < length (pl_f (r_plan s))" "plan_ok (r_plan s)" using assms(2-4) by (simp_all add: ctl_inv_def)
  have "c = fr_chr ?f \<and> d = fr_data ?f"
    using assms(1) by (auto simp: ctl_send_def Let_def split_beta finish_writes_nothing written_writes_nothing split: if_split_asm ctl_wr.split_asm)
  moreover have "frame_ok ?f" using i by (intro plan_nth_ok)
  ultimately show ?thesis using fr_len_ok by metis
qed

lemma tick_writes:
  assumes "E_write c d \<in> set (snd (cali_ctl_tick se wr now s))" and "ctl_inv s"
  shows "se_link_up se \<and> cali_ctl_write_ok c (length d)"
proof -
  let ?n = "s\<lparr>r_now := now\<rparr>"
  let ?plan = "cali_ctl_plan_ctx (r_fn s) (r_what s) (r_value s) (r_local_now s + uint ((now - r_submitted_at s) div 1000)) (get_field se)"
  let ?p = "s\<lparr>r_now := now, r_pull := 0, r_plan := ?plan, r_i := 0, r_next_at := now\<rparr>"
  have up: "se_link_up se" using assms(1) by (auto simp: cali_ctl_tick_def Let_def split_beta finish_writes_nothing split: if_split_asm)
  have a: "r_active s" using assms(1) up by (auto simp: cali_ctl_tick_def Let_def split_beta finish_writes_nothing split: if_split_asm)
  have n: "ctl_inv ?n" using assms(2) by (simp add: ctl_inv_def)
  show ?thesis
  proof (cases "r_pull s = 2")
    case True
    then have w: "E_write c d \<in> set (snd (ctl_send wr ?p))" "pl_rc ?plan = CALI_CTL_OK"
      using assms(1) up a by (auto simp: cali_ctl_tick_def Let_def split_beta finish_writes_nothing split: if_split_asm)
    have "ctl_inv ?p" using a w(2) assms(2) plan_ctx_ok [of "r_fn s" "r_what s" "r_value s" _ "get_field se"] by (simp add: ctl_inv_def)
    then show ?thesis using send_writes [OF w(1)] up a by simp
  next
    case False
    then have "E_write c d \<in> set (snd (ctl_send wr ?n))"
      using assms(1) up a by (auto simp: cali_ctl_tick_def Let_def split_beta finish_writes_nothing split: if_split_asm)
    then show ?thesis using send_writes [OF _ n] up a False by simp
  qed
qed

lemma submit_writes_nothing: "E_write c d \<notin> set (snd (cali_ctl_submit se cmd s))"
  by (simp add: cali_ctl_submit_def submit_def cmd_evt_def Let_def)

lemma submit_accepts: "E_accepted cb pulling fs \<in> set (snd (cali_ctl_submit se cmd s)) \<Longrightarrow> se_ready se \<and> have_frame se (c_fn cmd)"
  by (auto simp: cali_ctl_submit_def submit_def cmd_evt_def Let_def split: if_split_asm)

lemma others_accept_nothing: "E_accepted cb pulling fs \<notin> set (snd (cali_ctl_on_written w s))" "E_accepted cb pulling fs \<notin> set (snd (pass_written ws s))"
  "E_accepted cb pulling fs \<notin> set (snd (cali_ctl_tick se wr now s))"
proof -
  have f: "E_accepted cb pulling fs \<notin> set (snd (ctl_finish rc reason s))" for rc reason s by (simp add: ctl_finish_def cmd_evt_def)
  have w: "E_accepted cb pulling fs \<notin> set (snd (cali_ctl_on_written w s))" for w s
    by (auto simp: cali_ctl_on_written_def Let_def split_beta f)
  show "E_accepted cb pulling fs \<notin> set (snd (cali_ctl_on_written w s))" by (rule w)
  show "E_accepted cb pulling fs \<notin> set (snd (pass_written ws s))"
    by (induction ws arbitrary: s) (simp_all add: split_beta Let_def w)
  have "E_accepted cb pulling fs \<notin> set (snd (ctl_send wr s))" for s
    by (auto simp: ctl_send_def Let_def split_beta f w split: ctl_wr.split)
  then show "E_accepted cb pulling fs \<notin> set (snd (cali_ctl_tick se wr now s))"
    by (auto simp: cali_ctl_tick_def Let_def split_beta f)
qed

section \<open>Properties\<close>

text \<open>
  C4. In every run of the session with its sequencer: a control frame is handed to the transport only in a
  tick and only while the session's encrypted link is up, and it is on the write allow-list; a command is accepted only while
  the session is ready (its link held and its read pass done) and has read a frame of the commanded function on this very link.
\<close>

theorem unit_writes_gated:
  assumes "u = fst (run unit_step (unit_start kv po) es)"
  shows "(U_ctl (E_write c d) \<in> set (snd (unit_step u e)) \<longrightarrow>
       x_link (u_sess u) = LINK_UP \<and> cali_ctl_write_ok c (length d) \<and> (\<exists>p wr now. e = U_tick p wr now)) \<and>
    (U_ctl (E_accepted cb pulling fs) \<in> set (snd (unit_step u e)) \<longrightarrow>
       cali_session_ready (u_sess u) \<and>
       (\<exists>p cmd i. e = U_submit p cmd \<and> index_of (c_fn cmd) = Some i \<and> cali_session_frame_live (x_data (u_sess u)) i \<noteq> None))"
proof -
  have i: "ctl_inv (u_ctl u)" using ulink.inv_run [of kv po es] assms by (simp add: unit_inv_def)
  have w: "U_ctl (E_write c d) \<in> set (snd (unit_step u e)) \<Longrightarrow>
      x_link (u_sess u) = LINK_UP \<and> cali_ctl_write_ok c (length d) \<and> (\<exists>p wr now. e = U_tick p wr now)"
  proof (cases e)
    case (U_tick p wr now)
    assume "U_ctl (E_write c d) \<in> set (snd (unit_step u e))"
    then have "E_write c d \<in> set (snd (cali_ctl_tick (sess_view ((u_sess u)\<lparr>x_now := now\<rparr>)) wr now (u_ctl u)))"
      by (auto simp: U_tick split_beta Let_def)
    from tick_writes [OF this i] show ?thesis using U_tick by (simp add: sess_view_def cali_session_link_up_def)
  qed (auto simp: split_beta Let_def submit_writes_nothing pass_written_writes_nothing split: if_split_asm)
  have a: "U_ctl (E_accepted cb pulling fs) \<in> set (snd (unit_step u e)) \<Longrightarrow> cali_session_ready (u_sess u) \<and>
      (\<exists>p cmd i. e = U_submit p cmd \<and> index_of (c_fn cmd) = Some i \<and> cali_session_frame_live (x_data (u_sess u)) i \<noteq> None)"
  proof (cases e)
    case (U_submit p cmd)
    assume "U_ctl (E_accepted cb pulling fs) \<in> set (snd (unit_step u e))"
    then have "E_accepted cb pulling fs \<in> set (snd (cali_ctl_submit (sess_view (u_sess u)) cmd (u_ctl u)))"
      by (auto simp: U_submit split_beta Let_def split: if_split_asm)
    from submit_accepts [OF this] show ?thesis using U_submit by (auto simp: sess_view_def have_frame_def split: option.split_asm)
  qed (auto simp: split_beta Let_def others_accept_nothing split: if_split_asm)
  show ?thesis using w a by blast
qed

definition link_port :: sess_port where
  "link_port = \<lparr>po_connect = 0, po_discover = 0, po_read = (\<lambda>_. 1), po_heartbeat = 0, po_bond = True, po_identity = None, po_busy = False, po_owed = False\<rparr>"

definition tev :: "cali_tev \<Rightarrow> u16 \<Rightarrow> u8 list \<Rightarrow> unit_in" where
  "tev k c raw = U_event link_port \<lparr>te_ev = k, te_status = 0, te_char_short = c, te_data = raw\<rparr>"

theorem unit_writes_gated_witness:
  "cali_session_ready (u_sess (fst (run unit_step (unit_start (\<lambda>_. None) link_port)
     [tev CALI_TEV_CONNECTED 0 [], tev CALI_TEV_ENC_OK 0 [], tev CALI_TEV_DISCOVERED 0 [], tev CALI_TEV_NOTIFY 0x1202 [0x55],
      U_tick link_port Wr_started 100, U_tick link_port Wr_started 3000])))"
proof -
  let ?es = "[tev CALI_TEV_CONNECTED 0 [], tev CALI_TEV_ENC_OK 0 [], tev CALI_TEV_DISCOVERED 0 [], tev CALI_TEV_NOTIFY 0x1202 [0x55],
      U_tick link_port Wr_started 100, U_tick link_port Wr_started 3000]"
  let ?u = "fst (run unit_step (unit_start (\<lambda>_. None) link_port) ?es)"
  let ?fs = "pl_f (cali_ctl_plan_ctx ''campingmode'' ''master'' ''on'' (-1) (get_field (sess_view (u_sess ?u))))"
  have "U_ctl (E_accepted (Some 7) False ?fs) \<in> set (snd (unit_step ?u (U_submit link_port demo_cmd)))" by code_simp
  with unit_writes_gated [of ?u "\<lambda>_. None" link_port ?es 0 "[]" "U_submit link_port demo_cmd" "Some 7" False ?fs] show ?thesis by blast
qed

end
