(* ===== verification/Clock.thy ===== *)
theory Clock
  imports Codec
begin

text \<open>
  The clock of the log stamps, \<open>time.c\<close>: the boot counter, the calendar of the unit's clock and its conversion by the
  Central European rule, the local hour of an instant, and the choice of the time source. Calendar integers stay far
  below the widths of the C types and are \<open>int\<close>; the boot counter is a 32-bit word and wraps. The SNTP callback and
  the platform clocks are inputs.
\<close>

section \<open>Data\<close>

definition CALI_TIME_BOOT_KEY :: string where "CALI_TIME_BOOT_KEY = ''boot_count''"

datatype cali_tsrc = CALI_TSRC_NONE | CALI_TSRC_NTP | CALI_TSRC_UNIT

record clock =
  ck_boot :: u32
  ck_epoch :: bool
  ck_synced :: bool
  ck_unit :: bool
  ck_unit_utc_ms :: int
  ck_unit_up :: u64

definition clock_reset :: clock where
  "clock_reset = \<lparr>ck_boot = 0, ck_epoch = False, ck_synced = False, ck_unit = False, ck_unit_utc_ms = 0, ck_unit_up = 0\<rparr>"

text \<open>Division and remainder of C: towards zero.\<close>

definition c_div :: "int \<Rightarrow> int \<Rightarrow> int" where
  "c_div a b = (if a \<ge> 0 then a div b else - ((- a) div b))"

definition c_mod :: "int \<Rightarrow> int \<Rightarrow> int" where
  "c_mod a b = a - c_div a b * b"

section \<open>The boot counter\<close>

definition le32 :: "u32 \<Rightarrow> u8 list" where
  "le32 v = map (\<lambda>i. ucast (drop_bit (8 * i) v)) [0..<4]"

definition of_le32 :: "u8 list \<Rightarrow> u32" where
  "of_le32 b = ucast (b ! 0) OR push_bit 8 (ucast (b ! 1)) OR push_bit 16 (ucast (b ! 2)) OR push_bit 24 (ucast (b ! 3))"

definition cali_time_init :: "u8 list option \<Rightarrow> clock \<Rightarrow> clock \<times> u8 list" where
  "cali_time_init stored c =
     (let prev = (case stored of Some b \<Rightarrow> if length b = 4 then of_le32 b else 0 | None \<Rightarrow> 0); boot = prev + 1
      in (c\<lparr>ck_boot := boot\<rparr>, le32 boot))"

definition cali_time_source :: "clock \<Rightarrow> clock" where
  "cali_time_source c = c\<lparr>ck_epoch := True\<rparr>"

definition cali_time_synced :: "clock \<Rightarrow> clock" where
  "cali_time_synced c = c\<lparr>ck_synced := True\<rparr>"

definition synced :: "clock \<Rightarrow> bool" where
  "synced c \<longleftrightarrow> ck_epoch c \<and> ck_synced c"

section \<open>The calendar\<close>

definition days_from_civil :: "int \<Rightarrow> int \<Rightarrow> int \<Rightarrow> int" where
  "days_from_civil y0 m d =
     (let y = y0 - (if m \<le> 2 then 1 else 0);
          era = c_div (if y \<ge> 0 then y else y - 399) 400;
          yoe = y - era * 400;
          doy = c_div (153 * (m + (if m > 2 then -3 else 9)) + 2) 5 + d - 1
      in era * 146097 + yoe * 365 + c_div yoe 4 - c_div yoe 100 + doy - 719468)"

definition month_days :: "int \<Rightarrow> int \<Rightarrow> int" where
  "month_days y m =
     (if m = 2 \<and> (c_mod y 4 = 0 \<and> c_mod y 100 \<noteq> 0 \<or> c_mod y 400 = 0) then 29
      else [31, 28, 31, 30, 31, 30, 31, 31, 30, 31, 30, 31] ! nat (m - 1))"

definition last_sunday :: "int \<Rightarrow> int \<Rightarrow> int" where
  "last_sunday y m =
     (let last = month_days y m; dow = c_mod (c_mod (days_from_civil y m last) 7 + 11) 7 in last - dow)"

definition unit_cest :: "int \<Rightarrow> int \<Rightarrow> int \<Rightarrow> int \<Rightarrow> bool option" where
  "unit_cest year month day hour =
     (if month = 3 \<and> day = last_sunday year 3 then Some (hour \<ge> 3)
      else if month = 10 \<and> day = last_sunday year 10 then if hour = 2 then None else Some (hour < 2)
      else Some (month > 3 \<and> month < 10 \<or> month = 3 \<and> day > last_sunday year 3 \<or> month = 10 \<and> day < last_sunday year 10))"

definition cali_time_unit_utc :: "int \<Rightarrow> int \<Rightarrow> int \<Rightarrow> int \<Rightarrow> int \<Rightarrow> int \<Rightarrow> int option" where
  "cali_time_unit_utc year month day hour minute sec =
     (if month < 1 \<or> month > 12 \<or> day < 1 \<or> day > month_days year month \<or> hour < 0 \<or> hour > 23 \<or> minute < 0 \<or> minute > 59 \<or> sec < 0 \<or> sec > 59
      then None
      else case unit_cest year month day hour of None \<Rightarrow> None
           | Some cest \<Rightarrow>
               let local = days_from_civil year month day * 86400 + hour * 3600 + minute * 60 + sec
               in Some ((local - (if cest then 7200 else 3600)) * 1000))"

section \<open>The anchor and the stamp\<close>

definition CLOCK_NAMES :: "string list" where
  "CLOCK_NAMES = [''CarTimeYear'', ''CarTimeMonth'', ''CarTimeDay'', ''CarTimeHour'', ''CarTimeMinute'', ''CarTimeSecond'']"

text \<open>The value of a field, the last one with its name.\<close>

definition last_value :: "codec_kv list \<Rightarrow> string \<Rightarrow> int option" where
  "last_value kvs name = map_option (\<lambda>k. sint (kv_value k)) (find (\<lambda>k. kv_name k = name) (rev kvs))"

definition cali_time_on_vehicle :: "u8 list \<Rightarrow> u64 \<Rightarrow> clock \<Rightarrow> clock" where
  "cali_time_on_vehicle frame uptime c =
     (let kvs = (case codec_func_by_name ''vehicle'' of Some f \<Rightarrow> codec_decode f frame | None \<Rightarrow> []);
          v = map (last_value kvs) CLOCK_NAMES
      in if None \<in> set v then c
         else case cali_time_unit_utc (the (v ! 0) + 1900) (the (v ! 1) + 1) (the (v ! 2)) (the (v ! 3)) (the (v ! 4)) (the (v ! 5)) of
                None \<Rightarrow> c
              | Some utc \<Rightarrow> c\<lparr>ck_unit := True, ck_unit_utc_ms := utc, ck_unit_up := uptime\<rparr>)"

definition cali_time_ts :: "int \<Rightarrow> u64 \<Rightarrow> clock \<Rightarrow> cali_tsrc \<times> int option" where
  "cali_time_ts epoch_ms uptime c =
     (if synced c then (CALI_TSRC_NTP, Some epoch_ms)
      else if ck_unit c then (CALI_TSRC_UNIT, Some (ck_unit_utc_ms c + sint (uptime - ck_unit_up c)))
      else (CALI_TSRC_NONE, None))"

section \<open>Calendar lemmas\<close>

lemma c_div_pos: "0 \<le> a \<Longrightarrow> c_div a b = a div b"
  by (simp add: c_div_def)

lemma era_floor: "c_div (if y \<ge> 0 then y else y - 399) 400 = y div 400"
proof (cases "y \<ge> 0")
  case False
  let ?q = "y div 400" and ?r = "y mod 400"
  have r: "y = 400 * ?q + ?r" "0 \<le> ?r" "?r < 400" by simp_all
  have "(399 - y) div 400 = - ?q" by (rule int_div_pos_eq [of _ _ _ "399 - ?r"]) (use r in linarith)+
  then show ?thesis using False by (simp add: c_div_def)
qed (simp add: c_div_def)

lemma c_mod_cases: "c_mod a b = (if a \<ge> 0 then a mod b else - ((- a) mod b))"
proof (cases "a \<ge> 0")
  case True
  then show ?thesis by (simp add: c_mod_def c_div_def minus_div_mult_eq_mod)
next
  case False
  have "(- a) - (- a) div b * b = (- a) mod b" by (rule minus_div_mult_eq_mod)
  then have "c_mod a b = - ((- a) mod b)" using False unfolding c_mod_def c_div_def by (simp only: if_False)
  then show ?thesis using False by simp
qed

lemma c_mod_zero: "0 < b \<Longrightarrow> c_mod a b = 0 \<longleftrightarrow> b dvd a"
  by (simp add: c_mod_cases mod_eq_0_iff_dvd)

lemma c_mod_bounds: "0 < b \<Longrightarrow> - b < c_mod a b" "0 < b \<Longrightarrow> c_mod a b < b" "0 < b \<Longrightarrow> 0 \<le> a \<Longrightarrow> 0 \<le> c_mod a b"
proof -
  assume b: "0 < b"
  have m: "0 \<le> a mod b" "a mod b < b" "0 \<le> (- a) mod b" "(- a) mod b < b" using b by simp_all
  have "c_mod a b = a mod b \<or> c_mod a b = - ((- a) mod b)" by (simp add: c_mod_cases)
  then show "- b < c_mod a b" "c_mod a b < b" using m b by (elim disjE; linarith)+
  show "0 \<le> a \<Longrightarrow> 0 \<le> c_mod a b" using m by (simp add: c_mod_cases)
qed

lemma c_mod_diff: "\<exists>k. c_mod a b = a - k * b"
  by (auto simp: c_mod_def)

lemma div_step: "0 < k \<Longrightarrow> (y + 1) div k = y div k + (if k dvd y + 1 then 1 else (0 :: int))"
proof -
  assume k: "0 < k"
  define q r where "q = y div k" and "r = y mod k"
  then have r: "y = k * q + r" "0 \<le> r" "r < k" using k by simp_all
  have "(y + 1) div k = q + (if k dvd y + 1 then 1 else 0)"
  proof (cases "r + 1 = k")
    case True
    then have e: "y + 1 = k * (q + 1)" using r(1) by (simp add: algebra_simps)
    then show ?thesis using k by simp
  next
    case False
    have e: "y + 1 = k * q + (r + 1)" using r(1) by linarith
    have l: "0 \<le> r + 1" "r + 1 < k" using r False by linarith+
    have "(y + 1) div k = q" by (rule int_div_pos_eq [OF e l])
    moreover have "(y + 1) mod k = r + 1" by (rule int_mod_pos_eq [OF e l])
    then have "\<not> k dvd y + 1" using r(2) by (simp add: dvd_eq_mod_eq_0)
    ultimately show ?thesis by simp
  qed
  then show ?thesis by (simp add: q_def)
qed

text \<open>Leap years.\<close>

definition leap :: "int \<Rightarrow> bool" where
  "leap y \<longleftrightarrow> 4 dvd y \<and> \<not> 100 dvd y \<or> 400 dvd y"

lemma month_days_leap: "month_days y m = (if m = 2 \<and> leap y then 29 else [31, 28, 31, 30, 31, 30, 31, 31, 30, 31, 30, 31] ! nat (m - 1))"
  by (simp add: month_days_def c_mod_zero leap_def)

text \<open>The days before the March year \<open>y\<close>, and the days in it before month \<open>m\<close>.\<close>

definition year_start :: "int \<Rightarrow> int" where
  "year_start y = 365 * y + y div 4 - y div 100 + y div 400 - 719468"

lemma year_arith:
  "Y = 400 * q + r \<Longrightarrow> y4 = 100 * q + r4 \<Longrightarrow> y100 = 4 * q + r100 \<Longrightarrow>
    q * 146097 + r * 365 + r4 - r100 + (w + d - 1) - 719468 = 365 * Y + y4 - y100 + q - 719468 + w + d - (1 :: int)"
  by simp

lemma days_formula:
  assumes "1 \<le> m" and "m \<le> 12"
  shows "days_from_civil y m d = year_start (y - (if m \<le> 2 then 1 else 0)) + (153 * (m + (if m > 2 then -3 else 9)) + 2) div 5 + d - 1"
proof -
  let ?y = "y - (if m \<le> 2 then 1 else 0)"
  have o: "?y - ?y div 400 * 400 = ?y mod 400" by (simp add: minus_div_mult_eq_mod)
  have "?y = 400 * (?y div 400) + ?y mod 400" by simp
  have p: "0 \<le> ?y mod 400" by simp
  have s: "y' div j = k * (y' div (j * k)) + (y' mod (j * k)) div j" if "0 < j" for y' j k :: int
  proof -
    have "y' = y' mod (j * k) + j * (k * (y' div (j * k)))" by (simp add: mult.assoc [symmetric])
    then have "y' div j = (y' mod (j * k) + j * (k * (y' div (j * k)))) div j" by simp
    then show ?thesis using that by simp
  qed
  have a: "?y div 4 = 100 * (?y div 400) + (?y mod 400) div 4" using s [of 4 ?y 100] by simp
  have b: "?y div 100 = 4 * (?y div 400) + (?y mod 400) div 100" using s [of 100 ?y 4] by simp
  have c: "?y = 400 * (?y div 400) + ?y mod 400" by simp
  have mp: "0 \<le> 153 * (m + (if m > 2 then -3 else 9)) + 2" using assms by simp
  have "days_from_civil y m d = ?y div 400 * 146097 + ?y mod 400 * 365 + (?y mod 400) div 4 - (?y mod 400) div 100 +
      ((153 * (m + (if m > 2 then -3 else 9)) + 2) div 5 + d - 1) - 719468"
    unfolding days_from_civil_def Let_def era_floor o c_div_pos [OF p] c_div_pos [OF mp] by simp
  also have "\<dots> = year_start ?y + (153 * (m + (if m > 2 then -3 else 9)) + 2) div 5 + d - 1"
    unfolding year_start_def by (rule year_arith [OF c a b])
  finally show ?thesis .
qed

lemma year_start_Suc: "year_start (y + 1) = year_start y + (if leap (y + 1) then 366 else 365)"
proof -
  note d = div_step [of 4 y] div_step [of 100 y] div_step [of 400 y]
  have "100 dvd y + 1 \<Longrightarrow> 4 dvd y + 1" "400 dvd y + 1 \<Longrightarrow> 100 dvd y + 1"
    using dvd_trans [of 4 100 "y + 1"] dvd_trans [of 100 400 "y + 1"] by simp_all
  then show ?thesis 
    unfolding year_start_def leap_def d [simplified] by (auto simp: algebra_simps)
qed

lemma month_cases: "1 \<le> m \<Longrightarrow> m \<le> 12 \<Longrightarrow> m = 1 \<or> m = 2 \<or> m = 3 \<or> m = 4 \<or> m = 5 \<or> m = 6 \<or> m = 7 \<or> m = 8 \<or> m = 9 \<or> m = 10 \<or> m = 11 \<or> m = (12 :: int)"
  by presburger

lemma month_days_values:
  "month_days y 1 = 31" "month_days y 2 = (if leap y then 29 else 28)" "month_days y 3 = 31" "month_days y 4 = 30" "month_days y 5 = 31"
  "month_days y 6 = 30" "month_days y 7 = 31" "month_days y 8 = 31" "month_days y 9 = 30" "month_days y 10 = 31" "month_days y 11 = 30" "month_days y 12 = 31"
  by (simp_all add: month_days_leap)

lemma days_values:
  "days_from_civil y 1 d = year_start (y - 1) + 306 + d - 1" "days_from_civil y 2 d = year_start (y - 1) + 337 + d - 1"
  "days_from_civil y 3 d = year_start y + d - 1" "days_from_civil y 4 d = year_start y + 31 + d - 1" "days_from_civil y 5 d = year_start y + 61 + d - 1"
  "days_from_civil y 6 d = year_start y + 92 + d - 1" "days_from_civil y 7 d = year_start y + 122 + d - 1" "days_from_civil y 8 d = year_start y + 153 + d - 1"
  "days_from_civil y 9 d = year_start y + 184 + d - 1" "days_from_civil y 10 d = year_start y + 214 + d - 1" "days_from_civil y 11 d = year_start y + 245 + d - 1"
  "days_from_civil y 12 d = year_start y + 275 + d - 1"
  by (simp_all add: days_formula)

lemma year_start_pred: "year_start y = year_start (y - 1) + (if leap y then 366 else 365)"
  using year_start_Suc [of "y - 1"] by simp

text \<open>The day after a date.\<close>

definition valid_date :: "int \<Rightarrow> int \<Rightarrow> int \<Rightarrow> bool" where
  "valid_date y m d \<longleftrightarrow> 1 \<le> m \<and> m \<le> 12 \<and> 1 \<le> d \<and> d \<le> month_days y m"

definition next_date :: "int \<Rightarrow> int \<Rightarrow> int \<Rightarrow> int \<times> int \<times> int" where
  "next_date y m d = (if d < month_days y m then (y, m, d + 1) else if m < 12 then (y, m + 1, 1) else (y + 1, 1, 1))"

lemma next_day:
  assumes "valid_date y m d"
  shows "(case next_date y m d of (y', m', d') \<Rightarrow> days_from_civil y' m' d') = days_from_civil y m d + 1"
proof (cases "d < month_days y m")
  case True
  then show ?thesis using assms by (simp add: next_date_def valid_date_def days_formula)
next
  case False
  then have d: "d = month_days y m" using assms by (simp add: valid_date_def)
  have "m = 1 \<or> m = 2 \<or> m = 3 \<or> m = 4 \<or> m = 5 \<or> m = 6 \<or> m = 7 \<or> m = 8 \<or> m = 9 \<or> m = 10 \<or> m = 11 \<or> m = 12"
    using assms by (intro month_cases) (simp_all add: valid_date_def)
  then show ?thesis using year_start_pred [of y]
    by (elim disjE) (simp_all add: next_date_def d month_days_values days_values)
qed

section \<open>The local hour\<close>

lemma jan1_step: "days_from_civil (y + 1) 1 1 = days_from_civil y 1 1 + (if leap y then 366 else 365)"
  using year_start_pred [of y] by (simp add: days_values)

lemma jan1_less: "days_from_civil y 1 1 < days_from_civil (y + 1) 1 1"
  using jan1_step [of y] by simp

function year_up :: "int \<Rightarrow> int \<Rightarrow> int" where
  "year_up s y = (if days_from_civil (y + 1) 1 1 * 86400 \<le> s then year_up s (y + 1) else y)"
  by pat_completeness auto
termination
proof (relation "measure (\<lambda>(s, y). nat (s + 1 - days_from_civil (y + 1) 1 1 * 86400))")
  fix s y
  assume "days_from_civil (y + 1) 1 1 * 86400 \<le> s"
  then show "((s, y + 1), s, y) \<in> measure (\<lambda>(s, y). nat (s + 1 - days_from_civil (y + 1) 1 1 * 86400))"
    using jan1_less [of "y + 1"] by simp
qed simp

function year_down :: "int \<Rightarrow> int \<Rightarrow> int" where
  "year_down s y = (if days_from_civil y 1 1 * 86400 > s then year_down s (y - 1) else y)"
  by pat_completeness auto
termination
proof (relation "measure (\<lambda>(s, y). nat (days_from_civil y 1 1 * 86400 - s))")
  fix s y
  assume "days_from_civil y 1 1 * 86400 > s"
  then show "((s, y - 1), s, y) \<in> measure (\<lambda>(s, y). nat (days_from_civil y 1 1 * 86400 - s))"
    using jan1_less [of "y - 1"] by simp
qed simp

declare year_up.simps [simp del] year_down.simps [simp del]

definition cali_time_berlin_hour :: "int \<Rightarrow> int" where
  "cali_time_berlin_hour epoch_ms =
     (let s = c_div epoch_ms 1000;
          y = year_down s (year_up s (1970 + c_div s 31556952));
          on = days_from_civil y 3 (last_sunday y 3) * 86400 + 3600;
          off = days_from_civil y 10 (last_sunday y 10) * 86400 + 3600;
          l = s + (if s \<ge> on \<and> s < off then 7200 else 3600)
      in c_div (c_mod (c_mod l 86400 + 86400) 86400) 3600)"

definition year_of :: "int \<Rightarrow> int \<Rightarrow> bool" where
  "year_of s y \<longleftrightarrow> days_from_civil y 1 1 * 86400 \<le> s \<and> s < days_from_civil (y + 1) 1 1 * 86400"

lemma year_up_bound: "s < days_from_civil (year_up s y + 1) 1 1 * 86400"
  by (induction s y rule: year_up.induct) (subst year_up.simps, simp)

lemma year_down_of: "s < days_from_civil (y + 1) 1 1 * 86400 \<Longrightarrow> year_of s (year_down s y)"
proof (induction s y rule: year_down.induct)
  case (1 s y)
  then show ?case by (subst year_down.simps) (simp add: year_of_def)
qed

lemma jan1_mono: "y \<le> z \<Longrightarrow> days_from_civil y 1 1 \<le> days_from_civil z 1 1"
proof (induction "nat (z - y)" arbitrary: z)
  case (Suc n)
  then have "days_from_civil y 1 1 \<le> days_from_civil (z - 1) 1 1" by simp
  then show ?case using jan1_less [of "z - 1"] by simp
qed simp

lemma year_of_unique: "year_of s y \<Longrightarrow> year_of s z \<Longrightarrow> y = z"
proof (rule ccontr)
  assume h: "year_of s y" "year_of s z" "y \<noteq> z"
  then have "y + 1 \<le> z \<or> z + 1 \<le> y" by linarith
  then show False using jan1_mono [of "y + 1" z] jan1_mono [of "z + 1" y] h(1,2) by (auto simp: year_of_def)
qed

lemma year_found: "year_of s y \<Longrightarrow> year_down s (year_up s z) = y"
  using year_of_unique year_down_of year_up_bound by blast

lemma last_sunday_bounds: "month_days y m - 6 \<le> last_sunday y m" "last_sunday y m \<le> month_days y m"
proof -
  let ?w = "c_mod (days_from_civil y m (month_days y m)) 7 + 11"
  have "- 7 < c_mod (days_from_civil y m (month_days y m)) 7" by (rule c_mod_bounds) simp
  then have "0 \<le> ?w" by simp
  then have "0 \<le> c_mod ?w 7" "c_mod ?w 7 < 7" by (simp_all add: c_mod_bounds)
  then show "month_days y m - 6 \<le> last_sunday y m" "last_sunday y m \<le> month_days y m" by (simp_all add: last_sunday_def Let_def)
qed

lemma hour_of:
  assumes "l = day * 86400 + h * 3600 + r" and "0 \<le> h" and "h < 24" and "0 \<le> r" and "r < 3600"
  shows "c_div (c_mod (c_mod l 86400 + 86400) 86400) 3600 = h"
proof -
  obtain k where k: "c_mod l 86400 = l - k * 86400" using c_mod_diff by blast
  have b: "- 86400 < c_mod l 86400" by (rule c_mod_bounds) simp
  have "c_mod (c_mod l 86400 + 86400) 86400 = (c_mod l 86400 + 86400) mod 86400" using b by (simp add: c_mod_cases)
  also have "\<dots> = h * 3600 + r"
  proof (rule int_mod_pos_eq)
    show "c_mod l 86400 + 86400 = 86400 * (day - k + 1) + (h * 3600 + r)" using k assms(1) by (simp add: algebra_simps)
  qed (use assms in linarith)+
  finally have e: "c_mod (c_mod l 86400 + 86400) 86400 = h * 3600 + r" .
  have "(h * 3600 + r) div 3600 = h" by (rule int_div_pos_eq [of _ _ _ r]) (use assms in simp_all)
  then show ?thesis using e assms by (simp add: c_div_pos)
qed


section \<open>Switch instants and the round trip\<close>

definition berlin_on :: "int \<Rightarrow> int" where
  "berlin_on y = days_from_civil y 3 (last_sunday y 3) * 86400 + 3600"

definition berlin_off :: "int \<Rightarrow> int" where
  "berlin_off y = days_from_civil y 10 (last_sunday y 10) * 86400 + 3600"

lemma c_div_exact: "0 < b \<Longrightarrow> c_div (a * b) b = a"
  using nonzero_mult_div_cancel_right [of b "- a"] by (simp add: c_div_def)

lemma berlin_hour_in_year:
  assumes "year_of s y" and "s + (if s \<ge> berlin_on y \<and> s < berlin_off y then 7200 else 3600) = day * 86400 + h * 3600 + r"
    and "0 \<le> h" "h < 24" "0 \<le> r" "r < 3600"
  shows "cali_time_berlin_hour (s * 1000) = h"
  using hour_of [OF assms(2-6)] year_found [OF assms(1)]
  unfolding cali_time_berlin_hour_def Let_def c_div_exact [of 1000 s, simplified] berlin_on_def berlin_off_def by simp

text \<open>The local days of a year lie between its first of January and the next one, and the switch days cut it.\<close>

lemma day_in_year:
  assumes "valid_date y m d"
  shows "days_from_civil y 1 1 \<le> days_from_civil y m d" "days_from_civil y m d < days_from_civil (y + 1) 1 1"
proof -
  have "m = 1 \<or> m = 2 \<or> m = 3 \<or> m = 4 \<or> m = 5 \<or> m = 6 \<or> m = 7 \<or> m = 8 \<or> m = 9 \<or> m = 10 \<or> m = 11 \<or> m = 12"
    using assms by (intro month_cases) (simp_all add: valid_date_def)
  then show "days_from_civil y 1 1 \<le> days_from_civil y m d" "days_from_civil y m d < days_from_civil (y + 1) 1 1"
    using assms year_start_pred [of y] by (elim disjE; simp add: valid_date_def month_days_values days_values split: if_splits)+
qed

lemma day_zero: "valid_date y m d \<Longrightarrow> days_from_civil y m d = days_from_civil y 1 1 \<Longrightarrow> m = 1 \<and> d = 1"
proof -
  assume v: "valid_date y m d" and e: "days_from_civil y m d = days_from_civil y 1 1"
  have "m = 1 \<or> m = 2 \<or> m = 3 \<or> m = 4 \<or> m = 5 \<or> m = 6 \<or> m = 7 \<or> m = 8 \<or> m = 9 \<or> m = 10 \<or> m = 11 \<or> m = 12"
    using v by (intro month_cases) (simp_all add: valid_date_def)
  then show ?thesis
    using v e year_start_pred [of y] by (elim disjE; simp add: valid_date_def month_days_values days_values split: if_splits)
qed

lemma switch_days:
  "25 \<le> last_sunday y 3" "last_sunday y 3 \<le> 31" "25 \<le> last_sunday y 10" "last_sunday y 10 \<le> 31"
  using last_sunday_bounds [of y 3] last_sunday_bounds [of y 10] by (simp_all add: month_days_values)

text \<open>The day of a date lies before, on or after a switch day as the calendar says.\<close>

lemma day_after_on:
  assumes "valid_date y m d"
  shows "days_from_civil y 3 (last_sunday y 3) < days_from_civil y m d \<longleftrightarrow> m > 3 \<or> m = 3 \<and> last_sunday y 3 < d"
    "days_from_civil y m d < days_from_civil y 3 (last_sunday y 3) \<longleftrightarrow> m < 3 \<or> m = 3 \<and> d < last_sunday y 3"
    "days_from_civil y 10 (last_sunday y 10) < days_from_civil y m d \<longleftrightarrow> m > 10 \<or> m = 10 \<and> last_sunday y 10 < d"
    "days_from_civil y m d < days_from_civil y 10 (last_sunday y 10) \<longleftrightarrow> m < 10 \<or> m = 10 \<and> d < last_sunday y 10"
proof -
  have c: "m = 1 \<or> m = 2 \<or> m = 3 \<or> m = 4 \<or> m = 5 \<or> m = 6 \<or> m = 7 \<or> m = 8 \<or> m = 9 \<or> m = 10 \<or> m = 11 \<or> m = 12"
    using assms by (intro month_cases) (simp_all add: valid_date_def)
  have v: "1 \<le> d" "d \<le> month_days y m" using assms by (simp_all add: valid_date_def)
  have w: "d \<le> 31" using v(2) c by (elim disjE) (simp_all add: month_days_values split: if_splits)
  have z: "m = 1 \<or> m = 2 \<Longrightarrow> d \<le> (if m = 1 then 31 else if leap y then 29 else 28)" using v(2) by (auto simp: month_days_values)
  note s = switch_days [of y]
  from c show "days_from_civil y 3 (last_sunday y 3) < days_from_civil y m d \<longleftrightarrow> m > 3 \<or> m = 3 \<and> last_sunday y 3 < d"
    using s v(1) w z year_start_pred [of y] by (elim disjE; simp add: days_values split: if_splits)
  from c show "days_from_civil y m d < days_from_civil y 3 (last_sunday y 3) \<longleftrightarrow> m < 3 \<or> m = 3 \<and> d < last_sunday y 3"
    using s v(1) w z year_start_pred [of y] by (elim disjE; simp add: days_values split: if_splits)
  from c show "days_from_civil y 10 (last_sunday y 10) < days_from_civil y m d \<longleftrightarrow> m > 10 \<or> m = 10 \<and> last_sunday y 10 < d"
    using s v(1) w z year_start_pred [of y] by (elim disjE; simp add: days_values split: if_splits)
  from c show "days_from_civil y m d < days_from_civil y 10 (last_sunday y 10) \<longleftrightarrow> m < 10 \<or> m = 10 \<and> d < last_sunday y 10"
    using s v(1) w z year_start_pred [of y] by (elim disjE; simp add: days_values split: if_splits)
qed


lemma on_before_off: "days_from_civil y 3 (last_sunday y 3) < days_from_civil y 10 (last_sunday y 10)"
  using switch_days [of y] by (simp add: days_values)

definition spring_gap :: "int \<Rightarrow> int \<Rightarrow> int \<Rightarrow> int \<Rightarrow> bool" where
  "spring_gap y m d h \<longleftrightarrow> m = 3 \<and> d = last_sunday y 3 \<and> h = 2"

lemma cest_window:
  assumes v: "valid_date y m d" and c: "unit_cest y m d h = Some c" and r: "0 \<le> h" "h < 24" "0 \<le> r" "r < 3600"
    and s: "s = days_from_civil y m d * 86400 + h * 3600 + r - (if c then 7200 else 3600)"
  shows "s \<ge> berlin_on y \<and> s < berlin_off y \<longleftrightarrow> c \<or> spring_gap y m d h"
proof -
  note o = on_before_off [of y] and w = day_after_on [OF v]
  consider (a) "m = 3" "d = last_sunday y 3" | (b) "m = 10" "d = last_sunday y 10"
    | (w1) "m < 3 \<or> m = 3 \<and> d < last_sunday y 3"
    | (su) "m > 3 \<or> m = 3 \<and> last_sunday y 3 < d" "m < 10 \<or> m = 10 \<and> d < last_sunday y 10"
    | (w2) "m > 10 \<or> m = 10 \<and> last_sunday y 10 < d"
    by linarith
  then show ?thesis
  proof cases
    case a
    then have "c = (h \<ge> 3)" using c by (simp add: unit_cest_def)
    then show ?thesis using a s r o by (auto simp: berlin_on_def berlin_off_def spring_gap_def)
  next
    case b
    then have "c = (h < 2)" "h \<noteq> 2" using c by (auto simp: unit_cest_def split: if_splits)
    then show ?thesis using b s r o by (auto simp: berlin_on_def berlin_off_def spring_gap_def)
  next
    case w1
    then have "\<not> c" "\<not> spring_gap y m d h" using c by (auto simp: unit_cest_def spring_gap_def split: if_splits)
    then show ?thesis using s r w(2) w1 by (auto simp: berlin_on_def)
  next
    case su
    then have "c" using c by (auto simp: unit_cest_def split: if_splits)
    then show ?thesis using s r w(1,4) su by (auto simp: berlin_on_def berlin_off_def)
  next
    case w2
    then have "\<not> c" "\<not> spring_gap y m d h" using c by (auto simp: unit_cest_def spring_gap_def split: if_splits)
    then show ?thesis using s r w(3) w2 by (auto simp: berlin_off_def)
  qed
qed

lemma unit_utc_parts:
  assumes "cali_time_unit_utc y m d h mi sec = Some ms"
  obtains c where "valid_date y m d" "unit_cest y m d h = Some c" "0 \<le> h" "h < 24" "0 \<le> mi * 60 + sec" "mi * 60 + sec < 3600"
    "ms = (days_from_civil y m d * 86400 + h * 3600 + (mi * 60 + sec) - (if c then 7200 else 3600)) * 1000"
  using assms that by (auto simp: cali_time_unit_utc_def valid_date_def Let_def algebra_simps split: if_splits option.splits)

lemma new_year_window:
  assumes "s < days_from_civil y 1 1 * 86400" and "s \<ge> days_from_civil y 1 1 * 86400 - 3600"
  shows "year_of s (y - 1)" "\<not> s < berlin_off (y - 1)"
  using assms jan1_step [of "y - 1"] switch_days [of "y - 1"]
  by (simp_all add: year_of_def berlin_off_def days_values split: if_splits)

text \<open>
  C24. The two halves of the Central European rule agree. Whenever the unit's local date and time
  convert to an instant, the local hour computed back from that instant is the hour the unit showed; the one exception is
  02:xx on the morning the clocks go forward, an hour that does not exist and reads 03:xx.
\<close>

theorem clock_berlin_roundtrip:
  assumes "cali_time_unit_utc y m d h mi sec = Some ms"
  shows "cali_time_berlin_hour ms = (if m = 3 \<and> d = last_sunday y 3 \<and> h = 2 then 3 else h)"
proof -
  obtain c where p: "valid_date y m d" "unit_cest y m d h = Some c" and r: "0 \<le> h" "h < 24" "0 \<le> mi * 60 + sec" "mi * 60 + sec < 3600"
    and ms: "ms = (days_from_civil y m d * 86400 + h * 3600 + (mi * 60 + sec) - (if c then 7200 else 3600)) * 1000"
    by (rule unit_utc_parts [OF assms])
  define s where "s = days_from_civil y m d * 86400 + h * 3600 + (mi * 60 + sec) - (if c then 7200 else 3600)"
  note w = cest_window [OF p r s_def] and day = day_in_year [OF p(1)]
  have g: "spring_gap y m d h \<Longrightarrow> \<not> c" using p(2) by (auto simp: spring_gap_def unit_cest_def)
  show ?thesis
  proof (cases "s \<ge> days_from_civil y 1 1 * 86400")
    case True
    have "year_of s y" using True day r by (simp add: year_of_def s_def)
    moreover have "s + (if s \<ge> berlin_on y \<and> s < berlin_off y then 7200 else 3600) =
        days_from_civil y m d * 86400 + (if spring_gap y m d h then 3 else h) * 3600 + (mi * 60 + sec)"
      unfolding w using g by (auto simp: s_def spring_gap_def)
    ultimately have "cali_time_berlin_hour (s * 1000) = (if spring_gap y m d h then 3 else h)"
      by (rule berlin_hour_in_year) (use r in auto)
    then show ?thesis by (simp add: ms s_def spring_gap_def)
  next
    case False
    then have "days_from_civil y m d = days_from_civil y 1 1" using day r by (simp add: s_def split: if_splits)
    then have md: "m = 1" "d = 1" using day_zero [OF p(1)] by simp_all
    then have c: "\<not> c" using p(2) by (simp add: unit_cest_def)
    have l: "s < days_from_civil y 1 1 * 86400" "s \<ge> days_from_civil y 1 1 * 86400 - 3600"
      using False c md r by (auto simp: s_def)
    note o = new_year_window(2) [OF l]
    have "year_of s (y - 1)" by (rule new_year_window(1) [OF l])
    moreover have "s + (if s \<ge> berlin_on (y - 1) \<and> s < berlin_off (y - 1) then 7200 else 3600) =
        days_from_civil y m d * 86400 + h * 3600 + (mi * 60 + sec)"
      using o c by (simp add: s_def)
    ultimately have "cali_time_berlin_hour (s * 1000) = h" by (intro berlin_hour_in_year) (use r in auto)
    then show ?thesis using md by (simp add: ms s_def)
  qed
qed

theorem clock_berlin_roundtrip_witness:
  "cali_time_unit_utc 2025 3 30 2 15 0 = Some 1743297300000 \<and> cali_time_berlin_hour 1743297300000 = 3"
proof -
  have e: "cali_time_unit_utc 2025 3 30 2 15 0 = Some 1743297300000" by code_simp
  have "last_sunday 2025 3 = 30" by code_simp
  then show ?thesis using clock_berlin_roundtrip [OF e] e by simp
qed

text \<open>
  The day number counts the days of the calendar: it is 0 on 1970-01-01, and from every valid date to
  the next one, over month ends, leap days and year ends, before or after 1970, it grows by exactly one.
\<close>

theorem clock_calendar:
  assumes "valid_date y m d" and "next_date y m d = (y', m', d')"
  shows "days_from_civil 1970 1 1 = 0 \<and> days_from_civil y' m' d' = days_from_civil y m d + 1"
  using next_day [OF assms(1)] assms(2) by (simp add: days_values year_start_def)

theorem clock_calendar_witness:
  "days_from_civil 1970 1 1 = 0 \<and> valid_date 2024 2 29 \<and> next_date 2024 2 29 = (2024, 3, 1) \<and>
   days_from_civil 2024 3 1 = days_from_civil 2024 2 29 + 1"
proof -
  have v: "valid_date 2024 2 29" "next_date 2024 2 29 = (2024, 3, 1)" by code_simp+
  show ?thesis using v clock_calendar [OF v] by simp
qed

section \<open>The boot counter\<close>

lemma le32_roundtrip: "of_le32 (le32 v) = v"
proof (rule bit_word_eqI)
  fix n
  assume "n < LENGTH(32)"
  then consider "n < 8" | "8 \<le> n" "n < 16" | "16 \<le> n" "n < 24" | "24 \<le> n" "n < 32" by fastforce
  then show "bit (of_le32 (le32 v)) n = bit v n"
    by cases (auto simp: of_le32_def le32_def bit_simps upt_rec)
qed

text \<open>
  A boot that finds the bytes the previous boot stored counts one more than it, and the last count
  of the 32-bit counter is followed by 0; a boot that finds nothing, or a value of another size, starts at 1.
\<close>

theorem clock_boots_counted:
  "ck_boot (fst (cali_time_init (Some (snd (cali_time_init stored c))) c')) = ck_boot (fst (cali_time_init stored c)) + 1"
  "ck_boot (fst (cali_time_init None c)) = 1"
  "length b \<noteq> 4 \<Longrightarrow> ck_boot (fst (cali_time_init (Some b) c)) = 1"
  by (simp_all add: cali_time_init_def Let_def le32_roundtrip) (simp add: le32_def)

end
