(* ===== verification/Http.thy ===== *)
theory Http
  imports Json
begin

text \<open>
  The single-connection HTTP/1.1 responder, \<open>http_core.c\<close>. The static struct is a record; the socket table answers a poll with the
  descriptor of an accept, the chunks its receives deliver and the counts its sends take; the handler is a function of the poll. The request
  buffer is kept with its in-place NUL bytes, a view into it is the text it points at.
\<close>

section \<open>Data\<close>

definition NET_HTTP_REQ_MAX :: nat where "NET_HTTP_REQ_MAX = 2048"
definition HEAD_OUT_MAX :: nat where "HEAD_OUT_MAX = 512"
definition CALI_HTTP_IDLE_MS :: u64 where "CALI_HTTP_IDLE_MS = 5000"
definition CALI_HTTP_FIRST_BYTE_MS :: u64 where "CALI_HTTP_FIRST_BYTE_MS = 1000"
definition CALI_HTTP_PENDING_MAX_MS :: u64 where "CALI_HTTP_PENDING_MAX_MS = 8000"

record http_req =
  rq_method :: string
  rq_path :: string
  rq_query :: string
  rq_body :: string
  rq_resume :: bool
  rq_inm :: "string option"

record http_resp =
  rs_status :: int
  rs_type :: "string option"
  rs_body :: "string option"
  rs_location :: "string option"
  rs_encoding :: "string option"
  rs_cache :: "string option"
  rs_etag :: "string option"

text \<open>The verdict of the handler.\<close>

datatype verdict = H_unhandled | H_answer http_resp | H_pending

record http =
  h_lfd :: int
  h_fd :: int
  h_last :: u64
  h_sending :: bool
  h_waiting :: bool
  h_req :: http_req
  h_len :: nat
  h_head_len :: nat
  h_body_len :: nat
  h_buf :: string
  h_out_head :: string
  h_out_body :: string
  h_out_off :: nat
  h_t0 :: u64
  h_status :: int
  h_route :: string

definition no_req :: http_req where
  "no_req = \<lparr>rq_method = [], rq_path = [], rq_query = [], rq_body = [], rq_resume = False, rq_inm = None\<rparr>"

definition http_reset :: http where
  "http_reset = \<lparr>h_lfd = -1, h_fd = -1, h_last = 0, h_sending = False, h_waiting = False, h_req = no_req, h_len = 0, h_head_len = 0,
     h_body_len = 0, h_buf = replicate (NET_HTTP_REQ_MAX + 1) (CHR 0x00), h_out_head = [], h_out_body = [], h_out_off = 0, h_t0 = 0,
     h_status = 0, h_route = []\<rparr>"

text \<open>What a poll gets from the sockets and the handler: a receive delivers bytes or fails, a send takes a count, -1 or -2; a list that is
  used up blocks.\<close>

datatype http_rx = Rx string | Rx_err

record http_port =
  np_accept :: int
  np_rx :: "http_rx list"
  np_tx :: "int list"
  np_handler :: "http_req \<Rightarrow> verdict"

datatype http_eff = Hf_open int | Hf_send string | Hf_close int | Hf_request http_req | Hf_diag string int nat u64

section \<open>Sending\<close>

definition close_conn :: "http \<Rightarrow> http \<times> http_eff list" where
  "close_conn s =
     (s\<lparr>h_fd := -1, h_waiting := False, h_buf := replicate (NET_HTTP_REQ_MAX + 1) (CHR 0x00), h_len := 0\<rparr>, [Hf_close (h_fd s)])"

definition reason :: "int \<Rightarrow> string" where
  "reason status =
     (if status = 200 then ''OK'' else if status = 204 then ''No Content'' else if status = 302 then ''Found''
      else if status = 303 then ''See Other'' else if status = 304 then ''Not Modified'' else if status = 400 then ''Bad Request''
      else if status = 403 then ''Forbidden'' else if status = 404 then ''Not Found'' else if status = 405 then ''Method Not Allowed''
      else if status = 409 then ''Conflict'' else if status = 413 then ''Content Too Large''
      else if status = 431 then ''Request Header Fields Too Large'' else if status = 500 then ''Internal Server Error''
      else if status = 502 then ''Bad Gateway'' else if status = 503 then ''Service Unavailable''
      else if status = 504 then ''Gateway Timeout'' else ''Unknown'')"

text \<open>The loop of the pump: the new state, what was sent, and whether the connection is done with.\<close>

definition blocked :: "u64 \<Rightarrow> http \<Rightarrow> bool" where
  "blocked now s \<longleftrightarrow> now - h_last s > CALI_HTTP_IDLE_MS"

primrec pump_loop :: "int list \<Rightarrow> u64 \<Rightarrow> http \<Rightarrow> http \<times> http_eff list \<times> bool" where
  "pump_loop [] now s =
     (if h_out_off s < length (h_out_head s) + length (h_out_body s) then (s, [], blocked now s) else (s, [], True))"
| "pump_loop (r # tx) now s =
     (if h_out_off s < length (h_out_head s) + length (h_out_body s) then
        let p = (if h_out_off s < length (h_out_head s) then drop (h_out_off s) (h_out_head s)
                 else drop (h_out_off s - length (h_out_head s)) (h_out_body s))
        in if r = -2 then (s, [], True)
           else if r \<le> 0 then (s, [], blocked now s)
           else let m = min (nat r) (length p); (s', e, d) = pump_loop tx now (s\<lparr>h_out_off := h_out_off s + m, h_last := now\<rparr>)
                in (s', Hf_send (take m p) # e, d)
      else (s, [], True))"

definition pump :: "int list \<Rightarrow> u64 \<Rightarrow> http \<Rightarrow> http \<times> http_eff list" where
  "pump tx now s =
     (let (s1, e, d) = pump_loop tx now s
      in if d then let (s2, c) = close_conn s1 in (s2, e @ Hf_diag (h_route s1) (h_status s1) (h_out_off s1) (now - h_t0 s1) # c)
         else (s1, e))"

definition crlf :: string where "crlf = [CHR 0x0D, CHR 0x0A]"

definition header_line :: "string \<Rightarrow> string option \<Rightarrow> string" where
  "header_line name v = (case v of None \<Rightarrow> [] | Some t \<Rightarrow> name @ t @ crlf)"

definition cache_of :: "http_resp \<Rightarrow> string option" where
  "cache_of r = (if rs_cache r \<noteq> None then rs_cache r else if rs_encoding r \<noteq> None then Some ''no-cache'' else None)"

text \<open>The rendered head of a response, \<open>None\<close> for a redirect without a location.\<close>

definition head_text :: "http_resp \<Rightarrow> string option" where
  "head_text r =
     (let body_len = (case rs_body r of None \<Rightarrow> 0 | Some b \<Rightarrow> length b)
      in if rs_status r = 304 then
           Some (''HTTP/1.1 304 '' @ reason 304 @ crlf @ header_line ''ETag: '' (rs_etag r) @ header_line ''Cache-Control: '' (cache_of r) @
                 ''Connection: close'' @ crlf @ crlf)
         else if \<not> (rs_status r \<ge> 300 \<and> rs_status r < 400 \<and> rs_location r = None) then
           Some (''HTTP/1.1 '' @ dec_int (rs_status r) @ '' '' @ reason (rs_status r) @ crlf @
                 ''Content-Type: '' @ (case rs_type r of None \<Rightarrow> ''text/plain'' | Some t \<Rightarrow> t) @ crlf @
                 ''Content-Length: '' @ dec_nat body_len @ crlf @
                 header_line ''Location: '' (rs_location r) @ header_line ''Content-Encoding: '' (rs_encoding r) @
                 header_line ''Cache-Control: '' (cache_of r) @ header_line ''ETag: '' (rs_etag r) @
                 ''Connection: close'' @ crlf @ crlf)
         else None)"

definition head_500 :: string where
  "head_500 = ''HTTP/1.1 500 '' @ reason 500 @ crlf @ ''Content-Type: text/plain'' @ crlf @ ''Content-Length: '' @ dec_nat (length (reason 500)) @ crlf @
     ''Connection: close'' @ crlf @ crlf"

definition respond :: "http_port \<Rightarrow> http_resp \<Rightarrow> u64 \<Rightarrow> http \<Rightarrow> http \<times> http_eff list" where
  "respond po r now s =
     (let body = (if rs_status r = 304 then [] else case rs_body r of None \<Rightarrow> [] | Some b \<Rightarrow> b);
          (head, body', status) =
            (case head_text r of
               Some t \<Rightarrow> if length t \<ge> HEAD_OUT_MAX then (head_500, reason 500, 500) else (t, body, rs_status r)
             | None \<Rightarrow> (head_500, reason 500, 500))
      in pump (np_tx po) now
           (s\<lparr>h_status := status, h_out_head := head, h_out_body := body', h_out_off := 0, h_sending := True, h_last := now\<rparr>))"

definition plain_resp :: "int \<Rightarrow> string option \<Rightarrow> http_resp" where
  "plain_resp status body = \<lparr>rs_status = status, rs_type = Some ''text/plain'', rs_body = body, rs_location = None, rs_encoding = None,
     rs_cache = None, rs_etag = None\<rparr>"

definition respond_error :: "http_port \<Rightarrow> int \<Rightarrow> u64 \<Rightarrow> http \<Rightarrow> http \<times> http_eff list" where
  "respond_error po status now s = respond po (plain_resp status (Some (reason status))) now s"

section \<open>Parsing\<close>

definition find_head_end :: "http \<Rightarrow> nat" where
  "find_head_end s =
     (case find (\<lambda>i. take 4 (drop i (h_buf s)) = crlf @ crlf) [0..<h_len s - 3] of None \<Rightarrow> 0 | Some i \<Rightarrow> i + 4)"

definition lower_ascii :: "char \<Rightarrow> char" where
  "lower_ascii c = (if 65 \<le> (of_char c :: nat) \<and> (of_char c :: nat) \<le> 90 then char_of ((of_char c :: nat) + 32) else c)"

primrec header_value :: "string \<Rightarrow> nat \<Rightarrow> nat \<Rightarrow> string \<Rightarrow> nat" where
  "header_value buf pos eol [] = pos"
| "header_value buf pos eol (c # name) = (if pos < eol \<and> lower_ascii (buf ! pos) = c then header_value buf (pos + 1) eol name else 0)"

function line_end :: "string \<Rightarrow> nat \<Rightarrow> nat \<Rightarrow> nat" where
  "line_end buf eol to =
     (if eol + 1 < to \<and> \<not> (buf ! eol = CHR 0x0D \<and> buf ! (eol + 1) = CHR 0x0A) then line_end buf (eol + 1) to else eol)"
  by pat_completeness auto
termination by (relation "measure (\<lambda>(buf, eol, to). to - eol)") auto

declare line_end.simps [simp del]

lemma line_end_ge: "from \<le> line_end buf from to"
proof (induction buf "from" to rule: line_end.induct)
  case (1 buf eol to)
  let ?c = "eol + 1 < to \<and> \<not> (buf ! eol = CHR 0x0D \<and> buf ! (eol + 1) = CHR 0x0A)"
  have "eol \<le> line_end buf (eol + 1) to" if ?c using 1 [OF that] by simp
  then have "eol \<le> (if ?c then line_end buf (eol + 1) to else eol)" by presburger
  then show ?case by (subst line_end.simps)
qed

lemma line_end_next: "from < to \<Longrightarrow> to - (line_end buf from to + 2) < to - from"
  using line_end_ge [of "from" buf to] by linarith

function skip_blanks :: "string \<Rightarrow> nat \<Rightarrow> nat \<Rightarrow> nat" where
  "skip_blanks buf i eol = (if i < eol \<and> (buf ! i = CHR 0x20 \<or> buf ! i = CHR 0x09) then skip_blanks buf (i + 1) eol else i)"
  by pat_completeness auto
termination by (relation "measure (\<lambda>(buf, i, eol). eol - i)") auto

function cl_digits :: "string \<Rightarrow> nat \<Rightarrow> nat \<Rightarrow> nat \<Rightarrow> nat \<Rightarrow> nat \<times> nat \<times> nat" where
  "cl_digits buf i eol v digits =
     (if i < eol \<and> is_dec (buf ! i)
      then cl_digits buf (i + 1) eol (if v \<le> NET_HTTP_REQ_MAX then v * 10 + (of_char (buf ! i) - 48) else v) (digits + 1)
      else (i, v, digits))"
  by pat_completeness auto
termination by (relation "measure (\<lambda>(buf, i, eol, v, digits). eol - i)") auto

declare skip_blanks.simps [simp del] cl_digits.simps [simp del]

text \<open>The header names the core looks for.\<close>

definition H_LENGTH :: string where "H_LENGTH = ''content-length:''"
definition H_TRANSFER :: string where "H_TRANSFER = ''transfer-encoding:''"
definition H_INM :: string where "H_INM = ''if-none-match:''"

text \<open>The Content-Length of the header lines, \<open>None\<close> for a 400.\<close>

function content_length :: "string \<Rightarrow> nat \<Rightarrow> nat \<Rightarrow> nat \<Rightarrow> bool \<Rightarrow> nat option" where
  "content_length buf from to v seen =
     (if from < to then
        let eol = line_end buf from to; i = header_value buf from eol H_LENGTH in
        if header_value buf from eol H_TRANSFER \<noteq> 0 then None
        else if i \<noteq> 0 then
          if seen then None
          else let (i1, v', digits) = cl_digits buf (skip_blanks buf i eol) eol v 0; i2 = skip_blanks buf i1 eol
               in if digits = 0 \<or> i2 \<noteq> eol then None else content_length buf (eol + 2) to v' True
        else content_length buf (eol + 2) to v seen
      else Some v)"
  by pat_completeness auto
termination by (relation "measure (\<lambda>(buf, from, to, v, seen). to - from)") (simp_all only: in_measure prod.case line_end_next wf_measure)

declare content_length.simps [simp del]

definition cstr :: "string \<Rightarrow> string" where
  "cstr s = takeWhile (\<lambda>c. c \<noteq> CHR 0x00) s"

function if_none_match :: "string \<Rightarrow> nat \<Rightarrow> nat \<Rightarrow> string \<times> string option" where
  "if_none_match buf from to =
     (if from < to then
        let eol = line_end buf from to; i = header_value buf from eol H_INM in
        if i \<noteq> 0 then let buf' = buf[eol := CHR 0x00] in (buf', Some (cstr (drop (skip_blanks buf i eol) buf')))
        else if_none_match buf (eol + 2) to
      else (buf, None))"
  by pat_completeness auto
termination by (relation "measure (\<lambda>(buf, from, to). to - from)") (simp_all only: in_measure prod.case line_end_next wf_measure)

declare if_none_match.simps [simp del]

definition etag_matches :: "string \<Rightarrow> string \<Rightarrow> bool" where
  "etag_matches inm etag \<longleftrightarrow> inm = ''*'' \<or> list_ex (\<lambda>i. take (length etag) (drop i inm) = etag) [0..<length inm + 1]"

text \<open>Index of the first occurrence of a byte.\<close>

definition strchr :: "char \<Rightarrow> string \<Rightarrow> nat option" where
  "strchr c s = (let n = length (takeWhile (\<lambda>x. x \<noteq> c) s) in if n < length s then Some n else None)"

definition is_upper :: "char \<Rightarrow> bool" where
  "is_upper c \<longleftrightarrow> 65 \<le> (of_char c :: nat) \<and> (of_char c :: nat) \<le> 90"

text \<open>The split of the request line: the buffer with its NUL bytes and the verb, path and query, \<open>None\<close> when malformed.\<close>

definition parse_request_line :: "string \<Rightarrow> nat \<Rightarrow> string \<times> (string \<times> string \<times> string) option" where
  "parse_request_line buf eol =
     (let line = take eol buf; buf1 = buf[eol := CHR 0x00] in
      if CHR 0x00 \<in> set line then (buf, None)
      else case strchr (CHR '' '') line of
             None \<Rightarrow> (buf1, None)
           | Some sp1 \<Rightarrow>
               if sp1 = 0 \<or> \<not> list_all is_upper (take sp1 line) then (buf1, None)
               else case strchr (CHR '' '') (drop (sp1 + 1) line) of
                      None \<Rightarrow> (buf1, None)
                    | Some n \<Rightarrow>
                        let target = take n (drop (sp1 + 1) line); sp2 = sp1 + 1 + n; ver = drop (sp2 + 1) line in
                        if target = [] \<or> hd target \<noteq> CHR ''/'' \<or> ver \<noteq> ''HTTP/1.1'' \<and> ver \<noteq> ''HTTP/1.0'' then (buf1, None)
                        else let buf2 = (buf1[sp1 := CHR 0x00])[sp2 := CHR 0x00] in
                             case strchr (CHR ''?'') target of
                               None \<Rightarrow> (buf2, Some (take sp1 line, target, []))
                             | Some q \<Rightarrow> (buf2[sp1 + 1 + q := CHR 0x00], Some (take sp1 line, take q target, drop (q + 1) target)))"

definition request_line_end :: "string \<Rightarrow> nat" where
  "request_line_end buf = (case find (\<lambda>i. take 2 (drop i buf) = crlf) [0..<length buf] of None \<Rightarrow> length buf | Some i \<Rightarrow> i)"

section \<open>The connection\<close>

definition answer :: "http_port \<Rightarrow> http_req \<Rightarrow> u64 \<Rightarrow> http \<Rightarrow> http \<times> http_eff list" where
  "answer po req now s =
     (let (s1, e) =
        (case np_handler po req of
           H_pending \<Rightarrow> (s\<lparr>h_req := req\<lparr>rq_resume := True\<rparr>, h_waiting := True\<rparr>, [])
         | H_answer resp \<Rightarrow>
             (case (rs_etag resp, rq_inm req) of
                (Some etag, Some inm) \<Rightarrow>
                  if rs_status resp = 200 \<and> etag_matches inm etag then respond po (resp\<lparr>rs_status := 304\<rparr>) now (s\<lparr>h_waiting := False\<rparr>)
                  else respond po resp now (s\<lparr>h_waiting := False\<rparr>)
              | _ \<Rightarrow> respond po resp now (s\<lparr>h_waiting := False\<rparr>))
         | H_unhandled \<Rightarrow> respond_error po 404 now (s\<lparr>h_waiting := False\<rparr>))
      in (s1, Hf_request req # e))"

definition dispatch :: "http_port \<Rightarrow> u64 \<Rightarrow> http \<Rightarrow> http \<times> http_eff list" where
  "dispatch po now s =
     (let eol = request_line_end (h_buf s); (buf1, inm) = if_none_match (h_buf s) (eol + 2) (h_head_len s - 2) in
      case parse_request_line buf1 eol of
        (buf2, None) \<Rightarrow> respond_error po 400 now (s\<lparr>h_buf := buf2\<rparr>)
      | (buf2, Some (meth, path, query)) \<Rightarrow>
          let buf3 = buf2[h_head_len s + h_body_len s := CHR 0x00];
              req = \<lparr>rq_method = meth, rq_path = path, rq_query = query, rq_body = take (h_body_len s) (drop (h_head_len s) buf3),
                     rq_resume = False, rq_inm = inm\<rparr>
          in answer po req now (s\<lparr>h_buf := buf3, h_route := take 40 path\<rparr>))"

definition cali_http_stop :: "http \<Rightarrow> http \<times> http_eff list" where
  "cali_http_stop s =
     (let (s1, e) = (if h_fd s \<ge> 0 then close_conn s else (s, []))
      in (s1\<lparr>h_lfd := -1\<rparr>, e @ (if h_lfd s1 \<ge> 0 then [Hf_close (h_lfd s1)] else [])))"

definition cali_http_init :: "int \<Rightarrow> http \<Rightarrow> int \<times> http \<times> http_eff list" where
  "cali_http_init lfd s =
     (let (s1, e) = cali_http_stop s in (if lfd \<ge> 0 then 0 else -1, s1\<lparr>h_lfd := if lfd \<ge> 0 then lfd else -1\<rparr>, e))"

text \<open>The receive loop: the new state and whether the peer is gone. A receive asks for the room left and gets at most that.\<close>

primrec recv_loop :: "http_rx list \<Rightarrow> u64 \<Rightarrow> http \<Rightarrow> http \<times> bool" where
  "recv_loop [] now s = (s, False)"
| "recv_loop (x # xs) now s =
     (if h_len s < NET_HTTP_REQ_MAX then
        case x of Rx_err \<Rightarrow> (s, True)
        | Rx b \<Rightarrow>
            let d = take (NET_HTTP_REQ_MAX - h_len s) b
            in if d = [] then (s, False)
               else recv_loop xs now (s\<lparr>h_buf := memcpy_at (h_buf s) (h_len s) d, h_len := h_len s + length d, h_last := now\<rparr>)
      else (s, False))"

definition accept_conn :: "http_port \<Rightarrow> u64 \<Rightarrow> http \<Rightarrow> http" where
  "accept_conn po now s =
     s\<lparr>h_fd := np_accept po, h_last := now, h_t0 := now, h_route := [], h_len := 0, h_head_len := 0, h_body_len := 0,
       h_sending := False, h_waiting := False\<rparr>"

text \<open>The head of the request: the error status to answer, or the state with the lengths set.\<close>

definition scan_head :: "http \<Rightarrow> int + http" where
  "scan_head s =
     (if h_head_len s \<noteq> 0 then Inr s
      else let h = find_head_end s in
           if h = 0 then if h_len s \<ge> NET_HTTP_REQ_MAX then Inl 431 else Inr s
           else case content_length (h_buf s) (request_line_end (h_buf s) + 2) (h - 2) 0 False of
                  None \<Rightarrow> Inl 400
                | Some cl \<Rightarrow> if cl > NET_HTTP_REQ_MAX - h then Inl 413 else Inr (s\<lparr>h_head_len := h, h_body_len := cl\<rparr>))"

definition poll_read :: "http_port \<Rightarrow> u64 \<Rightarrow> http \<Rightarrow> http \<times> http_eff list" where
  "poll_read po now s =
     (let (s1, gone) = recv_loop (np_rx po) now s in
      case scan_head s1 of
        Inl status \<Rightarrow> respond_error po status now (s1\<lparr>h_head_len := find_head_end s1\<rparr>)
      | Inr s2 \<Rightarrow>
          if h_head_len s2 \<noteq> 0 \<and> h_len s2 \<ge> h_head_len s2 + h_body_len s2 then dispatch po now s2
          else if gone \<or> now - h_last s2 > (if h_len s2 \<noteq> 0 then CALI_HTTP_IDLE_MS else CALI_HTTP_FIRST_BYTE_MS) then close_conn s2
          else (s2, []))"

definition poll_wait :: "http_port \<Rightarrow> u64 \<Rightarrow> http \<Rightarrow> http \<times> http_eff list" where
  "poll_wait po now s =
     (if now - h_last s > CALI_HTTP_PENDING_MAX_MS then respond_error po 504 now (s\<lparr>h_waiting := False\<rparr>)
      else answer po (h_req s) now s)"

definition poll_conn :: "http_port \<Rightarrow> u64 \<Rightarrow> http \<Rightarrow> http \<times> http_eff list" where
  "poll_conn po now s =
     (if h_sending s then pump (np_tx po) now s else if h_waiting s then poll_wait po now s else poll_read po now s)"

definition cali_http_poll :: "http_port \<Rightarrow> u64 \<Rightarrow> http \<Rightarrow> http \<times> http_eff list" where
  "cali_http_poll po now s =
     (if h_lfd s < 0 then (s, [])
      else if h_fd s < 0 then
        if np_accept po < 0 then (s, [])
        else let (s1, e) = poll_conn po now (accept_conn po now s) in (s1, Hf_open (np_accept po) # e)
      else poll_conn po now s)"

section \<open>Invariant\<close>

text \<open>
  The shape of every state the polls reach: the buffer keeps its size, no connection means an empty and wiped buffer, and a connection is
  in one of three phases: reading a request that is not complete yet, holding one for the handler, or sending.
\<close>

definition wiped :: string where
  "wiped = replicate (NET_HTTP_REQ_MAX + 1) (CHR 0x00)"

definition incomplete :: "http \<Rightarrow> bool" where
  "incomplete s \<longleftrightarrow> (if h_head_len s = 0 then find_head_end s = 0 else h_len s < h_head_len s + h_body_len s)"

definition http_inv :: "http \<Rightarrow> bool" where
  "http_inv s \<longleftrightarrow> length (h_buf s) = NET_HTTP_REQ_MAX + 1 \<and> h_len s \<le> NET_HTTP_REQ_MAX \<and> (h_fd s \<ge> 0 \<or> h_buf s = wiped \<and> h_len s = 0) \<and>
     h_out_off s \<le> length (h_out_head s) + length (h_out_body s) \<and> length (h_out_head s) < HEAD_OUT_MAX \<and>
     (h_fd s \<ge> 0 \<longrightarrow> \<not> h_sending s \<longrightarrow> h_waiting s \<or> incomplete s)"

datatype http_op = Ho_init int | Ho_stop | Ho_poll http_port u64

fun http_step :: "http \<Rightarrow> http_op \<Rightarrow> http \<times> http_eff list" where
  "http_step s (Ho_init lfd) = snd (cali_http_init lfd s)"
| "http_step s Ho_stop = cali_http_stop s"
| "http_step s (Ho_poll po now) = cali_http_poll po now s"

text \<open>What one call may do: keep the shape of an open connection, or close it. The parts of the invariant that no call of the send
  side touches.\<close>

definition open_inv :: "http \<Rightarrow> bool" where
  "open_inv s \<longleftrightarrow> length (h_buf s) = NET_HTTP_REQ_MAX + 1 \<and> h_len s \<le> NET_HTTP_REQ_MAX \<and>
     h_out_off s \<le> length (h_out_head s) + length (h_out_body s) \<and> length (h_out_head s) < HEAD_OUT_MAX"

lemma inv_open: "http_inv s \<Longrightarrow> open_inv s"
  by (simp add: http_inv_def open_inv_def)

lemma close_inv: "open_inv s \<Longrightarrow> http_inv (fst (close_conn s))"
  by (simp add: open_inv_def http_inv_def close_conn_def wiped_def)

lemma pump_loop_inv: "open_inv s \<Longrightarrow> open_inv (fst (pump_loop tx now s))"
  and pump_loop_fd: "h_fd (fst (pump_loop tx now s)) = h_fd s" "h_sending (fst (pump_loop tx now s)) = h_sending s"
proof (induction tx arbitrary: s)
  case (Cons r tx)
  { case 1
    have "min (nat r) (length p) \<le> length p" for p :: string by simp
    then show ?case using 1 Cons(1) [of "s\<lparr>h_out_off := h_out_off s + min (nat r) (length (if h_out_off s < length (h_out_head s) then drop (h_out_off s) (h_out_head s)
                 else drop (h_out_off s - length (h_out_head s)) (h_out_body s))), h_last := now\<rparr>"]
      by (auto simp: open_inv_def Let_def split_beta) }
  { case 2 then show ?case using Cons(2) by (simp add: Let_def split_beta) }
  { case 3 then show ?case using Cons(3) by (simp add: Let_def split_beta) }
qed simp_all

lemma pump_inv: "open_inv s \<Longrightarrow> h_fd s \<ge> 0 \<Longrightarrow> h_sending s \<Longrightarrow> http_inv (fst (pump tx now s))"
  using pump_loop_inv [of s tx now] pump_loop_fd [of tx now s] close_inv
  by (auto simp: pump_def Let_def split_beta) (simp add: http_inv_def open_inv_def)

lemma dec_nat_500: "dec_nat (length (reason 500)) = ''21''"
  by code_simp

lemma head_500_length: "length head_500 < HEAD_OUT_MAX"
  by (simp add: head_500_def dec_nat_500 HEAD_OUT_MAX_def crlf_def) (simp add: reason_def)

lemma respond_inv: "open_inv s \<Longrightarrow> h_fd s \<ge> 0 \<Longrightarrow> http_inv (fst (respond po r now s))"
  unfolding respond_def Let_def split_beta by (rule pump_inv) (auto simp: open_inv_def head_500_length split: option.splits)

lemma respond_error_inv: "open_inv s \<Longrightarrow> h_fd s \<ge> 0 \<Longrightarrow> http_inv (fst (respond_error po r now s))"
  by (simp add: respond_error_def respond_inv)

lemma answer_inv: "open_inv s \<Longrightarrow> h_fd s \<ge> 0 \<Longrightarrow> http_inv (fst (answer po req now s))"
proof -
  assume a: "open_inv s" "h_fd s \<ge> 0"
  have "http_inv (fst (respond po r now (s\<lparr>h_waiting := False\<rparr>)))" for r by (rule respond_inv) (use a in \<open>simp_all add: open_inv_def\<close>)
  moreover have "http_inv (fst (respond_error po 404 now (s\<lparr>h_waiting := False\<rparr>)))" by (rule respond_error_inv) (use a in \<open>simp_all add: open_inv_def\<close>)
  moreover have "http_inv (s\<lparr>h_req := q, h_waiting := True\<rparr>)" for q using a by (simp add: http_inv_def open_inv_def)
  ultimately show ?thesis by (simp add: answer_def Let_def split_beta split: verdict.split option.split)
qed

lemma if_none_match_length: "length (fst (if_none_match buf from to)) = length buf"
proof (induction buf "from" to rule: if_none_match.induct)
  case (1 buf "from" to)
  let ?e = "line_end buf from to"
  let ?i = "header_value buf from ?e H_INM"
  show ?case
  proof (cases "from < to")
    case True
    then show ?thesis
    proof (cases "?i = 0")
      case i0: True
      have "length (fst (if_none_match buf (?e + 2) to)) = length buf" using 1 [OF True refl refl] i0 by (simp only: simp_thms)
      then show ?thesis by (subst if_none_match.simps) (simp only: True i0 Let_def if_True if_False simp_thms)
    next
      case False
      show ?thesis by (subst if_none_match.simps) (simp only: True False Let_def if_True if_False simp_thms fst_conv length_list_update)
    qed
  qed (subst if_none_match.simps, simp)
qed

lemma parse_line_length: "length (fst (parse_request_line buf eol)) = length buf"
  by (simp add: parse_request_line_def Let_def split: option.split)

lemma dispatch_inv: "open_inv s \<Longrightarrow> h_fd s \<ge> 0 \<Longrightarrow> http_inv (fst (dispatch po now s))"
proof -
  assume a: "open_inv s" "h_fd s \<ge> 0"
  have b: "length (fst (parse_request_line (fst (if_none_match (h_buf s) i j)) k)) = NET_HTTP_REQ_MAX + 1" for i j k
    using a by (simp add: parse_line_length if_none_match_length open_inv_def)
  have "open_inv (s\<lparr>h_buf := b, h_route := r\<rparr>)" "open_inv (s\<lparr>h_buf := b\<rparr>)" if "length b = NET_HTTP_REQ_MAX + 1" for b r
    using a that by (simp_all add: open_inv_def)
  then show ?thesis using a b
    by (auto simp: dispatch_def Let_def split_beta intro!: answer_inv respond_error_inv split: prod.split option.split)
qed

lemma recv_keeps:
  "h_fd (fst (recv_loop rx now s)) = h_fd s" "h_sending (fst (recv_loop rx now s)) = h_sending s" "h_waiting (fst (recv_loop rx now s)) = h_waiting s"
  "h_head_len (fst (recv_loop rx now s)) = h_head_len s" "h_body_len (fst (recv_loop rx now s)) = h_body_len s"
  "h_out_head (fst (recv_loop rx now s)) = h_out_head s" "h_out_body (fst (recv_loop rx now s)) = h_out_body s" "h_out_off (fst (recv_loop rx now s)) = h_out_off s"
  by (induction rx arbitrary: s) (simp_all add: Let_def split: http_rx.split)

lemma recv_inv: "open_inv s \<Longrightarrow> open_inv (fst (recv_loop rx now s))"
proof (induction rx arbitrary: s)
  case (Cons x rx)
  have "open_inv (s\<lparr>h_buf := memcpy_at (h_buf s) (h_len s) (take (NET_HTTP_REQ_MAX - h_len s) b),
      h_len := h_len s + length (take (NET_HTTP_REQ_MAX - h_len s) b), h_last := now\<rparr>)" for b
    using Cons.prems by (auto simp: open_inv_def memcpy_at_def)
  then show ?case using Cons by (simp add: Let_def split: http_rx.split)
qed simp

lemma scan_head_keeps:
  assumes "scan_head s = Inr s'"
  shows "open_inv s \<Longrightarrow> open_inv s'" "h_fd s' = h_fd s" "h_sending s' = h_sending s" "h_len s' = h_len s" "h_last s' = h_last s" "h_buf s' = h_buf s"
    "h_head_len s' = 0 \<Longrightarrow> find_head_end s' = 0"
  using assms by (auto simp: scan_head_def open_inv_def find_head_end_def Let_def split: if_splits option.splits)

lemma poll_read_inv: "open_inv s \<Longrightarrow> h_fd s \<ge> 0 \<Longrightarrow> http_inv (fst (poll_read po now s))"
proof -
  assume a: "open_inv s" "h_fd s \<ge> 0"
  let ?r = "fst (recv_loop (np_rx po) now s)"
  have r: "open_inv ?r" "h_fd ?r \<ge> 0" using a recv_inv recv_keeps(1) by simp_all
  show ?thesis
  proof (cases "scan_head ?r")
    case (Inl e)
    have "http_inv (fst (respond_error po e now (?r\<lparr>h_head_len := find_head_end ?r\<rparr>)))"
      by (rule respond_error_inv) (use r in \<open>simp_all add: open_inv_def\<close>)
    then show ?thesis by (simp add: poll_read_def split_beta Inl)
  next
    case (Inr s2)
    note k = scan_head_keeps [OF Inr]
    have o: "open_inv s2" "h_fd s2 \<ge> 0" using k r by simp_all
    have "http_inv s2" if "\<not> (h_head_len s2 \<noteq> 0 \<and> h_len s2 \<ge> h_head_len s2 + h_body_len s2)"
      using o that k(7) by (auto simp: http_inv_def open_inv_def incomplete_def)
    then show ?thesis using dispatch_inv [OF o] close_inv [OF o(1)] by (simp add: poll_read_def split_beta Inr)
  qed
qed

lemma poll_conn_inv: "open_inv s \<Longrightarrow> h_fd s \<ge> 0 \<Longrightarrow> http_inv (fst (poll_conn po now s))"
proof -
  assume a: "open_inv s" "h_fd s \<ge> 0"
  have "http_inv (fst (respond_error po 504 now (s\<lparr>h_waiting := False\<rparr>)))" by (rule respond_error_inv) (use a in \<open>simp_all add: open_inv_def\<close>)
  then show ?thesis using a pump_inv [OF a] answer_inv [OF a] poll_read_inv [OF a] by (simp add: poll_conn_def poll_wait_def)
qed

lemma poll_inv: "http_inv s \<Longrightarrow> http_inv (fst (cali_http_poll po now s))"
proof -
  assume a: "http_inv s"
  have "open_inv (accept_conn po now s)" "h_fd (accept_conn po now s) = np_accept po"
    using inv_open [OF a] by (simp_all add: open_inv_def accept_conn_def)
  then show ?thesis using a poll_conn_inv [of "accept_conn po now s"] poll_conn_inv [OF inv_open [OF a]]
    by (simp add: cali_http_poll_def split_beta Let_def)
qed

lemma inv_lfd: "http_inv (s\<lparr>h_lfd := l\<rparr>) = http_inv s"
  unfolding http_inv_def incomplete_def find_head_end_def by simp

lemma stop_inv: "http_inv s \<Longrightarrow> http_inv (fst (cali_http_stop s))"
  using close_inv [OF inv_open, of s] by (simp add: cali_http_stop_def Let_def split_beta inv_lfd)

lemma http_step_inv: "http_inv s \<Longrightarrow> http_inv (fst (http_step s e))"
  by (cases e) (simp_all add: stop_inv poll_inv cali_http_init_def Let_def split_beta inv_lfd)

lemma http_reset_inv: "http_inv http_reset"
  by (simp add: http_inv_def http_reset_def wiped_def HEAD_OUT_MAX_def)

interpretation httpm: machine http_step http_reset http_inv
  by unfold_locales (simp_all add: http_reset_inv http_step_inv)

end
