(* ===== verification/Http_Request.thy ===== *)
theory Http_Request
  imports Http
begin

text \<open>
  The request side of the HTTP core against a reference on lists of lines: where the head ends, the Content-Length and If-None-Match
  headers, the split of the request line, and the delivery of a request over any fragmentation of the stream.
\<close>

section \<open>Text at a place of the buffer\<close>

primrec at :: "string \<Rightarrow> nat \<Rightarrow> string \<Rightarrow> bool" where
  "at buf i [] \<longleftrightarrow> True"
| "at buf i (c # t) \<longleftrightarrow> i < length buf \<and> buf ! i = c \<and> at buf (Suc i) t"

lemma at_append [simp]: "at buf i (s @ t) \<longleftrightarrow> at buf i s \<and> at buf (i + length s) t"
  by (induction s arbitrary: i) auto

lemma at_take: "at buf i t \<longleftrightarrow> take (length t) (drop i buf) = t"
proof (induction t arbitrary: i)
  case (Cons c t)
  then show ?case by (cases "i < length buf") (auto simp: Cons_nth_drop_Suc [symmetric])
qed simp

lemma at_nth: "at buf i t \<Longrightarrow> j < length t \<Longrightarrow> buf ! (i + j) = t ! j"
proof (induction t arbitrary: i j)
  case (Cons c t)
  then show ?case using Cons.IH [of "Suc i" "j - 1"] by (cases j) auto
qed simp

lemma at_length: "at buf i t \<Longrightarrow> t \<noteq> [] \<Longrightarrow> i + length t \<le> length buf"
proof (induction t arbitrary: i)
  case (Cons c t)
  then show ?case using Cons.IH [of "Suc i"] by (cases t) auto
qed simp

lemma at_same: "(\<And>j. i \<le> j \<Longrightarrow> j < i + length t \<Longrightarrow> buf' ! j = buf ! j) \<Longrightarrow> length buf' = length buf \<Longrightarrow> at buf' i t = at buf i t"
proof (induction t arbitrary: i)
  case (Cons c t)
  have "at buf' (Suc i) t = at buf (Suc i) t" using Cons.prems by (intro Cons.IH) auto
  then show ?case using Cons.prems(1) [of i] Cons.prems(2) by simp
qed simp

lemma at_text: "at (t @ r) i u \<Longrightarrow> i + length u \<le> length t \<Longrightarrow> at (t @ r') i u"
  by (induction u arbitrary: i) (auto simp: nth_append)

section \<open>Lines\<close>

definition no_cr :: "string \<Rightarrow> bool" where
  "no_cr l \<longleftrightarrow> CHR 0x0D \<notin> set l"

definition ended :: "string list \<Rightarrow> string" where
  "ended ls = concat (map (\<lambda>l. l @ crlf) ls)"

definition head_of :: "string list \<Rightarrow> string" where
  "head_of ls = ended ls @ crlf"

lemma ended_simps [simp]: "ended [] = []" "ended (l # ls) = l @ crlf @ ended ls"
  by (simp_all add: ended_def)

lemma crlf_at [simp]: "at buf i crlf \<longleftrightarrow> Suc i < length buf \<and> buf ! i = CHR 0x0D \<and> buf ! Suc i = CHR 0x0A"
  by (auto simp: crlf_def)

lemma crlf_length [simp]: "length crlf = 2"
  by (simp add: crlf_def)

lemma no_crlf_inside: "no_cr l \<Longrightarrow> at buf i l \<Longrightarrow> i \<le> j \<Longrightarrow> j < i + length l \<Longrightarrow> buf ! j \<noteq> CHR 0x0D"
proof -
  assume a: "no_cr l" "at buf i l" "i \<le> j" "j < i + length l"
  then have "j - i < length l" by linarith
  then have "buf ! j = l ! (j - i)" "l ! (j - i) \<in> set l" using at_nth [OF a(2), of "j - i"] a(3) by simp_all
  then show ?thesis using a(1) by (metis no_cr_def)
qed

text \<open>The first empty line ends the head, and no proper prefix of the head holds one.\<close>

lemma blank_line_late:
  "\<forall>l\<in>set ls. no_cr l \<and> l \<noteq> [] \<Longrightarrow> at buf i (head_of ls) \<Longrightarrow> i \<le> j \<Longrightarrow> j + 4 < i + length (head_of ls) \<Longrightarrow> \<not> at buf j (crlf @ crlf)"
proof (induction ls arbitrary: i)
  case (Cons l ls)
  have a: "at buf i l" "buf ! (i + length l) = CHR 0x0D" "buf ! Suc (i + length l) = CHR 0x0A" "at buf (i + length l + 2) (head_of ls)"
    using Cons.prems(2) by (simp_all add: head_of_def add.assoc)
  consider "j < i + length l" | "j = i + length l" | "j = i + length l + 1" | "i + length l + 2 \<le> j" by linarith
  then show ?case
  proof cases
    case 1
    then show ?thesis using no_crlf_inside [of l buf i j] a(1) Cons.prems(1,3) by simp
  next
    case 2
    then obtain m ms where m: "ls = m # ms" using Cons.prems(4) by (cases ls) (auto simp: head_of_def)
    then have "buf ! (i + length l + 2) \<noteq> CHR 0x0D"
      using Cons.prems(1) a(4) no_crlf_inside [of m buf "i + length l + 2" "i + length l + 2"] by (simp add: head_of_def)
    then show ?thesis using 2 by simp
  next
    case 3
    then show ?thesis using a(3) by simp
  next
    case 4
    then show ?thesis using Cons.IH [of "i + length l + 2"] a(4) Cons.prems(1,4) by (simp add: head_of_def)
  qed
qed (simp add: head_of_def)

lemma blank_line_there: "ls \<noteq> [] \<Longrightarrow> at buf i (head_of ls) \<Longrightarrow> at buf (i + length (head_of ls) - 4) (crlf @ crlf)"
proof -
  assume a: "ls \<noteq> []" "at buf i (head_of ls)"
  have "ended (butlast ls @ [last ls]) = ended (butlast ls) @ last ls @ crlf" by (simp add: ended_def)
  then have "head_of ls = (ended (butlast ls) @ last ls) @ crlf @ crlf" using a(1) by (simp add: head_of_def)
  then show ?thesis using a(2) by (simp del: append_assoc)
qed

lemma head_of_ge: "ls \<noteq> [] \<Longrightarrow> 4 \<le> length (head_of ls)"
  by (cases ls) (simp_all add: head_of_def)

lemma find_upt:
  "(\<And>j. j < i \<Longrightarrow> \<not> P j) \<Longrightarrow> i < n \<Longrightarrow> P i \<Longrightarrow> find P [0..<n] = Some i"
  "(\<And>j. j < n \<Longrightarrow> \<not> P j) \<Longrightarrow> find P [0..<n] = None"
  by (auto simp: find_Some_iff find_None_iff intro!: exI [of _ i])

lemma head_end_found:
  assumes "\<forall>l\<in>set ls. no_cr l \<and> l \<noteq> []" and "ls \<noteq> []" and "at (h_buf s) 0 (head_of ls)" and "length (head_of ls) \<le> h_len s"
  shows "find_head_end s = length (head_of ls)"
proof -
  have "find (\<lambda>i. take 4 (drop i (h_buf s)) = crlf @ crlf) [0..<h_len s - 3] = Some (length (head_of ls) - 4)"
  proof (rule find_upt(1))
    show "\<not> take 4 (drop j (h_buf s)) = crlf @ crlf" if "j < length (head_of ls) - 4" for j
    proof -
      have "\<not> at (h_buf s) j (crlf @ crlf)" by (rule blank_line_late [OF assms(1,3)]) (use that in linarith)+
      then show ?thesis unfolding at_take by simp
    qed
    show "take 4 (drop (length (head_of ls) - 4) (h_buf s)) = crlf @ crlf"
      using blank_line_there [OF assms(2,3)] at_take [of "h_buf s" "length (head_of ls) - 4" "crlf @ crlf"] by simp
    show "length (head_of ls) - 4 < h_len s - 3" using head_of_ge [OF assms(2)] assms(4) by linarith
  qed
  then show ?thesis using head_of_ge [OF assms(2)] by (simp add: find_head_end_def)
qed

lemma head_end_missing:
  assumes "\<forall>l\<in>set ls. no_cr l \<and> l \<noteq> []" and "at (h_buf s) 0 (take (h_len s) (head_of ls))" and "h_len s < length (head_of ls)"
    and "length (h_buf s) > h_len s"
  shows "find_head_end s = 0"
proof -
  let ?b = "take (h_len s) (h_buf s) @ drop (h_len s) (head_of ls)"
  have t: "take (h_len s) (h_buf s) = take (h_len s) (head_of ls)" using assms(2,3) by (simp add: at_take)
  then have b: "at ?b 0 (head_of ls)" by (simp add: at_take)
  have "find (\<lambda>i. take 4 (drop i (h_buf s)) = crlf @ crlf) [0..<h_len s - 3] = None"
  proof (rule find_upt(2))
    fix j
    assume j: "j < h_len s - 3"
    have "\<not> at ?b j (crlf @ crlf)" by (rule blank_line_late [OF assms(1) b]) (use j assms(3) in auto)
    moreover have "at ?b j (crlf @ crlf) = at (h_buf s) j (crlf @ crlf)"
    proof -
      have l: "j < h_len s" "Suc j < h_len s" "Suc (Suc j) < h_len s" "Suc (Suc (Suc j)) < h_len s" using j by linarith+
      then show ?thesis using assms(3,4) by (simp add: nth_append)
    qed
    ultimately have "\<not> at (h_buf s) j (crlf @ crlf)" by blast
    then show "\<not> take 4 (drop j (h_buf s)) = crlf @ crlf" unfolding at_take by simp
  qed
  then show ?thesis by (simp add: find_head_end_def)
qed

lemma line_end_at:
  assumes "no_cr l" and "at buf i (l @ crlf)" and "i + length l + 1 < to"
  shows "line_end buf i to = i + length l"
proof -
  have "line_end buf j to = i + length l" if "i \<le> j" "j \<le> i + length l" for j
    using that
  proof (induction "i + length l - j" arbitrary: j)
    case 0
    then show ?case using assms(2,3) by (subst line_end.simps) (simp add: crlf_def)
  next
    case (Suc n)
    then have "buf ! j \<noteq> CHR 0x0D" using no_crlf_inside [OF assms(1), of buf i j] assms(2) by simp
    then show ?case using Suc assms(3) by (subst line_end.simps) simp
  qed
  then show ?thesis by simp
qed

lemma request_line_end_at:
  assumes "no_cr l" and "at buf 0 (l @ crlf)"
  shows "request_line_end buf = length l"
proof -
  have "find (\<lambda>i. take 2 (drop i buf) = crlf) [0..<length buf] = Some (length l)"
  proof (rule find_upt(1))
    show "\<not> take 2 (drop j buf) = crlf" if "j < length l" for j
      using no_crlf_inside [OF assms(1), of buf 0 j] assms(2) that at_take [of buf j crlf] by simp
    show "take 2 (drop (length l) buf) = crlf" using assms(2) at_take [of buf "length l" crlf] by simp
    show "length l < length buf" using assms(2) by (auto simp: crlf_def)
  qed
  then show ?thesis by (simp add: request_line_end_def)
qed

section \<open>Headers\<close>

definition blank :: "char \<Rightarrow> bool" where
  "blank c \<longleftrightarrow> c = CHR 0x20 \<or> c = CHR 0x09"

definition has_name :: "string \<Rightarrow> string \<Rightarrow> bool" where
  "has_name l name \<longleftrightarrow> length name \<le> length l \<and> map lower_ascii (take (length name) l) = name"

primrec sat_num :: "nat \<Rightarrow> string \<Rightarrow> nat" where
  "sat_num v [] = v"
| "sat_num v (c # s) = sat_num (if v \<le> NET_HTTP_REQ_MAX then v * 10 + (of_char c - 48) else v) s"

text \<open>The number of a Content-Length value: digits between blanks and nothing else.\<close>

definition length_value :: "nat \<Rightarrow> string \<Rightarrow> nat option" where
  "length_value v t =
     (let u = dropWhile blank t; d = takeWhile is_dec u
      in if d = [] \<or> dropWhile blank (dropWhile is_dec u) \<noteq> [] then None else Some (sat_num v d))"

fun lines_length :: "string list \<Rightarrow> nat \<Rightarrow> bool \<Rightarrow> nat option" where
  "lines_length [] v seen = Some v"
| "lines_length (l # ls) v seen =
     (if has_name l H_TRANSFER then None
      else if has_name l H_LENGTH then
        if seen then None else (case length_value v (drop 15 l) of None \<Rightarrow> None | Some v' \<Rightarrow> lines_length ls v' True)
      else lines_length ls v seen)"

fun lines_inm :: "string list \<Rightarrow> string option" where
  "lines_inm [] = None"
| "lines_inm (l # ls) = (if has_name l H_INM then Some (cstr (dropWhile blank (drop 14 l))) else lines_inm ls)"

lemma name_lengths [simp]: "length H_LENGTH = 15" "length H_TRANSFER = 18" "length H_INM = 14"
  by (simp_all add: H_LENGTH_def H_TRANSFER_def H_INM_def)

lemma header_value_at: "at buf i l \<Longrightarrow> header_value buf i (i + length l) name = (if has_name l name then i + length name else 0)"
proof (induction name arbitrary: i l)
  case (Cons c name)
  show ?case
  proof (cases l)
    case (Cons x l')
    then have "buf ! i = x" "at buf (Suc i) l'" using Cons.prems by simp_all
    then show ?thesis using Cons.IH [of "Suc i" l'] Cons by (simp add: has_name_def)
  qed (simp add: has_name_def)
qed (simp add: has_name_def)

lemma skip_blanks_at: "at buf i u \<Longrightarrow> skip_blanks buf i (i + length u) = i + length (takeWhile blank u)"
proof (induction u arbitrary: i)
  case (Cons c u)
  then show ?case using Cons.IH [of "Suc i"] by (subst skip_blanks.simps) (auto simp: blank_def [of c])
qed (subst skip_blanks.simps, simp)

lemma cl_digits_at:
  "at buf i u \<Longrightarrow> cl_digits buf i (i + length u) v n = (i + length (takeWhile is_dec u), sat_num v (takeWhile is_dec u), n + length (takeWhile is_dec u))"
proof (induction u arbitrary: i v n)
  case (Cons c u)
  then show ?case using Cons.IH [of "Suc i"] by (subst cl_digits.simps) simp
qed (subst cl_digits.simps, simp)

lemma at_dropWhile: "at buf i u \<Longrightarrow> at buf (i + length (takeWhile P u)) (dropWhile P u)"
  using at_append [of buf i "takeWhile P u" "dropWhile P u"] by simp

lemma rest_length: "length (takeWhile P u) + length (dropWhile P u) = length u"
  by (metis length_append takeWhile_dropWhile_id)

lemma length_value_at:
  assumes "at buf i t" and "eol = i + length t"
  shows "(let (i1, v', n) = cl_digits buf (skip_blanks buf i eol) eol v 0; i2 = skip_blanks buf i1 eol in if n = 0 \<or> i2 \<noteq> eol then None else Some v') =
    length_value v t"
proof -
  let ?u = "dropWhile blank t"
  let ?i = "i + length (takeWhile blank t)"
  let ?d = "takeWhile is_dec ?u" and ?r = "dropWhile is_dec ?u"
  have u: "at buf ?i ?u" "eol = ?i + length ?u" using at_dropWhile [OF assms(1)] rest_length [of blank t] assms(2) by simp_all
  have r: "at buf (?i + length ?d) ?r" "eol = ?i + length ?d + length ?r" using at_dropWhile [OF u(1)] rest_length [of is_dec ?u] u(2) by simp_all
  have s: "skip_blanks buf i eol = ?i" using skip_blanks_at [OF assms(1)] assms(2) by simp
  have c: "cl_digits buf ?i eol v 0 = (?i + length ?d, sat_num v ?d, length ?d)" using cl_digits_at [OF u(1), of v 0] u(2) by simp
  have "skip_blanks buf (?i + length ?d) eol = ?i + length ?d + length (takeWhile blank ?r)" using skip_blanks_at [OF r(1)] r(2) by simp
  then have "skip_blanks buf (?i + length ?d) eol = eol \<longleftrightarrow> length (dropWhile blank ?r) = 0" using r(2) rest_length [of blank ?r] by linarith
  then have "skip_blanks buf (?i + length ?d) eol = eol \<longleftrightarrow> dropWhile blank ?r = []" by (simp only: length_0_conv)
  then show ?thesis by (auto simp: s c length_value_def Let_def)
qed

lemma content_length_at:
  "\<forall>l\<in>set ls. no_cr l \<Longrightarrow> at buf i (ended ls) \<Longrightarrow> content_length buf i (i + length (ended ls)) v seen = lines_length ls v seen"
proof (induction ls arbitrary: i v seen)
  case Nil
  then show ?case by (subst content_length.simps) simp
next
  case (Cons l ls)
  define to where "to = i + length (ended (l # ls))"
  let ?e = "i + length l"
  have a: "no_cr l" "at buf i l" "at buf i (l @ crlf)" "i < to" using Cons.prems by (simp_all add: to_def)
  have e: "line_end buf i to = ?e" by (rule line_end_at [OF a(1,3)]) (simp add: to_def)
  have ih: "content_length buf (?e + 2) to v seen = lines_length ls v seen" for v seen
    using Cons.IH [of "?e + 2"] Cons.prems by (simp add: to_def add.assoc)
  have h: "header_value buf i ?e H_LENGTH = (if has_name l H_LENGTH then i + 15 else 0)"
      "header_value buf i ?e H_TRANSFER = (if has_name l H_TRANSFER then i + 18 else 0)"
    using header_value_at [OF a(2)] by simp_all
  have lv: "has_name l H_LENGTH \<Longrightarrow> at buf (i + 15) (drop 15 l) \<and> ?e = i + 15 + length (drop 15 l)"
  proof -
    assume "has_name l H_LENGTH"
    then have "15 \<le> length l" by (simp add: has_name_def)
    then show ?thesis using a(2) at_append [of buf i "take 15 l" "drop 15 l"] by simp
  qed
  have step: "content_length buf i to v seen =
      (if has_name l H_TRANSFER then None
       else if has_name l H_LENGTH then
         if seen then None
         else let (i1, v', n) = cl_digits buf (skip_blanks buf (i + 15) ?e) ?e v 0; i2 = skip_blanks buf i1 ?e
              in if n = 0 \<or> i2 \<noteq> ?e then None else lines_length ls v' True
       else lines_length ls v seen)"
    by (subst content_length.simps)
      (cases "has_name l H_TRANSFER"; cases "has_name l H_LENGTH"; cases seen; simp add: e h ih ih [simplified] a(4) Let_def split_beta)
  have "content_length buf i to v seen = lines_length (l # ls) v seen"
  proof (cases "has_name l H_LENGTH \<and> \<not> seen")
    case True
    from length_value_at [of buf "i + 15" "drop 15 l" ?e v] lv True show ?thesis unfolding step
      by (auto simp: Let_def split_beta split: if_splits option.splits)
  qed (auto simp: step)
  then show ?case by (simp add: to_def)
qed

text \<open>The If-None-Match view, and the one byte of the buffer its search may change.\<close>

lemma cstr_at: "at buf i t \<Longrightarrow> i + length t < length buf \<Longrightarrow> buf ! (i + length t) = CHR 0x00 \<Longrightarrow> cstr (drop i buf) = cstr t"
proof (induction t arbitrary: i)
  case Nil
  then show ?case by (simp add: cstr_def Cons_nth_drop_Suc [symmetric])
next
  case (Cons c t)
  then have "cstr (drop (Suc i) buf) = cstr t" by simp
  then show ?case using Cons.prems by (simp add: cstr_def Cons_nth_drop_Suc [symmetric])
qed

lemma if_none_match_at:
  assumes "\<forall>l\<in>set ls. no_cr l" and "at buf i (ended ls)"
  shows "snd (if_none_match buf i (i + length (ended ls))) = lines_inm ls \<and>
    (fst (if_none_match buf i (i + length (ended ls))) = buf \<or>
     (\<exists>e. i \<le> e \<and> e < i + length (ended ls) \<and> fst (if_none_match buf i (i + length (ended ls))) = buf[e := CHR 0x00]))"
  using assms
proof (induction ls arbitrary: i)
  case Nil
  then show ?case by (subst if_none_match.simps) (simp add: if_none_match.simps)
next
  case (Cons l ls)
  define to where "to = i + length (ended (l # ls))"
  let ?e = "i + length l"
  have a: "no_cr l" "at buf i l" "at buf i (l @ crlf)" "i < to" "?e < to" "Suc ?e < length buf" using Cons.prems by (simp_all add: to_def)
  have e: "line_end buf i to = ?e" by (rule line_end_at [OF a(1,3)]) (simp add: to_def)
  have h: "header_value buf i ?e H_INM = (if has_name l H_INM then i + 14 else 0)" using header_value_at [OF a(2), of H_INM] by simp
  show ?case
  proof (cases "has_name l H_INM")
    case True
    then have l: "14 \<le> length l" by (simp add: has_name_def)
    let ?v = "drop 14 l" and ?b = "buf[?e := CHR 0x00]"
    have v: "at buf (i + 14) ?v" using a(2) l at_append [of buf i "take 14 l" ?v] by simp
    have s: "skip_blanks buf (i + 14) ?e = i + 14 + length (takeWhile blank ?v)" using skip_blanks_at [OF v] l by simp
    let ?j = "i + 14 + length (takeWhile blank ?v)"
    have j: "?j + length (dropWhile blank ?v) = ?e" using rest_length [of blank ?v] l by simp
    have "at ?b ?j (dropWhile blank ?v) = at buf ?j (dropWhile blank ?v)" by (rule at_same) (use j in auto)
    then have q1: "at ?b ?j (dropWhile blank ?v)" using at_dropWhile [OF v, of blank] by simp
    have q2: "?j + length (dropWhile blank ?v) < length ?b" "?b ! (?j + length (dropWhile blank ?v)) = CHR 0x00" unfolding j using a(6) by simp_all
    have "cstr (drop ?j ?b) = cstr (dropWhile blank ?v)" by (rule cstr_at [OF q1 q2])
    then have "if_none_match buf i to = (?b, lines_inm (l # ls))"
      by (subst if_none_match.simps) (simp add: e h True a(4) s Let_def)
    then show ?thesis using a(5) unfolding to_def [symmetric] by (intro conjI disjI2 exI [of _ ?e]) simp_all
  next
    case False
    have r: "if_none_match buf i to = if_none_match buf (?e + 2) to"
      by (subst if_none_match.simps) (simp add: e h False a(4) Let_def)
    have t: "to = ?e + 2 + length (ended ls)" by (simp add: to_def)
    have "\<forall>l\<in>set ls. no_cr l" "at buf (?e + 2) (ended ls)" using Cons.prems by (simp_all add: add.assoc)
    from Cons.IH [OF this] have "snd (if_none_match buf (?e + 2) to) = lines_inm ls"
        "fst (if_none_match buf (?e + 2) to) = buf \<or> (\<exists>e. ?e + 2 \<le> e \<and> e < to \<and> fst (if_none_match buf (?e + 2) to) = buf[e := CHR 0x00])"
      unfolding t [symmetric] by blast+
    moreover have "i \<le> e" if "?e + 2 \<le> e" for e using that by simp
    ultimately show ?thesis unfolding to_def [symmetric] r using False by (simp only: lines_inm.simps if_False) blast
  qed
qed

section \<open>The request line\<close>

lemma takeWhile_other: "c \<notin> set a \<Longrightarrow> takeWhile (\<lambda>x. x \<noteq> c) a = a"
  by (induction a) auto

lemma strchr_found: "c \<notin> set a \<Longrightarrow> strchr c (a @ c # b) = Some (length a)"
  by (simp add: strchr_def takeWhile_tail takeWhile_other)

lemma strchr_split: "strchr c t = (if c \<in> set t then Some (length (takeWhile (\<lambda>x. x \<noteq> c) t)) else None)"
proof (cases "c \<in> set t")
  case True
  then obtain a b where t: "t = a @ c # b" "c \<notin> set a" by (metis split_list_first)
  have "strchr c t = Some (length a)" unfolding t(1) by (rule strchr_found [OF t(2)])
  moreover have "takeWhile (\<lambda>x. x \<noteq> c) t = a" using t by (simp add: takeWhile_tail takeWhile_other)
  ultimately show ?thesis using True by simp
qed (simp add: strchr_def takeWhile_other)

definition valid_line :: "string \<Rightarrow> string \<Rightarrow> string \<Rightarrow> bool" where
  "valid_line meth target ver \<longleftrightarrow> meth \<noteq> [] \<and> list_all is_upper meth \<and> target \<noteq> [] \<and> hd target = CHR ''/'' \<and>
     CHR '' '' \<notin> set target \<and> CHR 0x00 \<notin> set target \<and> (ver = ''HTTP/1.1'' \<or> ver = ''HTTP/1.0'')"

definition line_of :: "string \<Rightarrow> string \<Rightarrow> string \<Rightarrow> string" where
  "line_of meth target ver = meth @ '' '' @ target @ '' '' @ ver"

lemma upper_chars: "list_all is_upper m \<Longrightarrow> CHR '' '' \<notin> set m \<and> CHR 0x00 \<notin> set m"
  by (auto simp: list_all_iff is_upper_def)

lemma parse_line_at:
  assumes "valid_line meth target ver" and "at buf 0 (line_of meth target ver)"
  shows "snd (parse_request_line buf (length (line_of meth target ver))) =
      Some (meth, takeWhile (\<lambda>c. c \<noteq> CHR ''?'') target, tl (dropWhile (\<lambda>c. c \<noteq> CHR ''?'') target)) \<and>
    (\<forall>j>length (line_of meth target ver). fst (parse_request_line buf (length (line_of meth target ver))) ! j = buf ! j)"
proof -
  let ?l = "line_of meth target ver" and ?k = "length meth"
  have m: "CHR '' '' \<notin> set meth" "CHR 0x00 \<notin> set meth" "meth \<noteq> []" "list_all is_upper meth" and t: "CHR '' '' \<notin> set target" "CHR 0x00 \<notin> set target"
      "target \<noteq> []" "hd target = CHR ''/''" and v: "ver = ''HTTP/1.1'' \<or> ver = ''HTTP/1.0''"
    using assms(1) upper_chars [of meth] by (auto simp: valid_line_def)
  have l: "take (length ?l) buf = ?l" using assms(2) at_take [of buf 0 ?l] by simp
  have z: "CHR 0x00 \<notin> set ?l" using m t v by (auto simp: line_of_def)
  have s1: "strchr (CHR '' '') ?l = Some ?k" using strchr_found [OF m(1)] by (simp add: line_of_def)
  have d: "drop (?k + 1) ?l = target @ '' '' @ ver" "take ?k ?l = meth" by (simp_all add: line_of_def)
  have s2: "strchr (CHR '' '') (drop (?k + 1) ?l) = Some (length target)" using strchr_found [OF t(1)] unfolding d by simp
  have d2: "take (length target) (drop (?k + 1) ?l) = target" "drop (?k + 1 + length target + 1) ?l = ver"
    using d(1) by (simp_all add: line_of_def)
  have n: "length ?l = ?k + 1 + length target + 1 + length ver" by (simp add: line_of_def)
  define g where "g = length (takeWhile (\<lambda>c. c \<noteq> CHR ''?'') target)"
  have q: "drop (g + 1) target = tl (dropWhile (\<lambda>c. c \<noteq> CHR ''?'') target)" "take g target = takeWhile (\<lambda>c. c \<noteq> CHR ''?'') target"
    unfolding g_def by (simp_all add: dropWhile_eq_drop drop_Suc tl_drop takeWhile_eq_take [symmetric])
  have tq: "g \<le> length target" unfolding g_def by (rule length_takeWhile_le)
  have p: "parse_request_line buf (length ?l) =
      (let b = ((buf[length ?l := CHR 0x00])[?k := CHR 0x00])[?k + 1 + length target := CHR 0x00] in
       case strchr (CHR ''?'') target of None \<Rightarrow> (b, Some (meth, target, []))
       | Some q \<Rightarrow> (b[?k + 1 + q := CHR 0x00], Some (meth, take q target, drop (q + 1) target)))"
  proof -
    have c: "(?k = 0 \<or> \<not> list_all is_upper meth) = False"
        "(target = [] \<or> hd target \<noteq> CHR ''/'' \<or> ver \<noteq> ''HTTP/1.1'' \<and> ver \<noteq> ''HTTP/1.0'') = False" using m t v by auto
    show ?thesis by (simp only: parse_request_line_def Let_def l z s1 s2 d(2) d2 c option.case if_False)
  qed
  show ?thesis
  proof (cases "CHR ''?'' \<in> set target")
    case True
    then have "strchr (CHR ''?'') target = Some g" by (simp add: strchr_split g_def)
    then show ?thesis using n tq unfolding p by (simp add: Let_def q [symmetric])
  next
    case False
    then have f: "strchr (CHR ''?'') target = None" "takeWhile (\<lambda>c. c \<noteq> CHR ''?'') target = target" "dropWhile (\<lambda>c. c \<noteq> CHR ''?'') target = []"
      using takeWhile_other [OF False] by (auto simp: strchr_split)
    show ?thesis using n unfolding p f by (simp add: Let_def)
  qed
qed

section \<open>Delivery\<close>

definition good_request :: "string \<Rightarrow> string \<Rightarrow> string \<Rightarrow> string list \<Rightarrow> string \<Rightarrow> bool" where
  "good_request meth target ver lines body \<longleftrightarrow> valid_line meth target ver \<and> no_cr target \<and> (\<forall>l\<in>set lines. no_cr l \<and> l \<noteq> []) \<and>
     lines_length lines 0 False = Some (length body) \<and> length (head_of (line_of meth target ver # lines)) + length body \<le> NET_HTTP_REQ_MAX"

definition request_text :: "string \<Rightarrow> string \<Rightarrow> string \<Rightarrow> string list \<Rightarrow> string \<Rightarrow> string" where
  "request_text meth target ver lines body = head_of (line_of meth target ver # lines) @ body"

definition request_of :: "string \<Rightarrow> string \<Rightarrow> string list \<Rightarrow> string \<Rightarrow> http_req" where
  "request_of meth target lines body =
     \<lparr>rq_method = meth, rq_path = takeWhile (\<lambda>c. c \<noteq> CHR ''?'') target, rq_query = tl (dropWhile (\<lambda>c. c \<noteq> CHR ''?'') target),
      rq_body = body, rq_resume = False, rq_inm = lines_inm lines\<rparr>"

text \<open>The bytes a poll receives, every receive successful.\<close>

primrec rx_bytes :: "http_rx \<Rightarrow> string" where
  "rx_bytes (Rx b) = b"
| "rx_bytes Rx_err = []"

definition delivered :: "http_port \<Rightarrow> string" where
  "delivered po = concat (map rx_bytes (np_rx po))"

definition clean :: "http_port \<Rightarrow> bool" where
  "clean po \<longleftrightarrow> np_rx po \<noteq> [] \<and> list_all (\<lambda>x. rx_bytes x \<noteq> []) (np_rx po)"

fun is_req :: "http_eff \<Rightarrow> bool" where
  "is_req (Hf_request q) = True"
| "is_req _ = False"

lemma memcpy_compose: "pos + length a \<le> length buf \<Longrightarrow> memcpy_at (memcpy_at buf pos a) (pos + length a) b = memcpy_at buf pos (a @ b)"
  by (cases a) (auto simp: memcpy_at_def min_def add_ac)

lemma recv_all:
  assumes "list_all (\<lambda>x. rx_bytes x \<noteq> []) rx" and "open_inv s" and "h_len s + length (concat (map rx_bytes rx)) \<le> NET_HTTP_REQ_MAX"
  shows "recv_loop rx now s = (s\<lparr>h_buf := memcpy_at (h_buf s) (h_len s) (concat (map rx_bytes rx)), h_len := h_len s + length (concat (map rx_bytes rx)),
    h_last := if rx = [] then h_last s else now\<rparr>, False)"
  using assms
proof (induction rx arbitrary: s)
  case Nil
  then show ?case by (simp add: memcpy_at_def)
next
  case (Cons x rx)
  then obtain b where x: "x = Rx b" "b \<noteq> []" by (cases x) simp_all
  have l: "h_len s < NET_HTTP_REQ_MAX" "take (NET_HTTP_REQ_MAX - h_len s) b = b" using Cons.prems(3) x by (cases b; simp)+
  let ?s = "s\<lparr>h_buf := memcpy_at (h_buf s) (h_len s) b, h_len := h_len s + length b, h_last := now\<rparr>"
  have "open_inv ?s" using Cons.prems(2,3) x by (auto simp: open_inv_def memcpy_at_def)
  then have "recv_loop rx now ?s = (?s\<lparr>h_buf := memcpy_at (h_buf ?s) (h_len ?s) (concat (map rx_bytes rx)), h_len := h_len ?s + length (concat (map rx_bytes rx)),
      h_last := if rx = [] then h_last ?s else now\<rparr>, False)"
    using Cons.prems x by (intro Cons.IH) (simp_all add: add.assoc)
  moreover have "h_len s + length b \<le> length (h_buf s)" using Cons.prems(2,3) x by (simp add: open_inv_def)
  ultimately show ?case using x l by (simp add: Let_def memcpy_compose add.assoc)
qed

lemma at_memcpy: "at buf 0 t \<Longrightarrow> length t + length c \<le> length buf \<Longrightarrow> at (memcpy_at buf (length t) c) 0 (t @ c)"
proof -
  assume "at buf 0 t" "length t + length c \<le> length buf"
  then have "memcpy_at buf (length t) c = t @ c @ drop (length t + length c) buf" by (simp add: memcpy_at_def at_take)
  then show ?thesis unfolding at_take by simp
qed

lemma pump_loop_no_req: "filter is_req (fst (snd (pump_loop tx now s))) = []"
  by (induction tx arbitrary: s) (simp_all add: Let_def split_beta)

lemma respond_no_req: "filter is_req (snd (respond po r now s)) = []"
  by (simp add: respond_def pump_def Let_def split_beta pump_loop_no_req close_conn_def)

lemma answer_req: "filter is_req (snd (answer po req now s)) = [Hf_request req]"
  by (simp add: answer_def Let_def split_beta respond_no_req respond_error_def split: verdict.split option.split)

text \<open>
  A connection that has received the first \<open>k\<close> bytes of a request and not all of it.
\<close>

definition reading :: "string list \<Rightarrow> string \<Rightarrow> nat \<Rightarrow> http \<Rightarrow> bool" where
  "reading ls body k s \<longleftrightarrow> open_inv s \<and> h_fd s \<ge> 0 \<and> h_lfd s \<ge> 0 \<and> \<not> h_sending s \<and> \<not> h_waiting s \<and> h_len s = k \<and>
     at (h_buf s) 0 (take k (head_of ls @ body)) \<and> h_head_len s = (if k < length (head_of ls) then 0 else length (head_of ls)) \<and>
     (length (head_of ls) \<le> k \<longrightarrow> h_body_len s = length body)"

lemma scan_head_at:
  assumes ls: "ls = l0 # lines" "\<forall>l\<in>set ls. no_cr l \<and> l \<noteq> []" and cl: "lines_length lines 0 False = Some (length body)"
    and fit: "length (head_of ls) + length body \<le> NET_HTTP_REQ_MAX" and o: "open_inv s"
    and b: "at (h_buf s) 0 (take (h_len s) (head_of ls @ x))"
    and h: "h_head_len s = 0 \<or> h_head_len s = length (head_of ls) \<and> h_body_len s = length body \<and> length (head_of ls) \<le> h_len s"
  shows "\<exists>bl. scan_head s = Inr (s\<lparr>h_head_len := if h_len s < length (head_of ls) then 0 else length (head_of ls), h_body_len := bl\<rparr>) \<and>
    (length (head_of ls) \<le> h_len s \<longrightarrow> bl = length body)"
proof -
  have hp: "length (head_of ls) \<noteq> 0" by (simp add: head_of_def)
  show ?thesis
  proof (cases "h_head_len s = 0")
    case False
    then have "scan_head s = Inr (s\<lparr>h_head_len := length (head_of ls), h_body_len := length body\<rparr>)" using h by (simp add: scan_head_def)
    then show ?thesis using h False by auto
  next
    case True
    show ?thesis
    proof (cases "h_len s < length (head_of ls)")
      case l: True
      have "find_head_end s = 0"
        by (rule head_end_missing [OF ls(2)]) (use l b o in \<open>simp_all add: open_inv_def\<close>)
      then have "scan_head s = Inr s" using True l fit by (simp add: scan_head_def)
      moreover have "s = s\<lparr>h_head_len := 0, h_body_len := h_body_len s\<rparr>" using True by simp
      ultimately have "scan_head s = Inr (s\<lparr>h_head_len := 0, h_body_len := h_body_len s\<rparr>)" by simp
      then show ?thesis using l by (intro exI [of _ "h_body_len s"]) simp
    next
      case l: False
      have hb: "at (h_buf s) 0 (head_of ls)" using b l by simp
      have f: "find_head_end s = length (head_of ls)" by (rule head_end_found [OF ls(2) _ hb]) (use l ls(1) in simp_all)
      have e: "request_line_end (h_buf s) = length l0"
        by (rule request_line_end_at) (use ls hb in \<open>simp_all add: head_of_def\<close>)
      have c: "at (h_buf s) (length l0 + 2) (ended lines)" using hb ls(1) by (simp add: head_of_def)
      have t: "length (head_of ls) - 2 = length l0 + 2 + length (ended lines)" using ls(1) by (simp add: head_of_def)
      have "content_length (h_buf s) (length l0 + 2) (length l0 + 2 + length (ended lines)) 0 False = Some (length body)"
        using content_length_at [OF _ c, of 0 False] ls cl by simp
      then have "scan_head s = Inr (s\<lparr>h_head_len := length (head_of ls), h_body_len := length body\<rparr>)"
        using True fit by (simp only: scan_head_def f e t hp Let_def if_False simp_thms option.case) simp
      then show ?thesis using l by auto
    qed
  qed
qed

lemma line_of_fine: "valid_line meth target ver \<Longrightarrow> no_cr target \<Longrightarrow> no_cr (line_of meth target ver) \<and> line_of meth target ver \<noteq> []"
  by (auto simp: valid_line_def line_of_def no_cr_def list_all_iff is_upper_def)

lemma dispatch_at:
  assumes g: "good_request meth target ver lines body" and o: "open_inv s"
    and b: "at (h_buf s) 0 (request_text meth target ver lines body)"
    and h: "h_head_len s = length (head_of (line_of meth target ver # lines))" "h_body_len s = length body"
  shows "filter is_req (snd (dispatch po now s)) = [Hf_request (request_of meth target lines body)]"
proof -
  let ?l = "line_of meth target ver"
  let ?i = "length ?l + 2"
  have v: "valid_line meth target ver" "no_cr ?l" "\<forall>l\<in>set lines. no_cr l" using g line_of_fine by (auto simp: good_request_def)
  have a: "at (h_buf s) 0 (?l @ crlf)" "at (h_buf s) ?i (ended lines)" "at (h_buf s) (h_head_len s) body" "at (h_buf s) 0 ?l"
    using b h(1) by (simp_all add: request_text_def head_of_def add.assoc)
  have e: "request_line_end (h_buf s) = length ?l" by (rule request_line_end_at [OF v(2) a(1)])
  have t: "h_head_len s - 2 = ?i + length (ended lines)" using h(1) by (simp add: head_of_def)
  obtain b1 inm where i: "if_none_match (h_buf s) ?i (?i + length (ended lines)) = (b1, inm)" by (cases "if_none_match (h_buf s) ?i (?i + length (ended lines))")
  have n: "inm = lines_inm lines" "b1 = h_buf s \<or> (\<exists>e. ?i \<le> e \<and> e < ?i + length (ended lines) \<and> b1 = (h_buf s)[e := CHR 0x00])"
    using if_none_match_at [OF v(3) a(2)] i by auto
  have b1: "length b1 = length (h_buf s)" "at b1 0 ?l" "at b1 (h_head_len s) body"
  proof -
    show l: "length b1 = length (h_buf s)" using n(2) by auto
    have "at b1 0 ?l = at (h_buf s) 0 ?l" by (rule at_same) (use n(2) l in auto)
    then show "at b1 0 ?l" using a(4) by simp
    have "?i + length (ended lines) \<le> h_head_len s" using t h(1) by (simp add: head_of_def)
    then have "at b1 (h_head_len s) body = at (h_buf s) (h_head_len s) body" by (intro at_same) (use n(2) l in auto)
    then show "at b1 (h_head_len s) body" using a(3) by simp
  qed
  obtain b2 r where p: "parse_request_line b1 (length ?l) = (b2, r)" by (cases "parse_request_line b1 (length ?l)")
  have r: "r = Some (meth, takeWhile (\<lambda>c. c \<noteq> CHR ''?'') target, tl (dropWhile (\<lambda>c. c \<noteq> CHR ''?'') target))"
      "\<forall>j>length ?l. b2 ! j = b1 ! j" "length b2 = length b1"
    using parse_line_at [OF v(1) b1(2)] p parse_line_length [of b1 "length ?l"] by simp_all
  let ?b3 = "b2[h_head_len s + h_body_len s := CHR 0x00]"
  have hl: "length ?l < h_head_len s" using h(1) by (simp add: head_of_def)
  have "at ?b3 (h_head_len s) body = at b1 (h_head_len s) body" by (rule at_same) (use r(2,3) hl h(2) in auto)
  then have body: "take (h_body_len s) (drop (h_head_len s) ?b3) = body" using b1(3) h(2) by (simp add: at_take)
  have "dispatch po now s = answer po (request_of meth target lines body) now
      (s\<lparr>h_buf := ?b3, h_route := take 40 (takeWhile (\<lambda>c. c \<noteq> CHR ''?'') target)\<rparr>)"
    unfolding dispatch_def Let_def e t i prod.case p r(1) option.case request_of_def body n(1) ..
  then show ?thesis by (simp add: answer_req)
qed

text \<open>One poll that receives bytes of a request: it goes on reading, or the request is complete and reaches the handler.\<close>

lemma poll_reading:
  assumes g: "good_request meth target ver lines body" and ls: "ls = line_of meth target ver # lines" and r: "reading ls body k s"
    and c: "clean po" and fit: "k + length (delivered po) \<le> NET_HTTP_REQ_MAX" and k: "k < length (head_of ls @ body)"
    and u: "take k (head_of ls @ body) @ delivered po = take (k + length (delivered po)) (head_of ls @ body @ x)"
  shows "if k + length (delivered po) < length (head_of ls @ body)
     then reading ls body (k + length (delivered po)) (fst (poll_conn po now s)) \<and> snd (poll_conn po now s) = []
     else filter is_req (snd (poll_conn po now s)) = [Hf_request (request_of meth target lines body)]"
proof -
  let ?d = "delivered po" and ?H = "length (head_of ls)"
  let ?n = "k + length ?d"
  let ?s = "s\<lparr>h_buf := memcpy_at (h_buf s) k ?d, h_len := ?n, h_last := now\<rparr>"
  have o: "open_inv s" "h_len s = k" "at (h_buf s) 0 (take k (head_of ls @ body))" using r by (simp_all add: reading_def)
  have rv: "recv_loop (np_rx po) now s = (?s, False)"
    using recv_all [of "np_rx po" s now] c fit o(1,2) by (simp add: clean_def delivered_def)
  have lk: "length (take k (head_of ls @ body)) = k" using k by (simp del: take_append)
  have m: "at (memcpy_at (h_buf s) k ?d) 0 (take k (head_of ls @ body) @ ?d)"
    using at_memcpy [OF o(3), of ?d] fit o(1) unfolding lk by (simp del: take_append at_append add: open_inv_def)
  have b: "at (h_buf ?s) 0 (take ?n (head_of ls @ body @ x))" using m unfolding u by (simp del: take_append at_append)
  have os: "open_inv ?s" using o(1) fit by (auto simp: open_inv_def memcpy_at_def)
  have lines: "\<forall>l\<in>set ls. no_cr l \<and> l \<noteq> []" "lines_length lines 0 False = Some (length body)" "?H + length body \<le> NET_HTTP_REQ_MAX"
    using g ls line_of_fine by (auto simp: good_request_def)
  have hl: "h_head_len ?s = 0 \<or> h_head_len ?s = ?H \<and> h_body_len ?s = length body \<and> ?H \<le> h_len ?s"
    using r by (auto simp: reading_def)
  from scan_head_at [OF ls lines os _ hl, of "body @ x"] b obtain bl where
    sc: "scan_head ?s = Inr (?s\<lparr>h_head_len := if ?n < ?H then 0 else ?H, h_body_len := bl\<rparr>)" "?H \<le> ?n \<longrightarrow> bl = length body" by auto
  let ?t = "?s\<lparr>h_head_len := if ?n < ?H then 0 else ?H, h_body_len := bl\<rparr>"
  have H: "?H \<noteq> 0" by (simp add: head_of_def)
  have ph: "poll_conn po now s = poll_read po now s" using r by (simp add: poll_conn_def reading_def)
  show ?thesis
  proof (cases "?n < length (head_of ls @ body)")
    case True
    have p: "poll_conn po now s = (?t, [])"
      using True sc by (auto simp: ph poll_read_def rv Let_def)
    have "take ?n (head_of ls @ body @ x) = take ?n (head_of ls @ body)" using True by (simp add: take_append)
    then have "reading ls body ?n ?t" using r b os sc(2) by (simp add: reading_def open_inv_def)
    then show ?thesis using True p by simp
  next
    case False
    then have n: "?H + length body \<le> ?n" "\<not> ?n < ?H" by simp_all
    have ph2: "poll_conn po now s = dispatch po now ?t" using n sc H by (simp add: ph poll_read_def rv)
    have "at (h_buf ?t) 0 (request_text meth target ver lines body)"
      using b n ls by (simp add: request_text_def take_append)
    moreover have "open_inv ?t" using os by (simp add: open_inv_def)
    ultimately have "filter is_req (snd (dispatch po now ?t)) = [Hf_request (request_of meth target lines body)]"
      using dispatch_at [OF g, of ?t] n ls sc(2) by simp
    then show ?thesis using False ph2 by simp
  qed
qed

lemma poll_open: "h_lfd s \<ge> 0 \<Longrightarrow> h_fd s \<ge> 0 \<Longrightarrow> cali_http_poll po now s = poll_conn po now s"
  by (simp add: cali_http_poll_def)

definition polls :: "(http_port \<times> u64) list \<Rightarrow> http_op list" where
  "polls ps = map (\<lambda>(po, now). Ho_poll po now) ps"

lemma run_reading:
  assumes g: "good_request meth target ver lines body" and ls: "ls = line_of meth target ver # lines"
  shows "ps \<noteq> [] \<Longrightarrow> \<forall>p\<in>set ps. clean (fst p) \<Longrightarrow> reading ls body k s \<Longrightarrow>
    take k (head_of ls @ body) @ concat (map (delivered \<circ> fst) ps) = head_of ls @ body @ x \<Longrightarrow>
    k + length (concat (map (delivered \<circ> fst) (butlast ps))) < length (head_of ls @ body) \<Longrightarrow>
    k + length (concat (map (delivered \<circ> fst) ps)) \<le> NET_HTTP_REQ_MAX \<Longrightarrow>
    filter is_req (snd (run http_step s (polls ps))) = [Hf_request (request_of meth target lines body)]"
proof (induction ps arbitrary: k s)
  case (Cons p ps)
  obtain po now where p: "p = (po, now)" by (cases p)
  let ?T = "head_of ls @ body" and ?d = "delivered po"
  have f: "h_lfd s \<ge> 0" "h_fd s \<ge> 0" using Cons.prems(3) by (simp_all add: reading_def)
  have k: "k < length ?T" using Cons.prems(5) by simp
  let ?u = "take k ?T @ ?d" and ?v = "concat (map (delivered \<circ> fst) ps)"
  have e: "?u @ ?v = head_of ls @ body @ x" using Cons.prems(4) p by (simp add: comp_def)
  have lu: "length ?u = k + length ?d" using k by simp
  have "take (length a) (a @ b) = a" for a b :: string by simp
  from this [of ?u ?v] have u: "?u = take (k + length ?d) (head_of ls @ body @ x)" unfolding e lu by (rule sym)
  have "k + length ?d \<le> NET_HTTP_REQ_MAX" "clean po" using Cons.prems(2,6) p by simp_all
  note step = poll_reading [OF g ls Cons.prems(3) this(2,1) k u, of now]
  show ?case
  proof (cases "ps = []")
    case True
    then have "length ?T \<le> k + length ?d" using e lu by (metis append_Nil2 concat.simps(1) le_add1 length_append list.simps(8) append_assoc)
    then show ?thesis using step f by (simp add: p polls_def True poll_open)
  next
    case False
    then have l: "k + length ?d < length ?T" "k + length ?d + length (concat (map (delivered \<circ> fst) (butlast ps))) < length ?T"
      using Cons.prems(5) p by (simp_all add: comp_def add.assoc)
    then have st: "reading ls body (k + length ?d) (fst (poll_conn po now s))" "snd (poll_conn po now s) = []" using step by simp_all
    have "take (k + length ?d) ?T = ?u" using u l(1) by (simp add: take_append)
    then have "filter is_req (snd (run http_step (fst (poll_conn po now s)) (polls ps))) = [Hf_request (request_of meth target lines body)]"
      using Cons.prems(2,6) e p l(2) by (intro Cons.IH [OF False _ st(1)]) (simp_all add: comp_def add.assoc)
    then show ?thesis using st(2) f by (simp add: p polls_def poll_open)
  qed
qed simp

lemma reading_accept:
  assumes "http_inv s" and "h_lfd s \<ge> 0" and "np_accept po \<ge> 0"
  shows "reading ls body 0 (accept_conn po now s)"
  using inv_open [OF assms(1)] assms(2,3) by (auto simp: reading_def accept_conn_def open_inv_def head_of_def)

section \<open>Properties\<close>

text \<open>
  C26. An idle server that accepts a connection and receives a well-formed request of at most 2048 bytes calls the
  handler exactly once for it, with the verb, path, query, body and If-None-Match value of the request, however the bytes are split over
  receives and polls, at whatever times the polls run and whatever bytes follow the request in the last one.
\<close>

theorem http_request_delivered:
  assumes "good_request meth target ver lines body" and "s = fst (run http_step http_reset es)" and "h_lfd s \<ge> 0" and "h_fd s < 0"
    and "ps \<noteq> []" and "np_accept (fst (hd ps)) \<ge> 0" and "\<forall>p\<in>set ps. clean (fst p)"
    and "concat (map (delivered \<circ> fst) ps) = request_text meth target ver lines body @ x"
    and "length (concat (map (delivered \<circ> fst) (butlast ps))) < length (request_text meth target ver lines body)"
    and "length (concat (map (delivered \<circ> fst) ps)) \<le> 2048"
  shows "filter is_req (snd (run http_step s (polls ps))) = [Hf_request (request_of meth target lines body)]"
proof -
  obtain po now qs where ps: "ps = (po, now) # qs" using assms(5) by (cases ps) auto
  let ?ls = "line_of meth target ver # lines"
  let ?a = "accept_conn po now s"
  have i: "http_inv s" using httpm.inv_run assms(2) by simp
  have r: "reading ?ls body 0 ?a" by (rule reading_accept [OF i assms(3)]) (use assms(6) ps in simp)
  have "filter is_req (snd (run http_step ?a (polls ps))) = [Hf_request (request_of meth target lines body)]"
    by (rule run_reading [OF assms(1) refl assms(5,7) r, of x]) (use assms(8-10) in \<open>simp_all add: request_text_def NET_HTTP_REQ_MAX_def\<close>)
  moreover have "cali_http_poll po now s = (fst (poll_conn po now ?a), Hf_open (np_accept po) # snd (poll_conn po now ?a))"
    using assms(3,4,6) ps by (simp add: cali_http_poll_def split_beta Let_def)
  moreover have "cali_http_poll po now ?a = poll_conn po now ?a" using r by (intro poll_open) (simp_all add: reading_def)
  ultimately show ?thesis by (simp add: ps polls_def)
qed

text \<open>A request in three pieces, the last with a byte behind it.\<close>

definition piece_port :: "string \<Rightarrow> http_port" where
  "piece_port b = \<lparr>np_accept = 4, np_rx = [Rx b], np_tx = [], np_handler = (\<lambda>_. H_unhandled)\<rparr>"

definition demo_lines :: "string list" where
  "demo_lines = [''Host: x'', ''Content-length:  2 '', ''If-None-Match: *'']"

definition demo_pieces :: "(http_port \<times> u64) list" where
  "demo_pieces = [(piece_port (''POST /a?b HTTP/1.1'' @ [CHR 0x0D]), 10), (piece_port ([CHR 0x0A] @ ended demo_lines @ [CHR 0x0D]), 9000),
     (piece_port ([CHR 0x0A] @ ''okG''), 9001)]"

theorem http_request_delivered_witness:
  "filter is_req (snd (run http_step (fst (run http_step http_reset [Ho_init 3])) (polls demo_pieces))) =
   [Hf_request \<lparr>rq_method = ''POST'', rq_path = ''/a'', rq_query = ''b'', rq_body = ''ok'', rq_resume = False, rq_inm = Some ''*''\<rparr>]"
proof -
  let ?s = "fst (run http_step http_reset [Ho_init 3])"
  have g: "good_request ''POST'' ''/a?b'' ''HTTP/1.1'' demo_lines ''ok''" by code_simp
  have r: "request_of ''POST'' ''/a?b'' demo_lines ''ok'' =
      \<lparr>rq_method = ''POST'', rq_path = ''/a'', rq_query = ''b'', rq_body = ''ok'', rq_resume = False, rq_inm = Some ''*''\<rparr>" by code_simp
  have l: "h_lfd ?s \<ge> 0" "h_fd ?s < 0" by (simp_all add: http_reset_def cali_http_init_def cali_http_stop_def)
  have p: "demo_pieces \<noteq> []" "np_accept (fst (hd demo_pieces)) \<ge> 0" "\<forall>p\<in>set demo_pieces. clean (fst p)" by code_simp+
  have c: "concat (map (delivered \<circ> fst) demo_pieces) = request_text ''POST'' ''/a?b'' ''HTTP/1.1'' demo_lines ''ok'' @ ''G''" by code_simp
  have n: "length (concat (map (delivered \<circ> fst) (butlast demo_pieces))) < length (request_text ''POST'' ''/a?b'' ''HTTP/1.1'' demo_lines ''ok'')"
      "length (concat (map (delivered \<circ> fst) demo_pieces)) \<le> 2048" by code_simp+
  from http_request_delivered [OF g refl l p c n] show ?thesis unfolding r .
qed

lemma pump_keeps:
  "h_status (fst (pump tx now s)) = h_status s" "h_out_head (fst (pump tx now s)) = h_out_head s" "h_out_body (fst (pump tx now s)) = h_out_body s"
  "h_sending (fst (pump tx now s)) = h_sending s"
proof -
  have "h_status (fst (pump_loop tx now s)) = h_status s \<and> h_out_head (fst (pump_loop tx now s)) = h_out_head s \<and>
      h_out_body (fst (pump_loop tx now s)) = h_out_body s \<and> h_sending (fst (pump_loop tx now s)) = h_sending s"
    by (induction tx arbitrary: s) (simp_all add: Let_def split_beta)
  then show "h_status (fst (pump tx now s)) = h_status s" "h_out_head (fst (pump tx now s)) = h_out_head s" "h_out_body (fst (pump tx now s)) = h_out_body s"
    "h_sending (fst (pump tx now s)) = h_sending s" by (simp_all add: pump_def Let_def split_beta close_conn_def)
qed

definition error_head :: "int \<Rightarrow> string" where
  "error_head status = (case head_text (plain_resp status (Some (reason status))) of Some t \<Rightarrow> t | None \<Rightarrow> [])"

lemma respond_error_queues:
  assumes "status \<in> {400, 404, 413, 431, 504}"
  shows "h_status (fst (respond_error po status now s)) = status" "h_out_head (fst (respond_error po status now s)) = error_head status"
    "h_out_body (fst (respond_error po status now s)) = reason status" "h_sending (fst (respond_error po status now s))"
proof -
  have h: "head_text (plain_resp status (Some (reason status))) = Some (error_head status)" using assms by (auto simp: error_head_def head_text_def plain_resp_def)
  have "length (error_head 400) < HEAD_OUT_MAX" "length (error_head 404) < HEAD_OUT_MAX" "length (error_head 413) < HEAD_OUT_MAX"
    "length (error_head 431) < HEAD_OUT_MAX" "length (error_head 504) < HEAD_OUT_MAX" by code_simp+
  then have l: "length (error_head status) < HEAD_OUT_MAX" using assms by auto
  have b: "rs_body (plain_resp status (Some (reason status))) = Some (reason status)" "rs_status (plain_resp status (Some (reason status))) = status"
    by (simp_all add: plain_resp_def)
  show "h_status (fst (respond_error po status now s)) = status" "h_out_head (fst (respond_error po status now s)) = error_head status"
    "h_out_body (fst (respond_error po status now s)) = reason status" "h_sending (fst (respond_error po status now s))"
    using h l b assms by (auto simp: respond_error_def respond_def pump_keeps Let_def split_beta)
qed

text \<open>
  A request head whose length is ambiguous or malformed (a Transfer-Encoding, two Content-Length lines, a
  Content-Length that is not a number between blanks), or announces more than the buffer holds, never reaches the handler: the poll that receives it
  queues the answer 400 in the first case and 413 in the second.
\<close>

theorem http_ambiguous_length_refused:
  assumes "\<forall>l\<in>set (l0 # lines). no_cr l \<and> l \<noteq> []" and "status = (if lines_length lines 0 False = None then 400 else 413)"
    and "case lines_length lines 0 False of None \<Rightarrow> True | Some n \<Rightarrow> n > 2048 - length (head_of (l0 # lines))"
    and "s = fst (run http_step http_reset es)" and "h_lfd s \<ge> 0" and "h_fd s < 0" and "np_accept po \<ge> 0" and "clean po"
    and "delivered po = head_of (l0 # lines) @ x" and "length (delivered po) \<le> 2048" and "cali_http_poll po now s = (s', e)"
  shows "filter is_req e = [] \<and> h_status s' = status \<and> h_out_head s' = error_head status \<and> h_out_body s' = reason status \<and> h_sending s'"
proof -
  let ?a = "accept_conn po now s" and ?d = "delivered po" and ?H = "head_of (l0 # lines)"
  let ?s = "?a\<lparr>h_buf := memcpy_at (h_buf ?a) 0 ?d, h_len := length ?d, h_last := now\<rparr>"
  have i: "http_inv s" using httpm.inv_run assms(4) by simp
  have o: "open_inv ?a" using inv_open [OF i] by (simp add: open_inv_def accept_conn_def)
  have rv: "recv_loop (np_rx po) now ?a = (?s, False)"
    using recv_all [of "np_rx po" ?a now] assms(8,10) o by (simp add: clean_def delivered_def accept_conn_def NET_HTTP_REQ_MAX_def)
  have "at (memcpy_at (h_buf ?a) 0 ?d) 0 ([] @ ?d)" using at_memcpy [of "h_buf ?a" "[]" ?d] assms(10) o by (simp add: open_inv_def NET_HTTP_REQ_MAX_def)
  then have hb: "at (h_buf ?s) 0 ?H" unfolding assms(9) by simp
  have f: "find_head_end ?s = length ?H" by (rule head_end_found [OF assms(1) _ hb]) (simp_all add: assms(9))
  have el: "request_line_end (h_buf ?s) = length l0" by (rule request_line_end_at) (use assms(1) hb in \<open>simp_all add: head_of_def\<close>)
  have c: "at (h_buf ?s) (length l0 + 2) (ended lines)" using hb by (simp add: head_of_def)
  have t: "length ?H - 2 = length l0 + 2 + length (ended lines)" by (simp add: head_of_def)
  have cl: "content_length (h_buf ?s) (length l0 + 2) (length l0 + 2 + length (ended lines)) 0 False = lines_length lines 0 False"
    using content_length_at [OF _ c, of 0 False] assms(1) by simp
  have z: "h_head_len ?s = 0" "length ?H \<noteq> 0" by (simp_all add: accept_conn_def head_of_def)
  have sc: "scan_head ?s = Inl status"
    using assms(2,3) unfolding scan_head_def z f el t cl Let_def
    by (cases "lines_length lines 0 False") (simp_all add: NET_HTTP_REQ_MAX_def head_of_def)
  have p: "poll_conn po now ?a = poll_read po now ?a" by (simp add: poll_conn_def accept_conn_def)
  have q: "poll_read po now ?a = respond_error po status now (?s\<lparr>h_head_len := find_head_end ?s\<rparr>)"
    by (simp only: poll_read_def rv Let_def prod.case sc sum.case)
  have r: "(s', e) = (fst (poll_read po now ?a), Hf_open (np_accept po) # snd (poll_read po now ?a))"
    using assms(5,6,7,11) p by (simp add: cali_http_poll_def split_beta Let_def)
  have "status \<in> {400, 404, 413, 431, 504}" using assms(2) by simp
  from respond_error_queues [OF this] show ?thesis using r q by (simp add: respond_error_def respond_no_req)
qed

theorem http_ambiguous_length_refused_witness:
  "filter is_req (snd (cali_http_poll (piece_port (head_of [''GET / HTTP/1.1'', ''Content-Length: 5'', ''content-length: 6''])) 7
     (fst (run http_step http_reset [Ho_init 3])))) = []"
proof -
  let ?s = "fst (run http_step http_reset [Ho_init 3])"
  let ?ls = "[''Content-Length: 5'', ''content-length: 6'']"
  let ?po = "piece_port (head_of (''GET / HTTP/1.1'' # ?ls))"
  have a: "\<forall>l\<in>set (''GET / HTTP/1.1'' # ?ls). no_cr l \<and> l \<noteq> []" by code_simp
  have b: "lines_length ?ls 0 False = None" by code_simp
  have l: "h_lfd ?s \<ge> 0" "h_fd ?s < 0" by (simp_all add: http_reset_def cali_http_init_def cali_http_stop_def)
  have p: "np_accept ?po \<ge> 0" "clean ?po" by code_simp+
  have d: "delivered ?po = head_of (''GET / HTTP/1.1'' # ?ls) @ []" "length (delivered ?po) \<le> 2048" by code_simp+
  obtain s' e where q: "cali_http_poll ?po 7 ?s = (s', e)" by (cases "cali_http_poll ?po 7 ?s")
  from http_ambiguous_length_refused [OF a refl _ refl l p d q] b show ?thesis unfolding q by simp
qed

end
