(* ===== verification/Http_Safety.thy ===== *)
theory Http_Safety
  imports Http_Request
begin

text \<open>
  The HTTP core over whole runs: the buffers and the wiped request, the time a connection can stay without progress, and the byte stream of a
  connection against the response that was queued for it.
\<close>

section \<open>The byte stream\<close>

text \<open>The bytes sent since the latest accept.\<close>

fun stream :: "string \<Rightarrow> http_eff list \<Rightarrow> string" where
  "stream acc [] = acc"
| "stream acc (Hf_open fd # es) = stream [] es"
| "stream acc (Hf_send b # es) = stream (acc @ b) es"
| "stream acc (_ # es) = stream acc es"

lemma stream_append: "stream acc (es @ fs) = stream (stream acc es) fs"
  by (induction acc es rule: stream.induct) simp_all

definition sent_so_far :: "http \<Rightarrow> string" where
  "sent_so_far s = (if h_sending s then take (h_out_off s) (h_out_head s @ h_out_body s) else [])"

lemma take_more: "take n xs @ take m (drop n xs) = take (n + m) xs"
  by (simp add: take_add)

lemma pump_loop_stream: "h_sending s \<Longrightarrow> stream (sent_so_far s) (fst (snd (pump_loop tx now s))) = sent_so_far (fst (pump_loop tx now s))"
proof (induction tx arbitrary: s)
  case (Cons r tx)
  let ?o = "h_out_off s" and ?all = "h_out_head s @ h_out_body s"
  let ?p = "if ?o < length (h_out_head s) then drop ?o (h_out_head s) else drop (?o - length (h_out_head s)) (h_out_body s)"
  let ?m = "min (nat r) (length ?p)"
  let ?s = "s\<lparr>h_out_off := ?o + ?m, h_last := now\<rparr>"
  have m: "take ?m ?p = take ?m (drop ?o ?all)" by (simp add: min_def)
  have "sent_so_far s @ take ?m ?p = take ?o ?all @ take ?m (drop ?o ?all)"
    unfolding m sent_so_far_def using Cons.prems by (simp only: if_True)
  also have "\<dots> = take (?o + ?m) ?all" by (rule take_more)
  also have "\<dots> = sent_so_far ?s" unfolding sent_so_far_def using Cons.prems by (simp del: take_append)
  finally have "stream (sent_so_far s @ take ?m ?p) (fst (snd (pump_loop tx now ?s))) = sent_so_far (fst (pump_loop tx now ?s))"
    using Cons.IH [of ?s] Cons.prems by simp
  then show ?case by (simp add: Let_def split_beta)
qed simp

lemma sent_close: "sent_so_far (fst (close_conn s)) = sent_so_far s" "stream acc (snd (close_conn s)) = acc"
  by (simp_all add: sent_so_far_def close_conn_def)

lemma pump_stream: "h_sending s \<Longrightarrow> stream (sent_so_far s) (snd (pump tx now s)) = sent_so_far (fst (pump tx now s))"
  using pump_loop_stream [of s tx now] by (simp add: pump_def Let_def split_beta stream_append sent_close)

lemma respond_stream: "\<not> h_sending s \<Longrightarrow> stream (sent_so_far s) (snd (respond po r now s)) = sent_so_far (fst (respond po r now s))"
  unfolding respond_def Let_def split_beta by (subst pump_stream [symmetric]) (simp_all add: sent_so_far_def)

definition streams :: "http \<Rightarrow> http \<times> http_eff list \<Rightarrow> bool" where
  "streams s x \<longleftrightarrow> stream (sent_so_far s) (snd x) = sent_so_far (fst x)"

lemma respond_streams: "\<not> h_sending s' \<Longrightarrow> \<not> h_sending s \<Longrightarrow> streams s (respond po r now s')"
  using respond_stream [of s' po r now] by (simp add: streams_def sent_so_far_def)

lemma answer_streams: "\<not> h_sending s' \<Longrightarrow> \<not> h_sending s \<Longrightarrow> streams s (answer po req now s')"
proof -
  assume a: "\<not> h_sending s'" "\<not> h_sending s"
  have "streams s (respond po r now (s'\<lparr>h_waiting := False\<rparr>))" for r by (rule respond_streams) (use a in simp_all)
  moreover have "streams s (s'\<lparr>h_req := q, h_waiting := True\<rparr>, [])" for q using a by (simp add: streams_def sent_so_far_def)
  ultimately show ?thesis
    by (simp add: answer_def Let_def split_beta streams_def respond_error_def split: verdict.split option.split)
qed

lemma recv_sending: "h_sending (fst (recv_loop rx now s)) = h_sending s"
  by (rule recv_keeps)

lemma poll_conn_streams: "streams s (poll_conn po now s)"
proof (cases "h_sending s")
  case True
  then show ?thesis using pump_stream [OF True] by (simp add: poll_conn_def streams_def)
next
  case s: False
  note e = respond_streams [OF _ s, folded respond_error_def]
  show ?thesis
  proof (cases "h_waiting s")
    case True
    then show ?thesis using s by (simp add: poll_conn_def poll_wait_def answer_streams respond_error_def respond_streams)
  next
    case False
    let ?r = "fst (recv_loop (np_rx po) now s)"
    have r: "\<not> h_sending ?r" using s by (simp add: recv_keeps)
    have "streams s (poll_read po now s)"
    proof (cases "scan_head ?r")
      case (Inl st)
      then show ?thesis using r s by (simp add: poll_read_def split_beta respond_error_def respond_streams)
    next
      case (Inr s2)
      then have k: "\<not> h_sending s2" using scan_head_keeps(3) r by simp
      have "streams s (dispatch po now s2)"
        using k s by (auto simp: dispatch_def Let_def split_beta respond_error_def intro!: respond_streams answer_streams split: option.split prod.split)
      moreover have "streams s (close_conn s2)" "streams s (s2, [])" using k s by (simp_all add: streams_def sent_so_far_def close_conn_def)
      ultimately show ?thesis by (simp add: poll_read_def split_beta Inr)
    qed
    then show ?thesis using s False by (simp add: poll_conn_def)
  qed
qed

lemma step_streams: "stream (sent_so_far s) (snd (http_step s e)) = sent_so_far (fst (http_step s e))"
proof (cases e)
  case (Ho_poll po now)
  have a: "sent_so_far (accept_conn po now s) = []" by (simp add: sent_so_far_def accept_conn_def)
  then show ?thesis using poll_conn_streams [of "accept_conn po now s" po now] poll_conn_streams [of s po now]
    by (simp add: Ho_poll cali_http_poll_def streams_def split_beta Let_def)
qed (auto simp: cali_http_init_def cali_http_stop_def Let_def split_beta stream_append sent_close sent_so_far_def close_conn_def)

section \<open>Progress\<close>

lemma pump_loop_alive: "\<not> snd (snd (pump_loop tx now s)) \<Longrightarrow> now - h_last (fst (pump_loop tx now s)) \<le> CALI_HTTP_IDLE_MS"
  by (induction tx arbitrary: s) (auto simp: Let_def split_beta blocked_def split: if_splits)

lemma pump_alive: "h_fd (fst (pump tx now s)) \<ge> 0 \<Longrightarrow> now - h_last (fst (pump tx now s)) \<le> CALI_HTTP_IDLE_MS"
  using pump_loop_alive [of tx now s] by (auto simp: pump_def Let_def split_beta close_conn_def split: if_splits)

lemma pump_sending: "h_sending s \<Longrightarrow> h_sending (fst (pump tx now s))"
  using pump_loop_fd(2) [of tx now s] by (simp add: pump_def Let_def split_beta close_conn_def)

text \<open>What a poll leaves open has made progress recently enough.\<close>

definition alive :: "u64 \<Rightarrow> http \<Rightarrow> bool" where
  "alive now s \<longleftrightarrow> h_fd s < 0 \<or> h_sending s \<and> now - h_last s \<le> 5000 \<or> h_waiting s \<and> now - h_last s \<le> 8000 \<or>
     now - h_last s \<le> (if h_len s = 0 then 1000 else 5000)"

lemma respond_alive: "alive now (fst (respond po r now s))"
proof -
  have "alive now (fst (pump tx now s'))" if "h_sending s'" for tx s'
    using pump_alive [of tx now s'] pump_sending [OF that, of tx now] by (auto simp: alive_def CALI_HTTP_IDLE_MS_def)
  then show ?thesis by (simp add: respond_def Let_def split_beta)
qed

lemma answer_alive: "now - h_last s \<le> 8000 \<Longrightarrow> alive now (fst (answer po req now s))"
  by (simp add: answer_def Let_def split_beta respond_alive respond_error_def alive_def [of now "_\<lparr>h_waiting := True\<rparr>"] split: verdict.split option.split)

lemma recv_progress: "fst (recv_loop rx now s) = s \<or> h_last (fst (recv_loop rx now s)) = now"
proof (induction rx arbitrary: s)
  case (Cons x rx)
  have "h_last (fst (recv_loop rx now (s\<lparr>h_buf := b, h_len := n, h_last := now\<rparr>))) = now" for b n
    using Cons.IH [of "s\<lparr>h_buf := b, h_len := n, h_last := now\<rparr>"] by auto
  then show ?case by (simp add: Let_def split: http_rx.split)
qed simp

lemma incomplete_stays: "incomplete s \<Longrightarrow> scan_head s = Inr s2 \<Longrightarrow> \<not> (h_head_len s2 \<noteq> 0 \<and> h_len s2 \<ge> h_head_len s2 + h_body_len s2)"
  by (auto simp: scan_head_def incomplete_def Let_def split: if_splits)

lemma poll_read_alive:
  assumes "incomplete s"
  shows "alive now (fst (poll_read po now s))"
proof -
  let ?r = "fst (recv_loop (np_rx po) now s)"
  show ?thesis
  proof (cases "scan_head ?r")
    case (Inl e)
    then show ?thesis by (simp add: poll_read_def split_beta respond_error_def respond_alive)
  next
    case (Inr s2)
    note k = scan_head_keeps [OF Inr]
    have d: "alive now (fst (dispatch po now s2))" if "h_head_len s2 \<noteq> 0 \<and> h_len s2 \<ge> h_head_len s2 + h_body_len s2"
    proof -
      have "?r \<noteq> s" using incomplete_stays [OF assms, of s2] Inr that by auto
      then have "h_last s2 = now" using recv_progress k(5) by metis
      then show ?thesis
        by (auto simp: dispatch_def Let_def split_beta respond_error_def respond_alive intro!: answer_alive split: option.split prod.split)
    qed
    have "alive now (fst (close_conn s2))" by (simp add: alive_def close_conn_def)
    moreover have "alive now s2" if "\<not> now - h_last s2 > (if h_len s2 \<noteq> 0 then CALI_HTTP_IDLE_MS else CALI_HTTP_FIRST_BYTE_MS)"
      using that by (auto simp: alive_def CALI_HTTP_IDLE_MS_def CALI_HTTP_FIRST_BYTE_MS_def not_less split: if_splits)
    ultimately show ?thesis using d by (simp add: poll_read_def split_beta Inr)
  qed
qed

lemma poll_conn_alive: "h_sending s \<or> h_waiting s \<or> incomplete s \<Longrightarrow> alive now (fst (poll_conn po now s))"
  using pump_alive [of "np_tx po" now s] pump_sending [of s "np_tx po" now] answer_alive [of now s] poll_read_alive [of s now po]
  by (auto simp: poll_conn_def poll_wait_def respond_error_def respond_alive CALI_HTTP_PENDING_MAX_MS_def CALI_HTTP_IDLE_MS_def not_less alive_def [of now "fst (pump _ _ _)"])

section \<open>The conversation with the handler\<close>

text \<open>The requests handed to the handler on one connection: none, or one request, first as new and then as resumed.\<close>

inductive conv :: "http_req list \<Rightarrow> bool" where
  conv_none: "conv []"
| conv_new: "\<not> rq_resume q \<Longrightarrow> conv [q]"
| conv_again: "conv (q # qs) \<Longrightarrow> conv ((q # qs) @ [q\<lparr>rq_resume := True\<rparr>])"

inductive_cases conv_ConsE: "conv (q # qs)"

lemma conv_shape: "conv (q # qs) \<Longrightarrow> \<not> rq_resume q \<and> set qs \<subseteq> {q\<lparr>rq_resume := True\<rparr>}"
  by (induction "q # qs" arbitrary: qs rule: conv.induct) (auto simp: Cons_eq_append_conv append_eq_Cons_conv)

text \<open>The requests since the latest accept.\<close>

fun asked :: "http_req list \<Rightarrow> http_eff list \<Rightarrow> http_req list" where
  "asked acc [] = acc"
| "asked acc (Hf_open fd # es) = asked [] es"
| "asked acc (Hf_request q # es) = asked (acc @ [q]) es"
| "asked acc (_ # es) = asked acc es"

lemma asked_append: "asked acc (es @ fs) = asked (asked acc es) fs"
  by (induction acc es rule: asked.induct) simp_all

fun is_open :: "http_eff \<Rightarrow> bool" where
  "is_open (Hf_open fd) = True"
| "is_open _ = False"

lemma asked_silent: "list_all (\<lambda>e. \<not> is_req e \<and> \<not> is_open e) es \<Longrightarrow> asked acc es = acc"
  by (induction acc es rule: asked.induct) simp_all

lemma pump_silent: "asked acc (snd (pump tx now s)) = acc"
proof (rule asked_silent)
  have "list_all (\<lambda>e. \<not> is_req e \<and> \<not> is_open e) (fst (snd (pump_loop tx now s)))"
    by (induction tx arbitrary: s) (simp_all add: Let_def split_beta)
  then show "list_all (\<lambda>e. \<not> is_req e \<and> \<not> is_open e) (snd (pump tx now s))" by (simp add: pump_def Let_def split_beta close_conn_def)
qed

lemma respond_silent: "asked acc (snd (respond po r now s)) = acc" "h_sending (fst (respond po r now s))"
  by (simp_all add: respond_def Let_def split_beta pump_silent pump_keeps)

definition talking :: "http \<Rightarrow> http_req list \<Rightarrow> bool" where
  "talking s qs \<longleftrightarrow> conv qs \<and> (h_fd s < 0 \<or> h_sending s \<or> (if h_waiting s then qs \<noteq> [] \<and> h_req s = (hd qs)\<lparr>rq_resume := True\<rparr> else qs = []))"

lemma respond_talks: "conv qs \<Longrightarrow> talking (fst (respond po r now s)) (asked qs (snd (respond po r now s)))"
  by (simp add: talking_def respond_silent)

lemma answer_talks:
  assumes "conv (qs @ [q])" and "q\<lparr>rq_resume := True\<rparr> = (hd (qs @ [q]))\<lparr>rq_resume := True\<rparr>"
  shows "talking (fst (answer po q now s)) (asked qs (snd (answer po q now s)))"
proof -
  have "talking (s\<lparr>h_req := q\<lparr>rq_resume := True\<rparr>, h_waiting := True\<rparr>) (qs @ [q])" using assms by (simp add: talking_def)
  then show ?thesis using respond_talks [OF assms(1)]
    by (simp add: answer_def Let_def split_beta respond_error_def split: verdict.split option.split)
qed

lemma poll_conn_talks:
  assumes "talking s qs" and "h_fd s \<ge> 0"
  shows "talking (fst (poll_conn po now s)) (asked qs (snd (poll_conn po now s)))"
proof -
  have c: "conv qs" using assms(1) by (simp add: talking_def)
  note rt = respond_talks [OF c]
  consider (send) "h_sending s" | (wait) "\<not> h_sending s" "h_waiting s" | (read) "\<not> h_sending s" "\<not> h_waiting s" by blast
  then show ?thesis
  proof cases
    case send
    then show ?thesis using c by (simp add: poll_conn_def pump_silent talking_def pump_keeps)
  next
    case wait
    then obtain q r where q: "qs = q # r" "h_req s = q\<lparr>rq_resume := True\<rparr>" using assms by (cases qs) (auto simp: talking_def)
    have "talking (fst (answer po (h_req s) now s)) (asked qs (snd (answer po (h_req s) now s)))"
      by (rule answer_talks) (use c q conv_again in simp_all)
    then show ?thesis using wait rt by (simp add: poll_conn_def poll_wait_def respond_error_def)
  next
    case read
    then have qs: "qs = []" using assms by (simp add: talking_def)
    let ?r = "fst (recv_loop (np_rx po) now s)"
    have "talking (fst (poll_read po now s)) (asked qs (snd (poll_read po now s)))"
    proof (cases "scan_head ?r")
      case (Inl e)
      then show ?thesis using rt by (simp add: poll_read_def split_beta respond_error_def)
    next
      case (Inr s2)
      have k: "h_sending s2 = h_sending ?r" "h_waiting s2 = h_waiting ?r"
        using Inr by (auto simp: scan_head_def Let_def split: if_splits option.splits)
      have "talking (fst (dispatch po now s2)) (asked qs (snd (dispatch po now s2)))"
        using rt by (auto simp: dispatch_def Let_def split_beta respond_error_def qs conv_new intro!: answer_talks split: option.split prod.split)
      moreover have "talking s2 qs" using k read qs by (simp add: talking_def recv_keeps conv_none)
      moreover have "talking (fst (close_conn s2)) (asked qs (snd (close_conn s2)))" using c by (simp add: talking_def close_conn_def)
      ultimately show ?thesis by (simp add: poll_read_def split_beta Inr)
    qed
    then show ?thesis using read by (simp add: poll_conn_def)
  qed
qed

lemma step_talks: "talking s qs \<Longrightarrow> talking (fst (http_step s e)) (asked qs (snd (http_step s e)))"
proof (cases e)
  case (Ho_poll po now)
  assume t: "talking s qs"
  have "talking (accept_conn po now s) []" by (simp add: talking_def accept_conn_def conv_none)
  from poll_conn_talks [OF this, of po now] poll_conn_talks [OF t, of po now] t show ?thesis
    by (simp add: Ho_poll cali_http_poll_def split_beta Let_def accept_conn_def)
qed (auto simp: cali_http_init_def cali_http_stop_def Let_def split_beta talking_def close_conn_def asked_append)

section \<open>Properties\<close>

text \<open>
  C33. In every run the request stays inside its 2048 bytes and the buffer keeps its size and the NUL behind it in reach, a queued head
  fits its 512 bytes, and whenever no connection is open the whole request buffer is zero: no request, and no passphrase in it, outlives its
  connection.
\<close>

theorem http_request_wiped:
  "length (h_buf (fst (run http_step http_reset es))) = 2049 \<and> h_len (fst (run http_step http_reset es)) \<le> 2048 \<and>
   length (h_out_head (fst (run http_step http_reset es))) < 512 \<and>
   (h_fd (fst (run http_step http_reset es)) \<ge> 0 \<or>
    h_buf (fst (run http_step http_reset es)) = replicate 2049 (CHR 0x00) \<and> h_len (fst (run http_step http_reset es)) = 0)"
  using httpm.inv_run [of es] unfolding http_inv_def wiped_def NET_HTTP_REQ_MAX_def HEAD_OUT_MAX_def by (simp del: replicate.simps)

text \<open>
  C28. No poll leaves the single connection open without recent progress: a response being sent moved a byte in the last 5 s, a
  request the handler holds is at most 8 s old, a request being read got a byte in the last 5 s, and a connection that has sent nothing yet was
  accepted in the last second.
\<close>

theorem http_never_wedged:
  assumes "s = fst (run http_step http_reset es)" and "h_lfd s \<ge> 0" and "s' = fst (cali_http_poll po now s)" and "h_fd s' \<ge> 0"
  shows "h_sending s' \<and> now - h_last s' \<le> 5000 \<or> h_waiting s' \<and> now - h_last s' \<le> 8000 \<or> now - h_last s' \<le> (if h_len s' = 0 then 1000 else 5000)"
proof -
  have i: "http_inv s" using httpm.inv_run assms(1) by simp
  have a: "incomplete (accept_conn po now s)" by (simp add: incomplete_def accept_conn_def find_head_end_def)
  have "alive now s'"
  proof (cases "h_fd s < 0")
    case True
    then show ?thesis using assms(2,3,4) poll_conn_alive [of "accept_conn po now s" now po] a
      by (auto simp: cali_http_poll_def split_beta Let_def split: if_splits)
  next
    case False
    then have "h_sending s \<or> h_waiting s \<or> incomplete s" using i by (auto simp: http_inv_def)
    then show ?thesis using False assms(2,3) poll_conn_alive by (simp add: cali_http_poll_def)
  qed
  then show ?thesis using assms(4) by (simp add: alive_def)
qed

definition idle_port :: http_port where
  "idle_port = \<lparr>np_accept = 4, np_rx = [], np_tx = [], np_handler = (\<lambda>_. H_unhandled)\<rparr>"

theorem http_never_wedged_witness:
  "2000 - h_last (fst (cali_http_poll idle_port 2000 (fst (run http_step http_reset [Ho_init 3])))) \<le> 1000"
proof -
  let ?s = "fst (run http_step http_reset [Ho_init 3])"
  let ?t = "fst (cali_http_poll idle_port 2000 ?s)"
  have l: "h_lfd ?s \<ge> 0" "h_fd ?s < 0" by (simp_all add: http_reset_def cali_http_init_def cali_http_stop_def)
  have t: "?t = accept_conn idle_port 2000 ?s"
    using l by (simp add: cali_http_poll_def idle_port_def poll_conn_def poll_read_def accept_conn_def scan_head_def find_head_end_def NET_HTTP_REQ_MAX_def)
  then have "h_fd ?t \<ge> 0" "\<not> h_sending ?t" "\<not> h_waiting ?t" "h_len ?t = 0" by (simp_all add: accept_conn_def idle_port_def)
  with http_never_wedged [OF refl l(1) refl, of idle_port 2000] show ?thesis by simp
qed

text \<open>
  C27. In every run, what went out on the latest connection is nothing before a response is queued for it, and afterwards
  exactly the first bytes of that one response, head and then body, up to the offset the core keeps: no byte is lost, repeated or taken from
  another response, however the socket splits the sends.
\<close>

theorem http_stream_is_response:
  "stream [] (snd (run http_step http_reset es)) =
   (if h_sending (fst (run http_step http_reset es))
    then take (h_out_off (fst (run http_step http_reset es)))
           (h_out_head (fst (run http_step http_reset es)) @ h_out_body (fst (run http_step http_reset es)))
    else [])"
proof -
  have "stream (sent_so_far s) (snd (run http_step s es)) = sent_so_far (fst (run http_step s es))" for s
    by (induction es arbitrary: s) (simp_all add: stream_append step_streams)
  from this [of http_reset] show ?thesis by (simp add: sent_so_far_def http_reset_def)
qed

text \<open>
  In every run, the handler sees at most one request per connection: the first call is new, and every later call, while it
  answers pending, repeats that same request marked as resumed.
\<close>

theorem http_handler_asked_once:
  "asked [] (snd (run http_step http_reset es)) = [] \<or>
   (\<exists>q n. \<not> rq_resume q \<and> asked [] (snd (run http_step http_reset es)) = q # replicate n (q\<lparr>rq_resume := True\<rparr>))"
proof -
  have "talking s qs \<Longrightarrow> talking (fst (run http_step s es)) (asked qs (snd (run http_step s es)))" for s qs
    by (induction es arbitrary: s qs) (simp_all add: asked_append step_talks)
  from this [of http_reset "[]"] have c: "conv (asked [] (snd (run http_step http_reset es)))"
    by (simp add: talking_def http_reset_def conv_none)
  show ?thesis
  proof (cases "asked [] (snd (run http_step http_reset es))")
    case (Cons q qs)
    then have s: "\<not> rq_resume q" "set qs \<subseteq> {q\<lparr>rq_resume := True\<rparr>}" using conv_shape c by simp_all
    then have "qs = replicate (length qs) (q\<lparr>rq_resume := True\<rparr>)" by (intro replicate_eqI) auto
    then have "asked [] (snd (run http_step http_reset es)) = q # replicate (length qs) (q\<lparr>rq_resume := True\<rparr>)" using Cons by metis
    then show ?thesis using s(1) by blast
  qed simp
qed

end
