(* ===== verification/Ap_Identity.thy ===== *)
theory Ap_Identity
  imports Prelude
begin

text \<open>
  The key-value store port as \<open>cali_platform.h\<close> documents it, and the setup hotspot's identity of \<open>ap_identity.c\<close>:
  its name from the MAC, its random stored password, the QR text and the setup-pending mark. The store is a map from
  keys to byte strings; which reads, writes and erases fail in a call is an argument of that call. The lemmas show
  that a password is always one a reboot accepts again.
\<close>

section \<open>The key-value store\<close>

type_synonym kv = "string \<rightharpoonup> string"

datatype kv_read = CALI_KV_OK string | CALI_KV_MISSING | CALI_KV_CORRUPT

text \<open>Which keys the store fails on during one call.\<close>

record kv_io =
  io_bad :: "string \<Rightarrow> bool"
  io_set_ok :: "string \<Rightarrow> bool"
  io_erase_ok :: "string \<Rightarrow> bool"

definition cali_kv_get :: "kv_io \<Rightarrow> kv \<Rightarrow> string \<Rightarrow> nat \<Rightarrow> kv_read" where
  "cali_kv_get io kv key cap =
     (if io_bad io key then CALI_KV_CORRUPT
      else case kv key of None \<Rightarrow> CALI_KV_MISSING
           | Some v \<Rightarrow> if length v \<le> cap then CALI_KV_OK v else CALI_KV_CORRUPT)"

definition cali_kv_set :: "kv_io \<Rightarrow> kv \<Rightarrow> string \<Rightarrow> string \<Rightarrow> bool \<times> kv" where
  "cali_kv_set io kv key v = (if io_set_ok io key then (True, kv(key \<mapsto> v)) else (False, kv))"

definition cali_kv_erase :: "kv_io \<Rightarrow> kv \<Rightarrow> string \<Rightarrow> bool \<times> kv" where
  "cali_kv_erase io kv key = (if io_erase_ok io key then (True, kv(key := None)) else (False, kv))"

lemmas kv_defs = cali_kv_get_def cali_kv_set_def cali_kv_erase_def

text \<open>A C string in a buffer ends at its first NUL.\<close>

definition c_str :: "string \<Rightarrow> string" where "c_str s = takeWhile (\<lambda>c. c \<noteq> CHR 0x00) s"

lemma c_str_id [simp]: "CHR 0x00 \<notin> set s \<Longrightarrow> c_str s = s"
  by (simp add: c_str_def takeWhile_eq_all_conv) blast

lemma c_str_nul_free [simp]: "CHR 0x00 \<notin> set (c_str s)"
  unfolding c_str_def by (metis (mono_tags, lifting) set_takeWhileD)

lemma c_str_cstr [simp]: "c_str (c_str s) = c_str s"
  by simp

lemma c_str_length_le: "length (c_str s) \<le> length s"
  by (simp add: c_str_def length_takeWhile_le)

section \<open>The identity\<close>

definition ALPHABET :: string where "ALPHABET = ''23456789abcdefghijkmnpqrstuvwxyz''"
definition CALI_AP_KEY_PSK :: string where "CALI_AP_KEY_PSK = ''ap_psk''"
definition CALI_AP_PSK_LEN :: nat where "CALI_AP_PSK_LEN = 14"
definition CALI_SETUP_QR_KEY :: string where "CALI_SETUP_QR_KEY = ''setup_qr''"
definition NET_AP_SSID_PREFIX :: string where "NET_AP_SSID_PREFIX = ''calictl-esp-''"
definition NET_SSID_MAX :: nat where "NET_SSID_MAX = 32"
definition NET_PSK_MIN :: nat where "NET_PSK_MIN = 8"
definition NET_PSK_MAX :: nat where "NET_PSK_MAX = 63"

lemmas ap_consts = CALI_AP_PSK_LEN_def NET_SSID_MAX_def NET_PSK_MIN_def NET_PSK_MAX_def

datatype ap_rc = Ap_unmade | CALI_AP_STORED | CALI_AP_UNSTORED

record ap_ident =
  id_ssid :: string
  id_psk :: string
  id_rc :: ap_rc

definition ap_ident_boot :: ap_ident where
  "ap_ident_boot = \<lparr>id_ssid = [], id_psk = [], id_rc = Ap_unmade\<rparr>"

definition psk_dash :: "nat \<Rightarrow> bool" where "psk_dash i \<longleftrightarrow> i = 4 \<or> i = 9"

definition psk_char_ok :: "nat \<Rightarrow> char \<Rightarrow> bool" where
  "psk_char_ok i c \<longleftrightarrow> (if psk_dash i then c = CHR ''-'' else c \<noteq> CHR 0x00 \<and> c \<in> set ALPHABET)"

definition psk_valid :: "string \<Rightarrow> bool" where
  "psk_valid p \<longleftrightarrow> length p = CALI_AP_PSK_LEN \<and> (\<forall>i<length p. psk_char_ok i (p ! i))"

definition mac_hex :: "nat \<Rightarrow> char" where "mac_hex n = ''0123456789ABCDEF'' ! n"

definition hex2 :: "u8 \<Rightarrow> string" where "hex2 b = [mac_hex (unat b div 16), mac_hex (unat b mod 16)]"

definition psk_draw :: "(nat \<Rightarrow> u8) \<Rightarrow> string" where
  "psk_draw rnd =
     map (\<lambda>i. if psk_dash i then CHR ''-'' else ALPHABET ! (unat (rnd i) mod 32)) [0..<CALI_AP_PSK_LEN]"

text \<open>
  \<open>mac\<close> is None when the MAC is unreadable, else its bytes 4 and 5; \<open>rnd\<close> is what \<open>cali_random\<close> draws. The result
  is None for the code's -1. The mask \<open>rnd[i] & 31\<close> is the remainder by 32.
\<close>

definition cali_ap_identity ::
  "kv_io \<Rightarrow> (u8 \<times> u8) option \<Rightarrow> (nat \<Rightarrow> u8) \<Rightarrow> kv \<Rightarrow> ap_ident \<Rightarrow> kv \<times> ap_ident \<times> (ap_rc \<times> string \<times> string) option"
where
  "cali_ap_identity io mac rnd kv s =
     (if id_rc s \<noteq> Ap_unmade then (kv, s, Some (id_rc s, id_ssid s, id_psk s))
      else case mac of
        None \<Rightarrow> (kv, s, None)
      | Some (m4, m5) \<Rightarrow>
          let ssid = NET_AP_SSID_PREFIX @ hex2 m4 @ hex2 m5;
              fresh = (let psk = psk_draw rnd; (ok, kv1) = cali_kv_set io kv CALI_AP_KEY_PSK psk
                       in (kv1, psk, if ok then CALI_AP_STORED else CALI_AP_UNSTORED));
              (kv2, psk, rc) =
                (case cali_kv_get io kv CALI_AP_KEY_PSK (CALI_AP_PSK_LEN + 1) of
                   CALI_KV_OK key \<Rightarrow> if psk_valid key then (kv, key, CALI_AP_STORED) else fresh
                 | _ \<Rightarrow> fresh)
          in (kv2, \<lparr>id_ssid = ssid, id_psk = psk, id_rc = rc\<rparr>, Some (rc, ssid, psk)))"

definition cali_ap_wifi_qr ::
  "kv_io \<Rightarrow> (u8 \<times> u8) option \<Rightarrow> (nat \<Rightarrow> u8) \<Rightarrow> nat \<Rightarrow> kv \<Rightarrow> ap_ident \<Rightarrow> kv \<times> ap_ident \<times> string option"
where
  "cali_ap_wifi_qr io mac rnd cap kv s =
     (case cali_ap_identity io mac rnd kv s of
        (kv1, s1, None) \<Rightarrow> (kv1, s1, None)
      | (kv1, s1, Some (rc, ssid, psk)) \<Rightarrow>
          let t = ''WIFI:T:WPA;S:'' @ ssid @ '';P:'' @ psk @ '';;''
          in (kv1, s1, if length t \<ge> cap then None else Some t))"

text \<open>The setup mark: None is the code's -1, not read yet.\<close>

definition cali_setup_pending :: "kv_io \<Rightarrow> kv \<Rightarrow> bool option \<Rightarrow> bool option \<times> bool" where
  "cali_setup_pending io kv p =
     (case p of Some b \<Rightarrow> (p, b)
      | None \<Rightarrow> case cali_kv_get io kv CALI_SETUP_QR_KEY 1 of
          CALI_KV_CORRUPT \<Rightarrow> (None, False)
        | CALI_KV_MISSING \<Rightarrow> (Some False, False)
        | CALI_KV_OK v \<Rightarrow> let b = (length v = 1 \<and> v ! 0 \<noteq> CHR 0x00) in (Some b, b))"

definition cali_setup_pending_set :: "kv_io \<Rightarrow> bool \<Rightarrow> kv \<Rightarrow> bool option \<Rightarrow> bool \<times> kv \<times> bool option" where
  "cali_setup_pending_set io on kv p =
     (let (ok, kv1) = (if on then cali_kv_set io kv CALI_SETUP_QR_KEY [CHR 0x01] else cali_kv_erase io kv CALI_SETUP_QR_KEY)
      in if ok then (True, kv1, Some on) else (False, kv, p))"

section \<open>Lemmas\<close>

lemma ALPHABET_length: "length ALPHABET = 32"
  by (simp add: ALPHABET_def)

lemma ALPHABET_no_nul: "CHR 0x00 \<notin> set ALPHABET"
  by (simp add: ALPHABET_def)

lemma psk_draw_valid: "psk_valid (psk_draw rnd)"
proof -
  have "ALPHABET ! (n mod 32) \<in> set ALPHABET" for n by (rule nth_mem) (simp add: ALPHABET_length)
  then show ?thesis unfolding psk_valid_def psk_draw_def psk_char_ok_def by (auto simp del: upt_Suc) (metis ALPHABET_no_nul)+
qed

lemma psk_valid_length: "psk_valid p \<Longrightarrow> length p = CALI_AP_PSK_LEN"
  by (simp add: psk_valid_def)

definition ident_inv :: "kv \<Rightarrow> ap_ident \<Rightarrow> bool" where
  "ident_inv kv s \<longleftrightarrow>
     id_rc s = Ap_unmade \<or>
     psk_valid (id_psk s) \<and> take 12 (id_ssid s) = NET_AP_SSID_PREFIX \<and> length (id_ssid s) = 16 \<and>
     (id_rc s = CALI_AP_STORED \<longrightarrow> kv CALI_AP_KEY_PSK = Some (id_psk s))"

lemma ident_inv_boot: "ident_inv kv ap_ident_boot"
  by (simp add: ident_inv_def ap_ident_boot_def)

lemma ident_inv_step: "ident_inv kv s \<Longrightarrow> cali_ap_identity io mac rnd kv s = (kv1, s1, r) \<Longrightarrow> ident_inv kv1 s1"
  by (auto simp: cali_ap_identity_def ident_inv_def Let_def kv_defs psk_draw_valid NET_AP_SSID_PREFIX_def hex2_def
    split: if_splits option.splits kv_read.splits prod.splits)

lemma identity_result:
  "cali_ap_identity io mac rnd kv s = (kv1, s1, Some (rc, ssid, psk)) \<Longrightarrow>
     rc \<noteq> Ap_unmade \<and> s1 = \<lparr>id_ssid = ssid, id_psk = psk, id_rc = rc\<rparr>"
  by (auto simp: cali_ap_identity_def Let_def split: if_splits option.splits kv_read.splits prod.splits)

lemma identity_other_keys:
  "cali_ap_identity io mac rnd kv s = (kv1, s1, r) \<Longrightarrow> k \<noteq> CALI_AP_KEY_PSK \<Longrightarrow> kv1 k = kv k"
  by (auto simp: cali_ap_identity_def Let_def kv_defs split: if_splits option.splits kv_read.splits prod.splits)

section \<open>Properties\<close>

text \<open>
  Once the identity is given and reported as stored, every later call of this boot gives
  the same name and password without touching the store, and after a reboot that keeps the store the first call gives
  the same password again, whatever the random source draws; the password always has the shape
  xxxx-xxxx-xxxx over the alphabet, so it is a legal WPA2 passphrase.
\<close>

theorem ap_identity_survives_reboot:
  assumes "cali_ap_identity io mac rnd kv ap_ident_boot = (kv1, s1, Some (rc, ssid, psk))"
  shows "psk_valid psk \<and> NET_PSK_MIN \<le> length psk \<and> length psk \<le> NET_PSK_MAX \<and>
    cali_ap_identity io' mac' rnd' kv' s1 = (kv', s1, Some (rc, ssid, psk)) \<and>
    (rc = CALI_AP_STORED \<and> \<not> io_bad io' CALI_AP_KEY_PSK \<and> mac' \<noteq> None \<longrightarrow>
       (\<exists>s2 ssid'. cali_ap_identity io' mac' rnd' kv1 ap_ident_boot = (kv1, s2, Some (CALI_AP_STORED, ssid', psk))))"
proof -
  have r: "rc \<noteq> Ap_unmade" "s1 = \<lparr>id_ssid = ssid, id_psk = psk, id_rc = rc\<rparr>"
    using identity_result [OF assms] by simp_all
  have i: "psk_valid psk" "rc = CALI_AP_STORED \<Longrightarrow> kv1 CALI_AP_KEY_PSK = Some psk"
    using ident_inv_step [OF ident_inv_boot assms] r by (simp_all add: ident_inv_def)
  have again: "cali_ap_identity io' mac' rnd' kv' s1 = (kv', s1, Some (rc, ssid, psk))"
    using r by (simp add: cali_ap_identity_def)
  have reboot: "\<exists>s2 ssid'. cali_ap_identity io' mac' rnd' kv1 ap_ident_boot = (kv1, s2, Some (CALI_AP_STORED, ssid', psk))"
    if "rc = CALI_AP_STORED" "\<not> io_bad io' CALI_AP_KEY_PSK" "mac' \<noteq> None"
    using that i psk_valid_length [OF i(1)]
    by (auto simp: cali_ap_identity_def ap_ident_boot_def Let_def cali_kv_get_def)
  show ?thesis using i(1) psk_valid_length [OF i(1)] again reboot by (simp add: ap_consts)
qed

theorem ap_identity_survives_reboot_witness:
  "\<exists>s2 ssid'. cali_ap_identity \<lparr>io_bad = \<lambda>k. False, io_set_ok = \<lambda>k. True, io_erase_ok = \<lambda>k. True\<rparr> (Some (1, 2)) (\<lambda>i. 9)
     [''ap_psk'' \<mapsto> ''2222-2222-2222''] ap_ident_boot =
     ([''ap_psk'' \<mapsto> ''2222-2222-2222''], s2, Some (CALI_AP_STORED, ssid', ''2222-2222-2222''))"
proof -
  let ?io = "\<lparr>io_bad = \<lambda>k :: string. False, io_set_ok = \<lambda>k :: string. True, io_erase_ok = \<lambda>k :: string. True\<rparr>"
  have d: "psk_draw (\<lambda>i. 0) = ''2222-2222-2222''"
    by (simp add: psk_draw_def psk_dash_def ALPHABET_def CALI_AP_PSK_LEN_def upt_rec)
  have "cali_ap_identity ?io (Some (0xAB, 0x0C)) (\<lambda>i. 0) Map.empty ap_ident_boot =
    ([''ap_psk'' \<mapsto> ''2222-2222-2222''],
     \<lparr>id_ssid = ''calictl-esp-AB0C'', id_psk = ''2222-2222-2222'', id_rc = CALI_AP_STORED\<rparr>,
     Some (CALI_AP_STORED, ''calictl-esp-AB0C'', ''2222-2222-2222''))"
    by (simp add: cali_ap_identity_def ap_ident_boot_def Let_def kv_defs d CALI_AP_KEY_PSK_def NET_AP_SSID_PREFIX_def
      hex2_def mac_hex_def)
  from ap_identity_survives_reboot [OF this, of ?io "Some (1, 2)" "\<lambda>i. 9"] show ?thesis by simp
qed

end
