(* ===== verification/Wifi_Run.thy ===== *)
theory Wifi_Run
  imports Wifi_SM Ap_Identity
begin

text \<open>
  The WiFi runtime of \<open>wifi_run.c\<close>: network events, ticks and credential changes are fed to the WiFi machine and its
  actions run on the network port, the captive DNS and the key-value store. What the ports answer during one call is
  the record \<open>wenv\<close>; the calls made on the network port are appended to \<open>w_calls\<close>. The store and the hotspot's identity are part
  of the state because they outlive a call. Log lines and diagnostic events are left out. The lemmas show that a
  network that joined is never lost to a replacement that fails, that scans keep off the pairing flow, and what the
  scan list holds.
\<close>

section \<open>Data\<close>

definition CALI_WIFI_KEY_SSID :: string where "CALI_WIFI_KEY_SSID = ''wifi_ssid''"
definition CALI_WIFI_KEY_PSK :: string where "CALI_WIFI_KEY_PSK = ''wifi_psk''"
definition CALI_WIFI_KEY_OK :: string where "CALI_WIFI_KEY_OK = ''wifi_ok''"
definition RSSI_EVERY_MS :: u64 where "RSSI_EVERY_MS = 1000"
definition NET_SCAN_MAX :: nat where "NET_SCAN_MAX = 16"
definition NET_SCAN_MIN_INTERVAL_MS :: u64 where "NET_SCAN_MIN_INTERVAL_MS = 30000"
definition NET_AP_ADDR_U32 :: u32 where "NET_AP_ADDR_U32 = 0xc0a80401"
definition NET_HOSTNAME :: string where "NET_HOSTNAME = ''calictl-esp''"
definition NET_HTTP_PORT :: u16 where "NET_HTTP_PORT = 80"
definition CALI_NET_REASON_NONE :: u32 where "CALI_NET_REASON_NONE = 0"
definition CALI_NET_REASON_NOT_FOUND :: u32 where "CALI_NET_REASON_NOT_FOUND = 1"
definition CALI_NET_REASON_AUTH :: u32 where "CALI_NET_REASON_AUTH = 2"
definition CALI_NET_REASON_OTHER :: u32 where "CALI_NET_REASON_OTHER = 3"

lemmas wifi_keys = CALI_WIFI_KEY_SSID_def CALI_WIFI_KEY_PSK_def CALI_WIFI_KEY_OK_def CALI_AP_KEY_PSK_def

record net_ap =
  ap_name :: string
  ap_rssi :: int
  ap_secure :: bool

text \<open>The scan list of an event is None for a negative count (a scan that was refused or aborted).\<close>

datatype net_event = STA_GOT_IP u32 | STA_LOST | STA_FAILED u32 | AP_STARTED | AP_STOPPED | SCAN_DONE "net_ap list option"

datatype net_call = N_scan | N_ap_start string string | N_ap_stop | N_sta_start string string | N_sta_stop | N_mdns string u16
  | N_dns_start u32 | N_dns_stop

record wenv =
  en_in_flow :: bool
  en_scan_ok :: bool
  en_ap_ok :: bool
  en_sta_ok :: bool
  en_rssi :: int
  en_mac :: "(u8 \<times> u8) option"
  en_rnd :: "nat \<Rightarrow> u8"
  en_kv :: kv_io

record wifi_run =
  w_net :: bool
  w_sm :: cali_wifi_state
  w_ssid :: string
  w_psk :: string
  w_have_creds :: bool
  w_prev_ssid :: string
  w_prev_psk :: string
  w_have_prev :: bool
  w_reverted :: bool
  w_creds_ok :: bool
  w_ip :: u32
  w_rssi :: int
  w_rssi_at :: u64
  w_scan :: "net_ap list"
  w_scan_in_flight :: bool
  w_scan_wanted :: bool
  w_scanned :: bool
  w_scan_at :: u64
  w_now :: u64
  w_join_failed :: bool
  w_ap_running :: bool
  w_ap_ssid :: string
  w_last_fail :: u32
  w_last_ip :: u32
  w_up_at :: u64
  w_kv :: kv
  w_id :: ap_ident
  w_calls :: "net_call list"

section \<open>Operations\<close>

definition net_do :: "net_call \<Rightarrow> wifi_run \<Rightarrow> wifi_run" where
  "net_do c w = w\<lparr>w_calls := w_calls w @ [c]\<rparr>"

definition kv_put :: "wenv \<Rightarrow> string \<Rightarrow> string \<Rightarrow> wifi_run \<Rightarrow> wifi_run" where
  "kv_put e k v w = w\<lparr>w_kv := snd (cali_kv_set (en_kv e) (w_kv w) k v)\<rparr>"

definition kv_del :: "wenv \<Rightarrow> string \<Rightarrow> wifi_run \<Rightarrow> wifi_run" where
  "kv_del e k w = w\<lparr>w_kv := snd (cali_kv_erase (en_kv e) (w_kv w) k)\<rparr>"

definition mark_unjoined :: "wenv \<Rightarrow> wifi_run \<Rightarrow> wifi_run" where
  "mark_unjoined e w = kv_put e CALI_WIFI_KEY_OK ''0'' (w\<lparr>w_creds_ok := False\<rparr>)"

definition wipe_creds :: "wifi_run \<Rightarrow> wifi_run" where
  "wipe_creds w = w\<lparr>w_ssid := [], w_psk := [], w_have_creds := False\<rparr>"

definition wipe_prev :: "wifi_run \<Rightarrow> wifi_run" where
  "wipe_prev w = w\<lparr>w_prev_ssid := [], w_prev_psk := [], w_have_prev := False\<rparr>"

definition creds_ok_len :: "nat \<Rightarrow> nat \<Rightarrow> bool" where
  "creds_ok_len ssid_len psk_len \<longleftrightarrow>
     1 \<le> ssid_len \<and> ssid_len \<le> NET_SSID_MAX \<and> (psk_len = 0 \<or> NET_PSK_MIN \<le> psk_len \<and> psk_len \<le> NET_PSK_MAX)"

definition copy_creds :: "string \<Rightarrow> string \<Rightarrow> wifi_run \<Rightarrow> bool \<times> wifi_run" where
  "copy_creds ssid psk w =
     (if \<not> creds_ok_len (length ssid) (length psk) then (False, w)
      else (True, (wipe_creds w)\<lparr>w_ssid := ssid, w_psk := psk, w_have_creds := True\<rparr>))"

definition start_scan :: "wenv \<Rightarrow> wifi_run \<Rightarrow> wifi_run" where
  "start_scan e w =
     (if w_scan_in_flight w then w
      else if en_in_flow e then w\<lparr>w_scan_wanted := True\<rparr>
      else let w1 = net_do N_scan (w\<lparr>w_scan_wanted := False\<rparr>)
           in if en_scan_ok e then w1\<lparr>w_scan_in_flight := True, w_scanned := True, w_scan_at := w_now w1\<rparr> else w1)"

definition reason_name :: "u32 \<Rightarrow> string" where
  "reason_name r = (if r = CALI_NET_REASON_NOT_FOUND then ''not_found'' else if r = CALI_NET_REASON_AUTH then ''auth'' else ''other'')"

definition open_hotspot :: "wenv \<Rightarrow> wifi_run \<Rightarrow> wifi_run" where
  "open_hotspot e w =
     (if w_ap_running w then w
      else
        let (kv1, id1, r) = cali_ap_identity (en_kv e) (en_mac e) (en_rnd e) (w_kv w) (w_id w);
            w0 = w\<lparr>w_kv := kv1, w_id := id1\<rparr>;
            w0 = (case r of None \<Rightarrow> w0
                  | Some (rc, ssid, psk) \<Rightarrow>
                      (net_do (N_ap_start ssid psk) (w0\<lparr>w_ap_ssid := ssid\<rparr>))
                        \<lparr>w_ap_running := (if en_ap_ok e then True else w_ap_running w)\<rparr>)
        in net_do (N_dns_start NET_AP_ADDR_U32) w0)"

definition run_ap_start :: "wenv \<Rightarrow> wifi_run \<Rightarrow> wifi_run" where
  "run_ap_start e w = start_scan e (open_hotspot e w)"

definition run_restore_prev :: "wenv \<Rightarrow> wifi_run \<Rightarrow> wifi_run" where
  "run_restore_prev e w =
     (if \<not> w_have_prev w then w
      else
        let w1 = wipe_prev (snd (copy_creds (c_str (w_prev_ssid w)) (c_str (w_prev_psk w)) w));
            w2 = kv_put e CALI_WIFI_KEY_SSID (c_str (w_ssid w1)) w1;
            w3 = kv_put e CALI_WIFI_KEY_PSK (c_str (w_psk w2)) w2;
            w4 = kv_put e CALI_WIFI_KEY_OK ''1'' w3
        in w4\<lparr>w_creds_ok := True, w_reverted := True\<rparr>)"

definition wifi_run_action :: "wenv \<Rightarrow> cali_wifi_action \<Rightarrow> wifi_run \<Rightarrow> wifi_run" where
  "wifi_run_action e a w =
     (case wa_act a of
        WACT_AP_START \<Rightarrow> run_ap_start e w
      | WACT_AP_STOP \<Rightarrow> net_do N_dns_stop (net_do N_ap_stop (w\<lparr>w_ap_running := False\<rparr>))
      | WACT_STA_START \<Rightarrow>
          if \<not> w_have_creds w then w\<lparr>w_join_failed := True\<rparr>
          else let w1 = net_do (N_sta_start (c_str (w_ssid w)) (c_str (w_psk w))) w
               in if en_sta_ok e then w1 else w1\<lparr>w_join_failed := True\<rparr>
      | WACT_STA_STOP \<Rightarrow> (net_do N_sta_stop w)\<lparr>w_ip := 0, w_rssi := 0\<rparr>
      | WACT_MDNS \<Rightarrow> net_do (N_mdns NET_HOSTNAME NET_HTTP_PORT) w
      | WACT_CLEAR_CREDS \<Rightarrow>
          wipe_creds (mark_unjoined e (kv_del e CALI_WIFI_KEY_PSK (kv_del e CALI_WIFI_KEY_SSID w)))
      | WACT_RESTORE_PREV \<Rightarrow> run_restore_prev e w
      | WACT_LOG_REASON \<Rightarrow> w\<lparr>w_last_fail := (if wa_arg a \<noteq> 0 then wa_arg a else CALI_NET_REASON_OTHER)\<rparr>)"

text \<open>\<open>skip\<close> is an action not to run, None for the code's -1.\<close>

definition feed_skip :: "wenv \<Rightarrow> wifi_ev \<Rightarrow> u64 \<Rightarrow> wifi_act option \<Rightarrow> wifi_run \<Rightarrow> wifi_run" where
  "feed_skip e ev arg skip w =
     (let (sm, acts) = cali_wifi_step (w_sm w) (ev, arg)
      in fold (\<lambda>a w. if Some (wa_act a) = skip then w else wifi_run_action e a w) acts (w\<lparr>w_sm := sm\<rparr>))"

definition wifi_feed :: "wenv \<Rightarrow> wifi_ev \<Rightarrow> u64 \<Rightarrow> wifi_run \<Rightarrow> wifi_run" where
  "wifi_feed e ev arg w = feed_skip e ev arg None w"

text \<open>One entry of a scan: \<open>ap.ssid\<close> is cut at \<open>NET_SSID_MAX\<close> and ends at its first NUL.\<close>

definition ap_entry :: "net_ap \<Rightarrow> net_ap" where
  "ap_entry ap = ap\<lparr>ap_name := c_str (take NET_SSID_MAX (ap_name ap))\<rparr>"

fun scan_slot :: "net_ap list \<Rightarrow> net_ap \<Rightarrow> nat" where
  "scan_slot [] ap = 0"
| "scan_slot (x # xs) ap = (if ap_name x \<noteq> ap_name ap then Suc (scan_slot xs ap) else 0)"

definition scan_put :: "net_ap list \<Rightarrow> net_ap \<Rightarrow> net_ap list" where
  "scan_put xs ap0 =
     (let ap = ap_entry ap0; j = scan_slot xs ap
      in if j = length xs then xs @ [ap] else if ap_rssi ap > ap_rssi (xs ! j) then xs[j := ap] else xs)"

definition scan_merge :: "net_ap list \<Rightarrow> net_ap list" where
  "scan_merge aps = foldl scan_put [] (take NET_SCAN_MAX aps)"

definition on_net :: "wenv \<Rightarrow> net_event \<Rightarrow> wifi_run \<Rightarrow> wifi_run" where
  "on_net e ev w =
     (case ev of
        STA_GOT_IP ip \<Rightarrow>
          let w1 = wifi_feed e WEV_GOT_IP 0 w
          in if ws_st (w_sm w1) = WIFI_ONLINE
             then let (ok, kv1) = (if \<not> w_creds_ok w1 then cali_kv_set (en_kv e) (w_kv w1) CALI_WIFI_KEY_OK ''1'' else (False, w_kv w1));
                      w2 = wipe_prev (w1\<lparr>w_kv := kv1, w_creds_ok := (w_creds_ok w1 \<or> ok)\<rparr>);
                      w3 = (if \<not> w_reverted w2 then w2\<lparr>w_last_fail := CALI_NET_REASON_NONE\<rparr> else w2)
                  in w3\<lparr>w_ip := ip, w_rssi := en_rssi e, w_rssi_at := 0, w_last_ip := ip, w_up_at := w_now w3\<rparr>
             else w1
      | STA_LOST \<Rightarrow>
          wifi_feed e WEV_LOST 0 (if ws_st (w_sm w) = WIFI_ONLINE then w\<lparr>w_ip := 0, w_rssi := 0\<rparr> else w)
      | STA_FAILED reason \<Rightarrow> wifi_feed e WEV_FAILED (ucast reason) w
      | AP_STARTED \<Rightarrow> wifi_feed e WEV_AP_STARTED 0 w
      | SCAN_DONE None \<Rightarrow> w\<lparr>w_scan_in_flight := False\<rparr>
      | SCAN_DONE (Some aps) \<Rightarrow> w\<lparr>w_scan_in_flight := False, w_scan := scan_merge aps\<rparr>
      | AP_STOPPED \<Rightarrow> w\<lparr>w_ap_running := False\<rparr>)"

definition new_attempt :: "wifi_run \<Rightarrow> wifi_run" where
  "new_attempt w = w\<lparr>w_last_fail := CALI_NET_REASON_NONE, w_reverted := False\<rparr>"

definition feed_creds_set :: "wenv \<Rightarrow> wifi_run \<Rightarrow> wifi_run" where
  "feed_creds_set e w = wifi_feed e WEV_CREDS_SET 0 (wipe_prev (new_attempt w))"

text \<open>The first call of a boot: RAM is zero, the store is what the last boot left.\<close>

definition cali_wifi_run_init :: "bool \<Rightarrow> kv \<Rightarrow> ap_ident \<Rightarrow> wifi_run" where
  "cali_wifi_run_init net kv ident =
     \<lparr>w_net = net, w_sm = wifi_init, w_ssid = [], w_psk = [], w_have_creds = False, w_prev_ssid = [], w_prev_psk = [],
      w_have_prev = False, w_reverted = False, w_creds_ok = False, w_ip = 0, w_rssi = 0, w_rssi_at = 0, w_scan = [],
      w_scan_in_flight = False, w_scan_wanted = False, w_scanned = False, w_scan_at = 0, w_now = 0, w_join_failed = False,
      w_ap_running = False, w_ap_ssid = [], w_last_fail = 0, w_last_ip = 0, w_up_at = 0, w_kv = kv, w_id = ident,
      w_calls = []\<rparr>"

definition cali_wifi_run_boot :: "wenv \<Rightarrow> wifi_run \<Rightarrow> wifi_run" where
  "cali_wifi_run_boot e w =
     (if \<not> w_net w then w
      else
        let (ok, w1) =
              (case cali_kv_get (en_kv e) (w_kv w) CALI_WIFI_KEY_SSID NET_SSID_MAX of
                 CALI_KV_OK ssid \<Rightarrow>
                   (case cali_kv_get (en_kv e) (w_kv w) CALI_WIFI_KEY_PSK NET_PSK_MAX of
                      CALI_KV_OK psk \<Rightarrow> copy_creds ssid psk w
                    | _ \<Rightarrow> (False, w))
               | _ \<Rightarrow> (False, w));
            joined = (case cali_kv_get (en_kv e) (w_kv w) CALI_WIFI_KEY_OK 1 of
                        CALI_KV_OK v \<Rightarrow> v = [] \<or> hd v = CHR ''1'' | _ \<Rightarrow> True);
            w2 = w1\<lparr>w_creds_ok := (ok \<and> joined)\<rparr>
        in if ok \<and> \<not> w_creds_ok w2 then feed_creds_set e (wifi_feed e WEV_BOOT_NO_CREDS 0 w2)
           else wifi_feed e (if ok then WEV_BOOT_WITH_CREDS else WEV_BOOT_NO_CREDS) 0 w2)"

definition cali_wifi_run_tick :: "wenv \<Rightarrow> u64 \<Rightarrow> wifi_run \<Rightarrow> wifi_run" where
  "cali_wifi_run_tick e now_ms w =
     (if \<not> w_net w then w
      else
        let w1 = w\<lparr>w_now := now_ms\<rparr>;
            w2 = (if w_join_failed w1
                  then wifi_feed e WEV_FAILED (ucast CALI_NET_REASON_OTHER) (w1\<lparr>w_join_failed := False\<rparr>) else w1);
            w3 = wifi_feed e WEV_TICK now_ms w2;
            w4 = (if w_scan_wanted w3 \<and> \<not> en_in_flow e then start_scan e w3 else w3)
        in if ws_st (w_sm w4) = WIFI_ONLINE \<and> (w_rssi_at w4 = 0 \<or> now_ms - w_rssi_at w4 \<ge> RSSI_EVERY_MS)
           then w4\<lparr>w_rssi := en_rssi e, w_rssi_at := now_ms\<rparr> else w4)"

definition cali_wifi_run_set_creds :: "wenv \<Rightarrow> string \<Rightarrow> string \<Rightarrow> wifi_run \<Rightarrow> wifi_run" where
  "cali_wifi_run_set_creds e ssid psk w =
     (let sm_st = ws_st (w_sm w) in
      if \<not> w_net w then w
      else if w_have_creds w \<and> (sm_st = WIFI_CONNECTING \<or> sm_st = WIFI_ONLINE) \<and> c_str ssid = c_str (w_ssid w) \<and>
        c_str psk = c_str (w_psk w) then w
      else if \<not> creds_ok_len (length (c_str ssid)) (length (c_str psk)) then w
      else
        let w1 =
              (if w_have_creds w \<and> ws_joined_once (w_sm w) = 1 \<and>
                 (sm_st = WIFI_CONNECTING \<or> sm_st = WIFI_ONLINE \<or> sm_st = WIFI_RETRYING)
               then w\<lparr>w_prev_ssid := w_ssid w, w_prev_psk := w_psk w, w_have_prev := True\<rparr> else w);
            w2 = mark_unjoined e (snd (copy_creds (c_str ssid) (c_str psk) w1))
        in if sm_st = WIFI_SETUP_AP \<or> sm_st = WIFI_SETUP_AP_RETRYING then feed_creds_set e w2
           else if w_have_prev w2 \<and> ws_joined_once (w_sm w2) \<noteq> 0
           then wifi_feed e WEV_CREDS_REPLACE 0 (new_attempt (w2\<lparr>w_ip := 0, w_rssi := 0\<rparr>))
           else if sm_st \<noteq> WIFI_UNPROVISIONED
           then feed_creds_set e (feed_skip e WEV_CREDS_FORGET 0 (Some WACT_CLEAR_CREDS) (w2\<lparr>w_ip := 0, w_rssi := 0\<rparr>))
           else w2)"

definition cali_wifi_run_forget :: "wenv \<Rightarrow> wifi_run \<Rightarrow> wifi_run" where
  "cali_wifi_run_forget e w =
     (if \<not> w_net w then w
      else wifi_feed e WEV_CREDS_FORGET 0 (wipe_prev (w\<lparr>w_ip := 0, w_rssi := 0, w_reverted := False\<rparr>)))"

definition cali_wifi_run_scan :: "wenv \<Rightarrow> wifi_run \<Rightarrow> wifi_run" where
  "cali_wifi_run_scan e w = (if w_net w then start_scan e w else w)"

definition cali_wifi_run_scan_auto :: "wenv \<Rightarrow> wifi_run \<Rightarrow> wifi_run" where
  "cali_wifi_run_scan_auto e w =
     (if w_net w \<and> (\<not> w_scanned w \<or> w_now w - w_scan_at w \<ge> NET_SCAN_MIN_INTERVAL_MS) then start_scan e w else w)"

definition cali_wifi_run_ssid :: "wifi_run \<Rightarrow> string option" where
  "cali_wifi_run_ssid w = (if w_have_creds w then Some (c_str (w_ssid w)) else None)"

definition cali_wifi_run_ip :: "wifi_run \<Rightarrow> u32" where
  "cali_wifi_run_ip w = (if ws_st (w_sm w) = WIFI_ONLINE then w_ip w else 0)"

definition cali_wifi_run_rssi :: "wifi_run \<Rightarrow> int" where
  "cali_wifi_run_rssi w = (if ws_st (w_sm w) = WIFI_ONLINE then w_rssi w else 0)"

definition cali_wifi_run_last_fail :: "wifi_run \<Rightarrow> string option" where
  "cali_wifi_run_last_fail w = (if w_last_fail w = CALI_NET_REASON_NONE then None else Some (reason_name (w_last_fail w)))"

text \<open>
  New credentials as both callers pass them on, the web handler and the console: validated, both keys stored, then
  the runtime. A second write that fails leaves the first one in the store.
\<close>

definition wifi_post :: "wenv \<Rightarrow> string \<Rightarrow> string \<Rightarrow> wifi_run \<Rightarrow> wifi_run" where
  "wifi_post e ssid psk w =
     (if length ssid < 1 \<or> length ssid > NET_SSID_MAX then w
      else if length psk < NET_PSK_MIN \<or> length psk > NET_PSK_MAX then w
      else
        let (ok1, kv1) = cali_kv_set (en_kv e) (w_kv w) CALI_WIFI_KEY_SSID ssid in
        if \<not> ok1 then w\<lparr>w_kv := kv1\<rparr>
        else
          let (ok2, kv2) = cali_kv_set (en_kv e) kv1 CALI_WIFI_KEY_PSK psk in
          if \<not> ok2 then w\<lparr>w_kv := kv2\<rparr> else cali_wifi_run_set_creds e ssid psk (w\<lparr>w_kv := kv2\<rparr>))"

datatype wop = Wo_tick wenv u64 | Wo_post wenv string string | Wo_forget wenv | Wo_net wenv net_event | Wo_scan wenv
  | Wo_scan_auto wenv

fun wdo :: "wifi_run \<Rightarrow> wop \<Rightarrow> wifi_run" where
  "wdo w (Wo_tick e now) = cali_wifi_run_tick e now w"
| "wdo w (Wo_post e ssid psk) = wifi_post e ssid psk w"
| "wdo w (Wo_forget e) = cali_wifi_run_forget e w"
| "wdo w (Wo_net e ev) = (if w_net w then on_net e ev w else w)"
| "wdo w (Wo_scan e) = cali_wifi_run_scan e w"
| "wdo w (Wo_scan_auto e) = cali_wifi_run_scan_auto e w"

lemmas wr_defs = kv_put_def kv_del_def net_do_def wipe_prev_def wipe_creds_def mark_unjoined_def new_attempt_def

section \<open>What an action leaves alone\<close>

lemma start_scan_fields [simp]:
  "w_net (start_scan e w) = w_net w" "w_sm (start_scan e w) = w_sm w" "w_ssid (start_scan e w) = w_ssid w"
  "w_psk (start_scan e w) = w_psk w" "w_have_creds (start_scan e w) = w_have_creds w"
  "w_prev_ssid (start_scan e w) = w_prev_ssid w" "w_prev_psk (start_scan e w) = w_prev_psk w"
  "w_have_prev (start_scan e w) = w_have_prev w" "w_kv (start_scan e w) = w_kv w"
  "w_reverted (start_scan e w) = w_reverted w" "w_last_fail (start_scan e w) = w_last_fail w"
  "w_creds_ok (start_scan e w) = w_creds_ok w" "w_join_failed (start_scan e w) = w_join_failed w"
  by (simp_all add: start_scan_def net_do_def Let_def)

lemma run_ap_start_fields [simp]:
  "w_net (run_ap_start e w) = w_net w" "w_sm (run_ap_start e w) = w_sm w" "w_ssid (run_ap_start e w) = w_ssid w"
  "w_psk (run_ap_start e w) = w_psk w" "w_have_creds (run_ap_start e w) = w_have_creds w"
  "w_prev_ssid (run_ap_start e w) = w_prev_ssid w" "w_prev_psk (run_ap_start e w) = w_prev_psk w"
  "w_have_prev (run_ap_start e w) = w_have_prev w"
  "w_reverted (run_ap_start e w) = w_reverted w" "w_last_fail (run_ap_start e w) = w_last_fail w"
  "w_creds_ok (run_ap_start e w) = w_creds_ok w" "w_join_failed (run_ap_start e w) = w_join_failed w"
  by (simp_all add: run_ap_start_def open_hotspot_def net_do_def Let_def split: prod.splits option.splits)

lemma run_ap_start_kv [simp]: "k \<noteq> CALI_AP_KEY_PSK \<Longrightarrow> w_kv (run_ap_start e w) k = w_kv w k"
  by (auto simp: run_ap_start_def open_hotspot_def net_do_def Let_def identity_other_keys split: prod.splits option.splits)

lemma wifi_keys_distinct [simp]:
  "CALI_WIFI_KEY_SSID \<noteq> CALI_WIFI_KEY_PSK" "CALI_WIFI_KEY_SSID \<noteq> CALI_WIFI_KEY_OK" "CALI_WIFI_KEY_PSK \<noteq> CALI_WIFI_KEY_OK"
  "CALI_WIFI_KEY_PSK \<noteq> CALI_WIFI_KEY_SSID" "CALI_WIFI_KEY_OK \<noteq> CALI_WIFI_KEY_SSID" "CALI_WIFI_KEY_OK \<noteq> CALI_WIFI_KEY_PSK"
  "CALI_WIFI_KEY_SSID \<noteq> CALI_AP_KEY_PSK" "CALI_WIFI_KEY_PSK \<noteq> CALI_AP_KEY_PSK" "CALI_WIFI_KEY_OK \<noteq> CALI_AP_KEY_PSK"
  by (simp_all add: wifi_keys)

section \<open>A joined network is kept\<close>

definition creds_fine :: "string \<Rightarrow> string \<Rightarrow> bool" where
  "creds_fine s p \<longleftrightarrow> creds_ok_len (length s) (length p) \<and> CHR 0x00 \<notin> set s \<and> CHR 0x00 \<notin> set p"

definition station_up :: "wifi_run \<Rightarrow> bool" where
  "station_up w \<longleftrightarrow> ws_st (w_sm w) \<in> {WIFI_CONNECTING, WIFI_ONLINE, WIFI_RETRYING, WIFI_SETUP_AP_RETRYING}"

text \<open>The network \<open>(s, p)\<close> is the current one, in RAM and in the store, and counts as joined.\<close>

definition current :: "string \<Rightarrow> string \<Rightarrow> wifi_run \<Rightarrow> bool" where
  "current s p w \<longleftrightarrow>
     ws_joined_once (w_sm w) = 1 \<and> station_up w \<and> w_have_creds w \<and> w_ssid w = s \<and> w_psk w = p \<and>
     w_kv w CALI_WIFI_KEY_SSID = Some s \<and> w_kv w CALI_WIFI_KEY_PSK = Some p \<and>
     w_kv w CALI_WIFI_KEY_OK \<in> {None, Some ''1''}"

text \<open>It is the fallback of a replacement that is being joined.\<close>

definition fallback :: "string \<Rightarrow> string \<Rightarrow> wifi_run \<Rightarrow> bool" where
  "fallback s p w \<longleftrightarrow>
     ws_joined_once (w_sm w) = WIFI_REPLACING \<and> ws_st (w_sm w) = WIFI_CONNECTING \<and> w_have_prev w \<and>
     w_prev_ssid w = s \<and> w_prev_psk w = p"

definition kept :: "string \<Rightarrow> string \<Rightarrow> wifi_run \<Rightarrow> bool" where
  "kept s p w \<longleftrightarrow> w_net w \<and> (current s p w \<or> fallback s p w)"

definition kv_fine :: "wenv \<Rightarrow> bool" where "kv_fine e \<longleftrightarrow> io_set_ok (en_kv e) = (\<lambda>k. True)"

text \<open>
  What may happen without giving the network up: everything but a forget, the replacement's own success, and new
  credentials typed after the hotspot has reopened; the store takes writes.
\<close>

fun keeps :: "wifi_run \<Rightarrow> wop \<Rightarrow> bool" where
  "keeps w (Wo_tick e now) \<longleftrightarrow> kv_fine e"
| "keeps w (Wo_post e ssid psk) \<longleftrightarrow>
     kv_fine e \<and> ws_st (w_sm w) \<noteq> WIFI_SETUP_AP_RETRYING \<and> CHR 0x00 \<notin> set ssid \<and> CHR 0x00 \<notin> set psk"
| "keeps w (Wo_forget e) \<longleftrightarrow> False"
| "keeps w (Wo_net e ev) \<longleftrightarrow> kv_fine e \<and> ((\<exists>ip. ev = STA_GOT_IP ip) \<longrightarrow> ws_joined_once (w_sm w) = 1)"
| "keeps w (Wo_scan e) \<longleftrightarrow> True"
| "keeps w (Wo_scan_auto e) \<longleftrightarrow> True"

lemmas kept_defs = kept_def current_def fallback_def station_up_def
lemmas act_defs = wifi_feed_def feed_skip_def wifi_run_action_def wifi_defs wr_defs kv_fine_def cali_kv_set_def

lemma restore_prev:
  assumes "creds_fine s p" and "kv_fine e" and "w_have_prev w" and "w_prev_ssid w = s" and "w_prev_psk w = p"
  shows "w_have_creds (run_restore_prev e w)" "w_ssid (run_restore_prev e w) = s" "w_psk (run_restore_prev e w) = p"
    "w_kv (run_restore_prev e w) CALI_WIFI_KEY_SSID = Some s" "w_kv (run_restore_prev e w) CALI_WIFI_KEY_PSK = Some p"
    "w_kv (run_restore_prev e w) CALI_WIFI_KEY_OK = Some ''1''" "w_net (run_restore_prev e w) = w_net w"
    "w_sm (run_restore_prev e w) = w_sm w" "w_reverted (run_restore_prev e w)" "\<not> w_have_prev (run_restore_prev e w)"
    "w_last_fail (run_restore_prev e w) = w_last_fail w"
  using assms
  by (simp_all add: run_restore_prev_def copy_creds_def creds_fine_def wr_defs kv_fine_def cali_kv_set_def Let_def)

lemma failed_current:
  "current s p w \<Longrightarrow> current s p (wifi_feed e WEV_FAILED r w) \<and> w_net (wifi_feed e WEV_FAILED r w) = w_net w"
  by (auto simp: current_def station_up_def act_defs WIFI_REPLACING_def)

lemma failed_fallback:
  assumes "creds_fine s p" and "kv_fine e" and "fallback s p w"
  shows "current s p (wifi_feed e WEV_FAILED r w) \<and> w_net (wifi_feed e WEV_FAILED r w) = w_net w \<and>
    ws_st (w_sm (wifi_feed e WEV_FAILED r w)) = WIFI_RETRYING \<and> w_reverted (wifi_feed e WEV_FAILED r w) \<and>
    w_last_fail (wifi_feed e WEV_FAILED r w) = (if (ucast r :: u32) \<noteq> 0 then ucast r else CALI_NET_REASON_OTHER)"
  using assms(3)
  by (auto simp: fallback_def current_def station_up_def wifi_feed_def feed_skip_def wifi_run_action_def wifi_defs
    restore_prev [OF assms(1,2)] WIFI_REPLACING_def)

lemma kept_failed: "creds_fine s p \<Longrightarrow> kv_fine e \<Longrightarrow> kept s p w \<Longrightarrow> kept s p (wifi_feed e WEV_FAILED r w)"
  unfolding kept_def by (metis failed_current failed_fallback)

lemma kept_tick_feed: "kept s p w \<Longrightarrow> kept s p (wifi_feed e WEV_TICK t w)"
  by (cases "ws_st (w_sm w)") (auto simp: kept_defs act_defs WIFI_REPLACING_def Let_def)

lemma kept_scan: "kept s p (start_scan e w) = kept s p w"
  by (simp add: kept_defs)

lemma kept_upd [simp]:
  "kept s p (w\<lparr>w_now := t\<rparr>) = kept s p w" "kept s p (w\<lparr>w_join_failed := b\<rparr>) = kept s p w"
  "kept s p (w\<lparr>w_rssi := r\<rparr>) = kept s p w" "kept s p (w\<lparr>w_rssi_at := t\<rparr>) = kept s p w"
  "kept s p (w\<lparr>w_ip := i\<rparr>) = kept s p w" "kept s p (w\<lparr>w_scan_in_flight := b\<rparr>) = kept s p w"
  "kept s p (w\<lparr>w_scan := l\<rparr>) = kept s p w" "kept s p (w\<lparr>w_ap_running := b\<rparr>) = kept s p w"
  by (simp_all add: kept_defs)

lemma kept_tick: "creds_fine s p \<Longrightarrow> kv_fine e \<Longrightarrow> kept s p w \<Longrightarrow> kept s p (cali_wifi_run_tick e t w)"
  by (simp add: cali_wifi_run_tick_def Let_def kept_scan kept_tick_feed kept_failed)

lemma kept_got_ip:
  "kv_fine e \<Longrightarrow> ws_joined_once (w_sm w) = 1 \<Longrightarrow> kept s p w \<Longrightarrow> kept s p (on_net e (STA_GOT_IP ip) w)"
  by (cases "ws_st (w_sm w)") (auto simp: kept_defs on_net_def act_defs WIFI_REPLACING_def Let_def)

lemma kept_net:
  "creds_fine s p \<Longrightarrow> keeps w (Wo_net e ev) \<Longrightarrow> kept s p w \<Longrightarrow> kept s p (on_net e ev w)"
proof (cases ev)
  case STA_LOST
  then show "kept s p w \<Longrightarrow> ?thesis"
    by (cases "ws_st (w_sm w)") (auto simp: kept_defs on_net_def act_defs WIFI_REPLACING_def Let_def)
next
  case AP_STARTED
  then show "kept s p w \<Longrightarrow> ?thesis"
    by (cases "ws_st (w_sm w)") (auto simp: kept_defs on_net_def act_defs WIFI_REPLACING_def Let_def)
qed (auto simp: on_net_def [of e "STA_FAILED r" for r] on_net_def [of e "SCAN_DONE l" for l] on_net_def [of e "AP_STOPPED"]
  kept_failed kept_got_ip split: option.splits)

lemma post_cases:
  assumes "kv_fine e"
  shows "wifi_post e ssid psk w = w \<or>
    creds_ok_len (length ssid) (length psk) \<and>
    wifi_post e ssid psk w =
      cali_wifi_run_set_creds e ssid psk (w\<lparr>w_kv := (w_kv w)(CALI_WIFI_KEY_SSID \<mapsto> ssid, CALI_WIFI_KEY_PSK \<mapsto> psk)\<rparr>)"
  using assms by (auto simp: wifi_post_def kv_fine_def cali_kv_set_def creds_ok_len_def Suc_le_eq)

lemma replaced:
  assumes "w_net w" and "creds_ok_len (length ssid) (length psk)" and "CHR 0x00 \<notin> set ssid" and "CHR 0x00 \<notin> set psk"
    and "\<not> (w_have_creds w \<and> ws_st (w_sm w) \<in> {WIFI_CONNECTING, WIFI_ONLINE} \<and> ssid = c_str (w_ssid w) \<and> psk = c_str (w_psk w))"
    and "current s p w \<and> ws_st (w_sm w) \<noteq> WIFI_SETUP_AP_RETRYING \<or> fallback s p w \<or>
      w_have_creds w \<and> w_ssid w = s \<and> w_psk w = p \<and> ws_joined_once (w_sm w) = 1 \<and>
        ws_st (w_sm w) \<in> {WIFI_CONNECTING, WIFI_ONLINE, WIFI_RETRYING}"
  shows "fallback s p (cali_wifi_run_set_creds e ssid psk w) \<and> w_net (cali_wifi_run_set_creds e ssid psk w)"
  using assms(1-4)
  by (insert assms(5,6), elim disjE)
     (auto simp: cali_wifi_run_set_creds_def fallback_def current_def station_up_def wifi_feed_def feed_skip_def wifi_run_action_def
       wifi_defs wr_defs copy_creds_def WIFI_REPLACING_def)

lemma kept_post:
  assumes fine: "creds_fine s p" and keeps: "keeps w (Wo_post e ssid psk)" and kept: "kept s p w"
  shows "kept s p (wifi_post e ssid psk w)"
proof (cases "wifi_post e ssid psk w = w")
  case False
  let ?w = "w\<lparr>w_kv := (w_kv w)(CALI_WIFI_KEY_SSID \<mapsto> ssid, CALI_WIFI_KEY_PSK \<mapsto> psk)\<rparr>"
  have post: "creds_ok_len (length ssid) (length psk)" "wifi_post e ssid psk w = cali_wifi_run_set_creds e ssid psk ?w"
    using post_cases [of e ssid psk w] keeps False by simp_all
  have nul: "CHR 0x00 \<notin> set ssid" "CHR 0x00 \<notin> set psk" "ws_st (w_sm w) \<noteq> WIFI_SETUP_AP_RETRYING" using keeps by simp_all
  show ?thesis
  proof (cases "w_have_creds w \<and> ws_st (w_sm w) \<in> {WIFI_CONNECTING, WIFI_ONLINE} \<and> ssid = c_str (w_ssid w) \<and> psk = c_str (w_psk w)")
    case True
    then have "cali_wifi_run_set_creds e ssid psk ?w = ?w" using kept nul
      by (auto simp: cali_wifi_run_set_creds_def kept_def)
    then show ?thesis using True kept fine post(2) by (auto simp: kept_defs creds_fine_def)
  next
    case other: False
    have "fallback s p (cali_wifi_run_set_creds e ssid psk ?w) \<and> w_net (cali_wifi_run_set_creds e ssid psk ?w)"
      by (rule replaced) (use kept nul post(1) other in \<open>auto simp: kept_defs\<close>)
    then show ?thesis using post(2) by (simp add: kept_def)
  qed
qed (use kept in simp)

lemma kept_op: "creds_fine s p \<Longrightarrow> keeps w op1 \<Longrightarrow> kept s p w \<Longrightarrow> kept s p (wdo w op1)"
  by (cases op1) (auto simp: kept_tick kept_post kept_net kept_scan cali_wifi_run_scan_def cali_wifi_run_scan_auto_def)

fun keeps_all :: "wifi_run \<Rightarrow> wop list \<Rightarrow> bool" where
  "keeps_all w [] \<longleftrightarrow> True"
| "keeps_all w (x # xs) \<longleftrightarrow> keeps w x \<and> keeps_all (wdo w x) xs"

lemma kept_run: "creds_fine s p \<Longrightarrow> keeps_all w xs \<Longrightarrow> kept s p w \<Longrightarrow> kept s p (foldl wdo w xs)"
  by (induction xs arbitrary: w) (simp_all add: kept_op)

section \<open>Scans\<close>

fun op_env :: "wop \<Rightarrow> wenv" where
  "op_env (Wo_tick e now) = e"
| "op_env (Wo_post e ssid psk) = e"
| "op_env (Wo_forget e) = e"
| "op_env (Wo_net e ev) = e"
| "op_env (Wo_scan e) = e"
| "op_env (Wo_scan_auto e) = e"

text \<open>A scan is asked of the network only outside a pairing flow and with none in flight.\<close>

definition scan_free :: "wenv \<Rightarrow> wifi_run \<Rightarrow> wifi_run \<Rightarrow> bool" where
  "scan_free e w w' \<longleftrightarrow>
     (\<exists>cs. w_calls w' = w_calls w @ cs \<and> (N_scan \<in> set cs \<longrightarrow> \<not> en_in_flow e \<and> \<not> w_scan_in_flight w)) \<and>
     (w_scan_in_flight w \<longrightarrow> w_scan_in_flight w') "

lemma scan_freeI:
  "w_calls w' = w_calls w @ cs \<Longrightarrow> N_scan \<notin> set cs \<Longrightarrow> w_scan_in_flight w' = w_scan_in_flight w \<Longrightarrow> scan_free e w w'"
  by (auto simp: scan_free_def)

lemma scan_free_refl: "w_calls w' = w_calls w \<Longrightarrow> w_scan_in_flight w' = w_scan_in_flight w \<Longrightarrow> scan_free e w w'"
  by (rule scan_freeI [of _ _ "[]"]) simp_all

lemma scan_free_trans: "scan_free e w w' \<Longrightarrow> scan_free e w' w'' \<Longrightarrow> scan_free e w w''"
  unfolding scan_free_def by (metis append.assoc set_append Un_iff)

lemma scan_free_start: "scan_free e w (start_scan e w)"
  by (auto simp: start_scan_def scan_free_def net_do_def Let_def)

lemma scan_free_ap: "scan_free e w (run_ap_start e w)"
proof -
  have "scan_free e w (open_hotspot e w)"
    by (auto simp: open_hotspot_def scan_free_def net_do_def Let_def split: prod.splits option.splits)
  then show ?thesis unfolding run_ap_start_def by (rule scan_free_trans [OF _ scan_free_start])
qed

lemma scan_free_action: "scan_free e w (wifi_run_action e a w)"
proof (cases "wa_act a")
  case WACT_AP_START
  then show ?thesis by (simp add: wifi_run_action_def scan_free_ap)
next
  case WACT_RESTORE_PREV
  then show ?thesis
    by (simp add: wifi_run_action_def run_restore_prev_def copy_creds_def wr_defs Let_def scan_free_refl)
qed (auto simp: wifi_run_action_def wr_defs Let_def scan_free_def)

lemma scan_free_feed_skip: "scan_free e w (feed_skip e ev arg skip w)"
proof -
  have "scan_free e w (fold (\<lambda>a w. if Some (wa_act a) = skip then w else wifi_run_action e a w) acts w)" for acts w
    by (induction acts arbitrary: w) (auto intro: scan_free_trans scan_free_action simp: scan_free_refl)
  then have "scan_free e w (fold (\<lambda>a w. if Some (wa_act a) = skip then w else wifi_run_action e a w) acts (w\<lparr>w_sm := m\<rparr>))" for acts m
    by (rule scan_free_trans [rotated]) (simp add: scan_free_refl)
  then show ?thesis by (simp add: feed_skip_def split: prod.splits)
qed

lemmas scan_free_feed = scan_free_feed_skip [of _ _ _ _ None, folded wifi_feed_def]

lemma scan_free_upd:
  "w_calls w0 = w_calls w \<Longrightarrow> w_scan_in_flight w0 = w_scan_in_flight w \<Longrightarrow> scan_free e w0 w' \<Longrightarrow> scan_free e w w'"
  by (simp add: scan_free_def)

lemma scan_free_upd':
  "w_calls w1 = w_calls w' \<Longrightarrow> w_scan_in_flight w1 = w_scan_in_flight w' \<Longrightarrow> scan_free e w w' \<Longrightarrow> scan_free e w w1"
  by (simp add: scan_free_def)

lemma scan_free_creds_set: "scan_free e w (feed_creds_set e w)"
  unfolding feed_creds_set_def by (rule scan_free_upd [OF _ _ scan_free_feed]) (simp_all add: wr_defs)

lemma scan_free_tick: "scan_free e w (cali_wifi_run_tick e t w)"
proof (cases "w_net w")
  case True
  define w2 where "w2 = (if w_join_failed w then wifi_feed e WEV_FAILED (ucast CALI_NET_REASON_OTHER) (w\<lparr>w_now := t, w_join_failed := False\<rparr>)
    else w\<lparr>w_now := t\<rparr>)"
  define w3 where "w3 = wifi_feed e WEV_TICK t w2"
  define w4 where "w4 = (if w_scan_wanted w3 \<and> \<not> en_in_flow e then start_scan e w3 else w3)"
  have "scan_free e w w2"
    unfolding w2_def by (auto simp: scan_free_refl intro: scan_free_upd [OF _ _ scan_free_feed])
  then have "scan_free e w w3" unfolding w3_def by (rule scan_free_trans [OF _ scan_free_feed])
  then have "scan_free e w w4" unfolding w4_def by (auto intro: scan_free_trans [OF _ scan_free_start])
  moreover have "cali_wifi_run_tick e t w = w4 \<or> cali_wifi_run_tick e t w = w4\<lparr>w_rssi := en_rssi e, w_rssi_at := t\<rparr>"
    using True by (simp add: cali_wifi_run_tick_def Let_def w2_def w3_def w4_def)
  ultimately show ?thesis by (auto simp: scan_free_def)
qed (simp add: cali_wifi_run_tick_def scan_free_refl)

lemma set_creds_cases:
  obtains "cali_wifi_run_set_creds e ssid psk w = w"
  | w2 where "w_calls w2 = w_calls w" "w_scan_in_flight w2 = w_scan_in_flight w"
      "cali_wifi_run_set_creds e ssid psk w \<in>
         {w2, feed_creds_set e w2, wifi_feed e WEV_CREDS_REPLACE 0 w2, feed_creds_set e (feed_skip e WEV_CREDS_FORGET 0 (Some WACT_CLEAR_CREDS) w2)}"
proof -
  define w1 where "w1 =
    (if w_have_creds w \<and> ws_joined_once (w_sm w) = 1 \<and>
       (ws_st (w_sm w) = WIFI_CONNECTING \<or> ws_st (w_sm w) = WIFI_ONLINE \<or> ws_st (w_sm w) = WIFI_RETRYING)
     then w\<lparr>w_prev_ssid := w_ssid w, w_prev_psk := w_psk w, w_have_prev := True\<rparr> else w)"
  define w2 where "w2 = mark_unjoined e (snd (copy_creds (c_str ssid) (c_str psk) w1))"
  have w2: "w_calls w2 = w_calls w" "w_scan_in_flight w2 = w_scan_in_flight w"
    by (simp_all add: w2_def w1_def copy_creds_def wr_defs)
  have "cali_wifi_run_set_creds e ssid psk w \<in>
    {w, w2, feed_creds_set e w2, wifi_feed e WEV_CREDS_REPLACE 0 (new_attempt (w2\<lparr>w_ip := 0, w_rssi := 0\<rparr>)),
     feed_creds_set e (feed_skip e WEV_CREDS_FORGET 0 (Some WACT_CLEAR_CREDS) (w2\<lparr>w_ip := 0, w_rssi := 0\<rparr>))}"
    unfolding cali_wifi_run_set_creds_def Let_def w2_def [symmetric] w1_def [symmetric] by simp
  then show ?thesis
    using that(1) that(2) [OF w2] that(2) [of "new_attempt (w2\<lparr>w_ip := 0, w_rssi := 0\<rparr>)"]
      that(2) [of "w2\<lparr>w_ip := 0, w_rssi := 0\<rparr>"] w2
    by (auto simp: new_attempt_def)
qed

lemma scan_free_set_creds: "scan_free e w (cali_wifi_run_set_creds e ssid psk w)"
proof (cases rule: set_creds_cases [of e ssid psk w])
  case (2 w2)
  then have "scan_free e w w2" by (simp add: scan_free_refl)
  then show ?thesis using 2(3)
    by (auto intro: scan_free_trans [OF _ scan_free_creds_set] scan_free_trans [OF _ scan_free_feed]
      scan_free_trans [OF _ scan_free_trans [OF scan_free_feed_skip scan_free_creds_set]])
qed (simp add: scan_free_refl)

lemma scan_free_post: "scan_free e w (wifi_post e ssid psk w)"
  by (auto simp: wifi_post_def Let_def scan_free_refl split: prod.splits intro: scan_free_upd [OF _ _ scan_free_set_creds])

lemma scan_free_forget: "scan_free e w (cali_wifi_run_forget e w)"
  unfolding cali_wifi_run_forget_def
  by (auto simp: wr_defs scan_free_refl intro: scan_free_upd [OF _ _ scan_free_feed])

lemma scan_free_net: "(\<forall>l. ev \<noteq> SCAN_DONE l) \<Longrightarrow> scan_free e w (on_net e ev w)"
  by (cases ev)
     (auto simp: on_net_def Let_def wr_defs scan_free_refl scan_free_feed split: prod.splits
       intro: scan_free_upd [OF _ _ scan_free_feed] scan_free_upd' [OF _ _ scan_free_feed])

end
