(* ===== verification/Wifi_Safety.thy ===== *)
theory Wifi_Safety
  imports Wifi_Run
begin

text \<open>
  The properties of the WiFi runtime: a joined network survives failed replacements, scans wait for the pairing flow, the scan
  list names each network once, and two ways in which stored credentials are lost or mixed.
\<close>

section \<open>Lemmas\<close>

lemma boot_current:
  assumes "creds_fine s p" and "current s p w" and "io_bad (en_kv e) = (\<lambda>k. False)"
  shows "current s p (cali_wifi_run_boot e (cali_wifi_run_init True (w_kv w) ident)) \<and>
    N_sta_start s p \<in> set (w_calls (cali_wifi_run_boot e (cali_wifi_run_init True (w_kv w) ident)))"
proof -
  have "length s \<le> NET_SSID_MAX" "length p \<le> NET_PSK_MAX" using assms(1)
    by (auto simp: creds_fine_def creds_ok_len_def ap_consts)
  then show ?thesis
    using assms
    by (auto simp: cali_wifi_run_boot_def cali_wifi_run_init_def current_def station_up_def cali_kv_get_def copy_creds_def
      creds_fine_def wifi_feed_def feed_skip_def wifi_run_action_def wifi_defs wr_defs wifi_init_def)
qed

lemma scan_slot_le: "scan_slot xs ap \<le> length xs"
  by (induction xs) auto

lemma scan_slot_full: "scan_slot xs ap = length xs \<longleftrightarrow> ap_name ap \<notin> ap_name ` set xs"
  by (induction xs) auto

lemma scan_slot_hit: "scan_slot xs ap < length xs \<Longrightarrow> ap_name (xs ! scan_slot xs ap) = ap_name ap"
  by (induction xs) (auto split: if_splits)

text \<open>A scan that is due since \<open>w0\<close>: it was asked for, or it is still wanted and can start.\<close>

definition scan_due :: "wifi_run \<Rightarrow> wifi_run \<Rightarrow> bool" where
  "scan_due w0 w \<longleftrightarrow> (\<exists>cs. w_calls w = w_calls w0 @ cs \<and> (N_scan \<in> set cs \<or> w_scan_wanted w \<and> \<not> w_scan_in_flight w))"

lemma scan_due_done: "scan_due w0 w \<Longrightarrow> \<not> en_in_flow e \<Longrightarrow> scan_due w0 (start_scan e w)"
  by (auto simp: scan_due_def start_scan_def net_do_def Let_def)

lemma scan_due_quiet:
  "scan_due w0 w \<Longrightarrow> w_calls w' = w_calls w @ cs \<Longrightarrow> w_scan_wanted w' = w_scan_wanted w \<Longrightarrow>
     w_scan_in_flight w' = w_scan_in_flight w \<Longrightarrow> scan_due w0 w'"
  by (auto simp: scan_due_def)

lemma scan_due_action:
  assumes "scan_due w0 w" and "\<not> en_in_flow e"
  shows "scan_due w0 (wifi_run_action e a w)"
proof (cases "wa_act a = WACT_AP_START")
  case True
  have "scan_due w0 (open_hotspot e w)" using assms(1)
    by (auto simp: open_hotspot_def scan_due_def net_do_def Let_def split: prod.splits option.splits)
  then show ?thesis using True assms(2) by (simp add: wifi_run_action_def run_ap_start_def scan_due_done)
next
  case False
  then show ?thesis using assms(1)
    by (cases "wa_act a") (auto simp: wifi_run_action_def run_restore_prev_def copy_creds_def wr_defs Let_def intro: scan_due_quiet)
qed

lemma scan_due_feed:
  assumes "\<not> en_in_flow e" and "scan_due w0 w"
  shows "scan_due w0 (wifi_feed e ev arg w)"
proof -
  have "scan_due w0 (fold (wifi_run_action e) acts w)" if "scan_due w0 w" for acts w
    using that by (induction acts arbitrary: w) (simp_all add: scan_due_action assms(1))
  moreover have "scan_due w0 (w\<lparr>w_sm := m\<rparr>)" for m using assms(2) by (simp add: scan_due_def)
  ultimately show ?thesis by (simp add: wifi_feed_def feed_skip_def split: prod.splits)
qed

lemma scan_due_tick:
  assumes "w_net w" and "w_scan_wanted w" and "\<not> w_scan_in_flight w" and "\<not> en_in_flow e"
  shows "\<exists>cs. w_calls (cali_wifi_run_tick e t w) = w_calls w @ cs \<and> N_scan \<in> set cs"
proof -
  define w2 where "w2 = (if w_join_failed w then wifi_feed e WEV_FAILED (ucast CALI_NET_REASON_OTHER) (w\<lparr>w_now := t, w_join_failed := False\<rparr>)
    else w\<lparr>w_now := t\<rparr>)"
  define w3 where "w3 = wifi_feed e WEV_TICK t w2"
  define w4 where "w4 = (if w_scan_wanted w3 \<and> \<not> en_in_flow e then start_scan e w3 else w3)"
  have "scan_due w (w\<lparr>w_now := t, w_join_failed := False\<rparr>)" "scan_due w (w\<lparr>w_now := t\<rparr>)" using assms by (simp_all add: scan_due_def)
  then have "scan_due w w2" unfolding w2_def by (simp add: scan_due_feed [OF assms(4)])
  then have "scan_due w w3" unfolding w3_def by (rule scan_due_feed [OF assms(4)])
  then have "\<exists>cs. w_calls w4 = w_calls w @ cs \<and> N_scan \<in> set cs" using assms(4)
    by (auto simp: w4_def scan_due_def start_scan_def net_do_def Let_def)
  moreover have "cali_wifi_run_tick e t w = w4 \<or> cali_wifi_run_tick e t w = w4\<lparr>w_rssi := en_rssi e, w_rssi_at := t\<rparr>"
    using assms(1) by (simp add: cali_wifi_run_tick_def Let_def w2_def w3_def w4_def)
  ultimately show ?thesis by auto
qed

text \<open>What the list holds after the entries \<open>done\<close>: each name once, the strongest entry of that name.\<close>

definition scan_ok :: "net_ap list \<Rightarrow> net_ap list \<Rightarrow> bool" where
  "scan_ok seen xs \<longleftrightarrow>
     distinct (map ap_name xs) \<and> set xs \<subseteq> set seen \<and> ap_name ` set seen \<subseteq> ap_name ` set xs \<and>
     (\<forall>x\<in>set xs. \<forall>y\<in>set seen. ap_name y = ap_name x \<longrightarrow> ap_rssi y \<le> ap_rssi x)"

lemma scan_ok_put:
  assumes ok: "scan_ok seen xs"
  shows "scan_ok (seen @ [ap_entry a]) (scan_put xs a)"
proof -
  let ?a = "ap_entry a" and ?j = "scan_slot xs (ap_entry a)"
  have d: "distinct (map ap_name xs)" using ok by (simp add: scan_ok_def)
  consider "?j = length xs" | "?j < length xs" "ap_rssi ?a > ap_rssi (xs ! ?j)" | "?j < length xs" "ap_rssi ?a \<le> ap_rssi (xs ! ?j)"
    using scan_slot_le [of xs ?a] by fastforce
  then show ?thesis
  proof cases
    case 1
    then have "ap_name ?a \<notin> ap_name ` set xs" by (simp add: scan_slot_full)
    moreover from this have "ap_name ?a \<notin> ap_name ` set seen" using ok by (auto simp: scan_ok_def)
    ultimately show ?thesis using 1 ok by (auto simp: scan_ok_def scan_put_def Let_def) (metis imageI)+
  next
    case 2
    have n: "ap_name (xs ! ?j) = ap_name ?a" using scan_slot_hit 2(1) by blast
    obtain us z vs where xs: "xs = us @ z # vs" "length us = ?j" "z = xs ! ?j"
      using id_take_nth_drop [OF 2(1)] 2(1) by (metis length_take min.absorb4)
    have "xs[?j := ?a] = us @ ?a # vs" unfolding xs(2) [symmetric] by (simp add: xs(1))
    then have put: "scan_put xs a = us @ ?a # vs" using 2 by (simp add: scan_put_def Let_def)
    have best: "ap_rssi y \<le> ap_rssi ?a" if "y \<in> set seen" "ap_name y = ap_name ?a" for y
      using ok that n 2(2) nth_mem [OF 2(1)] by (fastforce simp: scan_ok_def)
    have z: "ap_name z = ap_name ?a" using n xs(3) by metis
    have ok': "distinct (map ap_name (us @ z # vs))" "set (us @ z # vs) \<subseteq> set seen"
      "ap_name ` set seen \<subseteq> ap_name ` set (us @ z # vs)"
      "\<And>x y. x \<in> set (us @ z # vs) \<Longrightarrow> y \<in> set seen \<Longrightarrow> ap_name y = ap_name x \<Longrightarrow> ap_rssi y \<le> ap_rssi x"
      using ok xs(1) unfolding scan_ok_def by metis+
    have "distinct (map ap_name (us @ ?a # vs))" "set (us @ ?a # vs) \<subseteq> set (seen @ [?a])"
      "ap_name ` set (seen @ [?a]) \<subseteq> ap_name ` set (us @ ?a # vs)" using ok'(1-3) z by auto
    moreover have "ap_rssi y \<le> ap_rssi x"
      if xy: "x \<in> set (us @ ?a # vs)" "y \<in> set (seen @ [?a])" "ap_name y = ap_name x" for x y
    proof (cases "ap_name x = ap_name ?a")
      case True
      then have "x = ?a" using xy(1) ok'(1) z by simp (metis imageI)
      then show ?thesis using xy best by auto
    next
      case False
      then show ?thesis using xy ok'(4) [of x y] by auto
    qed
    ultimately show ?thesis unfolding put scan_ok_def by blast
  next
    case 3
    have n: "ap_name (xs ! ?j) = ap_name ?a" using scan_slot_hit 3(1) by blast
    have "ap_rssi ?a \<le> ap_rssi x" if "x \<in> set xs" "ap_name ?a = ap_name x" for x
      using that n d 3 by (metis distinct_map inj_onD nth_mem)
    moreover have "ap_name ?a \<in> ap_name ` set xs" using n nth_mem [OF 3(1)] by (metis imageI)
    moreover have "scan_put xs a = xs" using 3 by (simp add: scan_put_def Let_def)
    ultimately show ?thesis using ok unfolding scan_ok_def by auto
  qed
qed

lemma scan_ok_merge: "scan_ok (map ap_entry (take NET_SCAN_MAX aps)) (scan_merge aps)"
proof -
  have "scan_ok (seen @ map ap_entry as) (foldl scan_put xs as)" if "scan_ok seen xs" for seen xs as
    using that
  proof (induction as arbitrary: seen xs)
    case (Cons a as)
    then show ?case using scan_ok_put [OF Cons.prems, of a] Cons.IH [of "seen @ [ap_entry a]"] by simp
  qed simp
  from this [of "[]" "[]"] show ?thesis by (simp add: scan_merge_def scan_ok_def)
qed

section \<open>Properties\<close>


definition wenv_good :: wenv where
  "wenv_good = \<lparr>en_in_flow = False, en_scan_ok = True, en_ap_ok = True, en_sta_ok = True, en_rssi = -60, en_mac = Some (1, 2),
     en_rnd = (\<lambda>i. 0), en_kv = \<lparr>io_bad = \<lambda>k. False, io_set_ok = \<lambda>k. True, io_erase_ok = \<lambda>k. True\<rparr>\<rparr>"

definition home_store :: kv where
  "home_store = [''wifi_ssid'' \<mapsto> ''home'', ''wifi_psk'' \<mapsto> ''password'', ''wifi_ok'' \<mapsto> ''1'']"

definition home_run :: wifi_run where
  "home_run = cali_wifi_run_boot wenv_good (cali_wifi_run_init True home_store ap_ident_boot)"

lemma home_run_current: "w_net home_run \<and> current ''home'' ''password'' home_run"
  by (simp add: home_run_def home_store_def cali_wifi_run_boot_def cali_wifi_run_init_def wenv_good_def current_def station_up_def
    cali_kv_get_def copy_creds_def creds_ok_len_def wifi_feed_def feed_skip_def wifi_run_action_def wifi_defs wr_defs wifi_init_def
    wifi_keys ap_consts)

lemma home_run_kept: "creds_fine ''home'' ''password'' \<and> kept ''home'' ''password'' home_run"
  using home_run_current by (simp add: kept_def creds_fine_def creds_ok_len_def ap_consts)

lemma wenv_good_fine: "kv_fine wenv_good \<and> io_bad (en_kv wenv_good) = (\<lambda>k. False)"
  by (simp add: wenv_good_def kv_fine_def)


text \<open>
  No call of the runtime ever asks the network for a scan while a BLE pairing flow is active or
  while an earlier scan is in flight, whatever the state; and a scan that was held back is asked for by the first tick after the
  flow has ended.
\<close>

theorem wifi_scan_waits_for_pairing:
  "(\<exists>cs. w_calls (wdo w op1) = w_calls w @ cs \<and>
     (N_scan \<in> set cs \<longrightarrow> \<not> en_in_flow (op_env op1) \<and> \<not> w_scan_in_flight w) \<and>
     (\<forall>e t. op1 = Wo_tick e t \<and> w_net w \<and> w_scan_wanted w \<and> \<not> w_scan_in_flight w \<and> \<not> en_in_flow e \<longrightarrow> N_scan \<in> set cs))"
proof -
  have "scan_free (op_env op1) w (wdo w op1)" if "\<And>e l. op1 \<noteq> Wo_net e (SCAN_DONE l)"
    using that
    by (cases op1) (auto simp: scan_free_tick scan_free_post scan_free_forget scan_free_start scan_free_refl
      cali_wifi_run_scan_def cali_wifi_run_scan_auto_def intro: scan_free_net)
  moreover have "w_calls (wdo w op1) = w_calls w @ []" if "op1 = Wo_net e (SCAN_DONE l)" for e l
    using that by (cases l) (simp_all add: on_net_def)
  ultimately obtain cs where cs: "w_calls (wdo w op1) = w_calls w @ cs"
    "N_scan \<in> set cs \<longrightarrow> \<not> en_in_flow (op_env op1) \<and> \<not> w_scan_in_flight w"
    unfolding scan_free_def by (metis list.set(1) empty_iff)
  have "N_scan \<in> set cs" if t: "op1 = Wo_tick e t" "w_net w" "w_scan_wanted w" "\<not> w_scan_in_flight w" "\<not> en_in_flow e" for e t
    using scan_due_tick [OF t(2-5), of t] cs(1) t(1) by auto
  then show ?thesis using cs by auto
qed

text \<open>
  The scan list the page shows has at most 16 entries, each network name once; every entry is one
  of the reported access points, and the strongest of its name; and every reported name (of the first 16) is there.
\<close>

theorem wifi_scan_list_strongest:
  "(let xs = scan_merge aps; seen = map ap_entry (take NET_SCAN_MAX aps) in
    distinct (map ap_name xs) \<and> length xs \<le> NET_SCAN_MAX \<and> set xs \<subseteq> set seen \<and> ap_name ` set xs = ap_name ` set seen \<and>
    (\<forall>x. x \<in> set xs \<longrightarrow> ap_rssi x = Max (ap_rssi ` {y \<in> set seen. ap_name y = ap_name x})))"
proof -
  let ?xs = "scan_merge aps" and ?seen = "map ap_entry (take NET_SCAN_MAX aps)"
  have ok: "scan_ok ?seen ?xs" by (rule scan_ok_merge)
  then have d: "distinct ?xs" "distinct (map ap_name ?xs)" "set ?xs \<subseteq> set ?seen" unfolding scan_ok_def distinct_map by blast+
  have names: "ap_name ` set ?xs = ap_name ` set ?seen" using ok unfolding scan_ok_def by blast
  have "card (set ?xs) \<le> card (set ?seen)" by (rule card_mono [OF finite_set d(3)])
  then have "length ?xs \<le> length ?seen" using d(1) card_length [of ?seen] by (metis distinct_card le_trans)
  then have len: "length ?xs \<le> NET_SCAN_MAX" by simp
  have "ap_rssi x = Max (ap_rssi ` {y \<in> set ?seen. ap_name y = ap_name x})" if x: "x \<in> set ?xs" for x
  proof -
    have "ap_rssi y \<le> ap_rssi x" if "y \<in> set ?seen" "ap_name y = ap_name x" for y
      using ok x that unfolding scan_ok_def by blast
    moreover have "x \<in> {y \<in> set ?seen. ap_name y = ap_name x}" using x d(3) by blast
    ultimately show ?thesis by (intro Max_eqI [symmetric]) (simp, blast, blast)
  qed
  then show ?thesis using d(2,3) names len unfolding Let_def by blast
qed

theorem wifi_scan_list_strongest_witness:
  "(\<forall>x. x \<in> set (scan_merge [\<lparr>ap_name = ''a'', ap_rssi = -70, ap_secure = True\<rparr>, \<lparr>ap_name = ''a'', ap_rssi = -50, ap_secure = True\<rparr>])
     \<longrightarrow> ap_rssi x = -50) \<and>
   ap_name ` set (scan_merge [\<lparr>ap_name = ''a'', ap_rssi = -70, ap_secure = True\<rparr>, \<lparr>ap_name = ''a'', ap_rssi = -50, ap_secure = True\<rparr>]) = {''a''}"
proof -
  let ?aps = "[\<lparr>ap_name = ''a'', ap_rssi = -70, ap_secure = True\<rparr>, \<lparr>ap_name = ''a'', ap_rssi = -50, ap_secure = True\<rparr>]"
  have e: "map ap_entry (take NET_SCAN_MAX ?aps) = ?aps" by (simp add: ap_entry_def NET_SCAN_MAX_def NET_SSID_MAX_def)
  note t = wifi_scan_list_strongest [of ?aps, unfolded e Let_def]
  then have n: "ap_name ` set (scan_merge ?aps) = {''a''}" by auto
  have "ap_rssi x = -50" if x: "x \<in> set (scan_merge ?aps)" for x
  proof -
    have "ap_name x = ''a''" using n x by auto
    then have "{y \<in> set ?aps. ap_name y = ap_name x} = set ?aps" by auto
    then show ?thesis using t x by auto
  qed
  then show ?thesis using n by blast
qed

text \<open>
  The exception to the rule above. Once a joined network has been out of reach long enough
  for the setup hotspot to reopen, new credentials typed there take its place with no fallback: if they do not join, the
  runtime holds no credentials at all, neither in RAM nor in the store, and never goes back to the network that had joined.
\<close>

theorem wifi_reopened_hotspot_drops_joined:
  assumes "current s p w" and "w_net w" and "ws_st (w_sm w) = WIFI_SETUP_AP_RETRYING" and "kv_fine e"
    and "io_erase_ok (en_kv e) = (\<lambda>k. True)" and "creds_fine ssid psk" and "psk \<noteq> []" and "en_sta_ok e"
  shows "(let w1 = wifi_post e ssid psk w; w2 = wdo w1 (Wo_net e (STA_FAILED r)) in
    \<not> w_have_creds w2 \<and> \<not> w_have_prev w2 \<and> w_kv w2 CALI_WIFI_KEY_SSID = None \<and> w_kv w2 CALI_WIFI_KEY_PSK = None \<and>
    ws_st (w_sm w2) = WIFI_SETUP_AP)"
proof -
  let ?w = "w\<lparr>w_kv := (w_kv w)(CALI_WIFI_KEY_SSID \<mapsto> ssid, CALI_WIFI_KEY_PSK \<mapsto> psk)\<rparr>"
  have len: "creds_ok_len (length ssid) (length psk)" "CHR 0x00 \<notin> set ssid" "CHR 0x00 \<notin> set psk"
    using assms(6) by (simp_all add: creds_fine_def)
  have post: "wifi_post e ssid psk w = cali_wifi_run_set_creds e ssid psk ?w"
    using assms(4,7) len(1) by (auto simp: wifi_post_def creds_ok_len_def kv_fine_def cali_kv_set_def)
  have w1: "w_net (wifi_post e ssid psk w)" "\<not> w_have_prev (wifi_post e ssid psk w)"
    "ws_st (w_sm (wifi_post e ssid psk w)) = WIFI_CONNECTING" "ws_joined_once (w_sm (wifi_post e ssid psk w)) = 0"
    unfolding post using assms(1-4,8) len
    by (simp_all add: cali_wifi_run_set_creds_def copy_creds_def feed_creds_set_def act_defs Let_def)
  show ?thesis using w1 assms(5)
    by (simp add: Let_def on_net_def wifi_feed_def feed_skip_def wifi_run_action_def wifi_defs wr_defs cali_kv_erase_def cali_kv_set_def)
qed

definition lost_run :: wifi_run where
  "lost_run = home_run\<lparr>w_sm := (w_sm home_run)\<lparr>ws_st := WIFI_SETUP_AP_RETRYING, ws_ap_up := 1, ws_retry_ms := 60000\<rparr>\<rparr>"

theorem wifi_reopened_hotspot_drops_joined_witness:
  "\<not> w_have_creds (wdo (wifi_post wenv_good ''cafe'' ''wrongpass'' lost_run) (Wo_net wenv_good (STA_FAILED 2)))"
proof -
  from home_run_current have "current ''home'' ''password'' lost_run" "w_net lost_run" "ws_st (w_sm lost_run) = WIFI_SETUP_AP_RETRYING"
    by (simp_all add: lost_run_def current_def station_up_def)
  moreover have "creds_fine ''cafe'' ''wrongpass''" by (simp add: creds_fine_def creds_ok_len_def ap_consts)
  moreover have "io_erase_ok (en_kv wenv_good) = (\<lambda>k. True)" "en_sta_ok wenv_good" by (simp_all add: wenv_good_def)
  ultimately show ?thesis
    using wifi_reopened_hotspot_drops_joined [of "''home''" "''password''" lost_run wenv_good "''cafe''" "''wrongpass''" 2]
      wenv_good_fine by (simp add: Let_def)
qed

text \<open>
  When the store takes the new network name but fails on its password, the call is refused and
  RAM keeps the joined network \<open>(s, p)\<close>, but the store now pairs the new name with the old password; after a reboot the runtime
  joins that pair as if it were a network that had joined.
\<close>

theorem wifi_half_stored_credentials:
  assumes "current s p w" and "creds_fine s p" and "creds_fine ssid psk" and "psk \<noteq> []"
    and "io_set_ok (en_kv e) CALI_WIFI_KEY_SSID" and "\<not> io_set_ok (en_kv e) CALI_WIFI_KEY_PSK" and "io_bad (en_kv e') = (\<lambda>k. False)"
  shows "(let w1 = wifi_post e ssid psk w; w2 = cali_wifi_run_boot e' (cali_wifi_run_init True (w_kv w1) ident) in
    w1 = w\<lparr>w_kv := (w_kv w)(CALI_WIFI_KEY_SSID \<mapsto> ssid)\<rparr> \<and> current ssid p w2 \<and> N_sta_start ssid p \<in> set (w_calls w2))"
proof -
  have w1: "wifi_post e ssid psk w = w\<lparr>w_kv := (w_kv w)(CALI_WIFI_KEY_SSID \<mapsto> ssid)\<rparr>"
  proof -
    have "\<not> length ssid < 1 \<and> \<not> length ssid > NET_SSID_MAX \<and> \<not> length psk < NET_PSK_MIN \<and> \<not> length psk > NET_PSK_MAX"
      using assms(3,4) by (auto simp: creds_fine_def creds_ok_len_def)
    then show ?thesis using assms(5,6) by (simp add: wifi_post_def cali_kv_set_def)
  qed
  have f: "creds_fine ssid p" using assms(2,3) by (auto simp: creds_fine_def creds_ok_len_def)
  have c: "current ssid p (w\<lparr>w_ssid := ssid, w_kv := (w_kv w)(CALI_WIFI_KEY_SSID \<mapsto> ssid)\<rparr>)"
    using assms(1) by (simp add: current_def station_up_def)
  show ?thesis unfolding Let_def w1 using boot_current [OF f c assms(7), of ident] by simp
qed

theorem wifi_half_stored_credentials_witness:
  "current ''cafe'' ''password''
     (cali_wifi_run_boot wenv_good
       (cali_wifi_run_init True
         (w_kv (wifi_post (wenv_good\<lparr>en_kv := (en_kv wenv_good)\<lparr>io_set_ok := \<lambda>k. k = ''wifi_ssid''\<rparr>\<rparr>) ''cafe'' ''espresso1'' home_run))
         ap_ident_boot))"
proof -
  let ?e = "wenv_good\<lparr>en_kv := (en_kv wenv_good)\<lparr>io_set_ok := \<lambda>k. k = ''wifi_ssid''\<rparr>\<rparr>"
  have "creds_fine ''cafe'' ''espresso1''" by (simp add: creds_fine_def creds_ok_len_def ap_consts)
  moreover have "io_set_ok (en_kv ?e) CALI_WIFI_KEY_SSID" "\<not> io_set_ok (en_kv ?e) CALI_WIFI_KEY_PSK" by (simp_all add: wifi_keys)
  ultimately show ?thesis
    using wifi_half_stored_credentials [of "''home''" "''password''" home_run "''cafe''" "''espresso1''" ?e wenv_good ap_ident_boot]
      home_run_kept home_run_current wenv_good_fine unfolding Let_def by blast
qed

end
