(* ===== verification/Web_Parse.thy ===== *)
theory Web_Parse
  imports Web_Body
begin

text \<open>
  What the body parser accepts: white space, quoted strings, one object, each as an exact description of the texts. On top of
  it, the credentials body is characterised in full, and the text the JSON writer produces for a command is read back.
\<close>

section \<open>White space and strings\<close>

abbreviation white :: "string \<Rightarrow> bool" where "white w \<equiv> list_all web_ws w"

definition printable :: "string \<Rightarrow> bool" where "printable s \<longleftrightarrow> list_all (\<lambda>c. (0x20 :: nat) \<le> of_char c) s"

lemma skip_ws_white: "white w \<Longrightarrow> skip_ws (w @ t) = skip_ws t"
  unfolding skip_ws_def by (induction w) simp_all

lemma skip_ws_split: "\<exists>w. white w \<and> t = w @ skip_ws t"
  unfolding skip_ws_def by (rule exI [of _ "takeWhile web_ws t"]) (auto simp: list_all_iff dest: set_takeWhileD)

lemma skip_ws_head: "\<not> web_ws c \<Longrightarrow> skip_ws (c # t) = c # t"
  by (simp add: skip_ws_def)

lemma skip_ws_idem [simp]: "skip_ws (skip_ws t) = skip_ws t"
  by (simp add: skip_ws_def)

lemma skip_ws_empty: "skip_ws t = [] \<longleftrightarrow> white t"
  by (simp add: skip_ws_def list_all_iff dropWhile_eq_Nil_conv)

lemma expect_iff: "\<not> web_ws x \<Longrightarrow> expect x t = Some r \<longleftrightarrow> (\<exists>w. white w \<and> t = w @ x # r)"
proof
  assume "expect x t = Some r"
  then have "skip_ws t = x # r" by (auto simp: expect_def split: list.splits if_splits)
  then show "\<exists>w. white w \<and> t = w @ x # r" using skip_ws_split [of t] by metis
qed (auto simp: expect_def skip_ws_white skip_ws_head)

lemma expect_hit [simp]: "\<not> web_ws x \<Longrightarrow> white w \<Longrightarrow> expect x (w @ x # r) = Some r"
  using expect_iff by blast

lemma expect_here [simp]: "\<not> web_ws x \<Longrightarrow> expect x (x # r) = Some r"
  using expect_hit [of x "[]"] by simp

lemma expect_miss [simp]: "\<not> web_ws y \<Longrightarrow> x \<noteq> y \<Longrightarrow> white w \<Longrightarrow> expect x (w @ y # r) = None"
  by (simp add: expect_def skip_ws_white skip_ws_head)

lemma expect_miss_here [simp]: "\<not> web_ws y \<Longrightarrow> x \<noteq> y \<Longrightarrow> expect x (y # r) = None"
  using expect_miss [of y x "[]"] by simp

lemma punct_not_ws [simp]:
  "\<not> web_ws (CHR 0x22)" "\<not> web_ws (CHR '':'')" "\<not> web_ws (CHR '','')" "\<not> web_ws (CHR ''{'')" "\<not> web_ws (CHR ''}'')"
  by (simp_all add: web_ws_def)

lemma str_loop_escaped:
  "printable s \<Longrightarrow> str_loop (concat (map escape1 s) @ CHR 0x22 # u) = Some (s, u)"
proof (induction s)
  case (Cons c s)
  then have "(0x20 :: nat) \<le> of_char c" by (simp add: printable_def)
  then have "c \<noteq> CHR 0x0A" "c \<noteq> CHR 0x0D" "c \<noteq> CHR 0x09" by auto
  then show ?case using Cons by (auto simp: printable_def escape1_def)
qed simp

lemma str_loop_exact: "str_loop r = Some (s, u) \<Longrightarrow> printable s \<and> r = concat (map escape1 s) @ CHR 0x22 # u"
proof (induction r arbitrary: s u rule: str_loop.induct)
  case (2 c r)
  show ?case
  proof (cases "c = CHR 0x22 \<or> c = CHR 0x5C")
    case True
    then show ?thesis using 2 by (auto simp: printable_def escape1_def split: if_splits list.splits)
  next
    case False
    moreover from this have c: "(0x20 :: nat) \<le> of_char c" using 2(3) by (auto split: if_splits)
    moreover from c have "c \<noteq> CHR 0x0A" "c \<noteq> CHR 0x0D" "c \<noteq> CHR 0x09" by auto
    ultimately show ?thesis using 2(2,3) by (auto simp: printable_def escape1_def)
  qed
qed simp

lemma str_loop_iff: "str_loop r = Some (s, u) \<longleftrightarrow> printable s \<and> r = concat (map escape1 s) @ CHR 0x22 # u"
  using str_loop_exact str_loop_escaped by blast

lemma parse_str_iff:
  "parse_str cap t = Some (b, n, u) \<longleftrightarrow>
     (\<exists>w s. white w \<and> printable s \<and> t = w @ quoted s @ u \<and> b = take (cap - 1) s \<and> n = length s)"
proof -
  have "parse_str cap t = Some (b, n, u) \<longleftrightarrow>
    (\<exists>r s. expect (CHR 0x22) t = Some r \<and> str_loop r = Some (s, u) \<and> b = take (cap - 1) s \<and> n = length s)"
    by (auto simp: parse_str_def split: option.splits)
  also have "\<dots> \<longleftrightarrow> (\<exists>w s. white w \<and> printable s \<and> t = w @ quoted s @ u \<and> b = take (cap - 1) s \<and> n = length s)"
    by (auto simp: expect_iff str_loop_iff quoted_def)
  finally show ?thesis .
qed

lemma parse_str_quoted [simp]:
  "white w \<Longrightarrow> printable s \<Longrightarrow> parse_str cap (w @ quoted s @ u) = Some (take (cap - 1) s, length s, u)"
  using parse_str_iff by blast

section \<open>Objects\<close>

lemma obj_loop_iff:
  "obj_loop keys field seen ctx t = Some R \<longleftrightarrow>
     (\<exists>w key v i t2 ctx1 t3.
        white w \<and> white v \<and> printable key \<and> length key < KEY_CAP \<and> t = w @ quoted key @ v @ CHR '':'' # t2 \<and>
        key_index key keys = Some i \<and> i \<notin> seen \<and> field i t2 ctx = Some (ctx1, t3) \<and>
        (\<exists>x t4. white x \<and>
           (t3 = x @ CHR '','' # t4 \<and> obj_loop keys field (insert i seen) ctx1 t4 = Some R \<or>
            t3 = x @ CHR ''}'' # t4 \<and> R = (insert i seen, ctx1, t4))))" (is "_ \<longleftrightarrow> ?R")
proof
  assume "obj_loop keys field seen ctx t = Some R"
  then obtain key klen t1 t2 i ctx1 t3 where p: "parse_str KEY_CAP t = Some (key, klen, t1)" "klen < KEY_CAP"
      "expect (CHR '':'') t1 = Some t2" "key_index key keys = Some i" "i \<notin> seen" "field i t2 ctx = Some (ctx1, t3)"
    and q: "(\<exists>t4. expect (CHR '','') t3 = Some t4 \<and> obj_loop keys field (insert i seen) ctx1 t4 = Some R) \<or>
      (\<exists>t4. expect (CHR ''}'') t3 = Some t4 \<and> R = (insert i seen, ctx1, t4))"
    by (subst (asm) obj_loop.simps) (auto split: option.splits if_splits)
  obtain w s where s: "white w" "printable s" "t = w @ quoted s @ t1" "key = take (KEY_CAP - 1) s" "klen = length s"
    using p(1) by (auto simp: parse_str_iff)
  have "key = s" using s(4,5) p(2) by (simp add: KEY_CAP_def)
  moreover obtain v where "white v" "t1 = v @ CHR '':'' # t2" using p(3) by (auto simp: expect_iff)
  moreover have "\<exists>x t4. white x \<and>
           (t3 = x @ CHR '','' # t4 \<and> obj_loop keys field (insert i seen) ctx1 t4 = Some R \<or>
            t3 = x @ CHR ''}'' # t4 \<and> R = (insert i seen, ctx1, t4))"
    using q by (auto simp: expect_iff)
  ultimately show ?R using s(1-3,5) p(2,4,5,6) by blast
next
  assume ?R
  then obtain w key v i t2 ctx1 t3 x t4 where e: "white w" "white v" "printable key" "length key < KEY_CAP"
      "t = w @ quoted key @ v @ CHR '':'' # t2" "key_index key keys = Some i" "i \<notin> seen" "field i t2 ctx = Some (ctx1, t3)" "white x"
    and q: "t3 = x @ CHR '','' # t4 \<and> obj_loop keys field (insert i seen) ctx1 t4 = Some R \<or>
            t3 = x @ CHR ''}'' # t4 \<and> R = (insert i seen, ctx1, t4)" by blast
  have "parse_str KEY_CAP t = Some (key, length key, v @ CHR '':'' # t2)" using e(1,3,4) e(5) by (simp add: KEY_CAP_def)
  then show "obj_loop keys field seen ctx t = Some R"
    using e q by (subst obj_loop.simps) (auto split: option.splits)
qed

lemma parse_obj_iff:
  "parse_obj keys field ctx t = Some (seen, ctx1, u) \<longleftrightarrow>
     (\<exists>w t1. white w \<and> t = w @ CHR ''{'' # t1 \<and>
        ((\<exists>v. white v \<and> t1 = v @ CHR ''}'' # u \<and> seen = {} \<and> ctx1 = ctx) \<or> obj_loop keys field {} ctx t1 = Some (seen, ctx1, u)))"
proof -
  have "obj_loop keys field {} ctx (v @ CHR ''}'' # r) = None" if "white v" for v r
    using that by (subst obj_loop.simps) (simp add: parse_str_def)
  then have x: "obj_loop keys field {} ctx t1 = Some R \<Longrightarrow> expect (CHR ''}'') t1 = None" for t1 R
  proof (cases "expect (CHR ''}'') t1")
    case (Some r)
    then obtain v where "white v" "t1 = v @ CHR ''}'' # r" using expect_iff [OF punct_not_ws(5)] by blast
    moreover assume "obj_loop keys field {} ctx t1 = Some R"
    ultimately show ?thesis using \<open>\<And>v r. white v \<Longrightarrow> obj_loop keys field {} ctx (v @ CHR ''}'' # r) = None\<close> by simp
  qed
  have "parse_obj keys field ctx t = Some (seen, ctx1, u) \<longleftrightarrow>
    (\<exists>t1. expect (CHR ''{'') t = Some t1 \<and>
       (expect (CHR ''}'') t1 = Some u \<and> seen = {} \<and> ctx1 = ctx \<or>
        expect (CHR ''}'') t1 = None \<and> obj_loop keys field {} ctx t1 = Some (seen, ctx1, u)))"
    unfolding parse_obj_def by (cases "expect (CHR ''{'') t") (auto split: option.splits)
  also have "\<dots> \<longleftrightarrow> (\<exists>t1. expect (CHR ''{'') t = Some t1 \<and>
       (expect (CHR ''}'') t1 = Some u \<and> seen = {} \<and> ctx1 = ctx \<or> obj_loop keys field {} ctx t1 = Some (seen, ctx1, u)))"
    using x by blast
  also have "\<dots> \<longleftrightarrow> (\<exists>w t1. white w \<and> t = w @ CHR ''{'' # t1 \<and>
        ((\<exists>v. white v \<and> t1 = v @ CHR ''}'' # u \<and> seen = {} \<and> ctx1 = ctx) \<or> obj_loop keys field {} ctx t1 = Some (seen, ctx1, u)))"
    unfolding expect_iff [OF punct_not_ws(4)] expect_iff [OF punct_not_ws(5)] by blast
  finally show ?thesis .
qed

lemma parse_body_iff:
  "parse_body keys field ctx body = Some (seen, ctx1) \<longleftrightarrow> (\<exists>u. parse_obj keys field ctx body = Some (seen, ctx1, u) \<and> white u)"
  by (auto simp: parse_body_def skip_ws_empty split: option.splits)

text \<open>What every field keeps, the whole body keeps.\<close>

lemma obj_loop_keeps:
  assumes "\<And>i t c d u. I c \<Longrightarrow> field i t c = Some (d, u) \<Longrightarrow> I d" and "I ctx"
    and "obj_loop keys field seen ctx t = Some (seen1, ctx1, u)"
  shows "I ctx1"
  using assms
proof (induction keys field seen ctx t rule: obj_loop.induct)
  case (1 keys field seen ctx t)
  then obtain key klen t1 t2 i ctx2 t3 where p: "parse_str KEY_CAP t = Some (key, klen, t1)" "\<not> KEY_CAP \<le> klen"
      "expect (CHR '':'') t1 = Some t2" "key_index key keys = Some i" "i \<notin> seen" "field i t2 ctx = Some (ctx2, t3)"
    and q: "(\<exists>t4. expect (CHR '','') t3 = Some t4 \<and> obj_loop keys field (insert i seen) ctx2 t4 = Some (seen1, ctx1, u)) \<or> ctx1 = ctx2"
    by (subst (asm) (2) obj_loop.simps) (auto split: option.splits if_splits)
  have "I ctx2" using 1(2) [OF 1(3) p(6)] .
  moreover have "I ctx1" if "expect (CHR '','') t3 = Some t4" "obj_loop keys field (insert i seen) ctx2 t4 = Some (seen1, ctx1, u)" for t4
    by (rule 1(1) [OF p(1) refl refl p(2,3,4,5,6) refl that(1) _ \<open>I ctx2\<close> that(2)]) (fact 1(2))
  ultimately show ?case using q by blast
qed

lemma parse_body_keeps:
  assumes "\<And>i t c d u. I c \<Longrightarrow> field i t c = Some (d, u) \<Longrightarrow> I d" and "I ctx" and "parse_body keys field ctx body = Some (seen, ctx1)"
  shows "I ctx1"
  using assms(3) obj_loop_keeps [of I field, OF assms(1,2)] assms(2)
  by (auto simp: parse_body_iff parse_obj_iff)

section \<open>Credentials\<close>

definition cmd_clock_ok :: "cmd_t \<Rightarrow> bool" where
  "cmd_clock_ok cm \<longleftrightarrow> (if cm_has_local_now cm then cm_local_now_bad cm \<or> LOCAL_NOW_MIN \<le> cm_local_now cm else \<not> cm_local_now_bad cm)"

lemma local_now_clock: "cmd_clock_ok c \<Longrightarrow> parse_local_now t c = Some (d, u) \<Longrightarrow> cmd_clock_ok d"
  by (auto simp: parse_local_now_def Let_def cmd_clock_ok_def split: if_splits option.splits prod.splits)

lemma command_clock: "parse_command body = Some cm \<Longrightarrow> cmd_clock_ok cm"
proof -
  assume "parse_command body = Some cm"
  then obtain seen where "parse_body COMMAND_KEYS command_field cmd0 body = Some (seen, cm)" by (auto simp: parse_command_def)
  moreover have "cmd_clock_ok d" if "cmd_clock_ok c" "command_field i t c = Some (d, u)" for i t c d u
  proof (cases "i \<in> {0, 1, 2, 3}")
    case True
    then have "cm_has_local_now d = cm_has_local_now c \<and> cm_local_now_bad d = cm_local_now_bad c \<and> cm_local_now d = cm_local_now c"
      using that(2) by (auto simp: command_field_def)
    then show ?thesis using that(1) by (simp add: cmd_clock_ok_def)
  next
    case False
    then show ?thesis using that local_now_clock by (auto simp: command_field_def)
  qed
  moreover have "cmd_clock_ok cmd0" by (simp add: cmd_clock_ok_def cmd0_def)
  ultimately show ?thesis using parse_body_keeps [of cmd_clock_ok command_field] by blast
qed

text \<open>One member, with any white space around its parts.\<close>

definition member :: "string \<Rightarrow> string \<Rightarrow> string \<Rightarrow> bool" where
  "member key s t \<longleftrightarrow> (\<exists>a b c d. white a \<and> white b \<and> white c \<and> white d \<and> t = a @ quoted key @ b @ '':'' @ c @ quoted s @ d)"

definition creds_idx :: "string \<Rightarrow> nat" where "creds_idx key = (if key = ''ssid'' then 0 else 1)"

definition creds_put :: "string \<Rightarrow> string \<Rightarrow> creds \<Rightarrow> creds" where
  "creds_put key s k =
     (if key = ''ssid'' then k\<lparr>cr_ssid := take 32 s, cr_ssid_len := length s\<rparr>
      else k\<lparr>cr_psk := take 63 s, cr_psk_len := length s\<rparr>)"

lemma index_creds: "key_index key CREDS_KEYS = Some i \<longleftrightarrow> key \<in> {''ssid'', ''psk''} \<and> i = creds_idx key"
  by (auto simp: CREDS_KEYS_def creds_idx_def)

lemma creds_field_iff:
  assumes "key \<in> {''ssid'', ''psk''}"
  shows "creds_field (creds_idx key) t k = Some (k1, u) \<longleftrightarrow>
    (\<exists>c s. white c \<and> printable s \<and> t = c @ quoted s @ u \<and> k1 = creds_put key s k)"
proof -
  have "creds_field (creds_idx key) t k = Some (k1, u) \<longleftrightarrow>
    (\<exists>b n. parse_str (if key = ''ssid'' then 33 else 64) t = Some (b, n, u) \<and>
       k1 = (if key = ''ssid'' then k\<lparr>cr_ssid := b, cr_ssid_len := n\<rparr> else k\<lparr>cr_psk := b, cr_psk_len := n\<rparr>))"
    using assms by (auto simp: creds_field_def creds_idx_def)
  then show ?thesis by (auto simp: parse_str_iff creds_put_def)
qed

lemma creds_step:
  "obj_loop CREDS_KEYS creds_field seen k t = Some R \<longleftrightarrow>
     (\<exists>key s m t4. key \<in> {''ssid'', ''psk''} \<and> printable s \<and> member key s m \<and> creds_idx key \<notin> seen \<and>
        (t = m @ CHR '','' # t4 \<and> obj_loop CREDS_KEYS creds_field (insert (creds_idx key) seen) (creds_put key s k) t4 = Some R \<or>
         t = m @ CHR ''}'' # t4 \<and> R = (insert (creds_idx key) seen, creds_put key s k, t4)))" (is "_ \<longleftrightarrow> ?R")
proof
  assume "obj_loop CREDS_KEYS creds_field seen k t = Some R"
  then obtain w key v i t2 k1 t3 x t4 where e: "white w" "white v" "t = w @ quoted key @ v @ CHR '':'' # t2"
      "key_index key CREDS_KEYS = Some i" "i \<notin> seen" "creds_field i t2 k = Some (k1, t3)" "white x"
    and q: "t3 = x @ CHR '','' # t4 \<and> obj_loop CREDS_KEYS creds_field (insert i seen) k1 t4 = Some R \<or>
            t3 = x @ CHR ''}'' # t4 \<and> R = (insert i seen, k1, t4)"
    by (subst (asm) obj_loop_iff) blast
  have key: "key \<in> {''ssid'', ''psk''}" "i = creds_idx key" using e(4) by (simp_all add: index_creds)
  obtain c s where s: "white c" "printable s" "t2 = c @ quoted s @ t3" "k1 = creds_put key s k"
    using e(6) creds_field_iff [OF key(1)] key(2) by blast
  have "member key s (w @ quoted key @ v @ '':'' @ c @ quoted s @ x)" unfolding member_def using e(1,2,7) s(1) by blast
  moreover have "t3 = x @ r \<Longrightarrow> t = (w @ quoted key @ v @ '':'' @ c @ quoted s @ x) @ r" for r using e(3) s(3) by simp
  ultimately show ?R using q key e(5) s(2,4) by metis
next
  assume ?R
  then obtain key s m t4 where e: "key \<in> {''ssid'', ''psk''}" "printable s" "member key s m" "creds_idx key \<notin> seen"
    and q: "t = m @ CHR '','' # t4 \<and> obj_loop CREDS_KEYS creds_field (insert (creds_idx key) seen) (creds_put key s k) t4 = Some R \<or>
         t = m @ CHR ''}'' # t4 \<and> R = (insert (creds_idx key) seen, creds_put key s k, t4)" by blast
  obtain a b c d where m: "white a" "white b" "white c" "white d" "m = a @ quoted key @ b @ '':'' @ c @ quoted s @ d"
    using e(3) by (auto simp: member_def)
  have f: "creds_field (creds_idx key) (c @ quoted s @ u) k = Some (creds_put key s k, u)" for u
    using creds_field_iff [OF e(1)] m(3) e(2) by blast
  have k: "printable key" "length key < KEY_CAP" "key_index key CREDS_KEYS = Some (creds_idx key)"
    using e(1) by (auto simp: printable_def KEY_CAP_def index_creds)
  show "obj_loop CREDS_KEYS creds_field seen k t = Some R"
    unfolding obj_loop_iff [of _ _ seen]
    by (rule exI [of _ a], rule exI [of _ key], rule exI [of _ b], rule exI [of _ "creds_idx key"],
      rule exI [of _ "c @ quoted s @ d @ drop (length m) t"], rule exI [of _ "creds_put key s k"], rule exI [of _ "d @ drop (length m) t"])
      (use q m k e(4) f in auto)
qed

lemma creds_none: "seen = {0, 1} \<Longrightarrow> obj_loop CREDS_KEYS creds_field seen k t = None"
  using creds_step [of seen k t] by (cases "obj_loop CREDS_KEYS creds_field seen k t") (auto simp: creds_idx_def)

lemma creds_two:
  "(\<exists>u. obj_loop CREDS_KEYS creds_field {} k t = Some ({0, 1}, k2, u) \<and> white u) \<longleftrightarrow>
   (\<exists>s p m1 m2 z. white z \<and> printable s \<and> printable p \<and> member ''ssid'' s m1 \<and> member ''psk'' p m2 \<and>
      (t = m1 @ CHR '','' # m2 @ CHR ''}'' # z \<or> t = m2 @ CHR '','' # m1 @ CHR ''}'' # z) \<and>
      k2 = creds_put ''psk'' p (creds_put ''ssid'' s k))" (is "?L \<longleftrightarrow> ?R")
proof
  assume ?L
  then obtain u where u: "obj_loop CREDS_KEYS creds_field {} k t = Some ({0, 1}, k2, u)" "white u" by blast
  have not_one: "{creds_idx x} \<noteq> {0, 1}" for x by (auto simp: creds_idx_def)
  obtain key s m t4 where a: "key \<in> {''ssid'', ''psk''}" "printable s" "member key s m" "t = m @ CHR '','' # t4"
      "obj_loop CREDS_KEYS creds_field {creds_idx key} (creds_put key s k) t4 = Some ({0, 1}, k2, u)"
    using creds_step [THEN iffD1, OF u(1)] not_one by blast
  obtain key' s' m' t5 where b: "key' \<in> {''ssid'', ''psk''}" "printable s'" "member key' s' m'" "creds_idx key' \<noteq> creds_idx key"
    and q: "t4 = m' @ CHR '','' # t5 \<and> obj_loop CREDS_KEYS creds_field (insert (creds_idx key') {creds_idx key})
          (creds_put key' s' (creds_put key s k)) t5 = Some ({0, 1}, k2, u) \<or>
        t4 = m' @ CHR ''}'' # t5 \<and> ({0, 1}, k2, u) = (insert (creds_idx key') {creds_idx key}, creds_put key' s' (creds_put key s k), t5)"
    using creds_step [THEN iffD1, OF a(5)] by blast
  have "insert (creds_idx key') {creds_idx key} = {0, 1}" using b(4) by (auto simp: creds_idx_def split: if_splits)
  then have c: "t4 = m' @ CHR ''}'' # t5" "k2 = creds_put key' s' (creds_put key s k)" "u = t5"
    using q creds_none by (metis option.distinct(1) prod.inject)+
  have swap: "creds_put ''ssid'' x (creds_put ''psk'' y k) = creds_put ''psk'' y (creds_put ''ssid'' x k)" for x y
    by (simp add: creds_put_def)
  show ?R
  proof (cases "key = ''ssid''")
    case True
    then have "key' = ''psk''" using b(1,4) by (auto simp: creds_idx_def)
    then show ?thesis using True a b c u(2) by blast
  next
    case False
    then have "key = ''psk''" "key' = ''ssid''" using a(1) b(1,4) by (auto simp: creds_idx_def)
    then show ?thesis using a b c u(2) swap by metis
  qed
next
  assume ?R
  then obtain s p m1 m2 z where e: "white z" "printable s" "printable p" "member ''ssid'' s m1" "member ''psk'' p m2"
      "k2 = creds_put ''psk'' p (creds_put ''ssid'' s k)"
    and t: "t = m1 @ CHR '','' # m2 @ CHR ''}'' # z \<or> t = m2 @ CHR '','' # m1 @ CHR ''}'' # z" by blast
  have i: "insert (creds_idx ''ssid'') {1} = {0, 1}" "insert (creds_idx ''psk'') {0} = {0, 1}" by (auto simp: creds_idx_def)
  have one: "obj_loop CREDS_KEYS creds_field {1} (creds_put ''psk'' p k) (m1 @ CHR ''}'' # z) = Some ({0, 1}, k2, z)"
    by (rule creds_step [THEN iffD2], rule exI [of _ "''ssid''"], rule exI [of _ s], rule exI [of _ m1], rule exI [of _ z])
      (use e i in \<open>simp add: creds_idx_def creds_put_def\<close>)
  have one': "obj_loop CREDS_KEYS creds_field {0} (creds_put ''ssid'' s k) (m2 @ CHR ''}'' # z) = Some ({0, 1}, k2, z)"
    by (rule creds_step [THEN iffD2], rule exI [of _ "''psk''"], rule exI [of _ p], rule exI [of _ m2], rule exI [of _ z])
      (use e i in \<open>simp add: creds_idx_def creds_put_def\<close>)
  have two: "obj_loop CREDS_KEYS creds_field {} k t = Some ({0, 1}, k2, z)"
    using t
  proof
    assume "t = m1 @ CHR '','' # m2 @ CHR ''}'' # z"
    then show ?thesis using one' e(2,4)
      by (intro creds_step [THEN iffD2] exI [of _ "''ssid''"] exI [of _ s] exI [of _ m1] exI [of _ "m2 @ CHR ''}'' # z"]) (simp add: creds_idx_def)
  next
    assume "t = m2 @ CHR '','' # m1 @ CHR ''}'' # z"
    then show ?thesis using one e(3,5)
      by (intro creds_step [THEN iffD2] exI [of _ "''psk''"] exI [of _ p] exI [of _ m2] exI [of _ "m1 @ CHR ''}'' # z"]) (simp add: creds_idx_def)
  qed
  then show ?L using e(1) by blast
qed

section \<open>Written text\<close>

text \<open>A member of a written object, the next one behind its comma or the end of the object.\<close>

lemma obj_member:
  assumes "printable key" and "length key < KEY_CAP" and "key_index key keys = Some i" and "i \<notin> seen"
  shows "field i (v @ '','' @ r) ctx = Some (ctx1, '','' @ r) \<Longrightarrow>
      obj_loop keys field seen ctx (quoted key @ '':'' @ v @ '','' @ r) = obj_loop keys field (insert i seen) ctx1 r"
    "field i (v @ ''}'' @ r) ctx = Some (ctx1, ''}'' @ r) \<Longrightarrow>
      obj_loop keys field seen ctx (quoted key @ '':'' @ v @ ''}'' @ r) = Some (insert i seen, ctx1, r)"
proof -
  have p: "parse_str KEY_CAP (quoted key @ u) = Some (key, length key, u)" for u
    using parse_str_quoted [of "[]" key KEY_CAP u] assms(1,2) by (simp add: KEY_CAP_def)
  show "field i (v @ '','' @ r) ctx = Some (ctx1, '','' @ r) \<Longrightarrow>
      obj_loop keys field seen ctx (quoted key @ '':'' @ v @ '','' @ r) = obj_loop keys field (insert i seen) ctx1 r"
    by (subst obj_loop.simps) (use assms in \<open>simp add: p not_le\<close>)
  show "field i (v @ ''}'' @ r) ctx = Some (ctx1, ''}'' @ r) \<Longrightarrow>
      obj_loop keys field seen ctx (quoted key @ '':'' @ v @ ''}'' @ r) = Some (insert i seen, ctx1, r)"
    by (subst obj_loop.simps) (use assms in \<open>simp add: p not_le\<close>)
qed

lemma str_field_quoted [simp]: "printable s \<Longrightarrow> length s < cap \<Longrightarrow> str_field cap (quoted s @ u) = Some (s, u)"
  using parse_str_quoted [of "[]" s cap u] by (simp add: str_field_def)

lemma quoted_starts [simp]: "skip_ws (quoted s @ u) = quoted s @ u" "char_next (CHR 0x22) (quoted s @ u)"
  by (simp_all add: quoted_def skip_ws_head char_next_def)

lemma dec_not_ws: "is_dec c \<Longrightarrow> \<not> web_ws c \<and> c \<noteq> CHR 0x22 \<and> c \<noteq> CHR ''n'' \<and> c \<noteq> CHR ''-''"
  by (auto simp: is_dec_def web_ws_def)

text \<open>The texts a command's value is written as, and what it is read as.\<close>

fun value_text :: "jval \<Rightarrow> string option" where
  "value_text (JStr s) = (if printable s then Some s else None)"
| "value_text (JInt n) = Some (dec_int n)"
| "value_text JNull = Some []"
| "value_text _ = None"

lemma dec_nat_parts:
  "\<exists>d ds. dec_nat n = d # ds \<and> is_dec d \<and> list_all is_dec ds \<and> (d = CHR ''0'' \<longrightarrow> ds = [])"
  using whole_dec_nat [of n] by (cases "dec_nat n") (auto simp: whole_def)

lemma parse_value_nat:
  assumes "\<not> is_dec x"
  shows "takeWhile is_dec (dec_nat n @ x # r) = dec_nat n" "dropWhile is_dec (dec_nat n @ x # r) = x # r"
    "digit_next (dec_nat n @ x # r)" "\<not> bad_zero (dec_nat n @ x # r)"
proof -
  obtain d ds where d: "dec_nat n = d # ds" "is_dec d" "list_all is_dec ds" "d = CHR ''0'' \<longrightarrow> ds = []"
    using dec_nat_parts by blast
  then show "takeWhile is_dec (dec_nat n @ x # r) = dec_nat n" "dropWhile is_dec (dec_nat n @ x # r) = x # r"
    using assms by (simp_all add: list_all_iff takeWhile_append2 dropWhile_append2)
  show "digit_next (dec_nat n @ x # r)" using d by (simp add: digit_next_def)
  show "\<not> bad_zero (dec_nat n @ x # r)" using d assms by (cases ds) (auto simp: bad_zero_def)
qed

lemma parse_value_written:
  assumes "value_text v = Some s" and "length s < cap" and "\<not> is_dec x"
  shows "parse_value cap (render v @ x # r) = Some (s, x # r)"
proof (cases v)
  case (JStr q)
  then have "q = s" "printable s" using assms(1) by (auto split: if_splits)
  then show ?thesis using JStr assms(2) parse_str_quoted [of "[]" s cap "x # r"] by (simp add: parse_value_def)
next
  case (JInt n)
  then have s: "s = dec_int n" using assms(1) by simp
  obtain d ds where d: "dec_nat (nat \<bar>n\<bar>) = d # ds" "is_dec d" using dec_nat_parts by blast
  note d' = dec_not_ws [OF d(2)]
  have w: "skip_ws (dec_nat (nat \<bar>n\<bar>) @ x # r) = dec_nat (nat \<bar>n\<bar>) @ x # r"
    "\<not> char_next (CHR 0x22) (dec_nat (nat \<bar>n\<bar>) @ x # r)" "\<not> starts ''null'' (dec_nat (nat \<bar>n\<bar>) @ x # r)"
    "\<not> minus_next (dec_nat (nat \<bar>n\<bar>) @ x # r)"
    using d d' by (simp_all add: skip_ws_head char_next_def starts_def minus_next_def)
  have m: "skip_ws (CHR ''-'' # t) = CHR ''-'' # t" "\<not> char_next (CHR 0x22) (CHR ''-'' # t)" "\<not> starts ''null'' (CHR ''-'' # t)"
    "minus_next (CHR ''-'' # t)" for t by (simp_all add: skip_ws_def web_ws_def char_next_def starts_def minus_next_def)
  show ?thesis
  proof (cases "n < 0")
    case True
    then have "dec_int n = CHR ''-'' # dec_nat (nat \<bar>n\<bar>)" by (simp add: dec_int_def)
    then show ?thesis using JInt s assms(2) by (simp add: parse_value_def m parse_value_nat [OF assms(3)])
  next
    case False
    then have "dec_int n = dec_nat (nat \<bar>n\<bar>)" by (simp add: dec_int_def)
    then show ?thesis using JInt s assms(2) by (simp add: parse_value_def w parse_value_nat [OF assms(3)])
  qed
next
  case JNull
  then show ?thesis using assms by (simp add: parse_value_def skip_ws_def web_ws_def char_next_def starts_def)
qed (use assms in auto)

lemma parse_bool_written: "parse_bool (render (JBool b) @ u) = Some (b, u)"
  by (cases b) (simp_all add: parse_bool_def skip_ws_def web_ws_def starts_def)

section \<open>Properties\<close>

text \<open>
  The credentials body is accepted exactly when it is one JSON object of the two string members
  ssid and psk, each once, in either order, with any white space around the parts and only printable bytes in the strings;
  and then the buffers hold the two decoded texts, cut to their sizes, with their whole lengths.
\<close>

theorem web_creds_exact:
  "parse_creds body = Some k \<longleftrightarrow>
     (\<exists>a z s p m1 m2. white a \<and> white z \<and> printable s \<and> printable p \<and> member ''ssid'' s m1 \<and> member ''psk'' p m2 \<and>
        (body = a @ ''{'' @ m1 @ '','' @ m2 @ ''}'' @ z \<or> body = a @ ''{'' @ m2 @ '','' @ m1 @ ''}'' @ z) \<and>
        k = \<lparr>cr_ssid = take 32 s, cr_ssid_len = length s, cr_psk = take 63 p, cr_psk_len = length p\<rparr>)"
proof -
  have "parse_creds body = Some k \<longleftrightarrow> parse_body CREDS_KEYS creds_field creds0 body = Some ({0, 1}, k)"
    by (auto simp: parse_creds_def split: option.splits)
  also have "\<dots> \<longleftrightarrow> (\<exists>a t. white a \<and> body = a @ CHR ''{'' # t \<and> (\<exists>u. obj_loop CREDS_KEYS creds_field {} creds0 t = Some ({0, 1}, k, u) \<and> white u))"
    by (auto simp: parse_body_iff parse_obj_iff)
  also have "\<dots> \<longleftrightarrow> (\<exists>a z s p m1 m2. white a \<and> white z \<and> printable s \<and> printable p \<and> member ''ssid'' s m1 \<and> member ''psk'' p m2 \<and>
        (body = a @ ''{'' @ m1 @ '','' @ m2 @ ''}'' @ z \<or> body = a @ ''{'' @ m2 @ '','' @ m1 @ ''}'' @ z) \<and>
        k = creds_put ''psk'' p (creds_put ''ssid'' s creds0))"
    unfolding creds_two by (auto; blast)
  finally show ?thesis by (simp add: creds_put_def creds0_def)
qed

text \<open>
  C40. A command request written by the JSON writer is read back as it was meant: for every function and
  control name that fit their buffers and every value that is a text, an integer or null, the parsed command has exactly
  those names, the value's text and the confirmation.
\<close>

theorem web_command_roundtrip:
  assumes "printable fn" and "length fn < 24" and "printable wh" and "length wh < 32" and "value_text v = Some s"
    and "length s < CALI_CTL_VALUE_MAX"
  shows "parse_command (render (JObj [(''function'', JStr fn), (''what'', JStr wh), (''value'', v), (''confirm'', JBool b)])) =
    Some (cmd0\<lparr>cm_fn := fn, cm_what := wh, cm_value := s, cm_confirm := b\<rparr>)"
proof -
  let ?k = "obj_loop COMMAND_KEYS command_field"
  have d: "\<not> is_dec (CHR '','')" by (simp add: is_dec_def)
  have keys: "key_index ''function'' COMMAND_KEYS = Some 0" "key_index ''what'' COMMAND_KEYS = Some 1"
    "key_index ''value'' COMMAND_KEYS = Some 2" "key_index ''confirm'' COMMAND_KEYS = Some 3" by (simp_all add: COMMAND_KEYS_def)
  have pr: "printable ''function''" "printable ''what''" "printable ''value''" "printable ''confirm''" by (simp_all add: printable_def)
  have len: "length ''function'' < KEY_CAP" "length ''what'' < KEY_CAP" "length ''value'' < KEY_CAP" "length ''confirm'' < KEY_CAP"
    by (simp_all add: KEY_CAP_def)
  define c1 c2 c3 c4 where c: "c1 = cmd0\<lparr>cm_fn := fn\<rparr>" "c2 = c1\<lparr>cm_what := wh\<rparr>" "c3 = c2\<lparr>cm_value := s\<rparr>" "c4 = c3\<lparr>cm_confirm := b\<rparr>"
  have f: "command_field 0 (quoted fn @ u) cmd0 = Some (c1, u)" "command_field 1 (quoted wh @ u) c1 = Some (c2, u)"
    "command_field 2 (render v @ '','' @ u) c2 = Some (c3, '','' @ u)" "command_field 3 (render (JBool b) @ u) c3 = Some (c4, u)" for u
    using assms parse_value_written [OF assms(5,6) d, of u] parse_bool_written [of b u] by (simp_all add: command_field_def c)
  have e4: "?k {2, 1, 0} c3 (quoted ''confirm'' @ '':'' @ render (JBool b) @ ''}'' @ []) = Some ({3, 2, 1, 0}, c4, [])"
    by (rule obj_member(2) [OF pr(4) len(4) keys(4)]) (simp, rule f(4))
  have e3: "?k {1, 0} c2 (quoted ''value'' @ '':'' @ render v @ '','' @ r) = ?k {2, 1, 0} c3 r" for r
    by (rule obj_member(1) [OF pr(3) len(3) keys(3)]) (simp, rule f(3))
  have e2: "?k {0} c1 (quoted ''what'' @ '':'' @ quoted wh @ '','' @ r) = ?k {1, 0} c2 r" for r
    by (rule obj_member(1) [OF pr(2) len(2) keys(2)]) (simp, rule f(2))
  have e1: "?k {} cmd0 (quoted ''function'' @ '':'' @ quoted fn @ '','' @ r) = ?k {0} c1 r" for r
    by (rule obj_member(1) [OF pr(1) len(1) keys(1)]) (simp, rule f(1))
  have x: "expect (CHR ''}'') (quoted ''function'' @ t) = None" for t by (simp add: quoted_def)
  have "render (JObj [(''function'', JStr fn), (''what'', JStr wh), (''value'', v), (''confirm'', JBool b)]) =
    CHR ''{'' # quoted ''function'' @ '':'' @ quoted fn @ '','' @ quoted ''what'' @ '':'' @ quoted wh @ '','' @
      quoted ''value'' @ '':'' @ render v @ '','' @ quoted ''confirm'' @ '':'' @ render (JBool b) @ ''}'' @ []"
    by simp
  then show ?thesis unfolding parse_command_def parse_body_def parse_obj_def
    by (simp only: expect_here [OF punct_not_ws(4)] option.case x e1 e2 e3 e4) (simp add: skip_ws_def c)
qed

theorem web_command_roundtrip_witness:
  "parse_command (render (JObj [(''function'', JStr ''airheater''), (''what'', JStr ''level''), (''value'', JInt 5), (''confirm'', JBool True)])) =
    Some (cmd0\<lparr>cm_fn := ''airheater'', cm_what := ''level'', cm_value := ''5'', cm_confirm := True\<rparr>)"
  by (rule web_command_roundtrip) (simp_all add: printable_def dec_int_def dec_nat.simps CALI_CTL_VALUE_MAX_def char_of_def bit_0)

end
