(* ===== verification/Web_Ux.thy ===== *)
theory Web_Ux
  imports Web_Parse
begin

text \<open>
  The usage beacon of \<open>web.c\<close>, \<open>POST /api/ux\<close>: a header and one to sixteen events, parsed twice, first to validate the whole body
  and then to write one record per event. The lemmas show that the second pass accepts what the first one accepted, so a beacon is
  written as a whole or not at all.
\<close>

section \<open>Data\<close>

definition UX_EVENTS_MAX :: nat where "UX_EVENTS_MAX = 16"
definition UX_MSG_MAX :: nat where "UX_MSG_MAX = 200"
definition UX_INT_MAX :: nat where "UX_INT_MAX = 600000"
definition UX_VALUE_MAX :: nat where "UX_VALUE_MAX = 32"
definition CALI_SDLOG_DATA_MAX :: nat where "CALI_SDLOG_DATA_MAX = 288"

definition UX_KEYS :: "string list" where
  "UX_KEYS = [''screen'', ''fn'', ''control'', ''ttfb'', ''dcl'', ''tiles'', ''msg'', ''type'', ''value'']"
definition UX_TYPES :: "string list" where "UX_TYPES = [''view'', ''control'', ''timing'', ''error'']"
definition UX_NEEDS :: "nat set list" where "UX_NEEDS = [{0}, {1, 2}, {3, 4, 5}, {6}]"
definition UX_UA :: "string list" where "UX_UA = [''ios'', ''android'', ''mac'', ''other'']"
definition UX_ORIGIN :: "string list" where "UX_ORIGIN = [''lan'', ''busnet'', ''buspi'']"

record ux_hdr =
  ux_sid :: string
  ux_ua :: nat
  ux_origin :: nat
  ux_standalone :: bool

record ux_ev =
  ue_id :: "nat \<Rightarrow> string"
  ue_msg :: string
  ue_value :: string
  ue_num :: "nat \<Rightarrow> nat"
  ue_type :: "nat option"

definition ux_ev0 :: ux_ev where
  "ux_ev0 = \<lparr>ue_id = (\<lambda>i. []), ue_msg = [], ue_value = [], ue_num = (\<lambda>i. 0), ue_type = None\<rparr>"

section \<open>Parsing\<close>

definition parse_enum :: "string list \<Rightarrow> string \<Rightarrow> (nat \<times> string) option" where
  "parse_enum names t =
     (case parse_str 16 t of None \<Rightarrow> None
      | Some (v, len, u) \<Rightarrow> if len \<ge> 16 then None else map_option (\<lambda>i. (i, u)) (key_index v names))"

definition ux_char_ok :: "bool \<Rightarrow> char \<Rightarrow> bool" where
  "ux_char_ok ident c \<longleftrightarrow>
     (let n = of_char c :: nat in
      if ident then 97 \<le> n \<and> n \<le> 122 \<or> 48 \<le> n \<and> n \<le> 57 \<or> c = CHR ''_'' \<or> c = CHR ''.'' \<or> c = CHR ''-''
      else 0x20 \<le> n \<and> n \<le> 0x7e)"

definition ux_chars :: "string \<Rightarrow> nat \<Rightarrow> nat \<Rightarrow> bool \<Rightarrow> bool" where
  "ux_chars s len mx ident \<longleftrightarrow> 1 \<le> len \<and> len \<le> mx \<and> list_all (ux_char_ok ident) (take len s)"

definition parse_ux_int :: "string \<Rightarrow> (nat \<times> string) option" where
  "parse_ux_int t0 =
     (let t = skip_ws t0 in
      if \<not> digit_next t \<or> bad_zero t then None
      else case uint_loop UX_INT_MAX 0 t of None \<Rightarrow> None
      | Some (v, u) \<Rightarrow>
          if char_next (CHR ''.'') u \<or> char_next (CHR ''e'') u \<or> char_next (CHR ''E'') u then None else Some (v, u))"

definition ux_text :: "nat \<Rightarrow> nat \<Rightarrow> bool \<Rightarrow> string \<Rightarrow> (string \<times> string) option" where
  "ux_text cap mx ident t =
     (case parse_str cap t of None \<Rightarrow> None | Some (s, len, u) \<Rightarrow> if ux_chars s len mx ident then Some (s, u) else None)"

definition ux_event_field :: "ux_ev field_fn" where
  "ux_event_field k t e =
     (if k \<le> 2 then map_option (\<lambda>(s, u). (e\<lparr>ue_id := (ue_id e)(k := s)\<rparr>, u)) (ux_text 33 32 True t)
      else if k \<le> 5 then map_option (\<lambda>(v, u). (e\<lparr>ue_num := (ue_num e)(k - 3 := v)\<rparr>, u)) (parse_ux_int t)
      else if k = 6 then map_option (\<lambda>(s, u). (e\<lparr>ue_msg := s\<rparr>, u)) (ux_text (UX_MSG_MAX + 1) UX_MSG_MAX False t)
      else if k = 7 then map_option (\<lambda>(i, u). (e\<lparr>ue_type := Some i\<rparr>, u)) (parse_enum UX_TYPES t)
      else map_option (\<lambda>(s, u). (e\<lparr>ue_value := s\<rparr>, u)) (ux_text (UX_VALUE_MAX + 1) UX_VALUE_MAX False t))"

text \<open>The members of a record, and the record itself: the message is cut until the text fits.\<close>

definition ux_members :: "ux_hdr \<Rightarrow> nat set \<Rightarrow> nat \<Rightarrow> ux_ev \<Rightarrow> string \<Rightarrow> (string \<times> jval) list" where
  "ux_members h seen type e msg =
     [(''ev'', JStr ''ux''), (''sid'', JStr (ux_sid h)), (''ua_class'', JStr (UX_UA ! ux_ua h)), (''standalone'', JBool (ux_standalone h)),
      (''origin'', JStr (UX_ORIGIN ! ux_origin h)), (''type'', JStr (UX_TYPES ! type))] @
     map (\<lambda>k. (UX_KEYS ! k, if k \<le> 2 then JStr (ue_id e k) else if k \<le> 5 then JInt (int (ue_num e (k - 3))) else JStr msg))
       (filter (\<lambda>k. k \<in> seen) [0..<7]) @
     (if 8 \<in> seen then [(''value'', JStr (ue_value e))] else [])"

definition ux_fits :: "int \<Rightarrow> bool" where "ux_fits n \<longleftrightarrow> n > 0 \<and> n - 2 < int CALI_SDLOG_DATA_MAX"

function ux_fit :: "(string \<Rightarrow> (string \<times> jval) list) \<Rightarrow> string \<Rightarrow> nat \<Rightarrow> int \<times> cali_json" where
  "ux_fit ms msg k =
     (let r = json_doc (replicate (CALI_SDLOG_DATA_MAX + 1) (CHR 0x00)) (ms (take k msg)) in
      if ux_fits (fst r) \<or> k = 0 then r else ux_fit ms msg (if k > 8 then k - 8 else 0))"
  by pat_completeness auto
termination
  by (relation "measure (\<lambda>(ms, msg, k). k)") (auto split: if_splits)

declare ux_fit.simps [simp del]

definition ux_record :: "ux_hdr \<Rightarrow> nat set \<Rightarrow> nat \<Rightarrow> ux_ev \<Rightarrow> string list" where
  "ux_record h seen type e =
     (let (n, j) = ux_fit (ux_members h seen type e) (ue_msg e) (length (ue_msg e)) in
      if n > 2 \<and> ux_fits n then [take (nat n - 2) (tl (js_buf j))] else [])"

text \<open>One event: the records it writes and the text behind it.\<close>

definition ux_event :: "ux_hdr \<Rightarrow> bool \<Rightarrow> string \<Rightarrow> (string list \<times> string) option" where
  "ux_event h emit t =
     (case parse_obj UX_KEYS ux_event_field ux_ev0 t of None \<Rightarrow> None
      | Some (seen, e, u) \<Rightarrow>
          case ue_type e of None \<Rightarrow> None
          | Some type \<Rightarrow>
              if 8 \<in> seen \<and> type \<noteq> 1 then None
              else if seen - {8} \<noteq> insert 7 (UX_NEEDS ! type) then None
              else Some (if emit then ux_record h seen type e else [], u))"

fun ux_events :: "nat \<Rightarrow> ux_hdr \<Rightarrow> bool \<Rightarrow> string \<Rightarrow> (string list \<times> string) option" where
  "ux_events 0 h emit t = None"
| "ux_events (Suc n) h emit t =
     (case ux_event h emit t of None \<Rightarrow> None
      | Some (rs, u) \<Rightarrow>
          case expect (CHR '','') u of
            None \<Rightarrow> Some (rs, u)
          | Some u1 \<Rightarrow> map_option (\<lambda>(rs1, u2). (rs @ rs1, u2)) (ux_events n h emit u1))"

definition sid_char :: "char \<Rightarrow> bool" where
  "sid_char c \<longleftrightarrow> (let n = of_char c :: nat in 48 \<le> n \<and> n \<le> 57 \<or> 97 \<le> n \<and> n \<le> 102)"

definition ux_field :: "bool \<Rightarrow> (ux_hdr \<times> string list) field_fn" where
  "ux_field emit k t x =
     (let (h, rs) = x in
      if k = 0
      then (case parse_str 33 t of None \<Rightarrow> None
            | Some (s, len, u) \<Rightarrow> if len < 8 \<or> len > 32 \<or> \<not> list_all sid_char s then None else Some ((h\<lparr>ux_sid := s\<rparr>, rs), u))
      else if k = 1 then map_option (\<lambda>(i, u). ((h\<lparr>ux_ua := i\<rparr>, rs), u)) (parse_enum UX_UA t)
      else if k = 2 then map_option (\<lambda>(b, u). ((h\<lparr>ux_standalone := b\<rparr>, rs), u)) (parse_bool t)
      else if k = 3 then map_option (\<lambda>(i, u). ((h\<lparr>ux_origin := i\<rparr>, rs), u)) (parse_enum UX_ORIGIN t)
      else case expect (CHR ''['') t of None \<Rightarrow> None
      | Some t1 \<Rightarrow>
          case ux_events UX_EVENTS_MAX h emit t1 of None \<Rightarrow> None
          | Some (rs1, u) \<Rightarrow> map_option (\<lambda>u1. ((h, rs @ rs1), u1)) (expect (CHR '']'') u))"

definition UX_HDR_KEYS :: "string list" where "UX_HDR_KEYS = [''sid'', ''ua_class'', ''standalone'', ''origin'', ''events'']"

definition ux_parse :: "string \<Rightarrow> ux_hdr \<Rightarrow> bool \<Rightarrow> (ux_hdr \<times> string list) option" where
  "ux_parse body h emit =
     (case parse_body UX_HDR_KEYS (ux_field emit) (h, []) body of
        Some (seen, x) \<Rightarrow> if seen = {0, 1, 2, 3, 4} then Some x else None
      | None \<Rightarrow> None)"

text \<open>The two passes of \<open>api_ux\<close>: None when the body is refused, else the records written. The header starts undefined.\<close>

definition ux_beacon :: "ux_hdr \<Rightarrow> string \<Rightarrow> string list option" where
  "ux_beacon h0 body =
     (case ux_parse body h0 False of None \<Rightarrow> None
      | Some (h, _) \<Rightarrow> Some (case ux_parse body h True of Some (_, rs) \<Rightarrow> rs | None \<Rightarrow> []))"

section \<open>Two passes\<close>

text \<open>Two contexts run side by side through an object: the same members are accepted, the same text is left.\<close>

definition together :: "('a \<Rightarrow> 'b \<Rightarrow> bool) \<Rightarrow> ('a \<times> string) option \<Rightarrow> ('b \<times> string) option \<Rightarrow> bool" where
  "together R x y \<longleftrightarrow> rel_option (\<lambda>(a, t) (b, u). R a b \<and> t = u) x y"

lemma obj_loop_together:
  assumes "\<And>i t a b. R a b \<Longrightarrow> together R (f i t a) (g i t b)" and "R a b"
  shows "rel_option (\<lambda>(s1, a1, t1) (s2, b1, t2). s1 = s2 \<and> R a1 b1 \<and> t1 = t2) (obj_loop keys f seen a t) (obj_loop keys g seen b t)"
  using assms
proof (induction keys f seen a t arbitrary: b rule: obj_loop.induct)
  case (1 keys f seen a t)
  note unfold = obj_loop.simps [of keys f seen a t] obj_loop.simps [of keys g seen b t]
  show ?case
  proof (cases "\<exists>key klen t1 t2 i. parse_str KEY_CAP t = Some (key, klen, t1) \<and> klen < KEY_CAP \<and> expect (CHR '':'') t1 = Some t2 \<and>
      key_index key keys = Some i \<and> i \<notin> seen")
    case False
    then have "obj_loop keys f seen a t = None" "obj_loop keys g seen b t = None"
      unfolding unfold by (auto split: option.splits)
    then show ?thesis by simp
  next
    case True
    then obtain key klen t1 t2 i where p: "parse_str KEY_CAP t = Some (key, klen, t1)" "\<not> KEY_CAP \<le> klen"
      "expect (CHR '':'') t1 = Some t2" "key_index key keys = Some i" "i \<notin> seen" by (auto simp: not_le)
    have r: "together R (f i t2 a) (g i t2 b)" by (rule 1(2) [OF 1(3)])
    show ?thesis
    proof (cases "f i t2 a")
      case None
      then have "g i t2 b = None" using r by (simp add: together_def)
      then show ?thesis using None p unfolding unfold by simp
    next
      case (Some x)
      obtain a1 t3 where x: "x = (a1, t3)" by fastforce
      then obtain b1 where b1: "g i t2 b = Some (b1, t3)" "R a1 b1"
        using r Some by (cases "g i t2 b") (auto simp: together_def)
      show ?thesis
      proof (cases "expect (CHR '','') t3")
        case None
        then show ?thesis using Some x b1 p unfolding unfold by (cases "expect (CHR ''}'') t3") simp_all
      next
        case (Some t4)
        then show ?thesis
          using 1(1) [OF p(1) refl refl p(2,3,4,5) \<open>f i t2 a = Some x\<close> x [symmetric] Some 1(2) b1(2)] \<open>f i t2 a = Some x\<close> x b1 p
          unfolding unfold by simp
      qed
    qed
  qed
qed

lemma ux_event_rest: "map_option snd (ux_event h1 True t) = map_option snd (ux_event h2 False t)"
  by (auto simp: ux_event_def split: option.splits)

lemma ux_events_together:
  "rel_option (\<lambda>(rs, t1) (ss, t2). t1 = t2) (ux_events n h1 True t) (ux_events n h2 False t)"
proof (induction n arbitrary: t)
  case (Suc n)
  show ?case
  proof (cases "ux_event h1 True t")
    case None
    then have "ux_event h2 False t = None" using ux_event_rest [of h1 t h2] by (cases "ux_event h2 False t") simp_all
    then show ?thesis using None by simp
  next
    case (Some x)
    obtain rs u where x: "x = (rs, u)" by fastforce
    then obtain ss where s: "ux_event h2 False t = Some (ss, u)"
      using ux_event_rest [of h1 t h2] Some by (cases "ux_event h2 False t") auto
    show ?thesis
    proof (cases "expect (CHR '','') u")
      case (Some u1)
      then show ?thesis using \<open>ux_event h1 True t = Some x\<close> x s Suc.IH [of u1]
        by (cases "ux_events n h1 True u1"; cases "ux_events n h2 False u1") auto
    qed (use Some x s in simp)
  qed
qed simp

lemma ux_field_together: "together (\<lambda>x y. True) (ux_field True k t x) (ux_field False k t y)"
proof -
  obtain h1 r1 h2 r2 where xy: "x = (h1, r1)" "y = (h2, r2)" by (cases x; cases y) blast
  consider "k = 0" | "k = 1" | "k = 2" | "k = 3" | "k > 3" by linarith
  then show ?thesis
  proof cases
    case 1
    then show ?thesis by (auto simp: ux_field_def together_def xy split: option.splits)
  next
    case 5
    show ?thesis
    proof (cases "expect (CHR ''['') t")
      case (Some t1)
      have map: "rel_option (\<lambda>(a, t) (b, y). t = y) (map_option (Pair p) o1) (map_option (Pair q) o1)" for p q :: "ux_hdr \<times> string list" and o1
        by (cases o1) simp_all
      have "rel_option (\<lambda>(rs, t1) (ss, t2). t1 = t2) (ux_events UX_EVENTS_MAX h1 True t1) (ux_events UX_EVENTS_MAX h2 False t1)"
        by (rule ux_events_together)
      then show ?thesis using 5 Some
        by (cases "ux_events UX_EVENTS_MAX h1 True t1"; cases "ux_events UX_EVENTS_MAX h2 False t1")
           (auto simp: ux_field_def together_def xy map split: option.splits)
    qed (use 5 in \<open>simp add: ux_field_def together_def xy\<close>)
  qed (auto simp: ux_field_def together_def xy option.rel_map intro: option.rel_refl)
qed

text \<open>
  A usage beacon whose body the first pass accepts is accepted again, member for member, by the pass that
  writes the records; so a bad beacon leaves no record at all and a good one is written to its last event.
\<close>

theorem web_ux_written_whole:
  "(ux_parse body h False \<noteq> None) = (ux_parse body h' True \<noteq> None)"
proof -
  have "rel_option (\<lambda>(s1, a1, t1) (s2, b1, t2). s1 = s2 \<and> True \<and> t1 = t2)
    (obj_loop UX_HDR_KEYS (ux_field True) {} (h', []) t) (obj_loop UX_HDR_KEYS (ux_field False) {} (h, []) t)" for t
    by (rule obj_loop_together [where R = "\<lambda>x y. True"]) (simp_all add: ux_field_together)
  then have "rel_option (\<lambda>(s1, a1, t1) (s2, b1, t2). s1 = s2 \<and> t1 = t2)
    (parse_obj UX_HDR_KEYS (ux_field True) (h', []) body) (parse_obj UX_HDR_KEYS (ux_field False) (h, []) body)"
    by (auto simp: parse_obj_def split: option.splits)
  then show ?thesis unfolding ux_parse_def parse_body_def
    by (cases "parse_obj UX_HDR_KEYS (ux_field True) (h', []) body"; cases "parse_obj UX_HDR_KEYS (ux_field False) (h, []) body")
       (simp_all split: prod.splits if_splits, auto)
qed

end
