(* ===== verification/Web.thy ===== *)
theory Web
  imports Web_Ux Http Wifi_Run Captive_DNS Control Pairing_SM
begin

text \<open>
  The endpoints of \<open>web.c\<close>. A handler returns the calls it makes on the other components, in order, and its verdict for the HTTP
  core; the answer of each call, the state it looks at, the documents the components write and the generated assets are
  the record \<open>web_env\<close>. The static variables of the file are \<open>web_state\<close>. The lemmas show which requests can act, and that
  a request that is refused changes nothing.
\<close>

section \<open>Data\<close>

datatype wifi_mode = CALI_WIFI_MODE_OFF | CALI_WIFI_MODE_SETUP | CALI_WIFI_MODE_STATION

definition cali_wifi_mode :: "cali_wifi_state \<Rightarrow> wifi_mode" where
  "cali_wifi_mode w =
     (case ws_st w of
        WIFI_SETUP_AP \<Rightarrow> CALI_WIFI_MODE_SETUP
      | WIFI_SETUP_AP_RETRYING \<Rightarrow> CALI_WIFI_MODE_SETUP
      | WIFI_ONLINE \<Rightarrow> CALI_WIFI_MODE_STATION
      | WIFI_CONNECTING \<Rightarrow> if ws_joined_once w = 1 then CALI_WIFI_MODE_STATION else CALI_WIFI_MODE_OFF
      | WIFI_RETRYING \<Rightarrow> if ws_joined_once w = 1 then CALI_WIFI_MODE_STATION else CALI_WIFI_MODE_OFF
      | _ \<Rightarrow> CALI_WIFI_MODE_OFF)"

text \<open>The calls on other components that change something.\<close>

datatype web_call =
    W_ctl_submit string string string int
  | W_runner_start | W_runner_passkey nat | W_runner_cancel | W_runner_forget
  | W_ota_set_channel bool | W_ota_request bool
  | W_ac_set_enabled bool
  | W_thermo_apply thermo_patch
  | W_pw_wake | W_ph_halt | W_pw_set_enabled bool | W_ph_set_min nat | W_ph_set_soc nat
  | W_ble_exp_stop | W_ble_exp_start nat nat nat | W_ble_idle_set nat | W_ble_rest_set nat
  | W_set_warm_ms nat | W_set_mode cali_ble_mode | W_probe | W_connect | W_input | W_viewer | W_exp_activity
  | W_display_cfg_set display_cfg | W_pm_dfs bool
  | W_page_request nat nat
  | W_ux_record string
  | W_kv_set string string | W_lora_set bool
  | W_sensors_kick | W_sensors_add nat "string option" "string option" | W_sensors_remove nat | W_sensors_rename nat string
  | W_setup_pending_set bool
  | W_set_creds string string | W_forget | W_scan_auto

datatype web_doc = D_state bool | D_wifi | D_pairing | D_thermostat | D_ble | D_sensors | D_pi_setting

text \<open>
  What a request meets. \<open>we_ask\<close> is the return code of a call, \<open>we_submit\<close> the result and the reason of a command,
  \<open>we_doc\<close> the text the writer produced for a document, None when it did not fit.
\<close>

record web_env =
  we_wifi :: cali_wifi_state
  we_busy :: bool
  we_pair :: pair_st
  we_active :: bool
  we_probing :: bool
  we_bond :: bool
  we_display :: display_cfg
  we_kv_get :: "string \<Rightarrow> string option"
  we_ask :: "web_call \<Rightarrow> int"
  we_submit :: "cali_ctl_rc \<times> string option"
  we_page :: "int \<times> string"
  we_doc :: "web_doc \<Rightarrow> string option"
  we_app :: string
  we_device :: string
  we_pwa :: "(string \<times> string \<times> string) list"
  we_ux_hdr :: ux_hdr

record web_state =
  wb_ux :: "bool option"
  wb_exp :: "bool option"
  wb_cmd_fn :: string
  wb_cmd :: cali_ctl_rc
  wb_cmd_reason :: "string option"

type_synonym web_out = "web_state \<times> web_call list \<times> verdict"

section \<open>Answers\<close>

definition resp0 :: http_resp where
  "resp0 = \<lparr>rs_status = 0, rs_type = None, rs_body = None, rs_location = None, rs_encoding = None, rs_cache = None, rs_etag = None\<rparr>"

definition set_body :: "int \<Rightarrow> string option \<Rightarrow> string option \<Rightarrow> http_resp" where
  "set_body status type body = resp0\<lparr>rs_status := status, rs_type := type, rs_body := body\<rparr>"

definition JSON_TYPE :: string where "JSON_TYPE = ''application/json''"
definition HTML_TYPE :: string where "HTML_TYPE = ''text/html; charset=utf-8''"
definition NO_CACHE :: string where "NO_CACHE = ''no-cache''"
definition PROBE_TARGET :: string where "PROBE_TARGET = ''http://192.168.4.1/''"

definition SET_CONST :: "int \<Rightarrow> string \<Rightarrow> http_resp" where
  "SET_CONST status body = set_body status (Some JSON_TYPE) (Some body)"

text \<open>The constant bodies \<open>{"ok":false,"error":...}\<close> and \<open>{"error":...}\<close>.\<close>

definition err_body :: "string \<Rightarrow> string" where
  "err_body e = render (JObj [(''ok'', JBool False), (''error'', JStr e)])"

definition perr_body :: "string \<Rightarrow> string" where
  "perr_body e = render (JObj [(''error'', JStr e)])"

definition OK_BODY :: string where "OK_BODY = render (JObj [(''ok'', JBool True)])"

definition ERR :: "int \<Rightarrow> string \<Rightarrow> verdict" where "ERR status e = H_answer (SET_CONST status (err_body e))"
definition P_ERR :: "int \<Rightarrow> string \<Rightarrow> verdict" where "P_ERR status e = H_answer (SET_CONST status (perr_body e))"
definition OK :: verdict where "OK = H_answer (SET_CONST 200 OK_BODY)"

definition ok_flag :: "string \<Rightarrow> bool \<Rightarrow> verdict" where
  "ok_flag key b = H_answer (SET_CONST 200 (render (JObj [(''ok'', JBool True), (key, JBool b)])))"

definition fnv :: "u64 \<Rightarrow> char \<Rightarrow> u64" where
  "fnv h c = xor h (of_char c) * 1099511628211"

definition hex16 :: "u64 \<Rightarrow> string" where
  "hex16 h = map (\<lambda>i. hex_digit (unat (drop_bit (4 * (15 - i)) h) mod 16)) [0..<16]"

definition set_static :: "string \<Rightarrow> string \<Rightarrow> string \<Rightarrow> http_resp" where
  "set_static type body cache =
     (set_body 200 (Some type) (Some body))
       \<lparr>rs_cache := Some cache, rs_etag := Some ([CHR 0x22] @ hex16 (foldl fnv 0xcbf29ce484222325 body) @ [CHR 0x22])\<rparr>"

definition OVERFLOW_BODY :: string where "OVERFLOW_BODY = ''response too large''"

definition finish_json :: "string option \<Rightarrow> http_resp" where
  "finish_json doc =
     (case doc of None \<Rightarrow> set_body 500 (Some ''text/plain'') (Some OVERFLOW_BODY)
      | Some t \<Rightarrow> (set_body 200 (Some JSON_TYPE) (Some t))\<lparr>rs_cache := Some ''no-store''\<rparr>)"

text \<open>The members of \<open>/api/state\<close> that tick on their own, and the hash of the text without their values.\<close>

definition STATE_TICKING :: "string list" where
  "STATE_TICKING =
     [''uptime_ms'', ''last_snap_age_ms'', ''rest_next_s'', ''halt_last_s'', ''halt_in_s'', ''last_s'', ''age_s'', ''water_held_age_ms'',
      ''remaining_ms'', ''rssi'', ''mv'', ''pct'', ''runtime_min'']"

definition ticking :: "string \<Rightarrow> bool" where "ticking key \<longleftrightarrow> key \<in> set STATE_TICKING"

text \<open>\<open>key\<close> is the text behind the last opening quote; the byte behind a backslash at the very end is the buffer's NUL.\<close>

function etag_loop :: "bool \<Rightarrow> string \<Rightarrow> char \<Rightarrow> string \<Rightarrow> u64 \<Rightarrow> u64" where
  "etag_loop in_str key prev b h =
     (case b of [] \<Rightarrow> h
      | c # r \<Rightarrow>
          if in_str \<and> c = CHR 0x5C
          then let d = (case r of [] \<Rightarrow> CHR 0x00 | d # _ \<Rightarrow> d) in etag_loop True (key @ [c, d]) d (tl r) (fnv (fnv h c) d)
          else if in_str then etag_loop (c \<noteq> CHR 0x22) (key @ [c]) c r (fnv h c)
          else if c = CHR 0x22 then etag_loop True [] c r (fnv h c)
          else if c = CHR '':'' \<and> key \<noteq> [] \<and> prev = CHR 0x22 \<and> ticking (butlast key)
          then etag_loop False (key @ [c]) c (dropWhile (\<lambda>x. x \<noteq> CHR '','' \<and> x \<noteq> CHR ''}'') r) (fnv h c)
          else etag_loop False (key @ [c]) c r (fnv h c))"
  by pat_completeness auto
termination
  by (relation "measure (\<lambda>(i, k, p, b, h). length b)") (auto simp: length_dropWhile_le less_Suc_eq_le)

declare etag_loop.simps [simp del]

definition state_etag :: "string \<Rightarrow> string" where
  "state_etag b = ''W/'' @ [CHR 0x22] @ hex16 (etag_loop False [] (CHR 0x00) b 1469598103934665603) @ [CHR 0x22]"

section \<open>Settings kept in RAM\<close>

definition CALI_UX_ON_KEY :: string where "CALI_UX_ON_KEY = ''ux_on''"
definition CALI_EXP_SENSORS_KEY :: string where "CALI_EXP_SENSORS_KEY = ''exp_sensors''"
definition CALI_UX_BODY_MAX :: nat where "CALI_UX_BODY_MAX = 2048"

definition kv_flag :: "web_env \<Rightarrow> string \<Rightarrow> bool \<Rightarrow> bool" where
  "kv_flag e key dflt = (case we_kv_get e key of Some v \<Rightarrow> if length v = 1 then v \<noteq> [CHR 0x00] else dflt | None \<Rightarrow> dflt)"

definition ux_on :: "web_env \<Rightarrow> web_state \<Rightarrow> bool \<times> web_state" where
  "ux_on e s = (case wb_ux s of Some b \<Rightarrow> (b, s) | None \<Rightarrow> let b = kv_flag e CALI_UX_ON_KEY True in (b, s\<lparr>wb_ux := Some b\<rparr>))"

definition cali_exp_sensors :: "web_env \<Rightarrow> web_state \<Rightarrow> bool \<times> web_state" where
  "cali_exp_sensors e s =
     (case wb_exp s of Some b \<Rightarrow> (b, s) | None \<Rightarrow> let b = kv_flag e CALI_EXP_SENSORS_KEY False in (b, s\<lparr>wb_exp := Some b\<rparr>))"

definition byte :: "bool \<Rightarrow> string" where "byte b = [if b then CHR 0x01 else CHR 0x00]"

definition cali_exp_sensors_set :: "web_env \<Rightarrow> bool \<Rightarrow> web_state \<Rightarrow> bool \<times> web_state \<times> web_call list" where
  "cali_exp_sensors_set e on s =
     (let c = W_kv_set CALI_EXP_SENSORS_KEY (byte on) in
      if we_ask e c \<noteq> 0 then (False, s, [c]) else (True, s\<lparr>wb_exp := Some on\<rparr>, [c]))"

abbreviation POST :: string where "POST \<equiv> ''POST''"
abbreviation GET :: string where "GET \<equiv> ''GET''"

definition web_mode :: "web_env \<Rightarrow> wifi_mode" where "web_mode e = cali_wifi_mode (we_wifi e)"

definition station :: "web_env \<Rightarrow> bool" where "station e \<longleftrightarrow> web_mode e = CALI_WIFI_MODE_STATION"

section \<open>Commands\<close>

text \<open>\<open>cmd_done\<close> is the sequencer's answer to a pending command.\<close>

definition cmd_done :: "cali_ctl_rc \<Rightarrow> string option \<Rightarrow> web_state \<Rightarrow> web_state" where
  "cmd_done result why s = s\<lparr>wb_cmd := result, wb_cmd_reason := why\<rparr>"

definition cmd_error :: "cali_ctl_rc \<Rightarrow> (int \<times> string) option" where
  "cmd_error rc =
     (case rc of CALI_CTL_OK \<Rightarrow> None | CALI_CTL_REFUSED \<Rightarrow> None | CALI_CTL_ELSEWHERE \<Rightarrow> None | CALI_CTL_UNCONFIRMED \<Rightarrow> None
      | CALI_CTL_BAD_VALUE \<Rightarrow> Some (400, ''bad_value'')
      | CALI_CTL_NONE \<Rightarrow> Some (400, ''unknown_control'')
      | CALI_CTL_BUSY \<Rightarrow> Some (409, ''busy'')
      | CALI_CTL_NOT_READY \<Rightarrow> Some (503, ''not_connected'')
      | CALI_CTL_TIMEOUT \<Rightarrow> Some (504, ''write_timeout'')
      | _ \<Rightarrow> Some (502, ''write_failed''))"

definition cmd_members :: "cali_ctl_rc \<Rightarrow> string option \<Rightarrow> string \<Rightarrow> (string \<times> jval) list" where
  "cmd_members rc why fn =
     (case cmd_error rc of
        Some (code, err) \<Rightarrow> [(''ok'', JBool False), (''error'', JStr err)]
      | None \<Rightarrow>
          [(''ok'', JBool True), (''applied'', if why = None then JNull else JBool False)] @
          (case why of None \<Rightarrow> [] | Some r \<Rightarrow> [(''refused'', JStr r)]) @
          [(''state'', JNull), (''error'', JNull), (''function'', JStr fn)] @
          (if rc = CALI_CTL_UNCONFIRMED then [(''unconfirmed'', JBool True)] else []))"

definition NET_JSON_MAX :: nat where "NET_JSON_MAX = 8192"

text \<open>The text of a document written into the response buffer, None when it did not fit.\<close>

definition json_reply :: "(string \<times> jval) list \<Rightarrow> string option" where
  "json_reply ms =
     (let (n, j) = json_doc (replicate NET_JSON_MAX (CHR 0x00)) ms in if n < 0 then None else Some (take (nat n) (js_buf j)))"

definition cmd_answer :: "cali_ctl_rc \<Rightarrow> string option \<Rightarrow> web_state \<Rightarrow> verdict" where
  "cmd_answer rc why s =
     (let status = (case cmd_error rc of Some (code, err) \<Rightarrow> code | None \<Rightarrow> 200);
          r = finish_json (json_reply (cmd_members rc why (wb_cmd_fn s)))
      in H_answer (if rs_status r = 200 then r\<lparr>rs_status := status\<rparr> else r))"

definition api_command :: "web_env \<Rightarrow> http_req \<Rightarrow> web_state \<Rightarrow> web_out" where
  "api_command e rq s =
     (if rq_resume rq
      then if wb_cmd s = CALI_CTL_PENDING then (s, [], H_pending) else (s, [], cmd_answer (wb_cmd s) (wb_cmd_reason s) s)
      else if rq_method rq \<noteq> POST then (s, [], ERR 405 ''method'')
      else if \<not> station e then (s, [], ERR 403 ''setup_mode'')
      else case parse_command (rq_body rq) of None \<Rightarrow> (s, [], ERR 400 ''bad_json'')
      | Some cm \<Rightarrow>
          if cm_fn cm = [] \<or> cm_what cm = [] then (s, [], ERR 400 ''missing_function_or_what'')
          else if (cm_fn cm = ''airheater'' \<or> cm_fn cm = ''roof'') \<and> \<not> cm_confirm cm then (s, [], ERR 400 ''confirm_required'')
          else if cm_local_now_bad cm then (s, [], ERR 400 ''bad_value'')
          else
            let s1 = s\<lparr>wb_cmd_fn := cm_fn cm, wb_cmd := CALI_CTL_PENDING, wb_cmd_reason := None\<rparr>;
                c = W_ctl_submit (cm_fn cm) (cm_what cm) (cm_value cm) (if cm_has_local_now cm then cm_local_now cm else -1);
                (rc, why) = we_submit e
            in if rc = CALI_CTL_PENDING then (s1, [c], H_pending)
               else let s2 = s1\<lparr>wb_cmd := rc\<rparr> in (s2, [c], cmd_answer rc why s2))"

section \<open>Pairing and update\<close>

definition pairing_snapshot :: "web_env \<Rightarrow> verdict" where
  "pairing_snapshot e = H_answer (finish_json (we_doc e D_pairing))"

definition passkey_ok :: "pair_req \<Rightarrow> bool" where
  "passkey_ok r \<longleftrightarrow> pr_value_str r \<and> pr_value_len r = 6 \<and> list_all is_dec (pr_value r)"

definition api_pairing :: "web_env \<Rightarrow> http_req \<Rightarrow> web_state \<Rightarrow> web_out" where
  "api_pairing e rq s =
     (if rq_method rq = GET then (s, [], pairing_snapshot e)
      else if rq_method rq \<noteq> POST then (s, [], ERR 405 ''method'')
      else case parse_pairing (rq_body rq) of None \<Rightarrow> (s, [], P_ERR 400 ''bad_json'')
      | Some r \<Rightarrow>
          let start = is_action r ''start''; passkey = is_action r ''passkey''; cancel = is_action r ''cancel''; rst = is_action r ''reset'' in
          if \<not> start \<and> \<not> passkey \<and> \<not> cancel \<and> \<not> rst then (s, [], P_ERR 400 ''bad_action'')
          else if rst \<and> \<not> pr_confirm r then (s, [], P_ERR 400 ''confirm_required'')
          else if passkey \<and> \<not> passkey_ok r then (s, [], P_ERR 400 ''bad_passkey'')
          else if (start \<or> rst) \<and> we_busy e then (s, [], P_ERR 409 ''busy'')
          else
            (s, if start then [W_runner_start]
                else if passkey then [W_runner_passkey (dec_value 0 (pr_value r))]
                else if cancel
                then if we_pair e \<in> {PAIR_SCANNING, PAIR_CONNECTING, PAIR_PAIRING, PAIR_WAITING_PASSKEY, PAIR_VERIFYING}
                     then [W_runner_cancel] else []
                else [W_runner_forget],
             pairing_snapshot e))"

definition ota_action :: "web_env \<Rightarrow> http_req \<Rightarrow> web_state \<Rightarrow> web_out" where
  "ota_action e rq s =
     (case parse_pairing (rq_body rq) of None \<Rightarrow> (s, [], ERR 400 ''bad_json'')
      | Some r \<Rightarrow>
          if \<not> is_action r ''check'' \<and> \<not> is_action r ''install'' then (s, [], ERR 400 ''bad_action'')
          else let c = W_ota_request (is_action r ''install''); rc = we_ask e c
               in (s, [c], if rc = -1 then ERR 503 ''ota_unavailable'' else if rc = -2 then ERR 409 ''busy'' else OK))"

definition api_ota :: "web_env \<Rightarrow> http_req \<Rightarrow> web_state \<Rightarrow> web_out" where
  "api_ota e rq s =
     (if rq_method rq \<noteq> POST then (s, [], ERR 405 ''method'')
      else if \<not> station e then (s, [], ERR 403 ''setup_mode'')
      else case parse_body [''channel''] channel_field ([], 0) (rq_body rq) of
        Some (seen, v) \<Rightarrow>
          if seen = {0}
          then let latest = (snd v = 6 \<and> fst v = ''latest'') in
               if \<not> latest \<and> \<not> (snd v = 6 \<and> fst v = ''stable'') then (s, [], ERR 400 ''bad_value'')
               else let c = W_ota_set_channel latest in (s, [c], if we_ask e c \<noteq> 0 then ERR 500 ''store'' else OK)
          else ota_action e rq s
      | None \<Rightarrow> ota_action e rq s)"

section \<open>Settings\<close>

text \<open>The guard of the endpoints that act in station mode only.\<close>

definition post_station :: "web_env \<Rightarrow> http_req \<Rightarrow> web_state \<Rightarrow> web_out \<Rightarrow> web_out" where
  "post_station e rq s out =
     (if rq_method rq \<noteq> POST then (s, [], ERR 405 ''method'') else if \<not> station e then (s, [], ERR 403 ''setup_mode'') else out)"

definition one_bool :: "string \<Rightarrow> string \<Rightarrow> bool option" where
  "one_bool key body = (case parse_body [key] bool_field False body of Some (seen, b) \<Rightarrow> if seen = {0} then Some b else None | None \<Rightarrow> None)"

definition api_auto_camper :: "web_env \<Rightarrow> http_req \<Rightarrow> web_state \<Rightarrow> web_out" where
  "api_auto_camper e rq s =
     post_station e rq s
       (case one_bool ''enabled'' (rq_body rq) of None \<Rightarrow> (s, [], ERR 400 ''bad_json'')
        | Some on \<Rightarrow>
            let c = W_ac_set_enabled on in (s, [c], if we_ask e c \<noteq> 0 then ERR 500 ''store'' else ok_flag ''auto_camper'' on))"

definition api_thermostat :: "web_env \<Rightarrow> http_req \<Rightarrow> web_state \<Rightarrow> web_out" where
  "api_thermostat e rq s =
     (let doc = H_answer (finish_json (we_doc e D_thermostat)) in
      if rq_method rq = POST
      then if \<not> station e then (s, [], ERR 403 ''setup_mode'')
           else case parse_body K_THERMO thermo_field thermo_patch0 (rq_body rq) of None \<Rightarrow> (s, [], ERR 400 ''bad_json'')
           | Some (seen, p) \<Rightarrow>
               let c = W_thermo_apply (p\<lparr>tp_has := seen\<rparr>); rc = we_ask e c in
               (s, [c], if rc = 0 then doc else if rc = 1 then ERR 409 ''stale_rev'' else if rc = 2 then ERR 400 ''bad_value''
                        else if rc = 3 then ERR 400 ''unknown_sensor'' else if rc = 4 then ERR 400 ''confirm_required'' else ERR 500 ''store'')
      else if rq_method rq \<noteq> GET then (s, [], ERR 405 ''method'')
      else (s, [], doc))"

text \<open>The body \<open>{}\<close>, or none.\<close>

definition empty_body :: "string \<Rightarrow> bool" where
  "empty_body body \<longleftrightarrow>
     skip_ws body = [] \<or>
     (case expect (CHR ''{'') body of None \<Rightarrow> False
      | Some t \<Rightarrow> case expect (CHR ''}'') t of None \<Rightarrow> False | Some u \<Rightarrow> skip_ws u = [])"

definition api_pi_wake :: "web_env \<Rightarrow> http_req \<Rightarrow> web_state \<Rightarrow> web_out" where
  "api_pi_wake e rq s =
     post_station e rq s
       (if \<not> empty_body (rq_body rq) then (s, [], ERR 400 ''bad_json'')
        else (s, [W_pw_wake], if we_ask e W_pw_wake \<noteq> 0 then ERR 409 ''busy'' else OK))"

definition api_pi_halt :: "web_env \<Rightarrow> http_req \<Rightarrow> web_state \<Rightarrow> web_out" where
  "api_pi_halt e rq s =
     post_station e rq s
       (if \<not> empty_body (rq_body rq) then (s, [], ERR 400 ''bad_json'')
        else (s, [W_ph_halt], if we_ask e W_ph_halt \<noteq> 0 then ERR 409 ''busy'' else OK))"

definition ble_range_bad :: "ble_req \<Rightarrow> bool" where
  "ble_range_bad b \<longleftrightarrow>
     br_mode b = Some None \<or> br_num b 2 > 720 \<or> br_num b 3 > 23 \<or> br_num b 4 > 23 \<or> br_num b 5 > 60 \<or> br_num b 6 > 5000 \<or>
     br_num b 7 > 240"

text \<open>The calls of a valid request: each is made if the ones before it did not fail.\<close>

definition ble_apply :: "web_env \<Rightarrow> nat set \<Rightarrow> ble_req \<Rightarrow> web_call list \<times> verdict option" where
  "ble_apply e seen b =
     (let n = br_num b;
          ex = (if 2 \<in> seen then if n 2 = 0 then [W_ble_exp_stop] else [W_ble_exp_start (n 2) (n 3) (n 4)] else []);
          idle = (if 5 \<in> seen then [W_ble_idle_set (n 5)] else []);
          rest = (if 7 \<in> seen then [W_ble_rest_set (n 7)] else []);
          more = (if 6 \<in> seen then [W_set_warm_ms (n 6)] else []) @
                 (case br_mode b of Some (Some m) \<Rightarrow> [W_set_mode m] | _ \<Rightarrow> []) @ (if br_probe b then [W_probe] else []) @
                 (if br_conn b then [W_connect] else []) @ (if br_active b then [W_input] else [])
      in if 2 \<in> seen \<and> n 2 \<noteq> 0 \<and> we_ask e (W_ble_exp_start (n 2) (n 3) (n 4)) \<noteq> 0 then (ex, Some (ERR 409 ''no_time''))
         else if 5 \<in> seen \<and> we_ask e (W_ble_idle_set (n 5)) \<noteq> 0 then (ex @ idle, Some (ERR 500 ''store''))
         else if 7 \<in> seen \<and> we_ask e (W_ble_rest_set (n 7)) \<noteq> 0 then (ex @ idle @ rest, Some (ERR 500 ''store''))
         else (ex @ idle @ rest @ more, None))"

definition api_ble :: "web_env \<Rightarrow> http_req \<Rightarrow> web_state \<Rightarrow> web_out" where
  "api_ble e rq s =
     (let doc = H_answer (finish_json (we_doc e D_ble)) in
      if rq_method rq = GET then (s, [], doc)
      else post_station e rq s
        (case parse_body BLE_KEYS ble_field ble_req0 (rq_body rq) of None \<Rightarrow> (s, [], ERR 400 ''bad_json'')
         | Some (seen, b) \<Rightarrow>
             if seen \<inter> {0, 1, 2, 5, 6, 7, 8, 9} = {} then (s, [], ERR 400 ''bad_json'')
             else if ble_range_bad b then (s, [], ERR 400 ''bad_value'')
             else if br_probe b \<and> (\<not> we_active e \<or> we_probing e) then (s, [], ERR 409 ''busy'')
             else if br_conn b \<and> \<not> we_bond e then (s, [], ERR 409 ''not_paired'')
             else let (cs, v) = ble_apply e seen b in (s, cs, case v of Some x \<Rightarrow> x | None \<Rightarrow> doc)))"

definition api_pi_wake_setting :: "web_env \<Rightarrow> http_req \<Rightarrow> web_state \<Rightarrow> web_out" where
  "api_pi_wake_setting e rq s =
     post_station e rq s
       (case parse_pi_setting (rq_body rq) of
          Inl False \<Rightarrow> (s, [], ERR 400 ''bad_json'')
        | Inl True \<Rightarrow> (s, [], ERR 400 ''bad_value'')
        | Inr (on, mn, soc) \<Rightarrow>
            let cs1 = (if on \<ge> 0 then [W_pw_set_enabled (on \<noteq> 0)] else []);
                cs2 = (if mn \<ge> 0 then [W_ph_set_min (nat mn)] else []);
                cs3 = (if soc \<ge> 0 then [W_ph_set_soc (nat soc)] else []);
                fails = list_ex (\<lambda>c. we_ask e c \<noteq> 0)
            in if fails cs1 then (s, cs1, ERR 500 ''store'')
               else if fails cs2 then (s, cs1 @ cs2, ERR 500 ''store'')
               else if fails cs3 then (s, cs1 @ cs2 @ cs3, ERR 500 ''store'')
               else (s, cs1 @ cs2 @ cs3, H_answer (set_body 200 (Some JSON_TYPE) (we_doc e D_pi_setting))))"

definition CALI_PM_NONE :: int where "CALI_PM_NONE = -2"

definition api_display :: "web_env \<Rightarrow> http_req \<Rightarrow> web_state \<Rightarrow> web_out" where
  "api_display e rq s =
     post_station e rq s
       (case parse_display (we_display e) (rq_body rq) of None \<Rightarrow> (s, [], ERR 400 ''bad_json'')
        | Some (d, dfs, only_dfs) \<Rightarrow>
            let c = W_display_cfg_set d; cs = (if only_dfs then [] else [c]); rc = (if only_dfs then 0 else we_ask e c) in
            if rc = -1 then (s, cs, ERR 400 ''bad_value'')
            else if rc \<noteq> 0 then (s, cs, ERR 500 ''store'')
            else case dfs of None \<Rightarrow> (s, cs, OK)
            | Some on \<Rightarrow>
                let p = W_pm_dfs on; pm = we_ask e p in
                (s, cs @ [p], if pm \<noteq> CALI_PM_NONE \<and> pm \<noteq> (if on then 1 else 0) then ERR 500 ''pm'' else OK))"

definition api_log :: "web_env \<Rightarrow> http_req \<Rightarrow> web_state \<Rightarrow> web_out" where
  "api_log e rq s =
     (if \<not> rq_resume rq
      then if rq_method rq \<noteq> GET then (s, [], ERR 405 ''method'')
           else case parse_log_query (rq_query rq) of None \<Rightarrow> (s, [], ERR 400 ''bad_value'')
           | Some (since, mx) \<Rightarrow>
               let c = W_page_request since mx; rc = we_ask e c in
               (s, [c], if rc = -1 then ERR 503 ''no_card'' else if rc = -2 then ERR 409 ''busy'' else H_pending)
      else let (rc, body) = we_page e in
        (s, [], if rc = 0 then H_pending else if rc < 0 then ERR 503 ''sd_read''
                else H_answer (set_body 200 (Some ''application/x-ndjson'') (Some body))))"

definition no_content :: verdict where "no_content = H_answer (set_body 204 None None)"

definition api_ux :: "web_env \<Rightarrow> http_req \<Rightarrow> web_state \<Rightarrow> web_out" where
  "api_ux e rq s =
     post_station e rq s
       (if length (rq_body rq) > CALI_UX_BODY_MAX then (s, [], P_ERR 413 ''too_large'')
        else let (on, s1) = ux_on e s in
          if \<not> on then (s1, [], no_content)
          else case ux_beacon (we_ux_hdr e) (rq_body rq) of None \<Rightarrow> (s1, [], P_ERR 400 ''bad_ux'')
          | Some rs \<Rightarrow> (s1, map W_ux_record rs, no_content))"

definition api_ux_setting :: "web_env \<Rightarrow> http_req \<Rightarrow> web_state \<Rightarrow> web_out" where
  "api_ux_setting e rq s =
     post_station e rq s
       (case one_bool ''enabled'' (rq_body rq) of None \<Rightarrow> (s, [], ERR 400 ''bad_json'')
        | Some on \<Rightarrow>
            let c = W_kv_set CALI_UX_ON_KEY (byte on) in
            if we_ask e c \<noteq> 0 then (s, [c], ERR 500 ''store'') else (s\<lparr>wb_ux := Some on\<rparr>, [c], ok_flag ''ux'' on))"

definition api_setup_post :: "web_env \<Rightarrow> http_req \<Rightarrow> web_state \<Rightarrow> web_out" where
  "api_setup_post e rq s =
     (if one_bool ''done'' (rq_body rq) \<noteq> Some True then (s, [], ERR 400 ''bad_json'')
      else let c = W_setup_pending_set False in (s, [c], if we_ask e c \<noteq> 0 then ERR 500 ''store'' else OK))"

definition api_experimental :: "web_env \<Rightarrow> http_req \<Rightarrow> web_state \<Rightarrow> web_out" where
  "api_experimental e rq s =
     post_station e rq s
       (case parse_body [''sensors'', ''lora''] exp_field (\<lambda>i. False) (rq_body rq) of None \<Rightarrow> (s, [], ERR 400 ''bad_json'')
        | Some (seen, v) \<Rightarrow>
            if seen = {0}
            then let (ok, s1, cs) = cali_exp_sensors_set e (v 0) s
                 in (s1, cs, if ok then ok_flag ''sensors'' (v 0) else ERR 500 ''store'')
            else if seen = {1}
            then let c = W_lora_set (v 1) in (s, [c], if we_ask e c \<noteq> 0 then ERR 500 ''store'' else ok_flag ''lora'' (v 1))
            else (s, [], ERR 400 ''bad_json''))"

text \<open>The codes \<open>CALI_SENS_E_*\<close> are -1 to -5; any other negative one is a failed store.\<close>

definition SENS_ERRS :: "string list" where
  "SENS_ERRS = [''bad_alias'', ''bad_key'', ''key_mismatch'', ''unknown_id'', ''full'']"

definition sensors_answer :: "web_env \<Rightarrow> int \<Rightarrow> verdict" where
  "sensors_answer e rc =
     (if rc = 1 then ERR 400 ''bad_json''
      else if rc < 0 \<and> - rc - 1 < int (length SENS_ERRS) then ERR 400 (SENS_ERRS ! nat (- rc - 1))
      else if rc < 0 then ERR 500 ''store''
      else H_answer (finish_json (we_doc e D_sensors)))"

definition api_sensors :: "web_env \<Rightarrow> http_req \<Rightarrow> web_state \<Rightarrow> web_out" where
  "api_sensors e rq s0 =
     (let (on, s) = cali_exp_sensors e s0 in
      if \<not> on then (s, [], ERR 404 ''disabled'')
      else if rq_method rq = GET then (s, [W_sensors_kick], H_answer (finish_json (we_doc e D_sensors)))
      else if rq_method rq \<noteq> POST then (s, [], ERR 405 ''method'')
      else case sensors_parse (rq_body rq) of None \<Rightarrow> (s, [], sensors_answer e 1)
      | Some (keys, r) \<Rightarrow>
          if 3 \<in> keys \<and> sr_alias_len r > 16 then (s, [], sensors_answer e (-1))
          else if 4 \<in> keys \<and> sr_key_len r > 32 then (s, [], sensors_answer e (-2))
          else let c = (if 0 \<in> keys
                        then W_sensors_add (sr_id r) (if 3 \<in> keys then Some (sr_alias r) else None) (if 4 \<in> keys then Some (sr_key r) else None)
                        else if 1 \<in> keys then W_sensors_remove (sr_id r) else W_sensors_rename (sr_id r) (sr_alias r))
               in (s, [c], sensors_answer e (we_ask e c)))"

section \<open>State, WiFi and routing\<close>

definition api_state :: "web_env \<Rightarrow> http_req \<Rightarrow> web_state \<Rightarrow> web_out" where
  "api_state e rq s =
     (let seen = contains ''seen=1'' (rq_query rq); diag = contains ''diag=1'' (rq_query rq); r = finish_json (we_doc e (D_state diag)) in
      (snd (cali_exp_sensors e (snd (ux_on e s))), [W_exp_activity, if seen then W_input else W_viewer],
       H_answer (if \<not> diag \<and> rs_status r = 200 then r\<lparr>rs_etag := Some (state_etag (case rs_body r of Some b \<Rightarrow> b | None \<Rightarrow> []))\<rparr> else r)))"

definition api_wifi_get :: "web_env \<Rightarrow> web_state \<Rightarrow> web_out" where
  "api_wifi_get e s =
     (s, if web_mode e = CALI_WIFI_MODE_SETUP \<or> ws_st (we_wifi e) = WIFI_ONLINE then [W_scan_auto] else [],
      H_answer (finish_json (we_doc e D_wifi)))"

definition api_wifi_post :: "web_env \<Rightarrow> http_req \<Rightarrow> web_state \<Rightarrow> web_out" where
  "api_wifi_post e rq s =
     (case parse_creds (rq_body rq) of None \<Rightarrow> (s, [], ERR 400 ''json'')
      | Some k \<Rightarrow>
          if cr_ssid_len k < 1 \<or> cr_ssid_len k > NET_SSID_MAX then (s, [], ERR 400 ''ssid'')
          else if cr_psk_len k < NET_PSK_MIN \<or> cr_psk_len k > NET_PSK_MAX then (s, [], ERR 400 ''psk'')
          else
            let c1 = W_kv_set CALI_WIFI_KEY_SSID (cr_ssid k); c2 = W_kv_set CALI_WIFI_KEY_PSK (cr_psk k) in
            if we_ask e c1 \<noteq> 0 then (s, [c1], ERR 500 ''store'')
            else if we_ask e c2 \<noteq> 0 then (s, [c1, c2], ERR 500 ''store'')
            else (s, [c1, c2] @ (if web_mode e = CALI_WIFI_MODE_SETUP then [W_setup_pending_set True] else []) @
                     [W_set_creds (cr_ssid k) (cr_psk k)], OK))"

definition redirect :: "string \<Rightarrow> verdict" where
  "redirect loc = H_answer (resp0\<lparr>rs_status := 302, rs_location := Some loc\<rparr>)"

definition starts_image :: "string \<Rightarrow> bool" where "starts_image t \<longleftrightarrow> starts ''image/'' t"

definition web_page :: "web_env \<Rightarrow> web_out \<Rightarrow> http_req \<Rightarrow> web_state \<Rightarrow> web_out" where
  "web_page e other rq s =
     (case find (\<lambda>(path, type, body). path = rq_path rq) (we_pwa e) of
        Some (path, type, body) \<Rightarrow>
          if rq_method rq = GET
          then (s, [], H_answer (set_static type body (if starts_image type then ''max-age=86400'' else NO_CACHE))) else other
      | None \<Rightarrow> other)"

definition cali_web_handle :: "web_env \<Rightarrow> http_req \<Rightarrow> web_state \<Rightarrow> web_out" where
  "cali_web_handle e rq s =
     (let get = (rq_method rq = GET); path = rq_path rq in
      if path = ''/api/command'' then api_command e rq s
      else if path = ''/api/log'' then api_log e rq s
      else if get \<and> (path = ''/'' \<or> path = ''/app'')
      then (s, [W_exp_activity, W_input], H_answer ((set_static HTML_TYPE (we_app e) NO_CACHE)\<lparr>rs_encoding := Some ''gzip''\<rparr>))
      else web_page e
       (if path = ''/api/pairing'' then api_pairing e rq s
        else if path = ''/api/ota'' then api_ota e rq s
        else if path = ''/api/auto_camper'' then api_auto_camper e rq s
        else if path = ''/api/thermostat'' then api_thermostat e rq s
        else if path = ''/api/pi_wake'' then api_pi_wake e rq s
        else if path = ''/api/pi_halt'' then api_pi_halt e rq s
        else if path = ''/api/ble'' then api_ble e rq s
        else if path = ''/api/pi_wake_setting'' then api_pi_wake_setting e rq s
        else if path = ''/api/display'' then api_display e rq s
        else if path = ''/api/ux'' then api_ux e rq s
        else if path = ''/api/ux_setting'' then api_ux_setting e rq s
        else if path = ''/api/experimental'' then api_experimental e rq s
        else if path = ''/api/sensors'' then api_sensors e rq s
        else if get \<and> path = ''/device'' then (s, [], H_answer (set_static HTML_TYPE (we_device e) NO_CACHE))
        else if path = ''/api/state'' then if get then api_state e rq s else (s, [], ERR 405 ''method'')
        else if path = ''/api/setup'' then if rq_method rq = POST then api_setup_post e rq s else (s, [], ERR 405 ''method'')
        else if path = ''/api/wifi''
        then if get then api_wifi_get e s
             else if rq_method rq = POST then api_wifi_post e rq s
             else if rq_method rq = ''DELETE'' then (s, [W_forget], OK)
             else (s, [], ERR 405 ''method'')
        else if web_mode e = CALI_WIFI_MODE_SETUP then (s, [], redirect (if cali_captive_is_probe path then PROBE_TARGET else ''/''))
        else (s, [], H_unhandled)) rq s)"

section \<open>What a request can do\<close>

text \<open>The calls that control the van, the satellite's settings or its software.\<close>

fun control_call :: "web_call \<Rightarrow> bool" where
  "control_call (W_kv_set k v) \<longleftrightarrow> k \<noteq> CALI_WIFI_KEY_SSID \<and> k \<noteq> CALI_WIFI_KEY_PSK"
| "control_call W_runner_start \<longleftrightarrow> False"
| "control_call (W_runner_passkey n) \<longleftrightarrow> False"
| "control_call W_runner_cancel \<longleftrightarrow> False"
| "control_call W_runner_forget \<longleftrightarrow> False"
| "control_call (W_page_request a b) \<longleftrightarrow> False"
| "control_call W_sensors_kick \<longleftrightarrow> False"
| "control_call (W_sensors_add a b c) \<longleftrightarrow> False"
| "control_call (W_sensors_remove a) \<longleftrightarrow> False"
| "control_call (W_sensors_rename a b) \<longleftrightarrow> False"
| "control_call (W_setup_pending_set b) \<longleftrightarrow> False"
| "control_call (W_set_creds a b) \<longleftrightarrow> False"
| "control_call W_forget \<longleftrightarrow> False"
| "control_call W_scan_auto \<longleftrightarrow> False"
| "control_call W_input \<longleftrightarrow> False"
| "control_call W_viewer \<longleftrightarrow> False"
| "control_call W_exp_activity \<longleftrightarrow> False"
| "control_call _ \<longleftrightarrow> True"

end
