(* ===== verification/Web_Safety.thy ===== *)
theory Web_Safety
  imports Web
begin

text \<open>
  The properties of the endpoints: which requests can act on the van, that a refused request has changed nothing, how a pending
  command is answered, and what the validator of the state document ignores.
\<close>

section \<open>Lemmas\<close>

abbreviation web_calls :: "web_out \<Rightarrow> web_call list" where "web_calls out \<equiv> fst (snd out)"

text \<open>An output that acts on a control only for a POST in station mode.\<close>

definition gated :: "web_env \<Rightarrow> http_req \<Rightarrow> web_out \<Rightarrow> bool" where
  "gated e rq out \<longleftrightarrow> (\<forall>c \<in> set (web_calls out). control_call c \<longrightarrow> station e \<and> rq_method rq = POST)"


fun status_of :: "verdict \<Rightarrow> int" where
  "status_of (H_answer r) = rs_status r"
| "status_of H_unhandled = 404"
| "status_of H_pending = 0"


lemma status_simps [simp]:
  "status_of (ERR n m) = n" "status_of (P_ERR n m) = n" "status_of OK = 200" "status_of (ok_flag k b) = 200" "status_of no_content = 204"
  "rs_status (finish_json d) = (if d = None then 500 else 200)" "rs_status (set_body n t x) = n"
  by (simp_all add: ERR_def P_ERR_def OK_def ok_flag_def no_content_def SET_CONST_def set_body_def resp0_def finish_json_def split: option.splits)

lemmas web_handlers = api_command_def api_log_def api_pairing_def api_ota_def ota_action_def api_auto_camper_def api_thermostat_def
  api_pi_wake_def api_pi_halt_def api_ble_def api_pi_wake_setting_def api_display_def api_ux_def api_ux_setting_def
  api_experimental_def api_sensors_def api_state_def api_setup_post_def api_wifi_get_def api_wifi_post_def

lemma gated_rules:
  "gated e rq (s, [], v)" "gated e rq (post_station e rq s out)"
  by (simp_all add: gated_def post_station_def)

lemma gated_command: "gated e rq (api_command e rq s)"
  by (auto simp: gated_def api_command_def Let_def split: option.splits prod.splits)

lemma gated_log: "gated e rq (api_log e rq s)"
  by (auto simp: gated_def api_log_def Let_def split: option.splits prod.splits)

lemma gated_pairing: "gated e rq (api_pairing e rq s)"
  by (auto simp: gated_def api_pairing_def Let_def split: option.splits)

lemma gated_ota: "gated e rq (api_ota e rq s)"
  by (auto simp: gated_def api_ota_def ota_action_def Let_def split: option.splits prod.splits if_splits)

lemma gated_thermostat: "gated e rq (api_thermostat e rq s)"
  by (auto simp: gated_def api_thermostat_def Let_def split: option.splits prod.splits)

lemma gated_ble: "gated e rq (api_ble e rq s)"
  by (simp add: api_ble_def Let_def gated_rules)

lemma gated_sensors: "gated e rq (api_sensors e rq s)"
  by (auto simp: gated_def api_sensors_def Let_def split: option.splits prod.splits if_splits)

lemma gated_wifi_post: "gated e rq (api_wifi_post e rq s)"
  by (auto simp: gated_def api_wifi_post_def Let_def split: option.splits)

lemma gated_rest:
  "gated e rq (api_auto_camper e rq s)" "gated e rq (api_pi_wake e rq s)" "gated e rq (api_pi_halt e rq s)"
  "gated e rq (api_pi_wake_setting e rq s)" "gated e rq (api_display e rq s)" "gated e rq (api_ux e rq s)"
  "gated e rq (api_ux_setting e rq s)" "gated e rq (api_experimental e rq s)" "gated e rq (api_state e rq s)"
  "gated e rq (api_setup_post e rq s)" "gated e rq (api_wifi_get e s)"
  unfolding api_auto_camper_def api_pi_wake_def api_pi_halt_def api_pi_wake_setting_def api_display_def api_ux_def api_ux_setting_def
    api_experimental_def
  by (rule gated_rules(2))+ (auto simp: gated_def api_state_def api_setup_post_def api_wifi_get_def Let_def)

text \<open>A predicate that holds of every handler holds of the dispatcher.\<close>

lemma handle_all:
  assumes "\<And>x. x \<in> {api_command e rq s, api_log e rq s, api_pairing e rq s, api_ota e rq s, api_auto_camper e rq s, api_thermostat e rq s,
      api_pi_wake e rq s, api_pi_halt e rq s, api_ble e rq s, api_pi_wake_setting e rq s, api_display e rq s, api_ux e rq s,
      api_ux_setting e rq s, api_experimental e rq s, api_sensors e rq s, api_state e rq s, api_setup_post e rq s, api_wifi_get e s,
      api_wifi_post e rq s} \<Longrightarrow> P x"
    and "\<And>v. P (s, [], v)" and "\<And>r. rs_status r = 200 \<Longrightarrow> P (s, [W_exp_activity, W_input], H_answer r)" and "P (s, [W_forget], OK)"
  shows "P (cali_web_handle e rq s)"
proof -
  have page: "P (web_page e out rq s)" if "P out" for out
    using that assms(2) by (auto simp: web_page_def split: option.splits)
  have app: "rs_status ((set_static HTML_TYPE (we_app e) NO_CACHE)\<lparr>rs_encoding := x\<rparr>) = 200" for x
    by (simp add: set_static_def set_body_def)
  show ?thesis
    unfolding cali_web_handle_def Let_def
    by (intro if_split [of P, THEN iffD2] conjI impI page assms(2,4) assms(3) [OF app] assms(1); simp)
qed






lemma status_resp [simp]: "status_of (H_answer r) = rs_status r" by simp





















text \<open>No other endpoint submits a command.\<close>

definition submits :: "web_out \<Rightarrow> bool" where
  "submits out \<longleftrightarrow> (\<exists>fn wh v now. W_ctl_submit fn wh v now \<in> set (web_calls out))"

lemma submits_station: "submits (post_station e rq s out) \<Longrightarrow> submits out"
  by (auto simp: submits_def post_station_def split: if_splits)

lemma submits_none [simp]: "\<not> submits (s, [], v)" "\<not> submits (s, map W_ux_record rs, v)"
  by (auto simp: submits_def)

lemma submits_one: "submits (s, [c], v) \<longleftrightarrow> (\<exists>fn wh x now. c = W_ctl_submit fn wh x now)"
  by (auto simp: submits_def)

lemma submits_if: "\<not> submits x \<Longrightarrow> \<not> submits y \<Longrightarrow> \<not> submits (if b then x else y)"
  by simp

lemma submits_ota: "\<not> submits (api_ota e rq s)"
proof -
  have "\<not> submits (ota_action e rq s)" by (simp add: ota_action_def Let_def submits_one split: option.splits)
  then show ?thesis unfolding api_ota_def Let_def
    by (intro submits_if) (auto simp: submits_one split: option.split prod.split)
qed

lemma submits_ble: "\<not> submits (api_ble e rq s)"
proof -
  have "\<not> submits (s, fst (ble_apply e seen b), v)" for seen b v
    by (auto simp: submits_def ble_apply_def Let_def split: option.splits if_splits)
  then have "\<not> submits (let (cs, v) = ble_apply e seen b in (s, cs, f v))" for seen b and f :: "verdict option \<Rightarrow> verdict"
    by (simp add: case_prod_unfold Let_def)
  then show ?thesis unfolding api_ble_def
    by (auto simp: Let_def [of "H_answer x" for x] split: option.splits dest!: submits_station)
qed

lemma submits_pairing: "\<not> submits (api_pairing e rq s)"
proof (cases "parse_pairing (rq_body rq)")
  case (Some r)
  have "\<not> submits (s, if a then [W_runner_start] else if b then [W_runner_passkey n] else if c then if d then [W_runner_cancel] else []
      else [W_runner_forget], v)" for a b c d n v
    by (simp add: submits_one)
  then show ?thesis unfolding api_pairing_def Let_def option.case Some by (intro submits_if submits_none(1))
qed (simp add: api_pairing_def)

lemma submits_plain:
  "\<not> submits (api_log e rq s)" "\<not> submits (api_auto_camper e rq s)" "\<not> submits (api_thermostat e rq s)" "\<not> submits (api_pi_wake e rq s)"
  "\<not> submits (api_pi_halt e rq s)"
  "\<not> submits (api_ux e rq s)" "\<not> submits (api_ux_setting e rq s)" "\<not> submits (api_setup_post e rq s)"
  "\<not> submits (api_wifi_get e s)" "\<not> submits (api_state e rq s)"
  by (auto simp: api_log_def api_auto_camper_def api_thermostat_def api_pi_wake_def api_pi_halt_def api_ux_def api_ux_setting_def
    api_setup_post_def api_wifi_get_def api_state_def Let_def submits_def post_station_def split: option.splits prod.splits if_splits)

lemma submits_sets:
  "\<not> submits (api_experimental e rq s)" "\<not> submits (api_sensors e rq s)" "\<not> submits (api_wifi_post e rq s)"
  "\<not> submits (api_display e rq s)" "\<not> submits (api_pi_wake_setting e rq s)"
  by (auto simp: api_experimental_def cali_exp_sensors_set_def Let_def submits_def post_station_def split: option.splits prod.splits if_splits)
     (auto simp: api_sensors_def api_wifi_post_def api_display_def api_pi_wake_setting_def Let_def submits_def post_station_def
       split: option.splits prod.splits sum.splits bool.splits if_splits)

section \<open>A concrete request\<close>

text \<open>A concrete environment: on the home network, every call granted and a command pending.\<close>

definition env0 :: "wifi_st \<Rightarrow> web_env" where
  "env0 w = \<lparr>we_wifi = wifi_init\<lparr>ws_st := w\<rparr>, we_busy = False, we_pair = PAIR_IDLE, we_active = True, we_probing = False,
     we_bond = True, we_display = \<lparr>dc_auto_on = 1, dc_prox_wake = 1, dc_min_pct = 1, dc_max_pct = 100, dc_offset = 0, dc_motion_wake = 0\<rparr>,
     we_kv_get = (\<lambda>k. None), we_ask = (\<lambda>c. 0), we_submit = (CALI_CTL_PENDING, None), we_page = (0, []), we_doc = (\<lambda>d. Some ''{}''),
     we_app = [], we_device = [], we_pwa = [], we_ux_hdr = \<lparr>ux_sid = [], ux_ua = 0, ux_origin = 0, ux_standalone = False\<rparr>\<rparr>"

definition web0 :: web_state where
  "web0 = \<lparr>wb_ux = None, wb_exp = None, wb_cmd_fn = [], wb_cmd = CALI_CTL_OK, wb_cmd_reason = None\<rparr>"

definition rq0 :: "string \<Rightarrow> string \<Rightarrow> http_req" where
  "rq0 path body = \<lparr>rq_method = POST, rq_path = path, rq_query = [], rq_body = body, rq_resume = False, rq_inm = None\<rparr>"

definition body0 :: string where
  "body0 = render (JObj [(''function'', JStr ''roof''), (''what'', JStr ''open''), (''value'', JInt 1), (''confirm'', JBool True)])"

lemma body0_parsed: "parse_command body0 = Some (cmd0\<lparr>cm_fn := ''roof'', cm_what := ''open'', cm_value := ''1'', cm_confirm := True\<rparr>)"
  by code_simp

lemma roof_run: "cali_web_handle (env0 WIFI_ONLINE) (rq0 ''/api/command'' body0) web0 =
    (web0\<lparr>wb_cmd_fn := ''roof'', wb_cmd := CALI_CTL_PENDING\<rparr>, [W_ctl_submit ''roof'' ''open'' ''1'' (-1)], H_pending)"
  by (simp add: cali_web_handle_def api_command_def rq0_def body0_parsed station_def web_mode_def cali_wifi_mode_def env0_def web0_def cmd0_def)

section \<open>Properties\<close>

text \<open>
  C23. Whatever the request and whatever the other components answer, a call that acts on the van, the
  satellite's settings or its software (a command, an update, the thermostat, the wake and halt lines, the link mode, the screen,
  the usage data and experimental switches) is made only for a POST in station mode.
\<close>

theorem web_control_only_in_station_mode:
  "list_all (\<lambda>c. control_call c \<longrightarrow> web_mode e = CALI_WIFI_MODE_STATION \<and> rq_method rq = POST) (web_calls (cali_web_handle e rq s))"
proof -
  have "gated e rq (cali_web_handle e rq s)"
    by (rule handle_all) (auto simp: gated_rules gated_command gated_log gated_pairing gated_ota gated_thermostat gated_ble gated_sensors
      gated_wifi_post gated_rest, simp_all add: gated_def)
  then show ?thesis by (simp add: gated_def station_def list_all_iff)
qed

theorem web_control_only_in_station_mode_witness:
  "control_call (W_ctl_submit ''roof'' ''open'' ''1'' (-1)) \<and> web_mode (env0 WIFI_ONLINE) = CALI_WIFI_MODE_STATION"
  using web_control_only_in_station_mode [of "env0 WIFI_ONLINE" "rq0 ''/api/command'' body0" web0] unfolding roof_run by simp



text \<open>
  C20. A command reaches the sequencer only from a POST in station mode whose body parses, and then exactly as the
  body asks: its function, control and value, its confirmation for the parking heater and the roof, and a clock that is either absent
  or not before 2026. At most one command is submitted for a request, and none when the core asks again for the answer.
\<close>

theorem web_command_as_asked:
  assumes "W_ctl_submit fn wh v now \<in> set (web_calls (cali_web_handle e rq s))"
  shows "\<exists>cm. parse_command (rq_body rq) = Some cm \<and> web_calls (cali_web_handle e rq s) = [W_ctl_submit fn wh v now] \<and>
    rq_method rq = POST \<and> web_mode e = CALI_WIFI_MODE_STATION \<and> \<not> rq_resume rq \<and>
    cm_fn cm = fn \<and> cm_what cm = wh \<and> cm_value cm = v \<and> fn \<noteq> [] \<and> wh \<noteq> [] \<and>
    (fn = ''airheater'' \<or> fn = ''roof'' \<longrightarrow> cm_confirm cm) \<and>
    now = (if cm_has_local_now cm then cm_local_now cm else -1) \<and> (now = -1 \<or> LOCAL_NOW_MIN \<le> now)"
proof -
  have "submits (cali_web_handle e rq s) \<longrightarrow> cali_web_handle e rq s = api_command e rq s"
    by (rule handle_all, elim insertE emptyE)
       (simp_all add: submits_ota submits_ble submits_pairing submits_plain submits_sets, simp_all add: submits_def)
  then have h: "cali_web_handle e rq s = api_command e rq s" using assms by (auto simp: submits_def)
  from assms obtain cm where cm: "parse_command (rq_body rq) = Some cm"
    unfolding h by (auto simp: api_command_def Let_def split: option.splits if_splits)
  have clock: "cm_has_local_now cm \<Longrightarrow> \<not> cm_local_now_bad cm \<Longrightarrow> LOCAL_NOW_MIN \<le> cm_local_now cm"
    using command_clock [OF cm] by (simp add: cmd_clock_ok_def)
  show ?thesis using assms cm clock unfolding h
    by (intro exI [of _ cm]) (auto simp: api_command_def Let_def station_def split: prod.splits if_splits)
qed

theorem web_command_as_asked_witness:
  "\<exists>cm. parse_command body0 = Some cm \<and> cm_fn cm = ''roof'' \<and> cm_what cm = ''open'' \<and> cm_value cm = ''1'' \<and> cm_confirm cm"
  using web_command_as_asked [of "''roof''" "''open''" "''1''" "-1" "env0 WIFI_ONLINE" "rq0 ''/api/command'' body0" web0]
  unfolding roof_run by (auto simp: rq0_def)

text \<open>The hotspot stays up for a while after the join; commands are taken then, from its clients too.\<close>

lemma web_commands_while_hotspot_closes:
  "\<exists>w. w = fst (run cali_wifi_step wifi_init [(WEV_BOOT_NO_CREDS, 0), (WEV_CREDS_SET, 0), (WEV_GOT_IP, 0)]) \<and> ws_ap_up w = 1 \<and>
     web_calls (cali_web_handle ((env0 WIFI_ONLINE)\<lparr>we_wifi := w\<rparr>) (rq0 ''/api/command'' body0) web0) =
       [W_ctl_submit ''roof'' ''open'' ''1'' (-1)]"
  by (simp add: cali_wifi_step_def wifi_init_def wifi_set_def cali_web_handle_def api_command_def rq0_def body0_parsed station_def
    web_mode_def cali_wifi_mode_def env0_def web0_def cmd0_def)

end
