(* ===== verification/Web_Etag.thy ===== *)
theory Web_Etag
  imports Web
begin

text \<open>
  The validator of \<open>GET /api/state\<close>: the tag is the hash of the document with the values of the ticking members left out, so it stays
  the same while only they change.
\<close>

section \<open>The reference text\<close>




section \<open>Steps of the hash\<close>












section \<open>Documents\<close>












section \<open>Properties\<close>



end
