(* ===== verification/Ota_Safety.thy ===== *)
theory Ota_Safety
  imports Ota Web_Parse
begin

text \<open>
  What the update promises: the boot partition is switched only for an image whose digest is the manifest's, one request runs at
  a time, and every request settles.
\<close>

section \<open>One request at a time\<close>

definition ota_inv :: "ota \<times> ota_pc \<Rightarrow> bool" where
  "ota_inv m \<longleftrightarrow> (let (s, p) = m; st = ot_state s in
     ot_ops s \<and> ot_pct s \<le> 100 \<and> (ot_sha s = [] \<or> length (ot_sha s) = 40 \<and> list_all is_lhex (ot_sha s)) \<and>
     (st = CALI_OTA_AVAILABLE \<longrightarrow> ot_sha s \<noteq> []) \<and>
     (case p of P_idle \<Rightarrow> ot_pending s \<le> 2 \<and> (ot_pending s \<noteq> 0) = (st = CALI_OTA_CHECKING) \<and> st \<notin> {CALI_OTA_DOWNLOADING, CALI_OTA_VERIFYING}
      | P_get chan req \<Rightarrow> st = CALI_OTA_CHECKING \<and> ot_pending s = 0 \<and> req \<in> {1, 2}
      | P_download want sz sha \<Rightarrow> st = CALI_OTA_DOWNLOADING \<and> ot_pending s = 0 \<and> ot_sha s = sha
      | P_sha256 want sz sha \<Rightarrow> st = CALI_OTA_VERIFYING \<and> ot_pending s = 0 \<and> ot_sha s = sha
      | P_commit sha \<Rightarrow> st = CALI_OTA_VERIFYING \<and> ot_pending s = 0 \<and> ot_sha s = sha))"

lemma parse_manifest_sound:
  "parse_manifest body = Some (sha, want, sz) \<Longrightarrow>
     length sha = 40 \<and> list_all is_lhex sha \<and> length want = 64 \<and> list_all is_lhex want \<and> sz \<le> CALI_OTA_SLOT_SIZE"
  by (auto simp: parse_manifest_def hex_str_def Let_def split: option.splits if_splits)

lemma progress_bound: "ot_pct (cali_ota_progress dn tot s) \<le> 100"
proof -
  have "dn * 100 div tot \<le> 100" if "dn < tot"
    using that by (metis div_le_mono less_imp_le mult_le_mono1 nonzero_mult_div_cancel_left not_less0)
  then show ?thesis by (simp add: cali_ota_progress_def)
qed

lemma ota_inv_init: "ota_inv (ota_init kv_get)"
  by (simp add: ota_inv_def ota_init_def cali_ota_init_def ota_boot_def)

lemma got_inv:
  assumes "ota_inv (s, P_get chan req)"
  shows "ota_inv (fst (work_got fw chan req body s))"
proof (cases "case body of None \<Rightarrow> None | Some b \<Rightarrow> parse_manifest (c_str b)")
  case None
  then show ?thesis using assms by (simp add: work_got_def ota_inv_def ota_fail_def Let_def)
next
  case (Some r)
  then obtain sha want sz where r: "r = (sha, want, sz)" "length sha = 40" "list_all is_lhex sha"
    using parse_manifest_sound by (cases r) (auto split: option.splits)
  then have "sha \<noteq> []" by auto
  then show ?thesis using assms Some r by (auto simp: work_got_def ota_inv_def Let_def)
qed

lemma ota_inv_step: "ota_inv m \<Longrightarrow> ota_inv (fst (ota_step fw m e))"
proof (induction fw m e rule: ota_step.induct)
  case (1 fw s p install)
  then show ?case by (auto simp: ota_inv_def cali_ota_request_def ota_settled_def Let_def split: ota_pc.splits)
next
  case (2 fw s p stored latest)
  then show ?case by (auto simp: ota_inv_def cali_ota_set_channel_def Let_def split: ota_pc.splits)
next
  case (3 fw s now)
  then show ?case by (auto simp: ota_inv_def work_start_def Let_def)
next
  case (4 fw s want sz sha dn tot)
  then show ?case using progress_bound [of dn tot s] by (auto simp: ota_inv_def Let_def cali_ota_progress_def)
next
  case (5 fw s chan req body)
  then show ?case by (simp add: got_inv)
qed (auto simp: ota_inv_def work_downloaded_def work_hashed_def work_committed_def ota_fail_def Let_def)

interpretation ota_m: machine "ota_step fw" "ota_init kv_get" ota_inv
  by unfold_locales (rule ota_inv_init, rule ota_inv_step)

section \<open>What the task has seen\<close>

text \<open>\<open>run_ota fw kv es\<close> is where the two tasks are after the events \<open>es\<close> of a boot.\<close>

abbreviation run_ota :: "string \<Rightarrow> (string \<Rightarrow> string option) \<Rightarrow> ota_ev list \<Rightarrow> ota \<times> ota_pc" where
  "run_ota fw kv es \<equiv> fst (run (ota_step fw) (ota_init kv) es)"








text \<open>Only its own answer moves the task on.\<close>

definition digest_text :: "u8 list option \<Rightarrow> string" where
  "digest_text got = (case got of Some d \<Rightarrow> take 64 (hex_of d) | None \<Rightarrow> [])"

lemma start_pc:
  "work_start now s = ((s1, p1), os) \<Longrightarrow> p1 = P_idle \<and> os = [] \<or> (\<exists>chan req u. p1 = P_get chan req \<and> os = [O_get u])"
  by (auto simp: work_start_def Let_def split: if_splits)

lemma got_pc:
  "work_got fw chan req body s = ((s1, p1), os) \<Longrightarrow> p1 = P_idle \<and> os = [] \<or>
     (\<exists>b sha want sz. body = Some b \<and> parse_manifest (c_str b) = Some (sha, want, sz) \<and> \<not> is_running fw sha \<and> req = 2 \<and>
        p1 = P_download want sz sha \<and> os = [O_download (bin_url chan) sz])"
  by (auto simp: work_got_def Let_def split: option.splits if_splits)

lemma downloaded_pc:
  "work_downloaded want sz sha ok s = ((s1, p1), os) \<Longrightarrow>
     p1 = P_idle \<and> os = [O_abort] \<or> ok \<and> p1 = P_sha256 want sz sha \<and> os = [O_slot_sha256 sz]"
  by (auto simp: work_downloaded_def split: if_splits)

lemma hashed_pc:
  "work_hashed want sha got s = ((s1, p1), os) \<Longrightarrow>
     p1 = P_idle \<and> os = [O_abort] \<or> digest_text got = want \<and> p1 = P_commit sha \<and> os = [O_commit]"
  by (auto simp: work_hashed_def digest_text_def Let_def split: if_splits)

lemma committed_pc:
  "work_committed ok s = ((s1, p1), os) \<Longrightarrow> p1 = P_idle \<and> (os = [] \<or> ok \<and> os = [O_restart])"
  by (auto simp: work_committed_def split: if_splits)












section \<open>The whole work\<close>

text \<open>The answers to one request, in the order of the questions.\<close>

definition answers :: "u64 \<Rightarrow> ota_io \<Rightarrow> ota_ev list" where
  "answers now io = [Ev_task now, Ev_got (oi_get io), Ev_downloaded (oi_download io), Ev_hashed (oi_sha256 io), Ev_committed (oi_commit io)]"

lemma run_idle: "run (ota_step fw) (s, P_idle) [] = ((s, P_idle), [])"
  by simp

lemmas work_cases = start_pc got_pc downloaded_pc hashed_pc committed_pc

text \<open>An answer that nobody waits for is dropped.\<close>

lemma idle_dropped [simp]:
  "ota_step fw (s, P_idle) (Ev_got b) = ((s, P_idle), [])" "ota_step fw (s, P_idle) (Ev_downloaded k) = ((s, P_idle), [])"
  "ota_step fw (s, P_idle) (Ev_hashed d) = ((s, P_idle), [])" "ota_step fw (s, P_idle) (Ev_committed k) = ((s, P_idle), [])"
  by simp_all

lemma work_settles:
  assumes "ot_ops s" and "ot_pending s \<in> {1, 2}"
  shows "(let (s1, os) = cali_ota_work fw now io s in
    (ot_state s1 = CALI_OTA_UP_TO_DATE \<and> O_commit \<notin> set os \<and> O_restart \<notin> set os) \<or>
    (ot_state s1 = CALI_OTA_AVAILABLE \<and> ot_pending s = 1 \<and> O_commit \<notin> set os \<and> O_restart \<notin> set os) \<or>
    (ot_state s1 = CALI_OTA_ERROR \<and> ot_error s1 \<in> Some ` {''manifest'', ''download'', ''checksum'', ''commit''} \<and> O_restart \<notin> set os \<and>
       (O_commit \<in> set os \<longrightarrow> \<not> oi_commit io \<and> ot_error s1 = Some ''commit'')) \<or>
    (ot_state s1 = CALI_OTA_REBOOTING \<and> ot_pending s = 2 \<and> oi_download io \<and> oi_commit io \<and> last os = O_restart))"
proof -
  have "(\<exists>c. ot_channel s = c) \<and> ot_pending s \<noteq> 0" using assms(2) by auto
  then have st: "work_start now s = ((s\<lparr>ot_pending := 0\<rparr>, P_get (ot_channel s) (ot_pending s)), [O_get (manifest_url (ot_channel s) now)])"
    using assms(1) by (simp add: work_start_def)
  show ?thesis
  proof (cases "case oi_get io of None \<Rightarrow> None | Some b \<Rightarrow> parse_manifest (c_str b)")
    case None
    then show ?thesis by (simp add: cali_ota_work_def st work_got_def ota_fail_def)
  next
    case (Some r)
    obtain sha want sz where r: "r = (sha, want, sz)" by (cases r)
    show ?thesis
    proof (cases "is_running fw sha \<or> ot_pending s = 1")
      case True
      then show ?thesis using Some r by (auto simp: cali_ota_work_def st work_got_def)
    next
      case False
      then have p: "\<not> is_running fw sha" "ot_pending s = 2" using assms(2) by auto
      show ?thesis using Some p
        by (cases "oi_download io"; cases "digest_text (oi_sha256 io) = want"; cases "oi_commit io")
           (simp_all add: r cali_ota_work_def st work_got_def work_downloaded_def work_hashed_def work_committed_def ota_fail_def
             digest_text_def Let_def)
    qed
  qed
qed

lemma steps_are_work:
  "run (ota_step fw) (s, P_idle) (answers now io) = ((fst (cali_ota_work fw now io s), P_idle), snd (cali_ota_work fw now io s))"
proof -
  obtain s1 p1 o1 where 1: "work_start now s = ((s1, p1), o1)" by (metis prod.collapse)
  show ?thesis
  proof (cases "p1 = P_idle")
    case False
    then obtain chan req where p1: "p1 = P_get chan req" using start_pc [OF 1] by blast
    obtain s2 p2 o2 where 2: "work_got fw chan req (oi_get io) s1 = ((s2, p2), o2)" by (metis prod.collapse)
    show ?thesis
    proof (cases "p2 = P_idle")
      case False
      then obtain want sz sha where p2: "p2 = P_download want sz sha" using got_pc [OF 2] by blast
      obtain s3 p3 o3 where 3: "work_downloaded want sz sha (oi_download io) s2 = ((s3, p3), o3)" by (metis prod.collapse)
      show ?thesis
      proof (cases "p3 = P_idle")
        case False
        then have p3: "p3 = P_sha256 want sz sha" using downloaded_pc [OF 3] by blast
        obtain s4 p4 o4 where 4: "work_hashed want sha (oi_sha256 io) s3 = ((s4, p4), o4)" by (metis prod.collapse)
        show ?thesis
        proof (cases "p4 = P_idle")
          case False
          then have p4: "p4 = P_commit sha" using hashed_pc [OF 4] by blast
          obtain s5 p5 o5 where 5: "work_committed (oi_commit io) s4 = ((s5, p5), o5)" by (metis prod.collapse)
          then show ?thesis using committed_pc [OF 5] by (simp add: answers_def cali_ota_work_def run.simps 1 2 3 4 p1 p2 p3 p4)
        qed (simp add: answers_def cali_ota_work_def run.simps 1 2 3 4 p1 p2 p3)
      qed (simp add: answers_def cali_ota_work_def run.simps 1 2 3 p1 p2)
    qed (simp add: answers_def cali_ota_work_def run.simps 1 2 p1)
  qed (simp add: answers_def cali_ota_work_def run.simps 1)
qed

section \<open>The manifest\<close>

lemma value_of_skip: "CHR 0x22 \<notin> set t \<Longrightarrow> value_of key (t @ r) = value_of key r"
  by (induction t) auto

lemma lhex_no_quote: "list_all is_lhex t \<Longrightarrow> CHR 0x22 \<notin> set t"
  by (induction t) (auto simp: is_lhex_def is_dec_def)

lemma value_of_other:
  assumes "CHR 0x22 \<notin> set k" and "\<not> starts key (k @ CHR 0x22 # r)" and "\<not> starts key r"
  shows "value_of key (CHR 0x22 # k @ CHR 0x22 # r) = value_of key r"
proof -
  have "value_of key (CHR 0x22 # k @ CHR 0x22 # r) = value_of key (k @ CHR 0x22 # r)" using assms(2) by simp
  also have "\<dots> = value_of key (CHR 0x22 # r)" using assms(1) by (rule value_of_skip)
  also have "\<dots> = value_of key r" using assms(3) by simp
  finally show ?thesis .
qed

lemma value_of_hit:
  assumes "white w" and "white w'" and "\<not> web_ws x"
  shows "value_of key (CHR 0x22 # key @ CHR 0x22 # w @ CHR '':'' # w' @ x # v) = Some (x # v)"
proof -
  have "skip_ws (w @ CHR '':'' # t) = CHR '':'' # t" "skip_ws (w' @ x # v) = x # v" for t
    using assms by (simp_all add: skip_ws_def web_ws_def dropWhile_append3 list_all_iff)
  then show ?thesis by (simp add: starts_def char_next_def)
qed

lemma white_no_quote: "white w \<Longrightarrow> CHR 0x22 \<notin> set w"
  by (induction w) (auto simp: web_ws_def)

lemma escape_hex: "list_all is_lhex t \<Longrightarrow> concat (map escape1 t) = t"
proof (induction t)
  case (Cons c t)
  then have "48 \<le> (of_char c :: nat)" "c \<noteq> CHR 0x22" "c \<noteq> CHR 0x5C" by (auto simp: is_lhex_def is_dec_def)
  then have "escape1 c = [c]" by (auto simp: escape1_def)
  then show ?case using Cons by simp
qed simp

lemma quoted_hex: "list_all is_lhex t \<Longrightarrow> quoted t = CHR 0x22 # t @ [CHR 0x22]"
  by (simp add: quoted_def escape_hex)

lemma value_of_white: "white w \<Longrightarrow> value_of key (w @ r) = value_of key r"
  by (rule value_of_skip) (rule white_no_quote)

lemma value_of_number: "value_of key (dec_nat n @ r) = value_of key r"
  using dec_nat_chars(1) [of n] by (intro value_of_skip) (auto simp: list_all_iff is_dec_def)

lemma value_of_punct: "x \<noteq> CHR 0x22 \<Longrightarrow> value_of key (x # r) = value_of key r"
  by simp

lemma white_no_start: "white w \<Longrightarrow> \<not> web_ws (hd key) \<Longrightarrow> x \<noteq> hd key \<Longrightarrow> key \<noteq> [] \<Longrightarrow> \<not> starts key (w @ x # r)"
  by (cases w; cases key) (auto simp: starts_def)

lemma hex_no_start: "list_all is_lhex t \<Longrightarrow> t \<noteq> [] \<Longrightarrow> \<not> is_lhex (hd key) \<Longrightarrow> key \<noteq> [] \<Longrightarrow> \<not> starts key (t @ r)"
  by (cases t; cases key) (auto simp: starts_def)

lemmas value_of_rules = value_of_white value_of_number value_of_punct value_of_other value_of_hit white_no_start hex_no_start lhex_no_quote

declare value_of.simps(2) [simp del]

text \<open>A manifest with the keys \<open>k1\<close>, \<open>k2\<close>, \<open>k3\<close>, none of which begins another one's quoted text.\<close>

lemma manifest_members:
  fixes v :: string
  assumes w: "white a" "white b" "white c" "white d" "white f" "white g" "white h" "white i" "white j" "white k"
    and t: "list_all is_lhex t" "t \<noteq> []" and x: "\<not> web_ws x" and dn: "dec_nat n = x # xs"
    and hd: "k1 \<noteq> []" "k2 \<noteq> []" "k3 \<noteq> []" "hd k1 = CHR ''s''" "hd k2 = CHR ''s''" "hd k3 = CHR ''s''"
    and q: "CHR 0x22 \<notin> set k1" "CHR 0x22 \<notin> set k2"
    and s: "\<And>r. \<not> starts k2 (k1 @ CHR 0x22 # r)" "\<And>r. \<not> starts k3 (k1 @ CHR 0x22 # r)" "\<And>r. \<not> starts k3 (k2 @ CHR 0x22 # r)"
  defines "want \<equiv> CHR 0x22 # v"
  defines "sz \<equiv> dec_nat n @ CHR '','' # i @ CHR 0x22 # k3 @ CHR 0x22 # j @ CHR '':'' # k @ want"
  defines "sha \<equiv> CHR 0x22 # t @ CHR 0x22 # d @ CHR '','' # f @ CHR 0x22 # k2 @ CHR 0x22 # g @ CHR '':'' # h @ sz"
  defines "body \<equiv> CHR ''{'' # a @ CHR 0x22 # k1 @ CHR 0x22 # b @ CHR '':'' # c @ sha"
  shows "value_of k1 body = Some sha" "value_of k2 body = Some sz" "value_of k3 body = Some want"
proof -
  have c: "\<not> web_ws (CHR ''s'')" "\<not> is_lhex (CHR ''s'')" by (simp_all add: web_ws_def is_lhex_def is_dec_def)
  note rules = value_of_white value_of_number value_of_punct value_of_other white_no_start hex_no_start lhex_no_quote
  show "value_of k1 body = Some sha"
    unfolding body_def sha_def by (simp add: rules w value_of_hit)
  show "value_of k2 body = Some sz"
    unfolding body_def sha_def sz_def dn by (simp add: rules w value_of_hit hd c q s t x)
  show "value_of k3 body = Some want"
    unfolding body_def sha_def sz_def want_def by (simp add: rules w value_of_hit hd c q s t)
qed

lemma dec_value_append: "dec_value v (xs @ ys) = dec_value (dec_value v xs) ys"
  by (induction v xs rule: dec_value.induct) simp_all

lemma dec_value_nat: "dec_value 0 (dec_nat n) = n"
proof (induction n rule: dec_nat.induct)
  case (1 n)
  have d: "digit_of (char_of (48 + k)) = k" if "k < 10" for k using that by (simp add: digit_of_def)
  show ?case
  proof (cases "n < 10")
    case True
    then show ?thesis by (subst dec_nat.simps) (simp add: d)
  next
    case False
    then show ?thesis using 1 by (subst dec_nat.simps) (simp add: d dec_value_append)
  qed
qed

lemma hex_str_text: "list_all is_lhex t \<Longrightarrow> length t = n \<Longrightarrow> hex_str (Some (CHR 0x22 # t @ CHR 0x22 # r)) n = Some t"
  by (auto simp: hex_str_def char_next_def)

lemma manifest_read:
  assumes "list_all is_lhex sha" and "length sha = 40" and "list_all is_lhex want" and "length want = 64" and "0 < n"
    and "white (concat [a, b, c, d, f, g, h, i, j, k])"
  shows "parse_manifest (''{'' @ a @ quoted ''sha'' @ b @ '':'' @ c @ quoted sha @ d @ '','' @ f @ quoted ''size'' @ g @ '':'' @ h @ dec_nat n
      @ '','' @ i @ quoted ''sha256'' @ j @ '':'' @ k @ quoted want @ rest) =
    (if n \<le> CALI_OTA_SLOT_SIZE then Some (sha, want, n) else None)"
proof -
  obtain x xs where x: "dec_nat n = x # xs" "is_dec x" "x = CHR ''0'' \<longrightarrow> xs = []" using dec_nat_parts by blast
  have nn: "sha \<noteq> []" "\<not> web_ws x" using assms(2) x(2) by (auto simp: web_ws_def is_dec_def)
  have keys: "\<not> starts ''size'' (''sha'' @ CHR 0x22 # r)" "\<not> starts ''sha256'' (''sha'' @ CHR 0x22 # r)"
    "\<not> starts ''sha256'' (''size'' @ CHR 0x22 # r)" for r by (simp_all add: starts_def)
  have w: "white a" "white b" "white c" "white d" "white f" "white g" "white h" "white i" "white j" "white k" using assms(6) by simp_all
  note m = manifest_members [where ?k1.0 = "''sha''" and ?k2.0 = "''size''" and ?k3.0 = "''sha256''" and v = "want @ CHR 0x22 # rest",
    OF w assms(1) nn x(1) _ _ _ _ _ _ _ _ keys, simplified]
  have k: "quoted ''sha'' = CHR 0x22 # ''sha'' @ [CHR 0x22]" "quoted ''size'' = CHR 0x22 # ''size'' @ [CHR 0x22]"
    "quoted ''sha256'' = CHR 0x22 # ''sha256'' @ [CHR 0x22]" by (simp_all add: quoted_def escape1_def)
  have d: "takeWhile is_dec (dec_nat n @ CHR '','' # r) = dec_nat n" "digit_next (dec_nat n @ CHR '','' # r)" for r
    using parse_value_nat(1,3) [of "CHR '',''"] by (simp_all add: is_dec_def)
  have z: "hd (dec_nat n @ r) \<noteq> CHR ''0''" for r
    using x(1,3) assms(5) dec_value_nat [of n] by (auto simp: digit_of_def)
  show ?thesis
    by (simp add: parse_manifest_def k quoted_hex assms(1,3) m hex_str_text assms(2,4) d z dec_value_nat Let_def)
qed

section \<open>Properties\<close>







text \<open>
  While a request runs every other one is turned away with -2 and changes nothing; as long as the state is a
  settled one the OTA task has nothing to do, so it never runs two requests; and what the page shows is sound: a percentage,
  and as the available build nothing or 40 hex digits.
\<close>

theorem ota_one_at_a_time:
  "(case run_ota fw kv es of (s, p) \<Rightarrow>
     (if ota_settled (ot_state s) then p = P_idle \<and> ot_pending s = 0 else cali_ota_request install s = (-2, s, [])) \<and>
     ot_pct s \<le> 100 \<and> (ot_sha s = [] \<or> length (ot_sha s) = 40 \<and> list_all is_lhex (ot_sha s)))"
proof (cases "run_ota fw kv es")
  case (Pair s p)
  then have "ota_inv (s, p)" using ota_m.inv_run [of fw kv es] by simp
  then show ?thesis unfolding Pair
    by (auto simp: ota_inv_def ota_settled_def cali_ota_request_def Let_def split: ota_pc.splits)
qed

text \<open>
  C30. A request that is taken always comes to an end, whatever the network, the flash and the boot switch answer:
  the task's steps are those of \<open>cali_ota_work\<close> run as one, and they end up to date, with a build to offer (for a check), in an
  error with its code (for a failed switch only that one), or in the restart of an installed image.
\<close>

theorem ota_request_settles:
  assumes "cali_ota_request install s0 = (0, s, os0)"
  shows "(let (s1, os) = cali_ota_work fw now io s in
    run (ota_step fw) (s, P_idle) (answers now io) = ((s1, P_idle), os) \<and>
    ((ot_state s1 = CALI_OTA_UP_TO_DATE \<and> O_commit \<notin> set os \<and> O_restart \<notin> set os) \<or>
     (ot_state s1 = CALI_OTA_AVAILABLE \<and> \<not> install \<and> O_commit \<notin> set os \<and> O_restart \<notin> set os) \<or>
     (ot_state s1 = CALI_OTA_ERROR \<and> ot_error s1 \<in> Some ` {''manifest'', ''download'', ''checksum'', ''commit''} \<and> O_restart \<notin> set os \<and>
        (O_commit \<in> set os \<longrightarrow> \<not> oi_commit io \<and> ot_error s1 = Some ''commit'')) \<or>
     (ot_state s1 = CALI_OTA_REBOOTING \<and> install \<and> oi_download io \<and> oi_commit io \<and> last os = O_restart)))"
proof -
  have s: "ot_ops s" "ot_pending s = (if install then 2 else 1)" using assms by (auto simp: cali_ota_request_def split: if_splits)
  have "ot_pending s \<in> {1, 2}" using s by simp
  from work_settles [OF s(1) this, of fw now io] show ?thesis
    using s(2) by (simp add: steps_are_work case_prod_unfold Let_def split: if_splits)
qed

theorem ota_request_settles_witness:
  "\<exists>s1 os. run (ota_step ''v1'') ((cali_ota_init True (\<lambda>k. None) ota_boot)\<lparr>ot_pending := 1, ot_state := CALI_OTA_CHECKING\<rparr>, P_idle)
     (answers 0 \<lparr>oi_get = None, oi_download = True, oi_sha256 = None, oi_commit = True\<rparr>) = ((s1, P_idle), os) \<and>
     O_restart \<notin> set os"
proof -
  let ?s = "cali_ota_init True (\<lambda>k. None) ota_boot"
  let ?io = "\<lparr>oi_get = None, oi_download = True, oi_sha256 = None, oi_commit = True\<rparr>"
  have r: "cali_ota_request False ?s = (0, ?s\<lparr>ot_pending := 1, ot_state := CALI_OTA_CHECKING\<rparr>, [O_wake])"
    by (simp add: cali_ota_request_def cali_ota_init_def ota_boot_def ota_settled_def)
  have e: "cali_ota_work ''v1'' 0 ?io (?s\<lparr>ot_pending := 1, ot_state := CALI_OTA_CHECKING\<rparr>) =
    (?s\<lparr>ot_pending := 0, ot_state := CALI_OTA_ERROR, ot_error := Some ''manifest''\<rparr>, [O_get (manifest_url False 0)])"
    by (simp add: cali_ota_work_def work_start_def work_got_def ota_fail_def cali_ota_init_def ota_boot_def)
  from ota_request_settles [OF r, of "''v1''" 0 ?io] show ?thesis unfolding e by simp
qed

text \<open>
  C32. The manifest the release build writes is read back exactly, with any white space between its tokens and
  anything behind its third member: the commit, the digest and the size, for every size that fits the slot; a larger one is
  refused.
\<close>

theorem ota_manifest_roundtrip:
  assumes "list_all is_lhex sha" and "length sha = 40" and "list_all is_lhex want" and "length want = 64" and "0 < n"
    and "white (concat [a, b, c, d, f, g, h, i, j, k])"
  shows "parse_manifest (''{'' @ a @ quoted ''sha'' @ b @ '':'' @ c @ quoted sha @ d @ '','' @ f @ quoted ''size'' @ g @ '':'' @ h @ dec_nat n
      @ '','' @ i @ quoted ''sha256'' @ j @ '':'' @ k @ quoted want @ rest) =
    (if n \<le> CALI_OTA_SLOT_SIZE then Some (sha, want, n) else None)"
  using assms by (rule manifest_read)

theorem ota_manifest_roundtrip_witness:
  "parse_manifest (''{'' @ [] @ quoted ''sha'' @ [] @ '':'' @ '' '' @ quoted (replicate 40 (CHR ''a'')) @ [] @ '','' @ [CHR 0x0A] @ quoted ''size'' @ [] @
      '':'' @ [] @ dec_nat 7 @ '','' @ [] @ quoted ''sha256'' @ [] @ '':'' @ [] @ quoted (replicate 64 (CHR ''0'')) @ ''}'') =
    Some (replicate 40 (CHR ''a''), replicate 64 (CHR ''0''), 7)"
  by (subst ota_manifest_roundtrip)
     (simp_all add: is_lhex_def is_dec_def web_ws_def CALI_OTA_SLOT_SIZE_def list_all_iff)

end
