(* ===== verification/Lora.thy ===== *)
theory Lora
  imports Web_Body Ap_Identity Control_Run
begin

text \<open>
  The LoRaWAN uplink: the parser of the module's lines, the airtime, the two 24-hour budgets in their rings, the packers, the
  tracker of changed functions and the console of \<open>lora.c\<close>; and of the task in \<open>lora_esp.c\<close> the send, the join attempt and the event
  handler that charge the budgets. The module's answers and the clock are inputs.
\<close>

section \<open>The module's lines\<close>

datatype rak_kind = CALI_RAK_NONE | CALI_RAK_OK | CALI_RAK_ERROR | CALI_RAK_BUSY | CALI_RAK_NOT_JOINED | CALI_RAK_JOINED
  | CALI_RAK_JOIN_FAILED | CALI_RAK_TX_DONE | CALI_RAK_LINKCHECK | CALI_RAK_RX | CALI_RAK_VALUE

record rak_event =
  re_kind :: rak_kind
  re_lc_status :: int
  re_lc_margin :: int
  re_lc_gateways :: int
  re_rssi :: int
  re_snr :: int
  re_text :: string
  re_port :: int
  re_payload :: "u8 list"

definition rak_event0 :: rak_event where
  "rak_event0 = \<lparr>re_kind = CALI_RAK_NONE, re_lc_status = 0, re_lc_margin = 0, re_lc_gateways = 0, re_rssi = 0, re_snr = 0, re_text = [],
     re_port = 0, re_payload = []\<rparr>"

definition c_space :: "char \<Rightarrow> bool" where
  "c_space c \<longleftrightarrow> c = CHR '' '' \<or> 9 \<le> (of_char c :: nat) \<and> (of_char c :: nat) \<le> 13"

text \<open>\<open>%d\<close> of \<open>sscanf\<close>.\<close>

definition scan_d :: "string \<Rightarrow> (int \<times> string) option" where
  "scan_d t0 =
     (let t = dropWhile c_space t0; neg = minus_next t; t1 = (if neg \<or> char_next (CHR ''+'') t then tl t else t);
          ds = takeWhile is_dec t1
      in if ds = [] then None else Some (if neg then - int (dec_value 0 ds) else int (dec_value 0 ds), dropWhile is_dec t1))"

text \<open>Up to \<open>n\<close> numbers with separators from \<open>psep\<close> between them: those that were read.\<close>

fun scan_ds :: "(char \<Rightarrow> bool) \<Rightarrow> bool \<Rightarrow> nat \<Rightarrow> string \<Rightarrow> int list" where
  "scan_ds psep many 0 t = []"
| "scan_ds psep many (Suc n) t =
     (case scan_d t of None \<Rightarrow> []
      | Some (v, u) \<Rightarrow>
          v # (case u of [] \<Rightarrow> []
               | c # r \<Rightarrow> if psep c then scan_ds psep many n (if many then dropWhile psep r else r) else []))"

definition at_or :: "int list \<Rightarrow> nat \<Rightarrow> int" where "at_or vs i = (if i < length vs then vs ! i else 0)"

fun after :: "string \<Rightarrow> string \<Rightarrow> string option" where
  "after w [] = (if w = [] then Some [] else None)"
| "after w (c # r) = (if starts w (c # r) then Some (drop (length w) (c # r)) else after w r)"

definition is_hex :: "char \<Rightarrow> bool" where
  "is_hex c \<longleftrightarrow> is_dec c \<or> 97 \<le> (of_char c :: nat) \<and> (of_char c :: nat) \<le> 102 \<or> 65 \<le> (of_char c :: nat) \<and> (of_char c :: nat) \<le> 70"

definition xdigit_val :: "char \<Rightarrow> nat" where
  "xdigit_val c = (if is_dec c then of_char c - 48 else if 97 \<le> (of_char c :: nat) then of_char c - 87 else of_char c - 55)"

text \<open>\<open>strtoul\<close> to base 16 of a text of at most two characters, as a byte, and what is left of the text.\<close>

definition strtoul16 :: "string \<Rightarrow> u8 \<times> string" where
  "strtoul16 t =
     (let t1 = dropWhile c_space t; neg = minus_next t1; t2 = (if neg \<or> char_next (CHR ''+'') t1 then tl t1 else t1);
          v = (foldl (\<lambda>v c. 16 * v + of_nat (xdigit_val c)) 0 (takeWhile is_hex t2) :: u8)
      in if takeWhile is_hex t2 = [] then (0, t) else (if neg then - v else v, dropWhile is_hex t2))"

fun hex_bytes :: "nat \<Rightarrow> string \<Rightarrow> u8 list" where
  "hex_bytes (Suc n) (a # b # r) = fst (strtoul16 [a, b]) # hex_bytes n r"
| "hex_bytes _ _ = []"

definition rak_rx :: "string \<Rightarrow> rak_event \<Rightarrow> rak_event" where
  "rak_rx line e =
     (case after ''CAST:'' line of None \<Rightarrow> e
      | Some t \<Rightarrow>
          case scan_d t of None \<Rightarrow> e
          | Some (port, u) \<Rightarrow>
              e\<lparr>re_port := port, re_payload := hex_bytes 64 (case after '':'' t of Some h \<Rightarrow> h | None \<Rightarrow> [])\<rparr>)"

definition lc_text :: string where "lc_text = ''+EVT:LINKCHECK:''"
definition rx_text :: string where "rx_text = ''+EVT:RX_''"

definition cali_rak_parse :: "string \<Rightarrow> rak_event" where
  "cali_rak_parse in_text =
     (let line = takeWhile (\<lambda>c. c \<noteq> CHR 0x0D \<and> c \<noteq> CHR 0x0A) (take 159 in_text);
          e = rak_event0;
          lc = (if starts lc_text line then scan_ds (\<lambda>c. c = CHR '','' \<or> c = CHR '':'') True 5 (drop (length lc_text) line) else []);
          e_lc = e\<lparr>re_lc_status := at_or lc 0, re_lc_margin := at_or lc 1, re_lc_gateways := at_or lc 2, re_rssi := at_or lc 3, re_snr := at_or lc 4\<rparr>;
          t = drop (length rx_text + 1) line;
          rx = (if starts rx_text line \<and> char_next (CHR '':'') t then scan_ds (\<lambda>c. c = CHR '':'') False 2 (tl t) else []);
          e_rx = e_lc\<lparr>re_rssi := if rx = [] then re_rssi e_lc else at_or rx 0, re_snr := if length rx < 2 then re_snr e_lc else at_or rx 1\<rparr>
      in if line = ''OK'' then e\<lparr>re_kind := CALI_RAK_OK\<rparr>
         else if line = ''AT_BUSY_ERROR'' then e\<lparr>re_kind := CALI_RAK_BUSY\<rparr>
         else if line = ''AT_NO_NETWORK_JOINED'' then e\<lparr>re_kind := CALI_RAK_NOT_JOINED\<rparr>
         else if starts ''AT_'' line \<and> contains ''ERROR'' line then e\<lparr>re_kind := CALI_RAK_ERROR\<rparr>
         else if line = ''+EVT:JOINED'' then e\<lparr>re_kind := CALI_RAK_JOINED\<rparr>
         else if starts ''+EVT:JOIN_FAILED'' line \<or> starts ''+EVT:JOIN FAILED'' line then e\<lparr>re_kind := CALI_RAK_JOIN_FAILED\<rparr>
         else if line = ''+EVT:TX_DONE'' then e\<lparr>re_kind := CALI_RAK_TX_DONE\<rparr>
         else if length lc = 5 then e_lc\<lparr>re_kind := CALI_RAK_LINKCHECK\<rparr>
         else if length rx = 2 then rak_rx line (e_rx\<lparr>re_kind := CALI_RAK_RX\<rparr>)
         else if starts ''AT+'' line \<and> CHR ''='' \<in> set line
         then e_rx\<lparr>re_kind := CALI_RAK_VALUE, re_text := take 63 (tl (dropWhile (\<lambda>c. c \<noteq> CHR ''='') line))\<rparr>
         else e_rx)"

text \<open>The line as it may be logged, and whether it was redacted.\<close>

definition cali_rak_redact :: "string \<Rightarrow> nat \<Rightarrow> string \<times> bool" where
  "cali_rak_redact line n =
     (let eq = CHR ''='' \<in> set line; name = (if eq then take 31 (takeWhile (\<lambda>c. c \<noteq> CHR ''='') line) else []) in
      if eq \<and> tl (dropWhile (\<lambda>c. c \<noteq> CHR ''='') line) \<noteq> ''?'' \<and> (contains ''KEY'' name \<or> contains ''EUI'' name)
      then (take (n - 1) (name @ ''=<redacted>''), True) else (take (n - 1) line, False))"

record lora_outcome =
  lo_charged :: bool
  lo_confirmed :: bool

definition cali_lora_outcome :: "rak_kind \<Rightarrow> bool \<Rightarrow> lora_outcome" where
  "cali_lora_outcome status tx_done =
     (let may = status \<notin> {CALI_RAK_BUSY, CALI_RAK_ERROR, CALI_RAK_NOT_JOINED}
      in \<lparr>lo_charged = may, lo_confirmed = (may \<and> tx_done)\<rparr>)"

section \<open>Airtime and budgets\<close>

definition CALI_LORA_OVERHEAD :: nat where "CALI_LORA_OVERHEAD = 13"
definition CALI_LORA_DAY_S :: nat where "CALI_LORA_DAY_S = 86400"
definition CALI_LORA_UPLINK_MS :: nat where "CALI_LORA_UPLINK_MS = 25000"
definition CALI_LORA_DOWNLINKS :: nat where "CALI_LORA_DOWNLINKS = 8"
definition CALI_LORA_ENERGY_SHARE :: nat where "CALI_LORA_ENERGY_SHARE = 60"
definition CALI_LORA_BASE_S :: nat where "CALI_LORA_BASE_S = 600"
definition CALI_LORA_UP_RING :: nat where "CALI_LORA_UP_RING = 320"
definition CALI_LORA_DL_RING :: nat where "CALI_LORA_DL_RING = 16"

lemmas lora_consts = CALI_LORA_OVERHEAD_def CALI_LORA_DAY_S_def CALI_LORA_UPLINK_MS_def CALI_LORA_DOWNLINKS_def
  CALI_LORA_ENERGY_SHARE_def CALI_LORA_BASE_S_def CALI_LORA_UP_RING_def CALI_LORA_DL_RING_def

text \<open>
  The airtime for the spreading factors 7 to 12. The code computes with doubles; the exact value \<open>(81 + 4 n) 2 ^ sf / 500\<close> is never
  an integer (the factor \<open>n\<close> is a multiple of 5), and the quotient under \<open>ceil\<close> has a denominator of at most 48, so the rounding of the
  doubles cannot change the two integer parts.
\<close>

definition cali_lora_airtime_ms :: "nat \<Rightarrow> nat \<Rightarrow> nat" where
  "cali_lora_airtime_ms phy_len sf =
     (let de = (if sf \<ge> 11 then 1 else 0); num = 8 * int phy_len - 4 * int sf + 28 + 16; den = 4 * (int sf - 2 * de);
          n = - ((- num) div den) * 5; n1 = (if n < 0 then 0 else n)
      in nat ((81 + 4 * n1) * 2 ^ sf div 500))"

definition cali_lora_max_payload :: "nat \<Rightarrow> nat" where
  "cali_lora_max_payload sf = (if sf \<ge> 10 then 51 else if sf = 9 then 115 else 222)"

record lora_up =
  up_t :: u32
  up_ms :: u32
  up_conf :: bool

record lora_budget =
  b_up :: "lora_up list"
  b_up_head :: nat
  b_up_n :: nat
  b_dl :: "u32 list"
  b_dl_head :: nat
  b_dl_n :: nat

definition cali_lora_budget_init :: lora_budget where
  "cali_lora_budget_init = \<lparr>b_up = replicate CALI_LORA_UP_RING \<lparr>up_t = 0, up_ms = 0, up_conf = False\<rparr>, b_up_head = 0, b_up_n = 0,
     b_dl = replicate CALI_LORA_DL_RING 0, b_dl_head = 0, b_dl_n = 0\<rparr>"

definition up_pop :: "lora_budget \<Rightarrow> lora_budget" where
  "up_pop b = b\<lparr>b_up_head := (b_up_head b + 1) mod CALI_LORA_UP_RING, b_up_n := b_up_n b - 1\<rparr>"

definition up_push :: "lora_budget \<Rightarrow> lora_up \<Rightarrow> lora_budget" where
  "up_push b x = b\<lparr>b_up := (b_up b)[(b_up_head b + b_up_n b) mod CALI_LORA_UP_RING := x], b_up_n := b_up_n b + 1\<rparr>"

text \<open>A charge is a day old; the subtraction is that of \<open>uint32_t\<close>.\<close>

definition day_old :: "u32 \<Rightarrow> u32 \<Rightarrow> bool" where "day_old now_s t \<longleftrightarrow> now_s - t \<ge> of_nat CALI_LORA_DAY_S"

function up_expire :: "u32 \<Rightarrow> lora_budget \<Rightarrow> lora_budget" where
  "up_expire now_s b =
     (if b_up_n b \<noteq> 0 \<and> day_old now_s (up_t (b_up b ! b_up_head b)) then up_expire now_s (up_pop b) else b)"
  by pat_completeness auto
termination
  by (relation "measure (\<lambda>(t, b). b_up_n b)") (auto simp: up_pop_def)

declare up_expire.simps [simp del]

definition cali_lora_uplink_add :: "u32 \<Rightarrow> u32 \<Rightarrow> bool \<Rightarrow> lora_budget \<Rightarrow> lora_budget" where
  "cali_lora_uplink_add now_s ms confirmed b0 =
     (let b = up_expire now_s b0; b1 = (if b_up_n b = CALI_LORA_UP_RING then up_pop b else b)
      in up_push b1 \<lparr>up_t = now_s, up_ms = ms, up_conf = confirmed\<rparr>)"

definition up_items :: "lora_budget \<Rightarrow> lora_up list" where
  "up_items b = ring_items (b_up b) (b_up_head b) (b_up_n b)"

definition up_sum :: "u32 \<Rightarrow> bool \<Rightarrow> lora_budget \<Rightarrow> u32 \<times> lora_budget" where
  "up_sum now_s only_confirmed b0 =
     (let b = up_expire now_s b0
      in (foldl (\<lambda>s x. if \<not> only_confirmed \<or> up_conf x then s + up_ms x else s) 0 (up_items b), b))"

definition cali_lora_uplink_used_ms :: "u32 \<Rightarrow> lora_budget \<Rightarrow> u32 \<times> lora_budget" where
  "cali_lora_uplink_used_ms now_s b = up_sum now_s False b"

definition cali_lora_uplink_confirmed_ms :: "u32 \<Rightarrow> lora_budget \<Rightarrow> u32 \<times> lora_budget" where
  "cali_lora_uplink_confirmed_ms now_s b = up_sum now_s True b"

definition cali_lora_uplink_room_ms :: "u32 \<Rightarrow> lora_budget \<Rightarrow> u32 \<times> lora_budget" where
  "cali_lora_uplink_room_ms now_s b0 =
     (let (used, b) = up_sum now_s False b0
      in (if b_up_n b = CALI_LORA_UP_RING then 0
          else if used \<ge> of_nat CALI_LORA_UPLINK_MS then 0 else of_nat CALI_LORA_UPLINK_MS - used, b))"

definition dl_pop :: "lora_budget \<Rightarrow> lora_budget" where
  "dl_pop b = b\<lparr>b_dl_head := (b_dl_head b + 1) mod CALI_LORA_DL_RING, b_dl_n := b_dl_n b - 1\<rparr>"

definition dl_push :: "lora_budget \<Rightarrow> u32 \<Rightarrow> lora_budget" where
  "dl_push b x = b\<lparr>b_dl := (b_dl b)[(b_dl_head b + b_dl_n b) mod CALI_LORA_DL_RING := x], b_dl_n := b_dl_n b + 1\<rparr>"

function dl_expire :: "u32 \<Rightarrow> lora_budget \<Rightarrow> lora_budget" where
  "dl_expire now_s b = (if b_dl_n b \<noteq> 0 \<and> day_old now_s (b_dl b ! b_dl_head b) then dl_expire now_s (dl_pop b) else b)"
  by pat_completeness auto
termination
  by (relation "measure (\<lambda>(t, b). b_dl_n b)") (auto simp: dl_pop_def)

declare dl_expire.simps [simp del]

definition cali_lora_downlink_take :: "u32 \<Rightarrow> lora_budget \<Rightarrow> bool \<times> lora_budget" where
  "cali_lora_downlink_take now_s b0 =
     (let b = dl_expire now_s b0 in if b_dl_n b \<ge> CALI_LORA_DOWNLINKS then (False, b) else (True, dl_push b now_s))"

definition cali_lora_downlinks_used :: "u32 \<Rightarrow> lora_budget \<Rightarrow> nat \<times> lora_budget" where
  "cali_lora_downlinks_used now_s b0 = (let b = dl_expire now_s b0 in (b_dl_n b, b))"

text \<open>The loop that waits for old uplinks to age out: \<open>used\<close> and \<open>wait\<close> while it drops the oldest charges.\<close>

fun age_out :: "u32 \<Rightarrow> u32 \<Rightarrow> lora_up list \<Rightarrow> u32 \<Rightarrow> u32 \<Rightarrow> u32" where
  "age_out now_s air [] used wait = wait"
| "age_out now_s air (x # xs) used wait =
     (if used + air > of_nat CALI_LORA_UPLINK_MS
      then let until = up_t x + of_nat CALI_LORA_DAY_S - now_s
           in age_out now_s air xs (used - up_ms x) (if until > wait then until else wait)
      else wait)"

definition base_wait :: "nat \<Rightarrow> nat \<Rightarrow> nat" where
  "base_wait air share =
     (let share_ms = CALI_LORA_UPLINK_MS * share div 100; per_day0 = (if air = 0 then 1 else share_ms div air);
          per_day = (if per_day0 = 0 then 1 else per_day0)
      in max ((CALI_LORA_DAY_S + per_day - 1) div per_day) CALI_LORA_BASE_S)"

definition cali_lora_next_interval_s :: "u32 \<Rightarrow> nat \<Rightarrow> nat \<Rightarrow> nat \<Rightarrow> lora_budget \<Rightarrow> u32 \<times> lora_budget" where
  "cali_lora_next_interval_s now_s sf len share b0 =
     (let air = cali_lora_airtime_ms (len + CALI_LORA_OVERHEAD) sf; (used, b) = cali_lora_uplink_used_ms now_s b0
      in (age_out now_s (of_nat air) (up_items b) used (of_nat (base_wait air share)), b))"

definition cali_lora_join_backoff_s :: "nat \<Rightarrow> nat" where
  "cali_lora_join_backoff_s attempt = (if attempt \<ge> 6 then 3600 else 60 * 2 ^ attempt)"

section \<open>Snapshot, packers and tracker\<close>

definition CALI_LORA_ENERGY_LEN :: nat where "CALI_LORA_ENERGY_LEN = 50"
definition CALI_LORA_DAILY_LEN :: nat where "CALI_LORA_DAILY_LEN = 24"
definition CALI_LORA_REFRESH_S :: nat where "CALI_LORA_REFRESH_S = 43200"
definition CALI_ENERGY_MASK :: u32 where "CALI_ENERGY_MASK = 0xFFFFFF"

text \<open>
  A frame of length 0 is none. \<open>sn_mppt field k\<close> is the charger's reading times \<open>k\<close>, rounded to an integer, None when it has no such field
  or none that is finite; the code computes it with floating point numbers.
\<close>

record lora_snap =
  sn_frame :: "nat \<Rightarrow> u8 list"
  sn_mppt :: "nat \<Rightarrow> nat \<Rightarrow> int option"
  sn_bsense :: "nat \<Rightarrow> nat \<Rightarrow> int option"
  sn_solar :: u32
  sn_load :: u32
  sn_batt_net :: int
  sn_boot :: u32
  sn_uptime_s :: u32
  sn_enabled :: bool

text \<open>A reading that is missing or older than a minute counts as none.\<close>

definition CALI_ENERGY_MAX_AGE_MS :: u64 where "CALI_ENERGY_MAX_AGE_MS = 60000"

definition fresh :: "u64 \<Rightarrow> (u64 \<times> (nat \<Rightarrow> nat \<Rightarrow> int option)) option \<Rightarrow> nat \<Rightarrow> nat \<Rightarrow> int option" where
  "fresh now_ms r =
     (case r of None \<Rightarrow> (\<lambda>f k. None) | Some (at_ms, g) \<Rightarrow> if now_ms - at_ms > CALI_ENERGY_MAX_AGE_MS then (\<lambda>f k. None) else g)"

text \<open>The session's frames, the readings with their times, the three counters, the boot number and the switch come from other components.\<close>

definition cali_lora_snapshot ::
  "(nat \<Rightarrow> u8 list option) \<Rightarrow> (u64 \<times> (nat \<Rightarrow> nat \<Rightarrow> int option)) option \<Rightarrow> (u64 \<times> (nat \<Rightarrow> nat \<Rightarrow> int option)) option \<Rightarrow>
   u32 \<Rightarrow> u32 \<Rightarrow> int \<Rightarrow> u32 \<Rightarrow> bool \<Rightarrow> u64 \<Rightarrow> lora_snap" where
  "cali_lora_snapshot frames mppt bsense solar load net boot on now_ms =
     \<lparr>sn_frame = (\<lambda>i. if i < CODEC_NCHARS then take CODEC_FRAME_MAX (case frames i of Some f \<Rightarrow> f | None \<Rightarrow> []) else []),
      sn_mppt = fresh now_ms mppt, sn_bsense = fresh now_ms bsense, sn_solar = solar, sn_load = load, sn_batt_net = net, sn_boot = boot,
      sn_uptime_s = ucast (now_ms div 1000), sn_enabled = on\<rparr>"

definition char_index :: "string \<Rightarrow> nat option" where
  "char_index fn = find (\<lambda>i. fst (CODEC_CHARS ! i) = fn) [0..<CODEC_NCHARS]"

definition be :: "u32 \<Rightarrow> nat \<Rightarrow> u8 list" where
  "be v n = map (\<lambda>i. ucast (drop_bit (8 * (n - 1 - i)) v)) [0..<n]"

definition put_frame :: "nat \<Rightarrow> lora_snap \<Rightarrow> string \<Rightarrow> u8 list" where
  "put_frame slot s fn =
     (let f = take slot (case char_index fn of Some i \<Rightarrow> sn_frame s i | None \<Rightarrow> []) in f @ replicate (slot - length f) 0xFF)"

definition scaled :: "int option \<Rightarrow> u32 \<Rightarrow> u32" where
  "scaled r none = (case r of None \<Rightarrow> none | Some v \<Rightarrow> word_of_int v)"

definition cali_lora_pack_energy :: "lora_snap \<Rightarrow> u8 list" where
  "cali_lora_pack_energy s =
     [1] @ be (sn_boot s AND 0xFFFF) 2 @ put_frame 22 s ''energy'' @ put_frame 6 s ''water'' @
     be (scaled (sn_mppt s 0 10) 0xFFFF) 2 @ be (scaled (sn_mppt s 5 1) 0xFFFF) 2 @ be (scaled (sn_mppt s 6 100) 0xFFFF) 2 @
     [ucast (scaled (sn_mppt s 2 1) 0xFF), ucast (scaled (sn_mppt s 3 1) 0xFF)] @ be (scaled (sn_bsense s 0 100) 0xFFFF) 2 @
     be (sn_solar s AND CALI_ENERGY_MASK) 3 @ be (sn_load s AND CALI_ENERGY_MASK) 3 @ be (word_of_int (sn_batt_net s) AND CALI_ENERGY_MASK) 3"

definition cali_lora_pack_daily :: "lora_snap \<Rightarrow> string \<Rightarrow> u8 list" where
  "cali_lora_pack_daily s fw =
     (let v = map of_char (take 8 (c_str fw)) in
      [1] @ be (sn_boot s AND 0xFFFF) 2 @ be (sn_uptime_s s) 4 @ put_frame 9 s ''general'' @ v @ replicate (8 - length v) 0)"

definition untracked :: "nat \<Rightarrow> bool" where
  "untracked i \<longleftrightarrow> fst (CODEC_CHARS ! i) \<in> {''energy'', ''water'', ''general''}"

record lora_tracker =
  tk_last :: "nat \<Rightarrow> u8 list"
  tk_sent_at :: "nat \<Rightarrow> u32"
  tk_pending :: "nat \<Rightarrow> bool"

definition cali_lora_tracker_init :: lora_tracker where
  "cali_lora_tracker_init = \<lparr>tk_last = (\<lambda>i. []), tk_sent_at = (\<lambda>i. 0), tk_pending = (\<lambda>i. False)\<rparr>"

definition tracker_due :: "lora_tracker \<Rightarrow> lora_snap \<Rightarrow> u32 \<Rightarrow> nat \<Rightarrow> bool" where
  "tracker_due t s now_s i \<longleftrightarrow>
     i < CODEC_NCHARS \<and> \<not> untracked i \<and> sn_frame s i \<noteq> [] \<and>
     (tk_last t i \<noteq> sn_frame s i \<or> now_s - tk_sent_at t i \<ge> of_nat CALI_LORA_REFRESH_S)"

definition cali_lora_tracker_update :: "lora_snap \<Rightarrow> u32 \<Rightarrow> lora_tracker \<Rightarrow> lora_tracker" where
  "cali_lora_tracker_update s now_s t = t\<lparr>tk_pending := (\<lambda>i. tracker_due t s now_s i \<or> tk_pending t i)\<rparr>"

text \<open>The scan for the entry sent longest ago among those that are pending, not tried yet and have a frame.\<close>

definition may_pick :: "lora_tracker \<Rightarrow> lora_snap \<Rightarrow> nat set \<Rightarrow> nat \<Rightarrow> bool" where
  "may_pick t s tried i \<longleftrightarrow> tk_pending t i \<and> i \<notin> tried \<and> sn_frame s i \<noteq> []"

definition pick_step :: "lora_tracker \<Rightarrow> lora_snap \<Rightarrow> nat set \<Rightarrow> nat option \<Rightarrow> nat \<Rightarrow> nat option" where
  "pick_step t s tried p i =
     (if may_pick t s tried i \<and> (case p of None \<Rightarrow> True | Some j \<Rightarrow> tk_sent_at t i < tk_sent_at t j) then Some i else p)"

definition pick_oldest :: "lora_tracker \<Rightarrow> lora_snap \<Rightarrow> nat set \<Rightarrow> nat option" where
  "pick_oldest t s tried = foldl (pick_step t s tried) None [0..<CODEC_NCHARS]"

definition oldest_of :: "lora_tracker \<Rightarrow> lora_snap \<Rightarrow> nat set \<Rightarrow> nat \<Rightarrow> nat option \<Rightarrow> bool" where
  "oldest_of t s tried n r \<longleftrightarrow>
     (case r of None \<Rightarrow> \<forall>j < n. \<not> may_pick t s tried j
      | Some i \<Rightarrow> i < n \<and> may_pick t s tried i \<and> (\<forall>j < n. may_pick t s tried j \<longrightarrow> tk_sent_at t i \<le> tk_sent_at t j))"

lemma oldest_step: "oldest_of t s tried n r \<Longrightarrow> oldest_of t s tried (Suc n) (pick_step t s tried r n)"
  by (cases r) (auto simp: oldest_of_def pick_step_def less_Suc_eq)

lemma pick_oldest: "oldest_of t s tried CODEC_NCHARS (pick_oldest t s tried)"
proof -
  have "oldest_of t s tried n (foldl (pick_step t s tried) None [0..<n])" for n
  proof (induction n)
    case (Suc n)
    show ?case using oldest_step [OF Suc] by simp
  qed (simp add: oldest_of_def)
  then show ?thesis by (simp add: pick_oldest_def)
qed

lemma pick_oldest_some: "pick_oldest t s tried = Some i \<Longrightarrow> i < CODEC_NCHARS \<and> may_pick t s tried i"
  using pick_oldest [of t s tried] by (simp add: oldest_of_def)

lemma pick_smaller:
  assumes "pick_oldest t s tried = Some i"
  shows "card ({..<CODEC_NCHARS} - insert i tried) < card ({..<CODEC_NCHARS} - tried)"
proof -
  have "{..<CODEC_NCHARS} - insert i tried = {..<CODEC_NCHARS} - tried - {i}" by blast
  moreover have "i \<in> {..<CODEC_NCHARS} - tried" using pick_oldest_some [OF assms] by (simp add: may_pick_def)
  ultimately show ?thesis by (simp only: card_Diff1_less finite_Diff finite_lessThan)
qed

text \<open>The payload and the entries in it.\<close>

function pack_loop :: "lora_tracker \<Rightarrow> lora_snap \<Rightarrow> nat \<Rightarrow> nat set \<Rightarrow> u8 list \<Rightarrow> nat list \<Rightarrow> u8 list \<times> nat list" where
  "pack_loop t s mx tried out picked =
     (case pick_oldest t s tried of None \<Rightarrow> (out, picked)
      | Some i \<Rightarrow>
          let f = sn_frame s i in
          if length out + 2 + length f > mx then pack_loop t s mx (insert i tried) out picked
          else pack_loop t s mx (insert i tried) (out @ [of_nat i, of_nat (length f)] @ f) (picked @ [i]))"
  by pat_completeness auto
termination
  by (relation "measure (\<lambda>(t, s, mx, tried, out, picked). card ({..<CODEC_NCHARS} - tried))") (simp_all add: pick_smaller)

declare pack_loop.simps [simp del]

definition cali_lora_pack_changed :: "lora_tracker \<Rightarrow> lora_snap \<Rightarrow> nat \<Rightarrow> u8 list \<times> nat list" where
  "cali_lora_pack_changed t s mx = pack_loop t s mx {} [] []"

definition cali_lora_tracker_commit :: "lora_snap \<Rightarrow> nat list \<Rightarrow> u32 \<Rightarrow> lora_tracker \<Rightarrow> lora_tracker" where
  "cali_lora_tracker_commit s picked now_s t =
     t\<lparr>tk_last := (\<lambda>i. if i \<in> set picked then sn_frame s i else tk_last t i),
       tk_sent_at := (\<lambda>i. if i \<in> set picked then now_s else tk_sent_at t i),
       tk_pending := (\<lambda>i. i \<notin> set picked \<and> tk_pending t i)\<rparr>"

end
