(* ===== verification/Lora_Task.thy ===== *)
theory Lora_Task
  imports Lora Json
begin

text \<open>
  The LoRa task of \<open>lora_esp.c\<close> as far as it charges the budgets and consumes changes: the event handler, the send, one join attempt, one
  pass of the sending loop. What the module answers, which events come in which window and the clock at each call are the record
  \<open>lora_io\<close>. Then the switch, the report and the console of \<open>lora.c\<close>. The UART, the queues, the module's set-up and the log are not modelled.
\<close>

section \<open>State\<close>

text \<open>\<open>lt_air\<close> is not in the code: the history of what was charged, as uptime and airtime, for the properties to speak of.\<close>

record lora_task =
  lt_b :: lora_budget
  lt_trk :: lora_tracker
  lt_sf :: nat
  lt_joined :: bool
  lt_last_confirmed :: u32
  lt_unconfirmed :: nat
  lt_uplinks :: "nat \<Rightarrow> nat"
  lt_next_energy :: u32
  lt_daily_at :: u32
  lt_daily_due :: bool
  lt_air :: "(nat \<times> nat) list"

text \<open>
  One use of the module: the switch, the spreading factor it reports (if it answers), the uptime before, its final status, the events
  handled while waiting and afterwards, each with its uptime, the uptime of the charge and the one at the end.
\<close>

record lora_io =
  li_on :: bool
  li_sf :: "nat option"
  li_t :: u32
  li_status :: rak_kind
  li_wait :: "(rak_kind \<times> u32) list"
  li_after :: "(rak_kind \<times> u32) list"
  li_now :: u32
  li_end :: u32

definition JOIN_REQUEST_LEN :: nat where "JOIN_REQUEST_LEN = 23"

section \<open>The link\<close>

definition lora_event :: "rak_kind \<times> u32 \<Rightarrow> lora_task \<Rightarrow> lora_task" where
  "lora_event kt lt =
     (case fst kt of CALI_RAK_RX \<Rightarrow> lt\<lparr>lt_b := snd (cali_lora_downlink_take (snd kt) (lt_b lt))\<rparr>
      | CALI_RAK_JOINED \<Rightarrow> lt\<lparr>lt_joined := True\<rparr> | _ \<Rightarrow> lt)"

definition read_sf :: "lora_io \<Rightarrow> lora_task \<Rightarrow> lora_task" where
  "read_sf io lt = (case li_sf io of Some sf \<Rightarrow> lt\<lparr>lt_sf := sf\<rparr> | None \<Rightarrow> lt)"

text \<open>Events are handled up to the first one of a kind in \<open>last_kinds\<close>.\<close>

fun events_until :: "rak_kind set \<Rightarrow> (rak_kind \<times> u32) list \<Rightarrow> lora_task \<Rightarrow> bool \<times> lora_task" where
  "events_until last_kinds [] lt = (False, lt)"
| "events_until last_kinds (e # es) lt =
     (if fst e \<in> last_kinds then (True, lora_event e lt) else events_until last_kinds es (lora_event e lt))"

definition send_airtime :: "nat \<Rightarrow> lora_task \<Rightarrow> nat" where
  "send_airtime len lt = cali_lora_airtime_ms (len + CALI_LORA_OVERHEAD) (lt_sf lt)"

definition charge_up :: "u32 \<Rightarrow> nat \<Rightarrow> bool \<Rightarrow> lora_task \<Rightarrow> lora_task" where
  "charge_up now ms confirmed lt =
     lt\<lparr>lt_b := cali_lora_uplink_add now (of_nat ms) confirmed (lt_b lt), lt_air := lt_air lt @ [(unat now, ms)]\<rparr>"

text \<open>The gate: the switch, both budgets. Reading them drops what is a day old.\<close>

definition send_gate :: "nat \<Rightarrow> lora_io \<Rightarrow> lora_task \<Rightarrow> bool \<times> lora_task" where
  "send_gate len io lt0 =
     (if \<not> li_on io then (False, lt0)
      else
        let lt = read_sf io lt0; (room, b1) = cali_lora_uplink_room_ms (li_t io) (lt_b lt) in
        if room < of_nat (send_airtime len lt) then (False, lt\<lparr>lt_b := b1\<rparr>)
        else let (used, b2) = cali_lora_downlinks_used (li_t io) b1 in (used < CALI_LORA_DOWNLINKS, lt\<lparr>lt_b := b2\<rparr>))"

text \<open>The publication reads both budgets.\<close>

definition lora_publish :: "u32 \<Rightarrow> lora_task \<Rightarrow> lora_task" where
  "lora_publish now lt =
     lt\<lparr>lt_b := snd (cali_lora_downlinks_used now (snd (cali_lora_uplink_used_ms now (snd (cali_lora_uplink_confirmed_ms now (lt_b lt))))))\<rparr>"

definition lora_send :: "nat \<Rightarrow> lora_io \<Rightarrow> lora_task \<Rightarrow> bool \<times> lora_task" where
  "lora_send len io lt0 =
     (let (go, lt) = send_gate len io lt0 in
      if \<not> go then (False, lt)
      else if li_status io = CALI_RAK_NOT_JOINED then (False, lt\<lparr>lt_joined := False\<rparr>)
      else if \<not> lo_charged (cali_lora_outcome (li_status io) False) then (False, lt)
      else
        let (tx_done, lt1) = events_until {CALI_RAK_TX_DONE} (li_wait io) lt;
            lt2 = foldl (\<lambda>l e. lora_event e l) lt1 (li_after io);
            ok = lo_confirmed (cali_lora_outcome (li_status io) tx_done);
            lt3 = charge_up (li_now io) (send_airtime len lt) ok lt2
        in (ok, lora_publish (li_end io)
                  (if ok then lt3\<lparr>lt_last_confirmed := li_now io\<rparr> else lt3\<lparr>lt_unconfirmed := lt_unconfirmed lt3 + 1\<rparr>)))"

text \<open>One attempt of the join loop; \<open>keys\<close>: there are stored keys. Its publications are operations of their own.\<close>

definition lora_join :: "bool \<Rightarrow> lora_io \<Rightarrow> lora_task \<Rightarrow> lora_task" where
  "lora_join keys io lt0 =
     (let lt = read_sf io lt0; join_ms = cali_lora_airtime_ms JOIN_REQUEST_LEN (lt_sf lt);
          (room, b1) = cali_lora_uplink_room_ms (li_t io) (lt_b lt); lt1 = lt\<lparr>lt_b := b1\<rparr>;
          lt2 = (if keys \<and> room \<ge> of_nat join_ms \<and> li_on io \<and> li_status io = CALI_RAK_OK
                 then snd (events_until {CALI_RAK_JOINED, CALI_RAK_JOIN_FAILED} (li_wait io)
                        (charge_up (li_now io) join_ms False lt1))
                 else lt1)
      in if lt_joined lt2 then lt2\<lparr>lt_b := snd (cali_lora_downlink_take (li_end io) (lt_b lt2))\<rparr>
         else lt2)"

text \<open>One pass that is due: energy, then the changed functions, then the daily packet.\<close>

definition lora_send_changed :: "lora_snap \<Rightarrow> u32 \<Rightarrow> lora_io \<Rightarrow> lora_task \<Rightarrow> lora_task" where
  "lora_send_changed s now io lt0 =
     (let lt = lt0\<lparr>lt_trk := cali_lora_tracker_update s now (lt_trk lt0)\<rparr>;
          (out, picked) = cali_lora_pack_changed (lt_trk lt) s (cali_lora_max_payload (lt_sf lt)) in
      if out = [] then lt
      else let (ok, lt1) = lora_send (length out) io lt in
        if ok then lt1\<lparr>lt_trk := cali_lora_tracker_commit s picked now (lt_trk lt1), lt_uplinks := (lt_uplinks lt1)(1 := lt_uplinks lt1 1 + 1)\<rparr>
        else lt1)"

definition lora_send_energy :: "lora_snap \<Rightarrow> lora_io \<Rightarrow> lora_task \<Rightarrow> lora_task" where
  "lora_send_energy s io lt =
     (let (ok, lt1) = lora_send (length (cali_lora_pack_energy s)) io lt
      in if ok then lt1\<lparr>lt_uplinks := (lt_uplinks lt1)(0 := lt_uplinks lt1 0 + 1)\<rparr> else lt1)"

definition lora_send_daily :: "lora_snap \<Rightarrow> string \<Rightarrow> u32 \<Rightarrow> lora_io \<Rightarrow> lora_task \<Rightarrow> lora_task" where
  "lora_send_daily s fw now io lt =
     (if lt_daily_due lt \<or> now - lt_daily_at lt \<ge> of_nat CALI_LORA_DAY_S
      then let (ok, lt1) = lora_send (length (cali_lora_pack_daily s fw)) io lt
           in if ok then lt1\<lparr>lt_uplinks := (lt_uplinks lt1)(2 := lt_uplinks lt1 2 + 1), lt_daily_at := now, lt_daily_due := False\<rparr> else lt1
      else lt)"

definition lora_schedule :: "u32 \<Rightarrow> lora_task \<Rightarrow> lora_task" where
  "lora_schedule now lt =
     (let (w, b) = cali_lora_next_interval_s now (lt_sf lt) CALI_LORA_ENERGY_LEN CALI_LORA_ENERGY_SHARE (lt_b lt)
      in lt\<lparr>lt_b := b, lt_next_energy := now + w\<rparr>)"

definition lora_pass :: "lora_snap \<Rightarrow> string \<Rightarrow> u32 \<Rightarrow> lora_io \<Rightarrow> lora_io \<Rightarrow> lora_io \<Rightarrow> u32 \<Rightarrow> lora_task \<Rightarrow> lora_task" where
  "lora_pass s fw now io1 io2 io3 now1 lt =
     (if now \<ge> lt_next_energy lt
      then lora_schedule now1 (lora_send_daily s fw now io3 (lora_send_changed s now io2 (lora_send_energy s io1 lt)))
      else lt)"

text \<open>What the task does, in any order; at the start the ring is empty and the factor is taken as 12.\<close>

definition lora_boot :: lora_task where
  "lora_boot = \<lparr>lt_b = cali_lora_budget_init, lt_trk = cali_lora_tracker_init, lt_sf = 12, lt_joined = False, lt_last_confirmed = 0,
     lt_unconfirmed = 0, lt_uplinks = (\<lambda>k. 0), lt_next_energy = 0, lt_daily_at = 0, lt_daily_due = True, lt_air = []\<rparr>"

datatype lora_op = Lo_pass lora_snap string u32 lora_io lora_io lora_io u32 | Lo_join bool lora_io | Lo_event rak_kind u32 | Lo_publish u32

fun lora_do :: "lora_task \<Rightarrow> lora_op \<Rightarrow> lora_task" where
  "lora_do lt (Lo_pass s fw now io1 io2 io3 now1) = lora_pass s fw now io1 io2 io3 now1 lt"
| "lora_do lt (Lo_join keys io) = (if lt_joined lt then lt else (lora_join keys io lt)\<lparr>lt_daily_due := True\<rparr>)"
| "lora_do lt (Lo_event k t) = lora_event (k, t) lt"
| "lora_do lt (Lo_publish now) = lora_publish now lt"

section \<open>Switch, report, console\<close>

definition CALI_EXP_LORA_KEY :: string where "CALI_EXP_LORA_KEY = ''exp_lora''"
definition CALI_LORA_KEYS_KEY :: string where "CALI_LORA_KEYS_KEY = ''lora_keys''"
definition CALI_LORA_SNAP_MS :: u64 where "CALI_LORA_SNAP_MS = 10000"

text \<open>The present flag is None while the module is being looked for.\<close>

record lora_status =
  lst_present :: "bool option"
  lst_joined :: bool
  lst_at_unanswered :: nat
  lst_sf :: nat
  lst_last_confirmed :: u32
  lst_airtime_ms :: u32
  lst_charged_ms :: u32
  lst_unconfirmed :: nat
  lst_downlinks :: nat
  lst_uplinks :: "nat \<Rightarrow> nat"
  lst_note :: "string option"

definition cali_lora_status_json :: "lora_status \<Rightarrow> u32 \<Rightarrow> jval" where
  "cali_lora_status_json sta now_s =
     JObj [(''module'', JStr (case lst_present sta of None \<Rightarrow> ''checking'' | Some p \<Rightarrow> if p then ''present'' else ''absent'')),
           (''joined'', JBool (lst_joined sta)), (''at_unanswered'', JInt (int (lst_at_unanswered sta))), (''sf'', JInt (int (lst_sf sta))),
           (''last_s'', if lst_last_confirmed sta \<noteq> 0 \<and> now_s \<ge> lst_last_confirmed sta then JInt (uint (now_s - lst_last_confirmed sta)) else JNull),
           (''airtime_ms_24h'', JInt (uint (lst_airtime_ms sta))), (''airtime_charged_ms_24h'', JInt (uint (lst_charged_ms sta))),
           (''unconfirmed_sends'', JInt (int (lst_unconfirmed sta))), (''downlinks_24h'', JInt (int (lst_downlinks sta))),
           (''uplinks'', JArr (map (\<lambda>k. JInt (int (lst_uplinks sta k))) [0, 1, 2])),
           (''note'', case lst_note sta of Some n \<Rightarrow> JStr n | None \<Rightarrow> JNull)]"

record lora_owner =
  lw_exp :: "bool option"
  lw_next_snap :: u64
  lw_was_on :: bool
  lw_kv :: kv

definition cali_exp_lora :: "kv_io \<Rightarrow> lora_owner \<Rightarrow> bool \<times> lora_owner" where
  "cali_exp_lora io w =
     (case lw_exp w of Some b \<Rightarrow> (b, w)
      | None \<Rightarrow>
          let b = (case cali_kv_get io (lw_kv w) CALI_EXP_LORA_KEY 1 of CALI_KV_OK v \<Rightarrow> length v = 1 \<and> v \<noteq> [CHR 0x00] | _ \<Rightarrow> False)
          in (b, w\<lparr>lw_exp := Some b\<rparr>))"

definition cali_exp_lora_set :: "kv_io \<Rightarrow> bool \<Rightarrow> lora_owner \<Rightarrow> bool \<times> lora_owner" where
  "cali_exp_lora_set io on w =
     (let (ok, kv1) = cali_kv_set io (lw_kv w) CALI_EXP_LORA_KEY [if on then CHR 0x01 else CHR 0x00] in
      if \<not> ok then (False, w\<lparr>lw_kv := kv1\<rparr>) else (True, w\<lparr>lw_kv := kv1, lw_exp := Some on\<rparr>))"

text \<open>The tick: whether a snapshot goes over to the task.\<close>

definition cali_lora_tick :: "kv_io \<Rightarrow> u64 \<Rightarrow> lora_owner \<Rightarrow> bool \<times> lora_owner" where
  "cali_lora_tick io now_ms w0 =
     (let (on, w) = cali_exp_lora io w0 in
      if now_ms < lw_next_snap w \<and> on = lw_was_on w then (False, w)
      else (True, w\<lparr>lw_next_snap := now_ms + CALI_LORA_SNAP_MS, lw_was_on := on\<rparr>))"

text \<open>\<open>%ns\<close> of \<open>sscanf\<close>: a word of at most \<open>n\<close> characters.\<close>

definition scan_word :: "nat \<Rightarrow> string \<Rightarrow> (string \<times> string) option" where
  "scan_word n t0 =
     (let t = dropWhile c_space t0; w = take n (takeWhile (\<lambda>c. \<not> c_space c) t) in if w = [] then None else Some (w, drop (length w) t))"

fun scan_words :: "nat list \<Rightarrow> string \<Rightarrow> string list" where
  "scan_words [] t = []"
| "scan_words (n # ns) t = (case scan_word n t of None \<Rightarrow> [] | Some (w, u) \<Rightarrow> w # scan_words ns u)"

fun unhex_pairs :: "string \<Rightarrow> u8 list option" where
  "unhex_pairs (a # b # r) =
     (let (v, rest) = strtoul16 [a, b] in if rest \<noteq> [] then None else map_option (Cons v) (unhex_pairs r))"
| "unhex_pairs _ = Some []"

definition unhex :: "string \<Rightarrow> nat \<Rightarrow> u8 list option" where
  "unhex h n = (if length h \<noteq> 2 * n then None else unhex_pairs h)"

definition cali_lora_console :: "kv_io \<Rightarrow> string \<Rightarrow> lora_owner \<Rightarrow> lora_owner" where
  "cali_lora_console io args w =
     (case scan_words [7, 23, 23, 39] args of
        [] \<Rightarrow> w
      | op1 # rest \<Rightarrow>
          if op1 = ''on'' \<or> op1 = ''off'' then snd (cali_exp_lora_set io (op1 = ''on'') w)
          else if op1 = ''status'' then snd (cali_exp_lora io w)
          else
            (case rest of
               [a, b, c] \<Rightarrow>
                 if op1 \<noteq> ''keys'' then w
                 else (case (unhex a 8, unhex b 8, unhex c 16) of
                         (Some x, Some y, Some z) \<Rightarrow> w\<lparr>lw_kv := snd (cali_kv_set io (lw_kv w) CALI_LORA_KEYS_KEY (map (\<lambda>v. char_of (unat v)) (x @ y @ z)))\<rparr>
                       | _ \<Rightarrow> w)
             | _ \<Rightarrow> w))"

end
