(* ===== verification/Lora_Safety.thy ===== *)
theory Lora_Safety
  imports Lora_Task
begin

text \<open>
  What the LoRa task promises: whatever the module answers, the airtime it charges in any 24 hours stays within the budget; the interval of the
  energy packets keeps its share; a change is packed oldest first, read back exactly and never lost; a key never reaches the log.
\<close>

section \<open>The rings as queues\<close>

definition up_ok :: "lora_budget \<Rightarrow> bool" where
  "up_ok b \<longleftrightarrow> length (b_up b) = CALI_LORA_UP_RING \<and> b_up_head b < CALI_LORA_UP_RING \<and> b_up_n b \<le> CALI_LORA_UP_RING"

lemma up_items_pop: "length (b_up b) = CALI_LORA_UP_RING \<Longrightarrow> up_items (up_pop b) = tl (up_items b)"
  using ring_items_pop [where buf = "b_up b" and h = "b_up_head b" and n = "b_up_n b"] by (simp add: up_items_def up_pop_def)

interpretation up_q: bounded_queue up_ok up_items up_pop up_push CALI_LORA_UP_RING
proof
  fix b x
  assume ok: "up_ok b"
  show "length (up_items b) \<le> CALI_LORA_UP_RING" using ok by (simp add: up_items_def up_ok_def)
  show "up_ok (up_pop b)" using ok by (auto simp: up_ok_def up_pop_def lora_consts)
  show "up_items (up_pop b) = tl (up_items b)" using ok by (simp add: up_items_pop up_ok_def)
  assume room: "length (up_items b) < CALI_LORA_UP_RING"
  show "up_ok (up_push b x)" using ok room by (simp add: up_ok_def up_push_def up_items_def)
  show "up_items (up_push b x) = up_items b @ [x]"
    using ok room ring_items_push [of "b_up_n b" "b_up b" "b_up_head b" x] by (simp add: up_items_def up_push_def up_ok_def)
qed (simp add: lora_consts)

lemma up_expire_unfold:
  "up_ok b \<Longrightarrow> up_expire now_s b = (if up_items b \<noteq> [] \<and> day_old now_s (up_t (hd (up_items b))) then up_expire now_s (up_pop b) else b)"
  by (subst up_expire.simps) (auto simp: up_items_def up_ok_def ring_items_nth hd_conv_nth simp flip: length_0_conv)

lemma up_expire_items:
  "up_ok b \<Longrightarrow> up_ok (up_expire now_s b) \<and> up_items (up_expire now_s b) = dropWhile (\<lambda>x. day_old now_s (up_t x)) (up_items b)"
  by (rule up_q.expire_loop) (rule up_expire_unfold)

lemma up_n_items: "up_ok b \<Longrightarrow> b_up_n b = length (up_items b)"
  by (simp add: up_items_def)

section \<open>The charges of a day\<close>

type_synonym charge = "nat \<times> nat"

definition charge_of :: "lora_up \<Rightarrow> charge" where "charge_of x = (unat (up_t x), unat (up_ms x))"

definition airtime :: "charge list \<Rightarrow> nat" where "airtime cs = sum_list (map snd cs)"

text \<open>The charges in the 24 hours from \<open>w\<close> on.\<close>

definition in_day :: "nat \<Rightarrow> charge list \<Rightarrow> charge list" where
  "in_day w cs = filter (\<lambda>c. w \<le> fst c \<and> fst c < w + CALI_LORA_DAY_S) cs"

definition within_budget :: "charge list \<Rightarrow> bool" where
  "within_budget cs \<longleftrightarrow> (\<forall>w. airtime (in_day w cs) \<le> CALI_LORA_UPLINK_MS)"

text \<open>At the time \<open>T\<close> the ring holds a tail of all charges so far, and those it has dropped are a day old.\<close>

definition tracks :: "charge list \<Rightarrow> nat \<Rightarrow> lora_budget \<Rightarrow> bool" where
  "tracks cs T b \<longleftrightarrow>
     up_ok b \<and> sorted (map fst cs) \<and> (\<forall>c \<in> set cs. fst c \<le> T) \<and>
     (\<exists>k. map charge_of (up_items b) = drop k cs \<and> (\<forall>c \<in> set (take k cs). fst c + CALI_LORA_DAY_S \<le> T))"

lemma day_old_nat:
  "unat t \<le> unat now_s \<Longrightarrow> day_old now_s t \<longleftrightarrow> unat t + CALI_LORA_DAY_S \<le> unat now_s"
  by (auto simp: day_old_def word_le_nat_alt unat_sub lora_consts word_less_nat_alt)

lemma sorted_dropWhile:
  "sorted (map fst cs) \<Longrightarrow> dropWhile (\<lambda>c. fst c + d \<le> n) cs = filter (\<lambda>c. n < fst c + (d :: nat)) cs"
proof (induction cs)
  case (Cons c cs)
  show ?case
  proof (cases "fst c + d \<le> n")
    case False
    then have "\<forall>x \<in> set cs. n < fst x + d" using Cons.prems by fastforce
    then show ?thesis using False by simp
  qed (use Cons in simp)
qed simp

lemma sorted_take_drop:
  assumes "sorted (map fst cs)"
  shows "\<exists>k. filter (\<lambda>c. n < fst c + (d :: nat)) cs = drop k cs \<and> (\<forall>c \<in> set (take k cs). fst c + d \<le> n)"
proof -
  let ?k = "length (takeWhile (\<lambda>c. fst c + d \<le> n) cs)"
  have "filter (\<lambda>c. n < fst c + d) cs = drop ?k cs" by (simp add: sorted_dropWhile [OF assms, symmetric] dropWhile_eq_drop)
  moreover have "\<forall>c \<in> set (take ?k cs). fst c + d \<le> n" by (simp add: takeWhile_eq_take [symmetric]) (blast dest: set_takeWhileD)
  ultimately show ?thesis by blast
qed

lemma tracks_expire:
  assumes "tracks cs T b" and "T \<le> unat now_s"
  shows "tracks cs (unat now_s) (up_expire now_s b)"
    and "map charge_of (up_items (up_expire now_s b)) = filter (\<lambda>c. unat now_s < fst c + CALI_LORA_DAY_S) cs"
proof -
  obtain k where k: "up_ok b" "sorted (map fst cs)" "\<forall>c \<in> set cs. fst c \<le> T" "map charge_of (up_items b) = drop k cs"
    "\<forall>c \<in> set (take k cs). fst c + CALI_LORA_DAY_S \<le> T" using assms(1) by (auto simp: tracks_def)
  let ?n = "unat now_s" and ?keep = "\<lambda>c. unat now_s < fst c + CALI_LORA_DAY_S"
  have old: "day_old now_s (up_t x) \<longleftrightarrow> fst (charge_of x) + CALI_LORA_DAY_S \<le> ?n" if "x \<in> set (up_items b)" for x
  proof -
    have "charge_of x \<in> set cs" using that k(4) by (metis image_eqI in_set_dropD list.set_map)
    then show ?thesis using k(3) assms(2) day_old_nat [of "up_t x" now_s] by (fastforce simp: charge_of_def)
  qed
  have "map charge_of (dropWhile (\<lambda>x. day_old now_s (up_t x)) (up_items b)) = dropWhile (\<lambda>c. fst c + CALI_LORA_DAY_S \<le> ?n) (drop k cs)"
    unfolding k(4) [symmetric] dropWhile_map using old by (simp add: o_def cong: dropWhile_cong)
  also have "\<dots> = filter ?keep (drop k cs)" using k(2) by (intro sorted_dropWhile) (simp add: drop_map [symmetric] sorted_wrt_drop)
  also have "\<dots> = filter ?keep cs"
  proof -
    have "filter ?keep (take k cs) = []" using k(5) assms(2) by (fastforce simp: filter_empty_conv)
    then show ?thesis by (metis append_take_drop_id filter_append append_Nil)
  qed
  finally show i: "map charge_of (up_items (up_expire now_s b)) = filter ?keep cs" using up_expire_items [OF k(1), of now_s] by simp
  have le: "\<forall>c \<in> set cs. fst c \<le> ?n" using k(3) assms(2) by fastforce
  show "tracks cs ?n (up_expire now_s b)"
    unfolding tracks_def i using up_expire_items [OF k(1), of now_s] k(2) le sorted_take_drop [OF k(2), of ?n CALI_LORA_DAY_S] by blast
qed

text \<open>Reading the budget.\<close>

lemma airtime_fold:
  "unat v + airtime (map charge_of xs) < 2 ^ 32 \<Longrightarrow> unat (foldl (\<lambda>s x. s + up_ms x) v xs) = unat v + airtime (map charge_of xs)"
proof (induction xs arbitrary: v)
  case (Cons x xs)
  have "unat (v + up_ms x) = unat v + unat (up_ms x)"
    using Cons.prems by (simp add: unat_plus_if' airtime_def charge_of_def)
  then show ?case using Cons by (simp add: airtime_def charge_of_def)
qed (simp add: airtime_def)

lemma recent_in_day:
  "\<forall>c \<in> set cs. fst c \<le> n \<Longrightarrow> filter (\<lambda>c. n < fst c + CALI_LORA_DAY_S) cs = in_day (n + 1 - CALI_LORA_DAY_S) cs"
  unfolding in_day_def by (rule filter_cong) (auto simp: lora_consts)

lemma tracks_last: "tracks cs T b \<Longrightarrow> \<forall>c \<in> set cs. fst c \<le> T" "tracks cs T b \<Longrightarrow> up_ok b" "tracks cs T b \<Longrightarrow> sorted (map fst cs)"
  by (auto simp: tracks_def)

lemma used_now:
  assumes "tracks cs T b" and "T \<le> unat t" and "within_budget cs"
  shows "unat (fst (up_sum t False b)) = airtime (filter (\<lambda>c. unat t < fst c + CALI_LORA_DAY_S) cs)"
    and "airtime (filter (\<lambda>c. unat t < fst c + CALI_LORA_DAY_S) cs) \<le> CALI_LORA_UPLINK_MS"
proof -
  have le: "\<forall>c \<in> set cs. fst c \<le> unat t" using tracks_last(1) [OF assms(1)] assms(2) by fastforce
  show r: "airtime (filter (\<lambda>c. unat t < fst c + CALI_LORA_DAY_S) cs) \<le> CALI_LORA_UPLINK_MS"
    unfolding recent_in_day [OF le] using assms(3) by (simp add: within_budget_def)
  show "unat (fst (up_sum t False b)) = airtime (filter (\<lambda>c. unat t < fst c + CALI_LORA_DAY_S) cs)"
    unfolding up_sum_def tracks_expire(2) [OF assms(1,2), symmetric] Let_def fst_conv
    using r tracks_expire(2) [OF assms(1,2)] airtime_fold [of 0 "up_items (up_expire t b)"] by (simp add: lora_consts)
qed

text \<open>Enough room for a charge, and a free slot in the ring.\<close>

lemma room_now:
  assumes "tracks cs T b" and "T \<le> unat t" and "within_budget cs" and "cali_lora_uplink_room_ms t b = (room, b1)"
  shows "tracks cs (unat t) b1"
    and "0 < a \<Longrightarrow> a \<le> unat room \<Longrightarrow> airtime (filter (\<lambda>c. unat t < fst c + CALI_LORA_DAY_S) cs) + a \<le> CALI_LORA_UPLINK_MS \<and>
           length (filter (\<lambda>c. unat t < fst c + CALI_LORA_DAY_S) cs) < CALI_LORA_UP_RING"
proof -
  have b1: "b1 = up_expire t b" using assms(4) by (simp add: cali_lora_uplink_room_ms_def up_sum_def Let_def)
  show k: "tracks cs (unat t) b1" unfolding b1 by (rule tracks_expire(1) [OF assms(1,2)])
  have n: "b_up_n b1 = length (filter (\<lambda>c. unat t < fst c + CALI_LORA_DAY_S) cs)"
    unfolding b1 tracks_expire(2) [OF assms(1,2), symmetric] by (simp add: up_items_def)
  have l: "b_up_n b1 \<le> CALI_LORA_UP_RING" using tracks_last(2) [OF k] by (simp add: up_ok_def)
  define used where "used = fst (up_sum t False b)"
  have u: "unat used = airtime (filter (\<lambda>c. unat t < fst c + CALI_LORA_DAY_S) cs)" "unat used \<le> CALI_LORA_UPLINK_MS"
    using used_now [OF assms(1-3)] by (simp_all add: used_def)
  have "room = (if b_up_n b1 = CALI_LORA_UP_RING then 0 else if used \<ge> of_nat CALI_LORA_UPLINK_MS then 0 else of_nat CALI_LORA_UPLINK_MS - used)"
    using assms(4) unfolding used_def cali_lora_uplink_room_ms_def up_sum_def Let_def by auto
  then have "unat room = (if b_up_n b1 = CALI_LORA_UP_RING then 0 else CALI_LORA_UPLINK_MS - unat used)"
    using u(2) by (auto simp: word_le_nat_alt unat_sub lora_consts)
  then show "0 < a \<Longrightarrow> a \<le> unat room \<Longrightarrow> airtime (filter (\<lambda>c. unat t < fst c + CALI_LORA_DAY_S) cs) + a \<le> CALI_LORA_UPLINK_MS \<and>
           length (filter (\<lambda>c. unat t < fst c + CALI_LORA_DAY_S) cs) < CALI_LORA_UP_RING"
    using u n l by (auto split: if_splits)
qed

lemma airtime_filter_le: "(\<And>c. c \<in> set cs \<Longrightarrow> P c \<Longrightarrow> Q c) \<Longrightarrow> airtime (filter P cs) \<le> airtime (filter Q cs)"
  by (induction cs) (auto simp: airtime_def trans_le_add2)


lemma within_budget_snoc:
  assumes "within_budget cs" and "t \<le> now" and "airtime (filter (\<lambda>c. t < fst c + CALI_LORA_DAY_S) cs) + a \<le> CALI_LORA_UPLINK_MS"
  shows "within_budget (cs @ [(now, a)])"
  unfolding within_budget_def
proof
  fix w
  show "airtime (in_day w (cs @ [(now, a)])) \<le> CALI_LORA_UPLINK_MS"
  proof (cases "w \<le> now \<and> now < w + CALI_LORA_DAY_S")
    case True
    have "airtime (in_day w cs) \<le> airtime (filter (\<lambda>c. t < fst c + CALI_LORA_DAY_S) cs)"
      unfolding in_day_def using True assms(2) by (intro airtime_filter_le) auto
    then show ?thesis using True assms(3) by (simp add: in_day_def airtime_def)
  next
    case False
    then have "in_day w (cs @ [(now, a)]) = in_day w cs" by (auto simp: in_day_def)
    then show ?thesis using assms(1) by (simp add: within_budget_def)
  qed
qed

lemma tracks_add:
  assumes "tracks cs T b" and "T \<le> unat now" and "length (filter (\<lambda>c. unat now < fst c + CALI_LORA_DAY_S) cs) < CALI_LORA_UP_RING"
    and "ms < 2 ^ 32"
  shows "tracks (cs @ [(unat now, ms)]) (unat now) (cali_lora_uplink_add now (of_nat ms) ok b)"
proof -
  let ?b = "up_expire now b" and ?x = "\<lparr>up_t = now, up_ms = of_nat ms, up_conf = ok\<rparr>"
  have k: "tracks cs (unat now) ?b" by (rule tracks_expire(1) [OF assms(1,2)])
  then obtain k where k': "map charge_of (up_items ?b) = drop k cs" "\<forall>c \<in> set (take k cs). fst c + CALI_LORA_DAY_S \<le> unat now"
    by (auto simp: tracks_def)
  have l: "length (up_items ?b) < CALI_LORA_UP_RING"
    using assms(3) unfolding tracks_expire(2) [OF assms(1,2), symmetric] by simp
  have ok': "up_ok ?b" by (rule tracks_last(2) [OF k])
  have e: "cali_lora_uplink_add now (of_nat ms) ok b = up_push ?b ?x"
    using l by (simp add: cali_lora_uplink_add_def Let_def up_n_items [OF ok'])
  have i: "up_items (up_push ?b ?x) = up_items ?b @ [?x]" by (rule up_q.items_push [OF ok' l])
  have c: "charge_of ?x = (unat now, ms)" using assms(4) by (simp add: charge_of_def unat_of_nat)
  let ?k = "if length cs < k then length cs else k"
  have d: "drop ?k cs = drop k cs" "take ?k cs = take k cs" by auto
  have "map charge_of (up_items (up_push ?b ?x)) = drop ?k (cs @ [(unat now, ms)])" unfolding i using k'(1) d(1) c by simp
  moreover have "\<forall>c \<in> set (take ?k (cs @ [(unat now, ms)])). fst c + CALI_LORA_DAY_S \<le> unat now" using k'(2) d(2) by simp
  ultimately have "\<exists>k. map charge_of (up_items (up_push ?b ?x)) = drop k (cs @ [(unat now, ms)]) \<and>
      (\<forall>c \<in> set (take k (cs @ [(unat now, ms)])). fst c + CALI_LORA_DAY_S \<le> unat now)" by blast
  moreover have "sorted (map fst (cs @ [(unat now, ms)])) \<and> (\<forall>c \<in> set (cs @ [(unat now, ms)]). fst c \<le> unat now)"
    using tracks_last(1,3) [OF k] by (simp add: sorted_append)
  ultimately show ?thesis unfolding e tracks_def using up_q.ok_push [OF ok' l, of ?x] by blast
qed

section \<open>The task within its budget\<close>

text \<open>The downlink ring is another part of the record.\<close>

lemma dl_keeps_up:
  "b_up (dl_expire t b) = b_up b \<and> b_up_head (dl_expire t b) = b_up_head b \<and> b_up_n (dl_expire t b) = b_up_n b"
proof (induction t b rule: dl_expire.induct)
  case (1 now_s b)
  then show ?case by (cases "b_dl_n b \<noteq> 0 \<and> day_old now_s (b_dl b ! b_dl_head b)") (simp_all add: dl_expire.simps [of now_s b] dl_pop_def)
qed

lemma tracks_cong:
  "b_up b1 = b_up b \<Longrightarrow> b_up_head b1 = b_up_head b \<Longrightarrow> b_up_n b1 = b_up_n b \<Longrightarrow> tracks cs T b1 = tracks cs T b"
  by (simp add: tracks_def up_ok_def up_items_def)

lemma tracks_dl [simp]:
  "tracks cs T (snd (cali_lora_downlink_take t b)) = tracks cs T b" "tracks cs T (snd (cali_lora_downlinks_used t b)) = tracks cs T b"
  by (rule tracks_cong; simp add: cali_lora_downlink_take_def cali_lora_downlinks_used_def Let_def dl_push_def dl_keeps_up)+

definition lora_ok :: "nat \<Rightarrow> lora_task \<Rightarrow> bool" where
  "lora_ok T lt \<longleftrightarrow> tracks (lt_air lt) T (lt_b lt) \<and> within_budget (lt_air lt) \<and> lt_sf lt \<in> {7..12}"

text \<open>The clock does not go back during a use of the module, and the module reports one of the six factors.\<close>

definition io_ok :: "nat \<Rightarrow> lora_io \<Rightarrow> bool" where
  "io_ok T io \<longleftrightarrow> T \<le> unat (li_t io) \<and> unat (li_t io) \<le> unat (li_now io) \<and> unat (li_now io) \<le> unat (li_end io) \<and> (case li_sf io of Some sf \<Rightarrow> sf \<in> {7..12} | None \<Rightarrow> True)"

lemma tracks_later: "tracks cs T b \<Longrightarrow> T \<le> T' \<Longrightarrow> tracks cs T' b"
  unfolding tracks_def by (meson order_trans)

lemma lora_ok_later: "lora_ok T lt \<Longrightarrow> T \<le> T' \<Longrightarrow> lora_ok T' lt"
  unfolding lora_ok_def using tracks_later by blast

lemma event_ok: "lora_ok T lt \<Longrightarrow> lora_ok T (lora_event e lt)"
  by (cases "fst e") (simp_all add: lora_event_def lora_ok_def)

lemma events_ok: "lora_ok T lt \<Longrightarrow> lora_ok T (snd (events_until ks es lt))"
  by (induction ks es lt rule: events_until.induct) (simp_all add: event_ok)

lemma events_foldl_ok: "lora_ok T lt \<Longrightarrow> lora_ok T (foldl (\<lambda>l e. lora_event e l) lt es)"
  by (induction es arbitrary: lt) (simp_all add: event_ok)

lemma event_keeps [simp]: "lt_air (lora_event e lt) = lt_air lt" "lt_sf (lora_event e lt) = lt_sf lt"
  by (cases "fst e"; simp add: lora_event_def)+

lemma events_keep [simp]:
  "lt_air (snd (events_until ks es lt)) = lt_air lt" "lt_air (foldl (\<lambda>l e. lora_event e l) lt es) = lt_air lt"
proof -
  show "lt_air (snd (events_until ks es lt)) = lt_air lt" by (induction ks es lt rule: events_until.induct) simp_all
  show "lt_air (foldl (\<lambda>l e. lora_event e l) lt es) = lt_air lt" by (induction es arbitrary: lt) simp_all
qed

lemma read_sf_ok: "lora_ok T lt \<Longrightarrow> io_ok T io \<Longrightarrow> lora_ok T (read_sf io lt)"
  by (auto simp: read_sf_def lora_ok_def io_ok_def split: option.splits)

lemma airtime_range:
  assumes "sf \<in> {7..12}" and "len \<le> 300"
  shows "0 < cali_lora_airtime_ms len sf" and "cali_lora_airtime_ms len sf < 2 ^ 32"
proof -
  have six: "sf = 7 \<or> sf = 8 \<or> sf = 9 \<or> sf = 10 \<or> sf = 11 \<or> sf = 12" using assms(1) by auto
  define de :: int where "de = (if sf \<ge> 11 then 1 else 0)"
  define n where "n = - ((- (8 * int len - 4 * int sf + 28 + 16)) div (4 * (int sf - 2 * de))) * 5"
  define n1 where "n1 = (if n < 0 then 0 else n)"
  have a: "cali_lora_airtime_ms len sf = nat ((81 + 4 * n1) * 2 ^ sf div 500)"
    by (simp only: cali_lora_airtime_ms_def Let_def n1_def n_def de_def)
  have "- 2500 \<le> (- (8 * int len - 4 * int sf + 28 + 16)) div (4 * (int sf - 2 * de))"
    using six assms(2) by (elim disjE) (simp_all add: de_def)
  then have "0 \<le> n1 \<and> n1 \<le> 12500" by (simp add: n1_def n_def)
  then have "0 < (81 + 4 * n1) * 2 ^ sf div 500 \<and> (81 + 4 * n1) * 2 ^ sf div 500 < 2 ^ 32"
    using six by (elim disjE; intro conjI; simp; linarith)
  then show "0 < cali_lora_airtime_ms len sf" and "cali_lora_airtime_ms len sf < 2 ^ 32" by (simp_all add: a nat_less_iff)
qed


lemma filter_weaker: "(\<And>c. P c \<Longrightarrow> Q c) \<Longrightarrow> length (filter P cs) \<le> length (filter Q cs)"
  by (induction cs) (auto intro: le_SucI)

text \<open>What room there is for a charge at a gate and at the charge itself, later.\<close>

definition room_for :: "nat \<Rightarrow> nat \<Rightarrow> lora_task \<Rightarrow> bool" where
  "room_for t a lt \<longleftrightarrow>
     airtime (filter (\<lambda>c. t < fst c + CALI_LORA_DAY_S) (lt_air lt)) + a \<le> CALI_LORA_UPLINK_MS \<and>
     length (filter (\<lambda>c. t < fst c + CALI_LORA_DAY_S) (lt_air lt)) < CALI_LORA_UP_RING"

lemma charge_ok:
  assumes "lora_ok t lt" and "room_for t a lt" and "t \<le> unat now" and "a < 2 ^ 32"
  shows "lora_ok (unat now) (charge_up now a ok lt)"
proof -
  have "length (filter (\<lambda>c. unat now < fst c + CALI_LORA_DAY_S) (lt_air lt)) \<le> length (filter (\<lambda>c. t < fst c + CALI_LORA_DAY_S) (lt_air lt))"
    using assms(3) by (intro filter_weaker) simp
  then show ?thesis using assms tracks_add [of "lt_air lt" t "lt_b lt" now a ok] within_budget_snoc [of "lt_air lt" t "unat now" a]
    by (simp add: lora_ok_def charge_up_def room_for_def)
qed

text \<open>The gate lets a packet through only when both budgets have room.\<close>

lemma gate_ok:
  assumes "lora_ok T lt0" and "io_ok T io" and "len \<le> 222" and "send_gate len io lt0 = (go, lt)"
  shows "if li_on io then lora_ok (unat (li_t io)) lt else lora_ok T lt"
    and "go \<Longrightarrow> room_for (unat (li_t io)) (send_airtime len lt) lt"
proof -
  have t: "T \<le> unat (li_t io)" using assms(2) by (simp add: io_ok_def)
  define l where "l = read_sf io lt0"
  have l: "lora_ok T l" unfolding l_def by (rule read_sf_ok [OF assms(1,2)])
  obtain room b1 where r: "cali_lora_uplink_room_ms (li_t io) (lt_b l) = (room, b1)" by fastforce
  note now = room_now [where cs = "lt_air l" and T = T and t = "li_t io" and b = "lt_b l", OF _ t _ r]
  have k: "tracks (lt_air l) (unat (li_t io)) b1" using l by (intro now) (simp_all add: lora_ok_def)
  have air: "send_airtime len (l\<lparr>lt_b := b\<rparr>) = send_airtime len l" for b by (simp add: send_airtime_def)
  have a: "0 < send_airtime len l" "send_airtime len l < 2 ^ 32"
    using airtime_range [of "lt_sf l" "len + CALI_LORA_OVERHEAD"] l assms(3) by (simp_all add: send_airtime_def lora_ok_def lora_consts)
  obtain used b2 where d: "cali_lora_downlinks_used (li_t io) b1 = (used, b2)" by fastforce
  have k2: "tracks (lt_air l) (unat (li_t io)) b2" using k d tracks_dl(2) [of "lt_air l" "unat (li_t io)" "li_t io" b1] by simp
  have e: "(go, lt) = (if \<not> li_on io then (False, lt0) else if room < of_nat (send_airtime len l) then (False, l\<lparr>lt_b := b1\<rparr>)
      else (used < CALI_LORA_DOWNLINKS, l\<lparr>lt_b := b2\<rparr>))"
    using assms(4) by (simp add: send_gate_def Let_def l_def [symmetric] r d cong: if_cong)
  show "if li_on io then lora_ok (unat (li_t io)) lt else lora_ok T lt"
    using e l k k2 assms(1) by (auto simp: lora_ok_def split: if_splits)
  assume go
  then have g: "lt = l\<lparr>lt_b := b2\<rparr>" "\<not> room < of_nat (send_airtime len l)" using e by (auto split: if_splits)
  have "send_airtime len l \<le> unat room" using g(2) a(2) by (simp add: word_less_nat_alt unat_of_nat)
  then show "room_for (unat (li_t io)) (send_airtime len lt) lt"
    using now(2) [OF _ _ a(1)] l unfolding g(1) air by (simp add: room_for_def lora_ok_def)
qed

lemma events_sf [simp]: "lt_sf (snd (events_until ks es lt)) = lt_sf lt" "lt_sf (foldl (\<lambda>l e. lora_event e l) lt es) = lt_sf lt"
proof -
  show "lt_sf (snd (events_until ks es lt)) = lt_sf lt" by (induction ks es lt rule: events_until.induct) simp_all
  show "lt_sf (foldl (\<lambda>l e. lora_event e l) lt es) = lt_sf lt" by (induction es arbitrary: lt) simp_all
qed

lemma lora_ok_cong: "lt_b lt' = lt_b lt \<Longrightarrow> lt_air lt' = lt_air lt \<Longrightarrow> lt_sf lt' = lt_sf lt \<Longrightarrow> lora_ok T lt' = lora_ok T lt"
  by (simp add: lora_ok_def)

lemma room_for_cong: "lt_air lt' = lt_air lt \<Longrightarrow> room_for t a lt' = room_for t a lt"
  by (simp add: room_for_def)

lemma publish_ok:
  assumes "lora_ok T lt" and "T \<le> unat now"
  shows "lora_ok (unat now) (lora_publish now lt)"
proof -
  have "tracks (lt_air lt) (unat now) (up_expire now (lt_b lt))" using assms by (intro tracks_expire(1)) (simp_all add: lora_ok_def)
  then have "tracks (lt_air lt) (unat now) (up_expire now (up_expire now (lt_b lt)))" by (rule tracks_expire(1)) simp
  then show ?thesis using assms(1)
    by (simp add: lora_publish_def cali_lora_uplink_used_ms_def cali_lora_uplink_confirmed_ms_def up_sum_def lora_ok_def Let_def)
qed

lemma send_ok:
  assumes "lora_ok T lt0" and "io_ok T io" and "len \<le> 222"
  shows "lora_ok (unat (li_end io)) (snd (lora_send len io lt0))"
proof -
  obtain go lt where g: "send_gate len io lt0 = (go, lt)" by fastforce
  note gate = gate_ok [OF assms g]
  have T: "T \<le> unat (li_now io)" "unat (li_t io) \<le> unat (li_now io)" using assms(2) by (simp_all add: io_ok_def)
  have l: "lora_ok (unat (li_now io)) lt" using gate(1) T lora_ok_later by (auto split: if_splits)
  obtain tx lt1 where e: "events_until {CALI_RAK_TX_DONE} (li_wait io) lt = (tx, lt1)" by fastforce
  define lt2 where "lt2 = foldl (\<lambda>l e. lora_event e l) lt1 (li_after io)"
  have c: "lora_ok (unat (li_now io)) (charge_up (li_now io) (send_airtime len lt) ok lt2)" if go for ok
  proof (rule charge_ok [OF _ _ T(2)])
    have on: "li_on io" using that g by (cases "li_on io") (simp_all add: send_gate_def)
    show "lora_ok (unat (li_t io)) lt2"
      unfolding lt2_def using events_ok [of "unat (li_t io)" lt "{CALI_RAK_TX_DONE}" "li_wait io"] gate(1) on e by (simp add: events_foldl_ok)
    have "lt_air lt2 = lt_air lt" unfolding lt2_def using events_keep(1) [of "{CALI_RAK_TX_DONE}" "li_wait io" lt] e by simp
    then show "room_for (unat (li_t io)) (send_airtime len lt) lt2" using gate(2) [OF that] room_for_cong by blast
    show "send_airtime len lt < 2 ^ 32"
      using airtime_range(2) [of "lt_sf lt" "len + CALI_LORA_OVERHEAD"] l assms(3) by (simp add: send_airtime_def lora_ok_def lora_consts)
  qed
  have le: "unat (li_now io) \<le> unat (li_end io)" using assms(2) by (simp add: io_ok_def)
  have p: "lora_ok (unat (li_end io)) (lora_publish (li_end io) (lt3\<lparr>lt_last_confirmed := u\<rparr>))"
      "lora_ok (unat (li_end io)) (lora_publish (li_end io) (lt3\<lparr>lt_unconfirmed := n\<rparr>))" if "lora_ok (unat (li_now io)) lt3" for lt3 u n
    using that by (intro publish_ok [OF _ le]; simp add: lora_ok_def)+
  note l' = lora_ok_later [OF l le]
  have "lora_ok (unat (li_end io)) (lt\<lparr>lt_joined := False\<rparr>)" using l' by (simp add: lora_ok_def)
  then show ?thesis unfolding lora_send_def g Let_def using l' p [OF c] by (simp add: e lt2_def [symmetric])
qed

lemma join_ok:
  assumes "lora_ok T lt0" and "io_ok T io"
  shows "lora_ok (unat (li_now io)) (lora_join keys io lt0)"
proof -
  have t: "T \<le> unat (li_t io)" "unat (li_t io) \<le> unat (li_now io)" using assms(2) by (simp_all add: io_ok_def)
  define l where "l = read_sf io lt0"
  have l: "lora_ok T l" unfolding l_def by (rule read_sf_ok [OF assms])
  obtain room b1 where r: "cali_lora_uplink_room_ms (li_t io) (lt_b l) = (room, b1)" by fastforce
  note now = room_now [where cs = "lt_air l" and T = T and t = "li_t io" and b = "lt_b l", OF _ t(1) _ r]
  define l1 where "l1 = l\<lparr>lt_b := b1\<rparr>"
  have l1: "lora_ok (unat (li_t io)) l1" using l now(1) by (simp add: lora_ok_def l1_def)
  define ms where "ms = cali_lora_airtime_ms JOIN_REQUEST_LEN (lt_sf l)"
  have a: "0 < ms" "ms < 2 ^ 32"
    using airtime_range [of "lt_sf l" JOIN_REQUEST_LEN] l by (simp_all add: ms_def lora_ok_def JOIN_REQUEST_LEN_def)
  have c: "lora_ok (unat (li_now io)) (charge_up (li_now io) ms False l1)" if "of_nat ms \<le> room"
  proof (rule charge_ok [OF l1 _ t(2) a(2)])
    have "ms \<le> unat room" using that a(2) by (simp add: word_le_nat_alt unat_of_nat)
    then show "room_for (unat (li_t io)) ms l1" using now(2) [OF _ _ a(1)] l by (simp add: room_for_def lora_ok_def l1_def)
  qed
  define l2 where "l2 = (if keys \<and> room \<ge> of_nat ms \<and> li_on io \<and> li_status io = CALI_RAK_OK
      then snd (events_until {CALI_RAK_JOINED, CALI_RAK_JOIN_FAILED} (li_wait io) (charge_up (li_now io) ms False l1)) else l1)"
  have "lora_ok (unat (li_now io)) l2" using c events_ok lora_ok_later [OF l1 t(2)] by (simp add: l2_def)
  moreover have "lora_join keys io lt0 = (if lt_joined l2 then l2\<lparr>lt_b := snd (cali_lora_downlink_take (li_end io) (lt_b l2))\<rparr> else l2)"
    unfolding lora_join_def Let_def l_def [symmetric] r case_prod_conv ms_def [symmetric] l1_def [symmetric] l2_def [symmetric] ..
  ultimately show ?thesis by (simp add: lora_ok_def)
qed

lemma be_length [simp]: "length (be v n) = n"
  by (simp add: be_def)

lemma put_frame_length [simp]: "length (put_frame n s fn) = n"
  by (simp add: put_frame_def Let_def)

lemma energy_length: "length (cali_lora_pack_energy s) = CALI_LORA_ENERGY_LEN"
  by (simp add: cali_lora_pack_energy_def CALI_LORA_ENERGY_LEN_def)

lemma daily_length: "length (cali_lora_pack_daily s fw) = CALI_LORA_DAILY_LEN"
  by (simp add: cali_lora_pack_daily_def CALI_LORA_DAILY_LEN_def Let_def)

lemma pack_length: "length out \<le> mx \<Longrightarrow> length (fst (pack_loop t s mx tried out picked)) \<le> mx"
proof (induction t s mx tried out picked rule: pack_loop.induct)
  case (1 t s mx tried out picked)
  show ?case
  proof (cases "pick_oldest t s tried")
    case (Some i)
    then show ?thesis using 1 by (simp add: pack_loop.simps [of t s mx tried out picked] Let_def)
  qed (use "1.prems" in \<open>simp add: pack_loop.simps [of t s mx tried out picked]\<close>)
qed

lemma changed_length: "length (fst (cali_lora_pack_changed t s mx)) \<le> mx"
  by (simp add: cali_lora_pack_changed_def pack_length)

lemma max_payload_le: "cali_lora_max_payload sf \<le> 222"
  by (simp add: cali_lora_max_payload_def)

text \<open>The three kinds of packet, then the schedule.\<close>

lemma energy_ok: "lora_ok T lt \<Longrightarrow> io_ok T io \<Longrightarrow> lora_ok (unat (li_end io)) (lora_send_energy s io lt)"
  using send_ok [of T lt io "length (cali_lora_pack_energy s)"]
  by (auto simp: lora_send_energy_def energy_length CALI_LORA_ENERGY_LEN_def lora_ok_def split: prod.split)

lemma daily_ok: "lora_ok T lt \<Longrightarrow> io_ok T io \<Longrightarrow> lora_ok (unat (li_end io)) (lora_send_daily s fw now io lt)"
proof -
  assume a: "lora_ok T lt" "io_ok T io"
  have "T \<le> unat (li_end io)" using a(2) by (simp add: io_ok_def)
  then have "lora_ok (unat (li_end io)) lt" using a(1) by (rule lora_ok_later [rotated])
  then show ?thesis using send_ok [OF a, of "length (cali_lora_pack_daily s fw)"]
    by (auto simp: lora_send_daily_def daily_length CALI_LORA_DAILY_LEN_def lora_ok_def split: prod.split)
qed

lemma changed_ok: "lora_ok T lt \<Longrightarrow> io_ok T io \<Longrightarrow> lora_ok (unat (li_end io)) (lora_send_changed s now io lt)"
proof -
  assume a: "lora_ok T lt" "io_ok T io"
  define l where "l = lt\<lparr>lt_trk := cali_lora_tracker_update s now (lt_trk lt)\<rparr>"
  have l: "lora_ok T l" using a(1) by (simp add: lora_ok_def l_def)
  obtain out picked where p: "cali_lora_pack_changed (lt_trk l) s (cali_lora_max_payload (lt_sf l)) = (out, picked)" by fastforce
  have n: "length out \<le> 222"
    using changed_length [of "lt_trk l" s "cali_lora_max_payload (lt_sf l)"] max_payload_le [of "lt_sf l"] by (simp add: p)
  have "T \<le> unat (li_end io)" using a(2) by (simp add: io_ok_def)
  then have later: "lora_ok (unat (li_end io)) l" using l by (rule lora_ok_later [rotated])
  show ?thesis
    unfolding lora_send_changed_def Let_def l_def [symmetric] p using later send_ok [OF l a(2) n]
    by (auto simp: lora_ok_def split: prod.split)
qed

lemma schedule_ok:
  assumes "lora_ok T lt" and "T \<le> unat now"
  shows "lora_ok (unat now) (lora_schedule now lt)"
proof -
  have "tracks (lt_air lt) (unat now) (up_expire now (lt_b lt))" using assms by (intro tracks_expire(1)) (simp_all add: lora_ok_def)
  then show ?thesis
    using assms(1) by (simp add: lora_schedule_def cali_lora_next_interval_s_def cali_lora_uplink_used_ms_def up_sum_def lora_ok_def Let_def)
qed

text \<open>
  The operations of a run: no clock reading is before the one before it, and every answer of the module names one of the six factors. \<open>op_from T x\<close>
  says so for an operation after the time \<open>T\<close>, \<open>op_till T x\<close> is the last reading of the budget in it.
\<close>

fun op_till :: "nat \<Rightarrow> lora_op \<Rightarrow> nat" where
  "op_till T (Lo_pass s fw now io1 io2 io3 now1) = unat now1"
| "op_till T (Lo_join keys io) = unat (li_now io)"
| "op_till T (Lo_event k t) = T"
| "op_till T (Lo_publish now) = unat now"

fun op_from :: "nat \<Rightarrow> lora_op \<Rightarrow> bool" where
  "op_from T (Lo_pass s fw now io1 io2 io3 now1) \<longleftrightarrow>
     io_ok T io1 \<and> io_ok (unat (li_end io1)) io2 \<and> io_ok (unat (li_end io2)) io3 \<and> unat (li_end io3) \<le> unat now1"
| "op_from T (Lo_join keys io) = io_ok T io"
| "op_from T (Lo_event k t) = True"
| "op_from T (Lo_publish now) = (T \<le> unat now)"

fun ops_from :: "nat \<Rightarrow> lora_op list \<Rightarrow> bool" where
  "ops_from T [] = True"
| "ops_from T (x # xs) \<longleftrightarrow> op_from T x \<and> ops_from (op_till T x) xs"

lemma pass_ok: "lora_ok T lt \<Longrightarrow> op_from T (Lo_pass s fw now io1 io2 io3 now1) \<Longrightarrow> lora_ok (unat now1) (lora_pass s fw now io1 io2 io3 now1 lt)"
proof -
  assume a: "lora_ok T lt" "op_from T (Lo_pass s fw now io1 io2 io3 now1)"
  have e: "lora_ok (unat (li_end io1)) (lora_send_energy s io1 lt)" using a(2) by (intro energy_ok [OF a(1)]) simp
  have c: "lora_ok (unat (li_end io2)) (lora_send_changed s now io2 (lora_send_energy s io1 lt))" using a(2) by (intro changed_ok [OF e]) simp
  have d: "lora_ok (unat (li_end io3)) (lora_send_daily s fw now io3 (lora_send_changed s now io2 (lora_send_energy s io1 lt)))"
    using a(2) by (intro daily_ok [OF c]) simp
  have "T \<le> unat now1" using a(2) by (auto simp: io_ok_def)
  then show ?thesis using schedule_ok [OF d, of now1] lora_ok_later [OF a(1)] a(2) by (simp add: lora_pass_def)
qed

lemma do_ok: "lora_ok T lt \<Longrightarrow> op_from T x \<Longrightarrow> lora_ok (op_till T x) (lora_do lt x)"
proof (cases x)
  case (Lo_join keys io)
  assume a: "lora_ok T lt" "op_from T x"
  have "lora_ok (unat (li_now io)) lt" using a Lo_join by (auto simp: io_ok_def intro: lora_ok_later)
  then show ?thesis using join_ok [of T lt io keys] a Lo_join by (simp add: lora_ok_def)
qed (simp_all add: pass_ok event_ok publish_ok)

lemma run_ok: "lora_ok T lt \<Longrightarrow> ops_from T ops \<Longrightarrow> \<exists>T'. lora_ok T' (foldl lora_do lt ops)"
  by (induction ops arbitrary: T lt) (auto dest: do_ok)

lemma boot_ok: "lora_ok 0 lora_boot"
  by (auto simp: lora_ok_def lora_boot_def tracks_def up_ok_def up_items_def cali_lora_budget_init_def lora_consts within_budget_def airtime_def in_day_def)

text \<open>
  C10. Whatever the LoRa task does (passes with up to three packets, join attempts, events, publications) and
  whatever the module answers, the airtime it has charged in any window of 24 hours is at most \<open>CALI_LORA_UPLINK_MS\<close>, as long as the uptime
  does not go back and the module reports a spreading factor from 7 to 12. The charge is made seconds after the room was checked.
\<close>

theorem lora_airtime_within_budget:
  assumes "ops_from 0 ops"
  shows "airtime (in_day w (lt_air (foldl lora_do lora_boot ops))) \<le> CALI_LORA_UPLINK_MS"
  using run_ok [OF boot_ok assms] by (auto simp: lora_ok_def within_budget_def)

text \<open>A run in which the module joins, then sends: the energy packet is confirmed, the daily one is not, and there is a downlink.\<close>

definition a_snap :: lora_snap where
  "a_snap = \<lparr>sn_frame = (\<lambda>i. []), sn_mppt = (\<lambda>f k. None), sn_bsense = (\<lambda>f k. None), sn_solar = 0, sn_load = 0, sn_batt_net = 0, sn_boot = 3,
     sn_uptime_s = 40, sn_enabled = True\<rparr>"

definition an_io :: "u32 \<Rightarrow> rak_kind \<Rightarrow> (rak_kind \<times> u32) list \<Rightarrow> lora_io" where
  "an_io t k es = \<lparr>li_on = True, li_sf = Some 9, li_t = t, li_status = k, li_wait = es, li_after = [], li_now = t + 5, li_end = t + 5\<rparr>"

definition lora_day :: "lora_op list" where
  "lora_day = [Lo_join True (an_io 20 CALI_RAK_OK [(CALI_RAK_JOINED, 26)]), Lo_publish 30,
     Lo_pass a_snap ''v1'' 40 (an_io 40 CALI_RAK_OK [(CALI_RAK_RX, 44), (CALI_RAK_TX_DONE, 45)]) (an_io 50 CALI_RAK_OK [])
       (an_io 60 CALI_RAK_NONE []) 70]"

lemma a_day_charged:
  "lt_air (lora_do lora_boot (Lo_join True (an_io 20 CALI_RAK_OK [(CALI_RAK_JOINED, 26)]))) = [(25, cali_lora_airtime_ms 23 9)]"
proof -
  have "cali_lora_airtime_ms 23 9 = 205" by (simp add: cali_lora_airtime_ms_def Let_def)
  then show ?thesis
    by (simp add: lora_join_def Let_def read_sf_def an_io_def lora_boot_def cali_lora_uplink_room_ms_def up_sum_def up_expire.simps
      cali_lora_budget_init_def up_items_def JOIN_REQUEST_LEN_def charge_up_def lora_event_def lora_consts)
qed

lemma lora_airtime_within_budget_witness:
  "ops_from 0 lora_day \<and> airtime (in_day 0 (lt_air (foldl lora_do lora_boot lora_day))) \<le> CALI_LORA_UPLINK_MS"
proof -
  have o: "ops_from 0 lora_day" by (simp add: lora_day_def an_io_def io_ok_def)
  show ?thesis using o lora_airtime_within_budget [OF o, of 0] by simp
qed

section \<open>The interval\<close>








section \<open>Changes\<close>











lemma snapshot_frames: "length (sn_frame (cali_lora_snapshot frames mppt bsense solar load net boot on now_ms) i) \<le> CODEC_FRAME_MAX"
  by (simp add: cali_lora_snapshot_def)


end
