(* ===== verification/Spec2Isabelle.thy ===== *)
theory Spec2Isabelle
  imports Codec Ports Pairing_SM Wifi_SM Battery Auto_Camper Control_Text Control Control_Frames Control_Run
    Thermostat Thermostat_Safety Thermo_Run Thermo_Run_Safety Pi_Wake Captive_DNS Runner Auto_Camper_Run Session_Safety Unit_Link Clock
    Json Http Http_Request Http_Safety Ap_Identity Wifi_Run Wifi_Safety Web_Parse Web_Ux Web Web_Safety Web_Etag
    Ota Ota_Safety Lora Lora_Task Lora_Safety
begin

text \<open>
  The satellite firmware of open-california (\<^verbatim>\<open>src/firmware\<close> and the C code it shares with the host,
  \<^verbatim>\<open>src/csrc\<close>). A microcontroller in the camper van pairs with the vehicle's camping unit over Bluetooth, reads
  its characteristics, serves them over WiFi and writes commands back. The portable C core is modelled; the radio,
  the network, the store and the screen are ports of it.

  \<^bold>\<open>The parts and how they interact.\<close> The transport reports events to the pairing runner (\<open>Runner\<close>), which feeds
  the pairing machine (\<open>Pairing_SM\<close>) and carries out its actions. Once paired, the session (\<open>Session\<close>) owns the link: it
  connects, encrypts, discovers, reads every characteristic, keeps the heartbeat, rests and reconnects; the
  codec (\<open>Codec\<close>) slices them into fields, the freshness ports (\<open>Ports\<close>) settle the water levels. A command is
  planned (\<open>Control_Text\<close> for the coercion of texts, \<open>Control\<close> for the gates and builders, \<open>Control_Frames\<close> for the
  frames) and sent by the sequencer (\<open>Control_Run\<close>), one write at a time;
  \<open>Unit_Link\<close> composes the session and the sequencer as the owner task runs them. The automations are clients of the sequencer: the thermostat
  (\<open>Thermostat\<close>, \<open>Thermostat_Safety\<close>) with its driver (\<open>Thermo_Run\<close>, \<open>Thermo_Run_Safety\<close>), the camping restore (\<open>Auto_Camper\<close>, \<open>Auto_Camper_Run\<close>), the wake and halt
  lines of the attached computer (\<open>Pi_Wake\<close>). The WiFi driver (\<open>Wifi_Run\<close>) feeds the WiFi machine
  (\<open>Wifi_SM\<close>) and carries out its actions, with the stored hotspot identity (\<open>Ap_Identity\<close>) and the captive-portal name server
  (\<open>Captive_DNS\<close>). The HTTP server core (\<open>Http\<close>, \<open>Http_Request\<close>) reads requests and pumps responses; the handler behind it (\<open>Web\<close>) parses the
  bodies (\<open>Web_Body\<close>, \<open>Web_Parse\<close>, \<open>Web_Ux\<close>), calls the components and answers with documents of the JSON writer (\<open>Json\<close>). Commands of a page go
  through it to the sequencer, which is why \<open>Web_Safety\<close> shows what reaches them. The firmware update (\<open>Ota\<close>) is requested there and runs on a task of its
  own, as does the LoRa uplink (\<open>Lora\<close>, \<open>Lora_Task\<close>) that reports the frames of the session. \<open>Battery\<close> estimates the run time of the satellite's own battery, and \<open>Clock\<close> stamps the log from SNTP or from the unit's clock.

  \<^bold>\<open>Theories and sources.\<close>
  \<^item> \<open>Prelude\<close>: the C integer types as words, \<open>run\<close> of a step function, and the interfaces as locales: a machine with an
    invariant, with a bounded output, with tracked actions, with a budget; a bounded queue kept in a ring.
  \<^item> \<open>Codec\<close>: \<^verbatim>\<open>csrc/codec.c\<close> with the generated dictionary; bit slicing at the C widths, decode, and encode
    with its validation order as a sum type of errors.
  \<^item> \<open>Ports\<close>: \<^verbatim>\<open>csrc/ports.c\<close>, the stale-latch test and the ramp debounce of the water levels.
  \<^item> \<open>Pairing_SM\<close>, \<open>Runner\<close>: \<^verbatim>\<open>pairing_sm.c\<close>, \<^verbatim>\<open>runner.c\<close>; the transition table, then the event queue with the
    re-entrant sink. The runner refines the machine.
  \<^item> \<open>Wifi_SM\<close>: \<^verbatim>\<open>wifi_sm.c\<close>; credentials, hotspot, back-off. \<open>Ap_Identity\<close>: \<^verbatim>\<open>ap_identity.c\<close> over the key-value store. \<open>Wifi_Run\<close>,
    \<open>Wifi_Safety\<close>: \<^verbatim>\<open>wifi_run.c\<close>; the events that its own calls post, the scan, the rollback of credentials; a network that was joined is
    not lost by credentials that fail.
  \<^item> \<open>Battery\<close>: \<^verbatim>\<open>battery.c\<close>; the ring of samples refines a sliding window.
  \<^item> \<open>Auto_Camper\<close>, \<open>Auto_Camper_Run\<close>: \<^verbatim>\<open>auto_camper.c\<close>, \<^verbatim>\<open>auto_camper_run.c\<close>; the decision, then its inputs, the stored
    debt and the chain of commands.
  \<^item> \<open>Control_Text\<close>, \<open>Control\<close>, \<open>Control_Frames\<close>: \<^verbatim>\<open>control.c\<close> with the generated \<^verbatim>\<open>control_consts.h\<close>.
  \<^item> \<open>Control_Run\<close>: \<^verbatim>\<open>control_run.c\<close>; the submit, the tick and the write completion, and the contract an observer
    of its effects can rely on.
  \<^item> \<open>Session_Data\<close>, \<open>Session\<close>, \<open>Session_Inv\<close>, \<open>Session_Safety\<close>: \<^verbatim>\<open>session.c\<close>; the static state and the calls it makes, every
    operation, the invariant of all runs, then what the session promises: it is never wedged, ready means a held link with
    a complete read pass of this link, it rests only when parked, it reconnects when due.
  \<^item> \<open>Unit_Link\<close>: the calls between \<^verbatim>\<open>session.c\<close> and \<^verbatim>\<open>control_run.c\<close>; writes happen only on an encrypted link and only
    from the allow-list.
  \<^item> \<open>Thermostat\<close>, \<open>Thermostat_Safety\<close>: \<^verbatim>\<open>thermostat.c\<close>; the heater state, the controller, the rules of a step in the
    order of the code, and what they can and cannot command.
  \<^item> \<open>Thermo_Run\<close>, \<open>Thermo_Run_Safety\<close>: \<^verbatim>\<open>thermostat_run.c\<close>; the settings in use are valid and survive a restart, a command goes
    out only after the one before it has ended and only while the feature is on, a request is answered, a refused patch changes nothing.
  \<^item> \<open>Pi_Wake\<close>: \<^verbatim>\<open>pi_wake.c\<close>. \<open>Captive_DNS\<close>: \<^verbatim>\<open>captive_dns.c\<close>.
  \<^item> \<open>Clock\<close>: \<^verbatim>\<open>time.c\<close>; the day number counts the calendar, and the two halves of the Central European rule agree.
  \<^item> \<open>Json\<close>: \<^verbatim>\<open>json.c\<close>; the writer against the text of a document tree, and a reader of the grammar that gets the tree back.
  \<^item> \<open>Http\<close>, \<open>Http_Request\<close>, \<open>Http_Safety\<close>: \<^verbatim>\<open>http_core.c\<close>; the connection with its buffer, the request parser on it, then the stream
    that leaves a connection, the progress of the poll and the wiping of a request.
  \<^item> \<open>Web_Body\<close>, \<open>Web_Parse\<close>, \<open>Web_Ux\<close>, \<open>Web\<close>, \<open>Web_Safety\<close>, \<open>Web_Etag\<close>: \<^verbatim>\<open>web.c\<close>; the scanner of flat JSON bodies, one parser for
    each endpoint, the usage beacon, every handler with its checks in their order and the calls it makes, what a refusal and a command may
    do, and the ETag of the state, which is the hash of the document without its ticking members.
  \<^item> \<open>Ota\<close>, \<open>Ota_Safety\<close>: \<^verbatim>\<open>ota.c\<close>; the work of the update task cut at its blocking calls and interleaved with the owner's: only a
    verified image is booted, one request runs at a time, and a request settles.
  \<^item> \<open>Lora\<close>, \<open>Lora_Task\<close>, \<open>Lora_Safety\<close>: \<^verbatim>\<open>lora.c\<close> and the sending half of \<^verbatim>\<open>cali_lora/lora_esp.c\<close>; the airtime charged in any 24
    hours, the share of the energy packets, the packet of changes.

  \<^bold>\<open>How the code is rendered.\<close> A struct or the static variables of a file are a record; an operation is a function from
  the record (and what it reads from a port) to the new record and the list of its effects, in the order of the
  calls. Error codes are constructors. \<^verbatim>\<open>uint8_t\<close> to \<^verbatim>\<open>uint64_t\<close> are words of their width, so that time differences
  wrap as in C; signed integers that stay small are \<open>int\<close>, with the bound in the invariant where it matters. \<^verbatim>\<open>long\<close> has 32 bits on
  the target. Strings are char lists without the terminating zero, and a buffer that is too small is an explicit
  branch. Log lines and diagnostics are left out unless a property speaks about them. A field that the code does not have
  (\<open>lt_air\<close>, the history of the airtime charged) is marked as such where it is declared.

  \<^bold>\<open>Loops and bounds.\<close> Loops with a known bound are structural recursion on the remaining count (the bit loops, the
  reply parser, the polls). The read pass of the session and the year search of the clock recurse with a measure (the
  reads left; the distance to the instant), as do the scanners of the HTTP and web bodies (the text left), the loop over the members of a body (the
  keys not seen yet), the ETag (the text left), the two LoRa rings (their entries) and the packer of changes (the functions not tried). The queue of the runner can be refilled by the actions of its own events: its loop is a
  \<^theory_text>\<open>partial_function\<close> into \<open>option\<close>, and the refinement theorem shows that it returns for every transport that answers
  a call with finitely many events. Fuel is used only by the JSON reader, a device of the
  proofs: it gets the length of the text, and every token it reads is at least one character.

  \<^bold>\<open>Parameters.\<close> The transport, the key-value store, the sockets and the platform clocks are arguments of the
  operations or inputs of a run; what a theorem needs from them is a named hypothesis with a witness.

  \<^bold>\<open>Not modelled\<close>: the members of the documents that the GET endpoints, the diagnostics and the console write (text of the state of
  other components; the handlers take the finished document as an input); the BLE power experiment; the sensors' adverts, the SD log and the energy counters (files and floating-point sums over platform ports); the display; the
  UART and the set-up of the LoRa module; the NimBLE and ESP-IDF glue, which is code against libraries outside the repository; the web assets and
  fonts, which are generated data.
\<close>

end
